(* ===== verification/Atlas_Prelude.thy ===== *)
theory Atlas_Prelude
  imports Complex_Main "HOL-Library.Product_Lexorder" "HOL-Library.List_Lexorder" "HOL-Library.Char_ord"
begin

text \<open>
  Shared vocabulary of the Atlas backend model.

  \<^item> Types: an \<open>instant\<close> is what \<open>Date.getTime()\<close> returns (milliseconds since the epoch,
    an integer); a \<open>uid\<close> is an opaque database identifier.
  \<^item> Errors: the Nest exceptions the services throw, as values of a sum type.
  \<^item> JavaScript arithmetic used by several services (\<open>Math.round\<close>, two-decimal rounding);
    a JavaScript \<open>number\<close> that is not an integer is an exact rational here.
  \<^item> Tables: a Prisma table is the list of its rows; \<open>updateMany\<close> is the guarded bulk
    write with its row count, the primitive every state transition of the backend rests on.
  \<^item> The locale \<open>guarded_write\<close>: the contract of such a transition (it leaves the key
    alone and closes its own guard), with the facts every user of it needs.
\<close>

subsection \<open>Basic types\<close>

type_synonym instant = int
type_synonym uid = string

datatype http_kind =
  NotFoundException | ForbiddenException | ConflictException | BadRequestException

datatype http_error = HttpException (error_kind: http_kind) (message_key: string)

type_synonym 'a outcome = "http_error + 'a"

abbreviation throw :: "http_kind \<Rightarrow> string \<Rightarrow> 'a outcome" where
  "throw k m \<equiv> Inl (HttpException k m)"

definition hour_ms :: int where "hour_ms = 60 * 60 * 1000"
definition day_ms :: int where "day_ms = 24 * hour_ms"

lemma day_ms_eq: "day_ms = 86400000" and hour_ms_eq: "hour_ms = 3600000"
  by (simp_all add: day_ms_def hour_ms_def)

named_theorems ms_simps \<open>durations as numerals\<close>
declare day_ms_eq [ms_simps] hour_ms_eq [ms_simps]

named_theorems frame_simps \<open>fields and rows an operation leaves alone\<close>

subsection \<open>JavaScript arithmetic\<close>

definition js_round :: "rat \<Rightarrow> int" where
  "js_round x = \<lfloor>x + 1 / 2\<rfloor>"

definition round2 :: "rat \<Rightarrow> rat" where
  "round2 x = of_int (js_round (x * 100)) / 100"

lemma js_round_of_int [simp]: "js_round (of_int n) = n"
  by (simp add: js_round_def floor_eq_iff)

lemma js_round_mono: "x \<le> y \<Longrightarrow> js_round x \<le> js_round y"
  unfolding js_round_def by (rule floor_mono) simp

lemma round2_mono: "x \<le> y \<Longrightarrow> round2 x \<le> round2 y"
  unfolding round2_def by (simp add: js_round_mono divide_right_mono)

lemma round2_of_int [simp]: "round2 (of_int n) = of_int n"
proof -
  have "(of_int n * 100 :: rat) = of_int (n * 100)" by simp
  then have "js_round (of_int n * 100) = n * 100" by (metis js_round_of_int)
  then show ?thesis by (simp add: round2_def)
qed

lemma round2_0 [simp]: "round2 0 = 0"
  using round2_of_int [of 0] by simp

lemma round2_100 [simp]: "round2 100 = 100"
  using round2_of_int [of 100] by simp

lemma round2_nonneg: "0 \<le> x \<Longrightarrow> 0 \<le> round2 x"
  using round2_mono [of 0 x] by simp

lemma round2_le_100: "x \<le> 100 \<Longrightarrow> round2 x \<le> 100"
  using round2_mono [of x 100] by simp

lemma round2_error: "\<bar>round2 x - x\<bar> \<le> 1 / 200"
proof -
  have "of_int (js_round (x * 100)) \<le> x * 100 + 1 / 2"
    unfolding js_round_def by (rule of_int_floor_le)
  moreover have "x * 100 + 1 / 2 < of_int (js_round (x * 100)) + 1"
    unfolding js_round_def by (rule floor_correct [THEN conjunct2, simplified])
  ultimately have "\<bar>of_int (js_round (x * 100)) - x * 100\<bar> \<le> 1 / 2"
    by linarith
  then show ?thesis by (simp add: round2_def abs_le_iff field_simps)
qed

subsection \<open>Tables\<close>

text \<open>
  \<open>tx.model.updateMany({ where, data })\<close>: every row that matches is rewritten, the result
  carries how many did. \<open>findFirst\<close> and \<open>count\<close> are \<open>find\<close> and \<open>count_rows\<close>.
\<close>

definition updateMany :: "('r \<Rightarrow> bool) \<Rightarrow> ('r \<Rightarrow> 'r) \<Rightarrow> 'r list \<Rightarrow> 'r list \<times> nat" where
  "updateMany p f t = (map (\<lambda>r. if p r then f r else r) t, length (filter p t))"

definition count_rows :: "('r \<Rightarrow> bool) \<Rightarrow> 'r list \<Rightarrow> nat" where
  "count_rows p t = length (filter p t)"

definition find_by :: "('r \<Rightarrow> 'k) \<Rightarrow> 'k \<Rightarrow> 'r list \<Rightarrow> 'r option" where
  "find_by key k t = find (\<lambda>r. key r = k) t"

lemma find_by_Some: "find_by key k t = Some r \<Longrightarrow> r \<in> set t \<and> key r = k"
  by (auto simp: find_by_def find_Some_iff in_set_conv_nth)

lemma find_by_None [simp]: "find_by key k t = None \<longleftrightarrow> k \<notin> key ` set t"
  by (auto simp: find_by_def find_None_iff)

lemma find_by_Nil [simp]: "find_by key k [] = None"
  by (simp add: find_by_def)

lemma find_by_Cons [simp]:
  "find_by key k (r # t) = (if key r = k then Some r else find_by key k t)"
  by (simp add: find_by_def)

lemma find_by_append:
  "find_by key k (xs @ ys) = (case find_by key k xs of None \<Rightarrow> find_by key k ys | Some r \<Rightarrow> Some r)"
  by (induction xs) auto

lemma find_by_map:
  assumes "\<And>r. key (f r) = key r"
  shows "find_by key k (map f t) = map_option f (find_by key k t)"
  using assms by (induction t) auto

lemma find_by_distinct:
  "distinct (map key t) \<Longrightarrow> r \<in> set t \<Longrightarrow> find_by key (key r) t = Some r"
  by (induction t) (auto simp: rev_image_eqI)

lemma distinct_keys_unique:
  "distinct (map key t) \<Longrightarrow> r \<in> set t \<Longrightarrow> r' \<in> set t \<Longrightarrow> key r = key r' \<Longrightarrow> r = r'"
  by (simp add: distinct_map inj_on_def)

lemma filter_distinct_key:
  "distinct (map key t) \<Longrightarrow> length (filter (\<lambda>r. key r = k \<and> p r) t) \<le> 1"
proof (induction t)
  case (Cons r t)
  have "key r = k \<Longrightarrow> filter (\<lambda>r. key r = k \<and> p r) t = []"
    using Cons.prems by (auto simp: filter_empty_conv) (metis imageI)
  with Cons show ?case by auto
qed simp

lemma distinct_concat_filter:
  "distinct (map key t) \<Longrightarrow> distinct (map key (filter p t))"
  by (simp add: distinct_map_filter)

subsection \<open>Guarded transitions\<close>

text \<open>
  The contract of a state transition written as one guarded \<open>updateMany\<close>: the data part
  leaves the key alone and takes the row out of the guard.
\<close>

definition guarded :: "('r \<Rightarrow> 'k) \<Rightarrow> ('r \<Rightarrow> bool) \<Rightarrow> ('r \<Rightarrow> 'r) \<Rightarrow> 'k \<Rightarrow> 'r list \<Rightarrow> 'r list \<times> bool"
  where
  "guarded key p f k t =
     (case updateMany (\<lambda>r. key r = k \<and> p r) f t of (t', n) \<Rightarrow> (t', n = 1))"

lemma guarded_alt:
  "guarded key p f k t =
     (map (\<lambda>r. if key r = k \<and> p r then f r else r) t,
      length (filter (\<lambda>r. key r = k \<and> p r) t) = 1)"
  by (simp add: guarded_def updateMany_def)

locale guarded_write =
  fixes key :: "'r \<Rightarrow> 'k"
    and guard :: "'r \<Rightarrow> bool"
    and change :: "'r \<Rightarrow> 'r"
  assumes key_change: "key (change r) = key r"
    and closes: "guard r \<Longrightarrow> \<not> guard (change r)"
begin

lemma keys_kept: "map key (fst (guarded key guard change k t)) = map key t"
  by (simp add: guarded_alt key_change)

lemma lookup:
  "find_by key k' (fst (guarded key guard change k t)) =
     map_option (\<lambda>r. if k' = k \<and> guard r then change r else r) (find_by key k' t)"
  by (induction t) (auto simp: guarded_alt key_change)

lemma other_rows:
  "k' \<noteq> k \<Longrightarrow> find_by key k' (fst (guarded key guard change k t)) = find_by key k' t"
  by (simp add: lookup option.map_ident)

lemma others_kept:
  "filter (\<lambda>r. key r \<noteq> k) (fst (guarded key guard change k t)) = filter (\<lambda>r. key r \<noteq> k) t"
  by (induction t) (auto simp: guarded_alt key_change)

lemma write_row:
  assumes "distinct (map key t)" "r \<in> set t" "guard r"
  shows "guarded key guard change (key r) t =
           (map (\<lambda>x. if key x = key r then change x else x) t, True)"
proof -
  have "(key x = key r \<and> guard x) = (key x = key r)" if "x \<in> set t" for x
    using assms that by (metis distinct_keys_unique)
  moreover have "length (filter (\<lambda>x. key x = key r) t) = 1"
    using assms filter_distinct_key [of key t "key r" "\<lambda>_. True"]
    by (cases "filter (\<lambda>x. key x = key r) t") (auto simp: filter_empty_conv)
  ultimately show ?thesis
    by (simp add: guarded_alt cong: map_cong filter_cong)
qed

lemma no_winner_no_change:
  assumes "distinct (map key t)" and "\<not> snd (guarded key guard change k t)"
  shows "fst (guarded key guard change k t) = t"
proof -
  from assms have "filter (\<lambda>r. key r = k \<and> guard r) t = []"
    using filter_distinct_key [OF assms(1), of k guard]
    by (auto simp: guarded_alt le_Suc_eq)
  then show ?thesis
    by (auto simp: guarded_alt filter_empty_conv intro!: map_idI)
qed

lemma won_iff:
  assumes "distinct (map key t)"
  shows "snd (guarded key guard change k t) \<longleftrightarrow>
           (\<exists>r. find_by key k t = Some r \<and> guard r)"
proof
  assume "snd (guarded key guard change k t)"
  then have "filter (\<lambda>r. key r = k \<and> guard r) t \<noteq> []"
    by (auto simp: guarded_alt)
  then obtain r where "r \<in> set t" "key r = k" "guard r"
    by (auto simp: filter_empty_conv)
  with assms show "\<exists>r. find_by key k t = Some r \<and> guard r"
    using find_by_distinct by fastforce
next
  assume "\<exists>r. find_by key k t = Some r \<and> guard r"
  then obtain r where r: "r \<in> set t" "key r = k" "guard r"
    by (auto dest: find_by_Some)
  then have "filter (\<lambda>r. key r = k \<and> guard r) t \<noteq> []"
    by (auto simp: filter_empty_conv)
  with filter_distinct_key [OF assms, of k guard]
  show "snd (guarded key guard change k t)"
    by (cases "filter (\<lambda>r. key r = k \<and> guard r) t") (auto simp: guarded_alt)
qed

lemma second_loses:
  "\<not> snd (guarded key guard change k (fst (guarded key guard change k t)))"
proof -
  have "\<not> (key r' = k \<and> guard r')" if "r' = (if key r = k \<and> guard r then change r else r)" for r r'
    using that closes [of r] by (cases "key r = k \<and> guard r") auto
  then have "filter (\<lambda>r. key r = k \<and> guard r)
          (map (\<lambda>r. if key r = k \<and> guard r then change r else r) t) = []"
    by (auto simp only: filter_empty_conv set_map)
  then show ?thesis by (simp add: guarded_alt)
qed

lemma idempotent:
  assumes "distinct (map key t)"
  shows "fst (guarded key guard change k (fst (guarded key guard change k t))) =
           fst (guarded key guard change k t)"
  using no_winner_no_change [OF _ second_loses] assms by (metis keys_kept)

end

subsection \<open>Inserts that skip a conflict\<close>

text \<open>\<open>INSERT .. ON CONFLICT DO NOTHING\<close>: one row, and whether it was written; and several.\<close>

definition insertNew :: "('r \<Rightarrow> 'k) \<Rightarrow> 'r \<Rightarrow> 'r list \<Rightarrow> 'r list \<times> bool" where
  "insertNew key r t = (if List.member (map key t) (key r) then (t, False) else (t @ [r], True))"

fun insertMissing :: "('r \<Rightarrow> 'k) \<Rightarrow> 'r list \<Rightarrow> 'r list \<Rightarrow> 'r list \<times> 'r list" where
  "insertMissing key [] t = (t, [])"
| "insertMissing key (r # rs) t =
     (case insertNew key r t of
        (t', written) \<Rightarrow>
          (case insertMissing key rs t' of (u, ws) \<Rightarrow> (u, if written then r # ws else ws)))"

lemma fst_insertNew:
  "fst (insertNew key r t) = (if key r \<in> key ` set t then t else t @ [r])"
  by (simp add: insertNew_def)

lemma distinct_insertNew [simp]:
  "distinct (map key t) \<Longrightarrow> distinct (map key (fst (insertNew key r t)))"
  by (auto simp: fst_insertNew)

lemma insertMissing_appends:
  assumes "distinct (map key t)"
  shows "\<exists>ws. insertMissing key rs t = (t @ ws, ws) \<and> distinct (map key (t @ ws)) \<and> set ws \<subseteq> set rs
    \<and> (\<forall>p. length (filter p ws) \<le> length (filter p rs))"
  using assms
proof (induction rs arbitrary: t)
  case (Cons r rs)
  show ?case
  proof (cases "key r \<in> key ` set t")
    case True
    then show ?thesis using Cons.IH [OF Cons.prems] by (fastforce simp: insertNew_def intro: le_SucI)
  next
    case False
    then have "distinct (map key (t @ [r]))" using Cons.prems by simp
    from Cons.IH [OF this] obtain ws where ws: "insertMissing key rs (t @ [r]) = ((t @ [r]) @ ws, ws)"
      "distinct (map key ((t @ [r]) @ ws))" "set ws \<subseteq> set rs"
      "\<forall>p. length (filter p ws) \<le> length (filter p rs)" by blast
    then have "insertMissing key (r # rs) t = (t @ (r # ws), r # ws)" using False by (simp add: insertNew_def)
    moreover have "distinct (map key (t @ (r # ws)))" using ws(2) by simp
    moreover have "set (r # ws) \<subseteq> set (r # rs)" using ws(3) by auto
    moreover have "\<forall>p. length (filter p (r # ws)) \<le> length (filter p (r # rs))" using ws(4) by simp
    ultimately show ?thesis by blast
  qed
qed simp

lemma insertMissing_all:
  "distinct (map key (t @ rs)) \<Longrightarrow> insertMissing key rs t = (t @ rs, rs)"
  by (induction rs arbitrary: t) (auto simp: insertNew_def)

end
