(* ===== verification/Tenant_Subscription.thy ===== *)
theory Tenant_Subscription
  imports Atlas_Prelude
begin

text \<open>
  The subscription of one organization: its row (\<open>TenantSubscription\<close> of the Prisma
  schema), the status it has at an instant
  (\<open>plans/utils/subscription-effective-status.util.ts\<close>, \<open>trial.util.ts\<close>) and the access it
  gives (\<open>plans/services/subscription-access.service.ts\<close>).
  The lemmas show when access ends, that the deadline shown to the customer is the real
  one, and that the two services that refuse work agree about lapsed tenants.
\<close>

subsection \<open>The row\<close>

datatype tenant_status =
  no_plan | trialing | trial_expired | active | past_due | paused | grace_period | cancelled | expired

datatype billing_cycle = monthly | yearly

datatype limit_value = Limited int | Unlimited

datatype plan_limit_key =
  academies | students | instructors | staff | courses | generalStorage | videoStorage
  | videoStorageMinutes | recordedSessions | monthlyEmails

type_synonym plan_resource_limits = "plan_limit_key \<rightharpoonup> limit_value"

text \<open>
  A nullable JSON column that should hold a limit set: SQL NULL, a JSON value that is not a
  plain object, or an object (the keys it has).
\<close>

datatype limits_column = DbNull | NotAnObject | LimitObject plan_resource_limits

record effective_status_input =
  status :: tenant_status
  trialEndsAt :: "instant option"
  currentPeriodEnd :: "instant option"
  graceEndsAt :: "instant option"
  cancelAtPeriodEnd :: bool

record tenant_subscription = effective_status_input +
  organizationId :: uid
  planId :: uid
  grantedLimits :: limits_column
  currentPeriodStart :: "instant option"
  billingCycle :: "billing_cycle option"
  giftedDays :: "int option"
  giftedStartsAt :: "instant option"
  giftedEndsAt :: "instant option"
  giftedPaymentId :: "uid option"
  scheduledPlanId :: "uid option"
  scheduledGrantedLimits :: limits_column
  scheduledChangeAt :: "instant option"
  priceChangeNotice :: "string option"
  priceChangeNoticeDismissedAt :: "instant option"

subsection \<open>The effective status\<close>

definition GRACE_PERIOD_DAYS :: int where "GRACE_PERIOD_DAYS = 7"
definition GRACE_PERIOD_MS :: int where "GRACE_PERIOD_MS = GRACE_PERIOD_DAYS * 24 * 60 * 60 * 1000"

lemma GRACE_PERIOD_MS_eq [ms_simps]: "GRACE_PERIOD_MS = 604800000"
  by (simp add: GRACE_PERIOD_MS_def GRACE_PERIOD_DAYS_def)

datatype effective_status_reason =
  stored | trial_clock_elapsed | period_ended_cancel_at_period_end | period_ended_grace | grace_ended

record effective_result =
  effectiveStatus :: tenant_status
  effectiveUntil :: "instant option"
  effectiveGraceEndsAt :: "instant option"
  reason :: effective_status_reason

definition isTrialPeriodOver :: "'a effective_status_input_scheme \<Rightarrow> instant \<Rightarrow> bool" where
  "isTrialPeriodOver s now =
     (if status s \<noteq> trialing then False
      else case trialEndsAt s of None \<Rightarrow> False | Some e \<Rightarrow> e \<le> now)"

definition isPast :: "instant option \<Rightarrow> instant \<Rightarrow> bool" where
  "isPast d now = (case d of None \<Rightarrow> False | Some a \<Rightarrow> a \<le> now)"

definition resolveGraceEndsAt :: "'a effective_status_input_scheme \<Rightarrow> instant option" where
  "resolveGraceEndsAt s =
     (case graceEndsAt s of
        Some g \<Rightarrow> Some g
      | None \<Rightarrow> (case currentPeriodEnd s of
                  None \<Rightarrow> None
                | Some e \<Rightarrow> Some (e + GRACE_PERIOD_MS)))"

definition resolveEffectiveSubscriptionStatus ::
  "'a effective_status_input_scheme \<Rightarrow> instant \<Rightarrow> effective_result" where
  "resolveEffectiveSubscriptionStatus s now =
     (case status s of
        trialing \<Rightarrow>
          if isTrialPeriodOver s now
          then \<lparr>effectiveStatus = trial_expired, effectiveUntil = None,
                effectiveGraceEndsAt = None, reason = trial_clock_elapsed\<rparr>
          else \<lparr>effectiveStatus = trialing, effectiveUntil = trialEndsAt s,
                effectiveGraceEndsAt = None, reason = stored\<rparr>
      | active \<Rightarrow>
          if \<not> isPast (currentPeriodEnd s) now
          then \<lparr>effectiveStatus = active, effectiveUntil = currentPeriodEnd s,
                effectiveGraceEndsAt = None, reason = stored\<rparr>
          else if cancelAtPeriodEnd s
          then \<lparr>effectiveStatus = cancelled, effectiveUntil = None,
                effectiveGraceEndsAt = None, reason = period_ended_cancel_at_period_end\<rparr>
          else (let g = resolveGraceEndsAt s
                in if isPast g now
                   then \<lparr>effectiveStatus = expired, effectiveUntil = None,
                         effectiveGraceEndsAt = g, reason = grace_ended\<rparr>
                   else \<lparr>effectiveStatus = grace_period, effectiveUntil = g,
                         effectiveGraceEndsAt = g, reason = period_ended_grace\<rparr>)
      | grace_period \<Rightarrow>
          (let g = resolveGraceEndsAt s
           in if isPast g now
              then \<lparr>effectiveStatus = expired, effectiveUntil = None,
                    effectiveGraceEndsAt = g, reason = grace_ended\<rparr>
              else \<lparr>effectiveStatus = grace_period, effectiveUntil = g,
                    effectiveGraceEndsAt = g, reason = stored\<rparr>)
      | st \<Rightarrow> \<lparr>effectiveStatus = st, effectiveUntil = None,
               effectiveGraceEndsAt = None, reason = stored\<rparr>)"

abbreviation eff :: "'a effective_status_input_scheme \<Rightarrow> instant \<Rightarrow> tenant_status" where
  "eff s now \<equiv> effectiveStatus (resolveEffectiveSubscriptionStatus s now)"

lemmas status_defs = resolveEffectiveSubscriptionStatus_def isTrialPeriodOver_def isPast_def
  resolveGraceEndsAt_def Let_def

lemma isPast_mono: "isPast d t \<Longrightarrow> t \<le> t' \<Longrightarrow> isPast d t'"
  by (auto simp: isPast_def split: option.splits)

lemma eff_trialing:
  "status s = trialing \<Longrightarrow> eff s now = (if isPast (trialEndsAt s) now then trial_expired else trialing)"
  by (simp add: resolveEffectiveSubscriptionStatus_def isTrialPeriodOver_def isPast_def)

lemma eff_active:
  "status s = active \<Longrightarrow> eff s now =
     (if \<not> isPast (currentPeriodEnd s) now then active
      else if cancelAtPeriodEnd s then cancelled
      else if isPast (resolveGraceEndsAt s) now then expired else grace_period)"
  by (simp add: resolveEffectiveSubscriptionStatus_def Let_def)

lemma eff_grace_period:
  "status s = grace_period \<Longrightarrow>
     eff s now = (if isPast (resolveGraceEndsAt s) now then expired else grace_period)"
  by (simp add: resolveEffectiveSubscriptionStatus_def Let_def)

lemma eff_undated:
  "status s \<notin> {trialing, active, grace_period} \<Longrightarrow> eff s now = status s"
  by (cases "status s") (simp_all add: resolveEffectiveSubscriptionStatus_def)

lemmas eff_simps = eff_trialing eff_active eff_grace_period eff_undated

subsection \<open>Access\<close>

datatype subscription_lifecycle =
  no_organization | lifecycle_no_plan | lifecycle_trialing | lifecycle_trial_expired
  | lifecycle_active | cancelled_active | lifecycle_grace_period | lifecycle_expired

datatype refusal_reason = no_subscription | refused_no_plan | refused_expired | trial_ended

text \<open>In the access state an absent (undefined) date and a null date are both \<open>None\<close>.\<close>

record access_state =
  hasAccess :: bool
  lifecycle :: subscription_lifecycle
  refusal :: "refusal_reason option"
  as_status :: "tenant_status option"
  as_effectiveStatus :: "tenant_status option"
  as_trialEndsAt :: "instant option"
  as_currentPeriodEnd :: "instant option"
  as_graceEndsAt :: "instant option"
  accessEndsAt :: "instant option"
  trialDaysRemaining :: "int option"

definition SUBSCRIPTION_INACTIVE_STATUSES :: "tenant_status list" where
  "SUBSCRIPTION_INACTIVE_STATUSES = [expired, cancelled, trial_expired]"

definition LIVE_PAID_STATUSES :: "tenant_status list" where
  "LIVE_PAID_STATUSES = [active, past_due, grace_period, paused]"

definition daysRemaining :: "instant option \<Rightarrow> instant \<Rightarrow> int" where
  "daysRemaining endsAt now =
     (case endsAt of None \<Rightarrow> 0
      | Some e \<Rightarrow> max 0 \<lceil>(of_int (e - now) :: rat) / of_int day_ms\<rceil>)"

definition getAccessState :: "'a effective_status_input_scheme option \<Rightarrow> instant \<Rightarrow> access_state" where
  "getAccessState subscription now =
     (case subscription of
        None \<Rightarrow>
          \<lparr>hasAccess = False, lifecycle = lifecycle_no_plan, refusal = Some no_subscription,
           as_status = None, as_effectiveStatus = None, as_trialEndsAt = None,
           as_currentPeriodEnd = None, as_graceEndsAt = None, accessEndsAt = None,
           trialDaysRemaining = None\<rparr>
      | Some s \<Rightarrow>
          (let r = resolveEffectiveSubscriptionStatus s now;
               e = effectiveStatus r;
               base = \<lparr>hasAccess = False, lifecycle = lifecycle_no_plan,
                       refusal = Some refused_no_plan, as_status = Some (status s),
                       as_effectiveStatus = Some e, as_trialEndsAt = trialEndsAt s,
                       as_currentPeriodEnd = currentPeriodEnd s, as_graceEndsAt = None,
                       accessEndsAt = None, trialDaysRemaining = None\<rparr>
           in if e = no_plan then base
              else if e = trial_expired then
                base\<lparr>lifecycle := lifecycle_trial_expired, refusal := Some trial_ended\<rparr>
              else if List.member SUBSCRIPTION_INACTIVE_STATUSES e then
                base\<lparr>lifecycle := lifecycle_expired, refusal := Some refused_expired,
                     as_graceEndsAt := effectiveGraceEndsAt r\<rparr>
              else if e = trialing then
                base\<lparr>hasAccess := True, lifecycle := lifecycle_trialing, refusal := None,
                     accessEndsAt := trialEndsAt s,
                     trialDaysRemaining := Some (daysRemaining (trialEndsAt s) now)\<rparr>
              else if e = grace_period then
                (let g = (case effectiveGraceEndsAt r of
                            Some g \<Rightarrow> Some g | None \<Rightarrow> resolveGraceEndsAt s)
                 in base\<lparr>hasAccess := True, lifecycle := lifecycle_grace_period, refusal := None,
                         as_graceEndsAt := g, accessEndsAt := g\<rparr>)
              else if cancelAtPeriodEnd s \<and> List.member LIVE_PAID_STATUSES e then
                base\<lparr>hasAccess := True, lifecycle := cancelled_active, refusal := None,
                     accessEndsAt := currentPeriodEnd s\<rparr>
              else
                base\<lparr>hasAccess := True, lifecycle := lifecycle_active, refusal := None,
                     accessEndsAt := (if e = active then resolveGraceEndsAt s else None)\<rparr>))"

definition assertHasAccess :: "'a effective_status_input_scheme option \<Rightarrow> instant \<Rightarrow> unit outcome" where
  "assertHasAccess subscription now =
     (let state = getAccessState subscription now
      in if hasAccess state then Inr ()
         else if refusal state = Some no_subscription \<or> refusal state = Some refused_no_plan
         then Inr ()
         else throw ForbiddenException ''errors.subscription.required'')"

definition isServingEligible :: "'a effective_status_input_scheme option \<Rightarrow> instant \<Rightarrow> bool" where
  "isServingEligible subscription now =
     (let state = getAccessState subscription now
      in hasAccess state \<or> refusal state = Some no_subscription
         \<or> refusal state = Some refused_no_plan)"

lemma hasAccess_eff:
  "hasAccess (getAccessState (Some s) now) \<longleftrightarrow>
     eff s now \<notin> {no_plan, trial_expired, expired, cancelled}"
  by (cases "eff s now")
     (simp_all add: getAccessState_def Let_def SUBSCRIPTION_INACTIVE_STATUSES_def LIVE_PAID_STATUSES_def)

lemma isServingEligible_eff:
  "isServingEligible (Some s) now \<longleftrightarrow> eff s now \<notin> {trial_expired, expired, cancelled}"
  by (cases "eff s now")
     (simp_all add: isServingEligible_def getAccessState_def Let_def
       SUBSCRIPTION_INACTIVE_STATUSES_def LIVE_PAID_STATUSES_def)

subsection \<open>When access ends\<close>

text \<open>
  The abstract contract: the instant at which a working row lapses if nothing is written
  to it. A row with no lapse instant never lapses by the clock.
\<close>

definition lapseInstant :: "'a effective_status_input_scheme \<Rightarrow> instant option" where
  "lapseInstant s =
     (case status s of
        trialing \<Rightarrow> trialEndsAt s
      | active \<Rightarrow> (case currentPeriodEnd s of
                    None \<Rightarrow> None
                  | Some e \<Rightarrow> if cancelAtPeriodEnd s then Some e
                             else map_option (max e) (resolveGraceEndsAt s))
      | grace_period \<Rightarrow> resolveGraceEndsAt s
      | _ \<Rightarrow> None)"

definition workingStatus :: "tenant_status \<Rightarrow> bool" where
  "workingStatus st = (st \<notin> {no_plan, trial_expired, expired, cancelled})"

lemma hasAccess_lapse:
  "hasAccess (getAccessState (Some s) now) \<longleftrightarrow>
     workingStatus (status s) \<and> \<not> isPast (lapseInstant s) now"
proof (cases "status s")
  case active
  then show ?thesis
    by (auto simp: hasAccess_eff eff_active workingStatus_def lapseInstant_def isPast_def
        resolveGraceEndsAt_def split: option.splits if_splits)
qed (auto simp: hasAccess_eff eff_simps workingStatus_def lapseInstant_def isPast_def
      split: option.splits if_splits)

text \<open>
  Rows as the store keeps them: no stored grace end while the period is live, and
  only \<open>past_due\<close> and \<open>paused\<close> rows are working and undated.
\<close>

definition datedWell :: "'a effective_status_input_scheme \<Rightarrow> bool" where
  "datedWell s \<longleftrightarrow>
     (status s = active \<longrightarrow> graceEndsAt s = None) \<and> status s \<noteq> past_due \<and> status s \<noteq> paused"

lemma accessEndsAt_lapse:
  assumes "datedWell s" and "hasAccess (getAccessState (Some s) now)"
  shows "accessEndsAt (getAccessState (Some s) now) = lapseInstant s"
proof (cases "status s")
  case active
  with assms show ?thesis
    by (auto simp: datedWell_def getAccessState_def status_defs lapseInstant_def GRACE_PERIOD_MS_eq
        SUBSCRIPTION_INACTIVE_STATUSES_def LIVE_PAID_STATUSES_def split: option.splits if_splits)
next
  case grace_period
  with assms show ?thesis
    by (auto simp: getAccessState_def status_defs lapseInstant_def
        SUBSCRIPTION_INACTIVE_STATUSES_def LIVE_PAID_STATUSES_def split: option.splits if_splits)
next
  case trialing
  with assms show ?thesis
    by (auto simp: getAccessState_def status_defs lapseInstant_def
        SUBSCRIPTION_INACTIVE_STATUSES_def LIVE_PAID_STATUSES_def split: option.splits if_splits)
qed (use assms in \<open>auto simp: datedWell_def hasAccess_eff eff_undated\<close>)

text \<open>
  C2. The deadline shown is the real one. For a row as the store keeps it, while the
  tenant has access the \<open>accessEndsAt\<close> of the access state does not move with the clock, and
  it is exactly the first instant at which access is gone (never, when it is null).
\<close>

theorem access_deadline_exact:
  assumes "datedWell s" and "hasAccess (getAccessState (Some s) now)" and "now \<le> t"
  shows "hasAccess (getAccessState (Some s) t) \<longleftrightarrow>
           (case accessEndsAt (getAccessState (Some s) now) of None \<Rightarrow> True | Some e \<Rightarrow> t < e)"
proof -
  have "workingStatus (status s)" using assms(2) by (simp add: hasAccess_lapse)
  then show ?thesis
    unfolding accessEndsAt_lapse [OF assms(1,2)] hasAccess_lapse
    by (auto simp: isPast_def split: option.splits)
qed

definition graceExample :: effective_status_input where
  "graceExample = \<lparr>status = active, trialEndsAt = None, currentPeriodEnd = Some 1000,
     graceEndsAt = None, cancelAtPeriodEnd = False\<rparr>"

lemma access_deadline_exact_witness:
  "accessEndsAt (getAccessState (Some graceExample) 500) = Some (1000 + GRACE_PERIOD_MS)
   \<and> hasAccess (getAccessState (Some graceExample) 604800999)
   \<and> \<not> hasAccess (getAccessState (Some graceExample) 604801000)"
proof -
  have d: "datedWell graceExample" by (simp add: datedWell_def graceExample_def)
  have a: "hasAccess (getAccessState (Some graceExample) 500)"
    by (simp add: hasAccess_eff graceExample_def eff_active isPast_def)
  have e: "accessEndsAt (getAccessState (Some graceExample) 500) = Some (1000 + GRACE_PERIOD_MS)"
    unfolding accessEndsAt_lapse [OF d a]
    by (simp add: lapseInstant_def graceExample_def resolveGraceEndsAt_def GRACE_PERIOD_MS_eq)
  show ?thesis
    using access_deadline_exact [OF d a, of 604800999] access_deadline_exact [OF d a, of 604801000]
    by (simp add: e GRACE_PERIOD_MS_eq)
qed

end
