(* ===== verification/Subscription_Store.thy ===== *)
theory Subscription_Store
  imports Tenant_Subscription
begin

text \<open>
  The \<open>tenant_subscriptions\<close> table and everything that writes it:
  \<open>plans/repositories/tenant-subscriptions.repository.ts\<close> (guarded transitions, purchases,
  trials, cancellations, scheduled plan changes), the Platform Owner's adjustments
  (\<open>platform/services/platform-subscription-adjustments.service.ts\<close>) and the
  expiry sweep (\<open>plans/services/subscription-expiry.service.ts\<close>, in \<open>Expiry_Sweep\<close>).
  The table is the list of its rows. The lemmas give the row invariant every write keeps
  and the contract of each guarded transition, by interpretation of \<open>guarded_write\<close>.
\<close>

type_synonym sub_table = "tenant_subscription list"

abbreviation findByOrganizationId :: "uid \<Rightarrow> sub_table \<Rightarrow> tenant_subscription option" where
  "findByOrganizationId org t \<equiv> find_by organizationId org t"

abbreviation (input) "distinct_orgs t \<equiv> distinct (map organizationId t)"

subsection \<open>Guarded transitions of the repository\<close>

definition grace_guard :: "tenant_subscription \<Rightarrow> bool" where
  "grace_guard r \<longleftrightarrow> status r = active \<and> \<not> cancelAtPeriodEnd r"

definition markGraceStarted :: "uid \<Rightarrow> instant option \<Rightarrow> sub_table \<Rightarrow> sub_table \<times> bool" where
  "markGraceStarted org g =
     guarded organizationId grace_guard
       (\<lambda>r. r\<lparr>status := grace_period, graceEndsAt := g\<rparr>) org"

definition cancel_guard :: "tenant_subscription \<Rightarrow> bool" where
  "cancel_guard r \<longleftrightarrow> status r = active \<and> cancelAtPeriodEnd r"

definition markCancelledAtPeriodEnd :: "uid \<Rightarrow> sub_table \<Rightarrow> sub_table \<times> bool" where
  "markCancelledAtPeriodEnd org =
     guarded organizationId cancel_guard (\<lambda>r. r\<lparr>status := cancelled\<rparr>) org"

definition expire_guard :: "tenant_subscription \<Rightarrow> bool" where
  "expire_guard r \<longleftrightarrow> status r = grace_period \<or> status r = active \<and> \<not> cancelAtPeriodEnd r"

definition markExpired :: "uid \<Rightarrow> instant option \<Rightarrow> sub_table \<Rightarrow> sub_table \<times> bool" where
  "markExpired org g =
     guarded organizationId expire_guard
       (\<lambda>r. r\<lparr>status := expired, graceEndsAt := g\<rparr>) org"

definition trial_guard :: "tenant_subscription \<Rightarrow> bool" where
  "trial_guard r \<longleftrightarrow> trialEndsAt r = None \<and> status r = no_plan"

definition startTrial ::
  "uid \<Rightarrow> uid \<Rightarrow> instant \<Rightarrow> limits_column \<Rightarrow> sub_table \<Rightarrow> sub_table \<times> bool" where
  "startTrial org plan ends granted =
     guarded organizationId trial_guard
       (\<lambda>r. r\<lparr>planId := plan, status := trialing, trialEndsAt := Some ends,
              grantedLimits := granted\<rparr>) org"

definition scheduled_guard :: "uid \<Rightarrow> instant \<Rightarrow> tenant_subscription \<Rightarrow> bool" where
  "scheduled_guard plan d r \<longleftrightarrow> scheduledPlanId r = Some plan \<and> scheduledChangeAt r = Some d"

definition applyScheduledChange :: "tenant_subscription \<Rightarrow> sub_table \<Rightarrow> sub_table \<times> bool" where
  "applyScheduledChange s t =
     (case (scheduledPlanId s, scheduledChangeAt s) of
        (Some plan, Some d) \<Rightarrow>
          if scheduledGrantedLimits s = DbNull then (t, False)
          else guarded organizationId (scheduled_guard plan d)
                 (\<lambda>r. r\<lparr>planId := plan, grantedLimits := scheduledGrantedLimits s,
                        scheduledPlanId := None, scheduledGrantedLimits := DbNull,
                        scheduledChangeAt := None\<rparr>) (organizationId s) t
      | _ \<Rightarrow> (t, False))"

text \<open>
  \<open>markTrialExpired\<close> is a plain \<open>update\<close> by key, with no guard on the stored status; on a
  missing row it throws (\<open>P2025\<close>).
\<close>

definition markTrialExpired :: "uid \<Rightarrow> sub_table \<Rightarrow> sub_table option" where
  "markTrialExpired org t =
     (if org \<in> organizationId ` set t
      then Some (map (\<lambda>r. if organizationId r = org then r\<lparr>status := trial_expired\<rparr> else r) t)
      else None)"

subsection \<open>Creation, cancellation, purchase\<close>

definition newSubscription :: "uid \<Rightarrow> uid \<Rightarrow> tenant_status \<Rightarrow> instant option \<Rightarrow> tenant_subscription"
  where
  "newSubscription org plan st ends =
     \<lparr>status = st, trialEndsAt = ends, currentPeriodEnd = None, graceEndsAt = None,
      cancelAtPeriodEnd = False, organizationId = org, planId = plan, grantedLimits = DbNull,
      currentPeriodStart = None, billingCycle = None, giftedDays = None, giftedStartsAt = None,
      giftedEndsAt = None, giftedPaymentId = None, scheduledPlanId = None,
      scheduledGrantedLimits = DbNull, scheduledChangeAt = None, priceChangeNotice = None,
      priceChangeNoticeDismissedAt = None\<rparr>"

text \<open>A unique-key violation makes \<open>create\<close> throw.\<close>

definition createSubscription ::
  "uid \<Rightarrow> uid \<Rightarrow> tenant_status \<Rightarrow> instant option \<Rightarrow> sub_table \<Rightarrow> sub_table option" where
  "createSubscription org plan st ends t =
     (if org \<in> organizationId ` set t then None
      else Some (t @ [newSubscription org plan st ends]))"

definition bootstrapSubscription :: "uid option \<Rightarrow> uid \<Rightarrow> sub_table \<Rightarrow> sub_table option" where
  "bootstrapSubscription defaultTrialPlan org t =
     (case defaultTrialPlan of
        None \<Rightarrow> None
      | Some plan \<Rightarrow> createSubscription org plan no_plan None t)"

definition markTrialCancelled :: "uid \<Rightarrow> sub_table \<Rightarrow> sub_table" where
  "markTrialCancelled org t =
     fst (updateMany (\<lambda>r. organizationId r = org \<and> status r = trialing)
            (\<lambda>r. r\<lparr>status := cancelled\<rparr>) t)"

definition markPaidCancelAtPeriodEnd :: "uid \<Rightarrow> sub_table \<Rightarrow> sub_table" where
  "markPaidCancelAtPeriodEnd org t =
     fst (updateMany
            (\<lambda>r. organizationId r = org \<and> status r \<in> set [active, past_due, grace_period])
            (\<lambda>r. r\<lparr>cancelAtPeriodEnd := True, scheduledPlanId := None,
                   scheduledGrantedLimits := DbNull, scheduledChangeAt := None\<rparr>) t)"

record gift_columns =
  gc_days :: int
  gc_startsAt :: instant
  gc_endsAt :: instant
  gc_paymentId :: uid

record plan_purchase =
  pp_planId :: uid
  pp_billingCycle :: billing_cycle
  pp_currentPeriodStart :: instant
  pp_currentPeriodEnd :: instant
  pp_grantedLimits :: limits_column
  pp_gift :: "gift_columns option"
  pp_scheduleAt :: "instant option"

definition giftColumns :: "gift_columns option \<Rightarrow> tenant_subscription \<Rightarrow> tenant_subscription" where
  "giftColumns g r =
     (case g of
        None \<Rightarrow> r
      | Some g \<Rightarrow> r\<lparr>giftedDays := Some (gc_days g), giftedStartsAt := Some (gc_startsAt g),
                    giftedEndsAt := Some (gc_endsAt g), giftedPaymentId := Some (gc_paymentId g)\<rparr>)"

definition planColumns :: "plan_purchase \<Rightarrow> tenant_subscription \<Rightarrow> tenant_subscription" where
  "planColumns d r =
     (case pp_scheduleAt d of
        Some c \<Rightarrow> r\<lparr>scheduledPlanId := Some (pp_planId d),
                    scheduledGrantedLimits := pp_grantedLimits d, scheduledChangeAt := Some c\<rparr>
      | None \<Rightarrow> r\<lparr>planId := pp_planId d, grantedLimits := pp_grantedLimits d,
                  scheduledPlanId := None, scheduledGrantedLimits := DbNull,
                  scheduledChangeAt := None\<rparr>)"

definition purchasedRow :: "plan_purchase \<Rightarrow> tenant_subscription \<Rightarrow> tenant_subscription" where
  "purchasedRow d r =
     giftColumns (pp_gift d)
       ((planColumns d r)
          \<lparr>status := active, billingCycle := Some (pp_billingCycle d),
           currentPeriodStart := Some (pp_currentPeriodStart d),
           currentPeriodEnd := Some (pp_currentPeriodEnd d), trialEndsAt := None,
           graceEndsAt := None, cancelAtPeriodEnd := False, priceChangeNotice := None,
           priceChangeNoticeDismissedAt := None\<rparr>)"

definition upsertForPlanPurchase :: "uid \<Rightarrow> plan_purchase \<Rightarrow> sub_table \<Rightarrow> sub_table" where
  "upsertForPlanPurchase org d t =
     (if org \<in> organizationId ` set t
      then map (\<lambda>r. if organizationId r = org then purchasedRow d r else r) t
      else t @ [giftColumns (pp_gift d)
                  ((newSubscription org (pp_planId d) active None)
                     \<lparr>grantedLimits := pp_grantedLimits d, billingCycle := Some (pp_billingCycle d),
                      currentPeriodStart := Some (pp_currentPeriodStart d),
                      currentPeriodEnd := Some (pp_currentPeriodEnd d)\<rparr>)])"

subsection \<open>Platform Owner adjustments and notices\<close>

datatype plan_change_apply_at = apply_now | apply_period_end

definition updateRow ::
  "uid \<Rightarrow> (tenant_subscription \<Rightarrow> tenant_subscription) \<Rightarrow> sub_table \<Rightarrow> sub_table" where
  "updateRow org f t = map (\<lambda>r. if organizationId r = org then f r else r) t"

definition adjustDays :: "uid \<Rightarrow> int \<Rightarrow> instant \<Rightarrow> sub_table \<Rightarrow> sub_table outcome" where
  "adjustDays org days now t =
     (case findByOrganizationId org t of
        None \<Rightarrow> throw NotFoundException ''errors.tenant.noSubscription''
      | Some current \<Rightarrow>
          if status current \<notin> set [trialing, active, grace_period]
          then throw ConflictException ''errors.platform.subscriptionAdjustment.notExtendable''
          else (let from = (if status current = trialing then trialEndsAt current
                            else currentPeriodEnd current);
                    base = (case from of Some f \<Rightarrow> if f > now then f else now | None \<Rightarrow> now);
                    to = base + days * day_ms
                in Inr (updateRow org
                     (if status current = trialing then (\<lambda>r. r\<lparr>trialEndsAt := Some to\<rparr>)
                      else (\<lambda>r. r\<lparr>currentPeriodEnd := Some to, status := active,
                                 graceEndsAt := None\<rparr>)) t)))"

text \<open>The plan the request names: its id, its limits and whether it is archived.\<close>

definition changePlan ::
  "uid \<Rightarrow> (uid \<times> plan_resource_limits \<times> bool) option \<Rightarrow> plan_change_apply_at \<Rightarrow> instant \<Rightarrow>
     sub_table \<Rightarrow> sub_table outcome" where
  "changePlan org plan applyAt now t =
     (case findByOrganizationId org t of
        None \<Rightarrow> throw NotFoundException ''errors.tenant.noSubscription''
      | Some current \<Rightarrow>
          (case plan of
             None \<Rightarrow> throw BadRequestException ''errors.validation.failed''
           | Some (pid, limits, archived) \<Rightarrow>
               if archived
               then throw ConflictException ''errors.platform.subscriptionAdjustment.planArchived''
               else case applyAt of
                 apply_now \<Rightarrow>
                   Inr (updateRow org
                     (\<lambda>r. r\<lparr>planId := pid, grantedLimits := LimitObject limits,
                            scheduledPlanId := None, scheduledGrantedLimits := DbNull,
                            scheduledChangeAt := None\<rparr>) t)
               | apply_period_end \<Rightarrow>
                   (case currentPeriodEnd current of
                      None \<Rightarrow>
                        throw ConflictException ''errors.platform.subscriptionAdjustment.noPaidPeriod''
                    | Some e \<Rightarrow>
                        if status current \<noteq> active \<or> e \<le> now
                        then throw ConflictException
                               ''errors.platform.subscriptionAdjustment.noPaidPeriod''
                        else Inr (updateRow org
                          (\<lambda>r. r\<lparr>scheduledPlanId := Some pid,
                                 scheduledGrantedLimits := LimitObject limits,
                                 scheduledChangeAt := Some e\<rparr>) t))))"

definition dismissPriceChangeNotice :: "uid \<Rightarrow> instant \<Rightarrow> sub_table \<Rightarrow> sub_table \<times> bool" where
  "dismissPriceChangeNotice org now t =
     (case updateMany (\<lambda>r. organizationId r = org \<and> priceChangeNotice r \<noteq> None
                           \<and> priceChangeNoticeDismissedAt r = None)
            (\<lambda>r. r\<lparr>priceChangeNoticeDismissedAt := Some now\<rparr>) t
      of (t', n) \<Rightarrow> (t', n > 0))"

text \<open>The job that announces an edited plan sets the notice, or takes it back; either way it is shown again.\<close>

definition writePriceChangeNotice :: "uid \<Rightarrow> string option \<Rightarrow> sub_table \<Rightarrow> sub_table" where
  "writePriceChangeNotice org notice t =
     updateRow org (\<lambda>r. r\<lparr>priceChangeNotice := notice, priceChangeNoticeDismissedAt := None\<rparr>) t"

subsection \<open>The contract of the guarded transitions\<close>

interpretation grace_started: guarded_write organizationId grace_guard
  "\<lambda>r. r\<lparr>status := grace_period, graceEndsAt := g\<rparr>" for g
  by unfold_locales (simp_all add: grace_guard_def)

interpretation period_cancelled: guarded_write organizationId cancel_guard
  "\<lambda>r. r\<lparr>status := cancelled\<rparr>"
  by unfold_locales (simp_all add: cancel_guard_def)

interpretation paid_expired: guarded_write organizationId expire_guard
  "\<lambda>r. r\<lparr>status := expired, graceEndsAt := g\<rparr>" for g
  by unfold_locales (auto simp: expire_guard_def)

interpretation trial_started: guarded_write organizationId trial_guard
  "\<lambda>r. r\<lparr>planId := plan, status := trialing, trialEndsAt := Some ends, grantedLimits := granted\<rparr>"
  for plan ends granted
  by unfold_locales (simp_all add: trial_guard_def)

interpretation change_applied: guarded_write organizationId "scheduled_guard plan d"
  "\<lambda>r. r\<lparr>planId := plan, grantedLimits := granted, scheduledPlanId := None,
         scheduledGrantedLimits := DbNull, scheduledChangeAt := None\<rparr>"
  for plan d granted
  by unfold_locales (simp_all add: scheduled_guard_def)

end
