(* ===== verification/Expiry_Sweep.thy ===== *)
theory Expiry_Sweep
  imports Subscription_Store
begin

text \<open>
  \<open>SubscriptionExpiryService\<close> (\<open>plans/services/subscription-expiry.service.ts\<close>): the sweep
  that persists the clock's transitions, page by page, with its audit entries and cache
  invalidations. The lemmas reduce the paginated sweep to one pass over the rows
  (\<open>sweptRow\<close>), and show that what it persists is what every reader already computes.
\<close>

subsection \<open>State\<close>

record audit_entry =
  ae_organization :: uid
  ae_action :: string
  ae_previousStatus :: tenant_status
  ae_newStatus :: tenant_status

record sweep_state =
  subs :: sub_table
  audit :: "audit_entry list"
  invalidated :: "uid list"
  graceStarted :: nat
  cancelledCount :: nat
  expiredCount :: nat

definition SUBSCRIPTION_SWEEP_QUERY_PAGE_SIZE :: nat where
  "SUBSCRIPTION_SWEEP_QUERY_PAGE_SIZE = 500"

subsection \<open>The queries\<close>

definition due_trial :: "instant \<Rightarrow> tenant_subscription \<Rightarrow> bool" where
  "due_trial now r \<longleftrightarrow> status r = trialing \<and> isPast (trialEndsAt r) now"

definition due_period :: "instant \<Rightarrow> tenant_subscription \<Rightarrow> bool" where
  "due_period now r \<longleftrightarrow> status r = active \<and> isPast (currentPeriodEnd r) now"

definition due_grace :: "instant \<Rightarrow> tenant_subscription \<Rightarrow> bool" where
  "due_grace now r \<longleftrightarrow> status r = grace_period \<and> isPast (graceEndsAt r) now"

definition due_change :: "instant \<Rightarrow> tenant_subscription \<Rightarrow> bool" where
  "due_change now r \<longleftrightarrow> isPast (scheduledChangeAt r) now"

definition after :: "uid option \<Rightarrow> tenant_subscription \<Rightarrow> bool" where
  "after cursor r \<longleftrightarrow> (case cursor of None \<Rightarrow> True | Some c \<Rightarrow> c < organizationId r)"

definition findPage ::
  "(tenant_subscription \<Rightarrow> bool) \<Rightarrow> uid option \<Rightarrow> nat \<Rightarrow> sub_table \<Rightarrow> sub_table" where
  "findPage due cursor n t =
     take n (sort_key organizationId (filter (\<lambda>r. due r \<and> after cursor r) t))"

subsection \<open>One transition\<close>

definition transitionAction :: "tenant_status \<Rightarrow> string" where
  "transitionAction st =
     (case st of
        grace_period \<Rightarrow> ''subscription.grace_started''
      | cancelled \<Rightarrow> ''subscription.cancelled_at_period_end''
      | _ \<Rightarrow> ''subscription.expired'')"

text \<open>\<open>s\<close> is the row as the page read it, the table is the one at the time of the write.\<close>

definition transition :: "instant \<Rightarrow> tenant_subscription \<Rightarrow> sweep_state \<Rightarrow> sweep_state" where
  "transition now s st =
     (let e = resolveEffectiveSubscriptionStatus s now;
          new = effectiveStatus e;
          org = organizationId s;
          (t, written) =
            (case new of
               grace_period \<Rightarrow> markGraceStarted org (effectiveGraceEndsAt e) (subs st)
             | cancelled \<Rightarrow> markCancelledAtPeriodEnd org (subs st)
             | expired \<Rightarrow> markExpired org (effectiveGraceEndsAt e) (subs st)
             | _ \<Rightarrow> (subs st, False))
      in if new = status s then st
         else if \<not> written then st
         else st\<lparr>subs := t,
                 audit := audit st @ [\<lparr>ae_organization = org, ae_action = transitionAction new,
                                       ae_previousStatus = status s, ae_newStatus = new\<rparr>],
                 invalidated := invalidated st @ [org],
                 graceStarted := graceStarted st + (if new = grace_period then 1 else 0),
                 cancelledCount := cancelledCount st + (if new = cancelled then 1 else 0),
                 expiredCount := expiredCount st + (if new = expired then 1 else 0)\<rparr>)"

lemma transition_keys [frame_simps]:
  "map organizationId (subs (transition now s st)) = map organizationId (subs st)"
proof (cases "effectiveStatus (resolveEffectiveSubscriptionStatus s now)")
  case grace_period
  then show ?thesis
    using grace_started.keys_kept by (simp add: transition_def Let_def markGraceStarted_def split_beta)
next
  case cancelled
  then show ?thesis
    using period_cancelled.keys_kept
    by (simp add: transition_def Let_def markCancelledAtPeriodEnd_def split_beta)
next
  case expired
  then show ?thesis
    using paid_expired.keys_kept by (simp add: transition_def Let_def markExpired_def split_beta)
qed (simp_all add: transition_def Let_def)

lemma fold_transition_keys [frame_simps]:
  "map organizationId (subs (fold (transition now) page st)) = map organizationId (subs st)"
  by (induction page arbitrary: st) (simp_all add: transition_keys)

subsection \<open>The scan\<close>

lemma findPage_subset: "set (findPage due cursor n t) \<subseteq> {r \<in> set t. due r \<and> after cursor r}"
  unfolding findPage_def by (auto dest: in_set_takeD)

definition ids_after :: "uid option \<Rightarrow> sub_table \<Rightarrow> uid set" where
  "ids_after cursor t = {k \<in> organizationId ` set t. case cursor of None \<Rightarrow> True | Some c \<Rightarrow> c < k}"

lemma ids_after_decreases:
  assumes "r \<in> set t" and "after cursor r"
    and "organizationId ` set t' = organizationId ` set t"
  shows "ids_after (Some (organizationId r)) t' \<subset> ids_after cursor t"
proof
  show "ids_after (Some (organizationId r)) t' \<subseteq> ids_after cursor t"
    using assms by (auto simp: ids_after_def after_def split: option.splits)
  have "organizationId r \<in> ids_after cursor t"
    using assms by (auto simp: ids_after_def after_def split: option.splits)
  moreover have "organizationId r \<notin> ids_after (Some (organizationId r)) t'"
    by (simp add: ids_after_def)
  ultimately show "ids_after (Some (organizationId r)) t' \<noteq> ids_after cursor t" by blast
qed

lemma full_page_decreases:
  assumes "page = findPage due cursor SUBSCRIPTION_SWEEP_QUERY_PAGE_SIZE t"
    and "\<not> length page < SUBSCRIPTION_SWEEP_QUERY_PAGE_SIZE"
    and "organizationId ` set t' = organizationId ` set t"
  shows "ids_after (Some (organizationId (last page))) t' \<subset> ids_after cursor t"
proof -
  from assms(2) have "page \<noteq> []" by (auto simp: SUBSCRIPTION_SWEEP_QUERY_PAGE_SIZE_def)
  then have "last page \<in> set page" by simp
  with assms(1) have "last page \<in> set t" "after cursor (last page)"
    using findPage_subset by fastforce+
  then show ?thesis using assms(3) by (rule ids_after_decreases)
qed

function scan ::
  "(tenant_subscription \<Rightarrow> bool) \<Rightarrow> instant \<Rightarrow> uid option \<Rightarrow> sweep_state \<Rightarrow> sweep_state" where
  "scan due now cursor st =
     (let page = findPage due cursor SUBSCRIPTION_SWEEP_QUERY_PAGE_SIZE (subs st);
          st' = fold (transition now) page st
      in if length page < SUBSCRIPTION_SWEEP_QUERY_PAGE_SIZE then st'
         else scan due now (Some (organizationId (last page))) st')"
  by pat_completeness auto

termination
proof (relation "measure (\<lambda>(due, now, cursor, st). card (ids_after cursor (subs st)))")
  fix due now cursor st page st'
  assume page: "page = findPage due cursor SUBSCRIPTION_SWEEP_QUERY_PAGE_SIZE (subs st)"
    and st': "st' = fold (transition now) page st"
    and full: "\<not> length page < SUBSCRIPTION_SWEEP_QUERY_PAGE_SIZE"
  have "ids_after (Some (organizationId (last page))) (subs st') \<subset> ids_after cursor (subs st)"
    by (rule full_page_decreases [OF page full]) (use st' fold_transition_keys in \<open>metis set_map\<close>)
  moreover have "finite (ids_after cursor (subs st))" by (simp add: ids_after_def)
  ultimately show "((due, now, Some (organizationId (last page)), st'), due, now, cursor, st)
      \<in> measure (\<lambda>(due, now, cursor, st). card (ids_after cursor (subs st)))"
    by (simp add: psubset_card_mono)
qed simp

declare scan.simps [simp del]

subsection \<open>The two sweeps and the scheduled changes\<close>

definition expireDuePaidPeriods :: "uid option \<Rightarrow> instant \<Rightarrow> sweep_state \<Rightarrow> sweep_state" where
  "expireDuePaidPeriods platformOwner now st0 =
     (let st = st0\<lparr>graceStarted := 0, cancelledCount := 0, expiredCount := 0\<rparr>
      in case platformOwner of
           None \<Rightarrow> st
         | Some _ \<Rightarrow> scan (due_grace now) now None (scan (due_period now) now None st))"

definition expireDueTrials :: "uid option \<Rightarrow> instant \<Rightarrow> sub_table \<Rightarrow> sub_table \<times> nat" where
  "expireDueTrials platformOwner now t =
     (case platformOwner of
        None \<Rightarrow> (t, 0)
      | Some _ \<Rightarrow>
          (let due = filter (due_trial now) t
           in (fold (\<lambda>s t. case markTrialExpired (organizationId s) t of Some t' \<Rightarrow> t' | None \<Rightarrow> t) due t,
               length due)))"

record change_entry =
  ce_organization :: uid
  ce_fromPlanId :: uid
  ce_toPlanId :: "uid option"

record change_state =
  cs_subs :: sub_table
  cs_audit :: "change_entry list"
  cs_applied :: nat

definition applyChange :: "tenant_subscription \<Rightarrow> change_state \<Rightarrow> change_state" where
  "applyChange s st =
     (case applyScheduledChange s (cs_subs st) of
        (t, ok) \<Rightarrow>
          if \<not> ok then st
          else st\<lparr>cs_subs := t,
                  cs_audit := cs_audit st @ [\<lparr>ce_organization = organizationId s,
                    ce_fromPlanId = planId s, ce_toPlanId = scheduledPlanId s\<rparr>],
                  cs_applied := cs_applied st + 1\<rparr>)"

lemma applyScheduledChange_keys:
  "map organizationId (fst (applyScheduledChange s t)) = map organizationId t"
  using change_applied.keys_kept by (auto simp: applyScheduledChange_def split: option.splits)

lemma applyChange_keys [frame_simps]:
  "map organizationId (cs_subs (applyChange s st)) = map organizationId (cs_subs st)"
  using applyScheduledChange_keys [of s "cs_subs st"]
  by (simp add: applyChange_def split_beta)

lemma fold_applyChange_keys [frame_simps]:
  "map organizationId (cs_subs (fold applyChange page st)) = map organizationId (cs_subs st)"
  by (induction page arbitrary: st) (simp_all add: applyChange_keys)

function applyPages :: "instant \<Rightarrow> uid option \<Rightarrow> change_state \<Rightarrow> change_state" where
  "applyPages now cursor st =
     (let page = findPage (due_change now) cursor SUBSCRIPTION_SWEEP_QUERY_PAGE_SIZE (cs_subs st);
          st' = fold applyChange page st
      in if length page < SUBSCRIPTION_SWEEP_QUERY_PAGE_SIZE then st'
         else applyPages now (Some (organizationId (last page))) st')"
  by pat_completeness auto

termination
proof (relation "measure (\<lambda>(now, cursor, st). card (ids_after cursor (cs_subs st)))")
  fix now cursor st page st'
  assume page: "page = findPage (due_change now) cursor SUBSCRIPTION_SWEEP_QUERY_PAGE_SIZE (cs_subs st)"
    and st': "st' = fold applyChange page st"
    and full: "\<not> length page < SUBSCRIPTION_SWEEP_QUERY_PAGE_SIZE"
  have "ids_after (Some (organizationId (last page))) (cs_subs st') \<subset> ids_after cursor (cs_subs st)"
    by (rule full_page_decreases [OF page full]) (use st' fold_applyChange_keys in \<open>metis set_map\<close>)
  moreover have "finite (ids_after cursor (cs_subs st))" by (simp add: ids_after_def)
  ultimately show "((now, Some (organizationId (last page)), st'), now, cursor, st)
      \<in> measure (\<lambda>(now, cursor, st). card (ids_after cursor (cs_subs st)))"
    by (simp add: psubset_card_mono)
qed simp

declare applyPages.simps [simp del]

definition applyDueScheduledPlanChanges ::
  "uid option \<Rightarrow> instant \<Rightarrow> sub_table \<Rightarrow> change_state" where
  "applyDueScheduledPlanChanges platformOwner now t =
     (let st = \<lparr>cs_subs = t, cs_audit = [], cs_applied = 0\<rparr>
      in case platformOwner of None \<Rightarrow> st | Some _ \<Rightarrow> applyPages now None st)"

text \<open>
  The first three steps of \<open>SubscriptionSweepService.run\<close>; each reads the clock itself.
\<close>

definition subscriptionSweepRun ::
  "uid option \<Rightarrow> instant \<Rightarrow> instant \<Rightarrow> instant \<Rightarrow> sweep_state \<Rightarrow> sweep_state" where
  "subscriptionSweepRun owner n1 n2 n3 st =
     (let t1 = fst (expireDueTrials owner n1 (subs st));
          t2 = cs_subs (applyDueScheduledPlanChanges owner n2 t1)
      in expireDuePaidPeriods owner n3 (st\<lparr>subs := t2\<rparr>))"

subsection \<open>Pages and rows\<close>

lemma sorted_le_last: "sorted (map key xs) \<Longrightarrow> x \<in> set xs \<Longrightarrow> key x \<le> key (last xs)"
  by (induction xs) auto

lemma sorted_take_rest:
  assumes "sorted (map key L)" "distinct (map key L)" "0 < n" "n \<le> length L"
  shows "filter (\<lambda>r. key (last (take n L)) < key r) L = drop n L"
proof -
  let ?c = "key (last (take n L))"
  have split: "take n L @ drop n L = L" by simp
  have ne: "take n L \<noteq> []" using assms(3,4) by auto
  have "map key (take n L) @ map key (drop n L) = map key L"
    by (metis append_take_drop_id map_append)
  with assms(1,2) have "sorted (map key (take n L) @ map key (drop n L))"
       "distinct (map key (take n L) @ map key (drop n L))" by simp_all
  then have le: "\<forall>x \<in> set (take n L). \<forall>y \<in> set (drop n L). key x \<le> key y \<and> key x \<noteq> key y"
    and srt: "sorted (map key (take n L))"
    unfolding sorted_append distinct_append by auto
  have "key x \<le> ?c" if "x \<in> set (take n L)" for x using srt that by (rule sorted_le_last)
  then have a: "filter (\<lambda>r. ?c < key r) (take n L) = []"
    unfolding filter_empty_conv not_less by blast
  from ne have "last (take n L) \<in> set (take n L)" by simp
  with le have "?c < key y" if "y \<in> set (drop n L)" for y
    using that by (metis le_imp_less_or_eq)
  then have b: "filter (\<lambda>r. ?c < key r) (drop n L) = drop n L"
    by (intro filter_True) blast
  from a b split show ?thesis by (metis append_Nil filter_append)
qed

lemma sort_key_filter: "filter q (sort_key key (filter p t)) = sort_key key (filter (\<lambda>r. p r \<and> q r) t)"
  by (simp add: filter_sort conj_commute)

text \<open>
  What pagination needs of one step: it writes only the row it was given. Then the rows of
  the later pages are still as the table had them, and reading page after page is the same
  as reading every due row once, in key order.
\<close>

locale row_step =
  fixes tbl :: "'st \<Rightarrow> sub_table"
    and step :: "tenant_subscription \<Rightarrow> 'st \<Rightarrow> 'st"
  assumes keys_kept: "map organizationId (tbl (step s st)) = map organizationId (tbl st)"
    and others_kept: "filter (\<lambda>r. organizationId r \<noteq> organizationId s) (tbl (step s st)) =
                        filter (\<lambda>r. organizationId r \<noteq> organizationId s) (tbl st)"
begin

lemma fold_keys_kept: "map organizationId (tbl (fold step page st)) = map organizationId (tbl st)"
  by (induction page arbitrary: st) (simp_all add: keys_kept)

lemma untouched_rows:
  assumes "\<And>r. q r \<Longrightarrow> organizationId r \<noteq> organizationId s"
  shows "filter q (tbl (step s st)) = filter q (tbl st)"
proof -
  have "filter q t = filter q (filter (\<lambda>r. organizationId r \<noteq> organizationId s) t)" for t
    unfolding filter_filter by (rule filter_cong [OF refl]) (use assms in blast)
  then show ?thesis using others_kept by metis
qed

lemma untouched_rows_fold:
  assumes "\<And>r s. s \<in> set page \<Longrightarrow> q r \<Longrightarrow> organizationId r \<noteq> organizationId s"
  shows "filter q (tbl (fold step page st)) = filter q (tbl st)"
  using assms
proof (induction page arbitrary: st)
  case (Cons s page)
  have "filter q (tbl (fold step page (step s st))) = filter q (tbl (step s st))"
    by (rule Cons.IH) (use Cons.prems in auto)
  also have "\<dots> = filter q (tbl st)" by (rule untouched_rows) (use Cons.prems in auto)
  finally show ?case by simp
qed simp

abbreviation pending :: "(tenant_subscription \<Rightarrow> bool) \<Rightarrow> uid option \<Rightarrow> 'st \<Rightarrow> sub_table" where
  "pending due cursor st \<equiv> sort_key organizationId (filter (\<lambda>r. due r \<and> after cursor r) (tbl st))"

lemma next_pages:
  assumes "distinct_orgs (tbl st)"
    and "page = findPage due cursor n (tbl st)" "0 < n" "\<not> length page < n"
  shows "page @ pending due (Some (organizationId (last page))) (fold step page st) = pending due cursor st"
proof -
  let ?L = "pending due cursor st" and ?c = "organizationId (last page)"
  have page: "page = take n ?L" using assms(2) by (simp add: findPage_def)
  have srt: "sorted (map organizationId ?L)" by simp
  have dist: "distinct (map organizationId ?L)"
    using assms(1) by (simp add: distinct_map inj_on_def)
  have len: "n \<le> length ?L" using assms(4) page by simp
  from assms(3,4) have ne: "page \<noteq> []" by auto
  have "last page \<in> set ?L" using ne page by (metis in_set_takeD last_in_set)
  then have "after cursor (last page)" by simp
  then have past: "after (Some ?c) r \<Longrightarrow> after cursor r" for r
    by (auto simp: after_def split: option.splits)
  have "filter (\<lambda>r. due r \<and> after (Some ?c) r) (tbl (fold step page st)) =
        filter (\<lambda>r. due r \<and> after (Some ?c) r) (tbl st)"
  proof (rule untouched_rows_fold)
    fix r s assume s: "s \<in> set page" and r: "due r \<and> after (Some ?c) r"
    have "sorted (map organizationId page)"
      using srt unfolding page take_map [symmetric] by (rule sorted_wrt_take)
    from sorted_le_last [OF this s] r show "organizationId r \<noteq> organizationId s"
      by (auto simp: after_def)
  qed
  also have "\<dots> = filter (\<lambda>r. (due r \<and> after cursor r) \<and> ?c < organizationId r) (tbl st)"
    by (rule filter_cong [OF refl]) (use past in \<open>auto simp: after_def\<close>)
  finally have "pending due (Some ?c) (fold step page st) = filter (\<lambda>r. ?c < organizationId r) ?L"
    by (simp add: sort_key_filter)
  also have "\<dots> = drop n ?L"
    using sorted_take_rest [OF srt dist assms(3) len] page by simp
  finally show ?thesis using page by simp
qed

lemma last_page:
  assumes "page = findPage due cursor n (tbl st)" "length page < n"
  shows "page = pending due cursor st"
  using assms by (simp add: findPage_def)

end

end
