(* ===== verification/Sweep_Correctness.thy ===== *)
theory Sweep_Correctness
  imports Expiry_Sweep
begin

text \<open>
  The expiry sweep against its specification: one pass over the rows. \<open>persistRow\<close> is
  what the clock writes to a single row; the paginated sweeps are shown to be exactly that
  pass, and the pass is invisible to every reader that derives the status live.
\<close>

subsection \<open>The specification\<close>

definition lapsedRow :: "instant \<Rightarrow> tenant_subscription \<Rightarrow> tenant_subscription" where
  "lapsedRow now r =
     (let e = resolveEffectiveSubscriptionStatus r now
      in case effectiveStatus e of
           grace_period \<Rightarrow> r\<lparr>status := grace_period, graceEndsAt := effectiveGraceEndsAt e\<rparr>
         | cancelled \<Rightarrow> r\<lparr>status := cancelled\<rparr>
         | expired \<Rightarrow> r\<lparr>status := expired, graceEndsAt := effectiveGraceEndsAt e\<rparr>
         | _ \<Rightarrow> r)"

definition sweptRow :: "instant \<Rightarrow> tenant_subscription \<Rightarrow> tenant_subscription" where
  "sweptRow now r = (if due_period now r \<or> due_grace now r then lapsedRow now r else r)"

definition trialRow :: "instant \<Rightarrow> tenant_subscription \<Rightarrow> tenant_subscription" where
  "trialRow now r = (if due_trial now r then r\<lparr>status := trial_expired\<rparr> else r)"

definition changedRow :: "instant \<Rightarrow> tenant_subscription \<Rightarrow> tenant_subscription" where
  "changedRow now r =
     (if due_change now r \<and> scheduledPlanId r \<noteq> None \<and> scheduledGrantedLimits r \<noteq> DbNull
      then r\<lparr>planId := the (scheduledPlanId r), grantedLimits := scheduledGrantedLimits r,
             scheduledPlanId := None, scheduledGrantedLimits := DbNull, scheduledChangeAt := None\<rparr>
      else r)"

definition transitionEntry :: "instant \<Rightarrow> tenant_subscription \<Rightarrow> audit_entry" where
  "transitionEntry now r =
     \<lparr>ae_organization = organizationId r, ae_action = transitionAction (eff r now),
      ae_previousStatus = status r, ae_newStatus = eff r now\<rparr>"

lemma lapsedRow_key [simp]: "organizationId (lapsedRow now r) = organizationId r"
  by (auto simp: lapsedRow_def Let_def split: tenant_status.splits)

lemma sweptRow_key [simp]: "organizationId (sweptRow now r) = organizationId r"
  and trialRow_key [simp]: "organizationId (trialRow now r) = organizationId r"
  and changedRow_key [simp]: "organizationId (changedRow now r) = organizationId r"
  by (simp_all add: sweptRow_def trialRow_def changedRow_def)

subsection \<open>Pages add up to one pass\<close>

lemma transition_others:
  "filter (\<lambda>r. organizationId r \<noteq> organizationId s) (subs (transition now s st)) =
     filter (\<lambda>r. organizationId r \<noteq> organizationId s) (subs st)"
  by (cases "eff s now")
     (simp_all add: transition_def Let_def markGraceStarted_def markCancelledAtPeriodEnd_def
       markExpired_def split_beta grace_started.others_kept period_cancelled.others_kept
       paid_expired.others_kept)

lemma applyChange_others:
  "filter (\<lambda>r. organizationId r \<noteq> organizationId s) (cs_subs (applyChange s st)) =
     filter (\<lambda>r. organizationId r \<noteq> organizationId s) (cs_subs st)"
  by (auto simp: applyChange_def applyScheduledChange_def split_beta change_applied.others_kept
      split: option.splits)

interpretation transitions: row_step subs "transition now" for now
  by unfold_locales (simp_all add: transition_keys transition_others)

interpretation changes: row_step cs_subs applyChange
  by unfold_locales (simp_all add: applyChange_keys applyChange_others)

lemma page_size_pos: "0 < SUBSCRIPTION_SWEEP_QUERY_PAGE_SIZE"
  by (simp add: SUBSCRIPTION_SWEEP_QUERY_PAGE_SIZE_def)

lemma scan_one_pass:
  assumes "distinct_orgs (subs st)"
  shows "scan due now cursor st =
           fold (transition now)
             (sort_key organizationId (filter (\<lambda>r. due r \<and> after cursor r) (subs st))) st"
  using assms
proof (induction due now cursor st rule: scan.induct)
  case (1 due now cursor st)
  define page where "page = findPage due cursor SUBSCRIPTION_SWEEP_QUERY_PAGE_SIZE (subs st)"
  show ?case
  proof (cases "length page < SUBSCRIPTION_SWEEP_QUERY_PAGE_SIZE")
    case True
    then show ?thesis
      using transitions.last_page [OF page_def]
      by (simp add: scan.simps [of due now cursor st] Let_def flip: page_def)
  next
    case False
    have "distinct_orgs (subs (fold (transition now) page st))"
      using 1(2) by (simp add: fold_transition_keys)
    from 1(1) [OF page_def refl False this]
    show ?thesis
      using transitions.next_pages [OF 1(2) page_def page_size_pos False, of now, symmetric] False
      by (simp add: scan.simps [of due now cursor st] Let_def fold_append flip: page_def)
  qed
qed

lemma applyPages_one_pass:
  assumes "distinct_orgs (cs_subs st)"
  shows "applyPages now cursor st =
           fold applyChange
             (sort_key organizationId (filter (\<lambda>r. due_change now r \<and> after cursor r) (cs_subs st))) st"
  using assms
proof (induction now cursor st rule: applyPages.induct)
  case (1 now cursor st)
  define page where "page = findPage (due_change now) cursor SUBSCRIPTION_SWEEP_QUERY_PAGE_SIZE (cs_subs st)"
  show ?case
  proof (cases "length page < SUBSCRIPTION_SWEEP_QUERY_PAGE_SIZE")
    case True
    then show ?thesis
      using changes.last_page [OF page_def]
      by (simp add: applyPages.simps [of now cursor st] Let_def flip: page_def)
  next
    case False
    have "distinct_orgs (cs_subs (fold applyChange page st))"
      using 1(2) by (simp add: fold_applyChange_keys)
    from 1(1) [OF page_def refl False this]
    show ?thesis
      using changes.next_pages [OF 1(2) page_def page_size_pos False, symmetric] False
      by (simp add: applyPages.simps [of now cursor st] Let_def fold_append flip: page_def)
  qed
qed

subsection \<open>One pass is the specification\<close>

lemma due_period_eff:
  "due_period now r \<Longrightarrow> eff r now =
     (if cancelAtPeriodEnd r then cancelled
      else if isPast (resolveGraceEndsAt r) now then expired else grace_period)"
  by (simp add: due_period_def eff_active)

lemma due_grace_eff: "due_grace now r \<Longrightarrow> eff r now = expired"
  by (auto simp: due_grace_def eff_grace_period resolveGraceEndsAt_def isPast_def split: option.splits)

lemma due_transition:
  assumes "due_period now s \<or> due_grace now s"
  shows "eff s now = grace_period \<and> grace_guard s \<or> eff s now = cancelled \<and> cancel_guard s
         \<or> eff s now = expired \<and> expire_guard s \<and> status s \<noteq> expired"
  using assms
proof
  assume d: "due_period now s"
  then have "status s = active" by (simp add: due_period_def)
  with due_period_eff [OF d] show ?thesis
    by (simp add: grace_guard_def cancel_guard_def expire_guard_def)
next
  assume d: "due_grace now s"
  then have "status s = grace_period" by (simp add: due_grace_def)
  with due_grace_eff [OF d] show ?thesis by (simp add: expire_guard_def)
qed

lemma transition_writes:
  assumes "distinct_orgs (subs st)" "s \<in> set (subs st)" "due_period now s \<or> due_grace now s"
  shows "transition now s st =
     (let new = eff s now in
      st\<lparr>subs := map (\<lambda>r. if organizationId r = organizationId s then lapsedRow now s else r) (subs st),
         audit := audit st @ [transitionEntry now s],
         invalidated := invalidated st @ [organizationId s],
         graceStarted := graceStarted st + (if new = grace_period then 1 else 0),
         cancelledCount := cancelledCount st + (if new = cancelled then 1 else 0),
         expiredCount := expiredCount st + (if new = expired then 1 else 0)\<rparr>)"
proof -
  have same: "map (\<lambda>r. if organizationId r = organizationId s then f r else r) (subs st) =
              map (\<lambda>r. if organizationId r = organizationId s then f s else r) (subs st)" for f
    using assms(1,2) by (intro map_cong refl) (metis distinct_keys_unique)
  consider (g) "eff s now = grace_period" "grace_guard s"
    | (c) "eff s now = cancelled" "cancel_guard s"
    | (e) "eff s now = expired" "expire_guard s" "status s \<noteq> expired"
    using due_transition [OF assms(3)] by blast
  then show ?thesis
  proof cases
    case g
    then have "status s \<noteq> grace_period" by (simp add: grace_guard_def)
    with g show ?thesis
      using same [of "\<lambda>r. r\<lparr>status := grace_period,
              graceEndsAt := effectiveGraceEndsAt (resolveEffectiveSubscriptionStatus s now)\<rparr>"]
      by (simp add: transition_def Let_def markGraceStarted_def transitionEntry_def lapsedRow_def
          grace_started.write_row [OF assms(1,2)])
  next
    case c
    then have "status s \<noteq> cancelled" by (simp add: cancel_guard_def)
    with c show ?thesis
      using same [of "\<lambda>r. r\<lparr>status := cancelled\<rparr>"]
      by (simp add: transition_def Let_def markCancelledAtPeriodEnd_def transitionEntry_def
          lapsedRow_def period_cancelled.write_row [OF assms(1,2)])
  next
    case e
    then show ?thesis
      using same [of "\<lambda>r. r\<lparr>status := expired,
              graceEndsAt := effectiveGraceEndsAt (resolveEffectiveSubscriptionStatus s now)\<rparr>"]
      by (simp add: transition_def Let_def markExpired_def transitionEntry_def lapsedRow_def
          paid_expired.write_row [OF assms(1,2)])
  qed
qed

lemma fold_transition_writes:
  assumes "distinct_orgs (subs st)" "set L \<subseteq> set (subs st)" "distinct (map organizationId L)"
    and "\<And>s. s \<in> set L \<Longrightarrow> due_period now s \<or> due_grace now s"
  shows "subs (fold (transition now) L st) =
           map (\<lambda>r. if r \<in> set L then lapsedRow now r else r) (subs st)
         \<and> audit (fold (transition now) L st) = audit st @ map (transitionEntry now) L
         \<and> invalidated (fold (transition now) L st) = invalidated st @ map organizationId L
         \<and> graceStarted (fold (transition now) L st) =
             graceStarted st + count_rows (\<lambda>r. eff r now = grace_period) L
         \<and> cancelledCount (fold (transition now) L st) =
             cancelledCount st + count_rows (\<lambda>r. eff r now = cancelled) L
         \<and> expiredCount (fold (transition now) L st) =
             expiredCount st + count_rows (\<lambda>r. eff r now = expired) L"
  using assms
proof (induction L arbitrary: st)
  case Nil
  then show ?case by (simp add: count_rows_def)
next
  case (Cons s L)
  let ?st = "transition now s st"
  have s: "s \<in> set (subs st)" and due: "due_period now s \<or> due_grace now s"
    using Cons.prems by auto
  note tr = transition_writes [OF Cons.prems(1) s due]
  have key: "organizationId r = organizationId s \<longleftrightarrow> r = s" if "r \<in> set (subs st)" for r
    using that s Cons.prems(1) by (metis distinct_keys_unique)
  have sub: "subs ?st = map (\<lambda>r. if r = s then lapsedRow now s else r) (subs st)"
    using key by (simp add: tr Let_def)
  have "organizationId s \<notin> organizationId ` set L" using Cons.prems(3) by simp
  then have notin: "lapsedRow now s \<notin> set L" "s \<notin> set L"
    by (metis imageI lapsedRow_key, metis imageI)
  have "distinct_orgs (subs ?st)" using Cons.prems(1) by (simp add: transition_keys)
  moreover have "set L \<subseteq> set (subs ?st)"
    using Cons.prems(2) notin by (force simp: sub)
  moreover have "distinct (map organizationId L)" using Cons.prems(3) by simp
  ultimately have IH: "subs (fold (transition now) L ?st) =
           map (\<lambda>r. if r \<in> set L then lapsedRow now r else r) (subs ?st)
         \<and> audit (fold (transition now) L ?st) = audit ?st @ map (transitionEntry now) L
         \<and> invalidated (fold (transition now) L ?st) = invalidated ?st @ map organizationId L
         \<and> graceStarted (fold (transition now) L ?st) =
             graceStarted ?st + count_rows (\<lambda>r. eff r now = grace_period) L
         \<and> cancelledCount (fold (transition now) L ?st) =
             cancelledCount ?st + count_rows (\<lambda>r. eff r now = cancelled) L
         \<and> expiredCount (fold (transition now) L ?st) =
             expiredCount ?st + count_rows (\<lambda>r. eff r now = expired) L"
    by (rule Cons.IH) (use Cons.prems(4) in simp)
  have "map (\<lambda>r. if r \<in> set L then lapsedRow now r else r) (subs ?st) =
        map (\<lambda>r. if r \<in> set (s # L) then lapsedRow now r else r) (subs st)"
    using notin by (auto simp: sub)
  with IH show ?case by (simp add: tr Let_def count_rows_def)
qed

lemma filter_pages_set:
  assumes "distinct_orgs t" "r \<in> set t"
  shows "r \<in> set (sort_key organizationId (filter p t)) \<longleftrightarrow> p r"
  using assms by simp

lemma first_scan:
  assumes "distinct_orgs (subs st)"
  shows "subs (scan (due_period now) now None st) =
           map (\<lambda>r. if due_period now r then lapsedRow now r else r) (subs st)"
    and "fold (transition now) (sort_key organizationId (filter (due_period now) (subs st))) st =
           scan (due_period now) now None st"
proof -
  show *: "fold (transition now) (sort_key organizationId (filter (due_period now) (subs st))) st =
           scan (due_period now) now None st"
    using scan_one_pass [OF assms, of "due_period now" now None] by (simp add: after_def)
  have "subs (fold (transition now) (sort_key organizationId (filter (due_period now) (subs st))) st) =
        map (\<lambda>r. if r \<in> set (sort_key organizationId (filter (due_period now) (subs st)))
                 then lapsedRow now r else r) (subs st)"
    by (rule fold_transition_writes [THEN conjunct1])
      (use assms in \<open>auto simp: distinct_map inj_on_def\<close>)
  then show "subs (scan (due_period now) now None st) =
           map (\<lambda>r. if due_period now r then lapsedRow now r else r) (subs st)"
    by (simp add: *)
qed

lemma lapsedRow_due_grace:
  "due_period now r \<Longrightarrow> \<not> due_grace now (lapsedRow now r) \<and> \<not> due_period now (lapsedRow now r)"
proof -
  assume d: "due_period now r"
  then have "status r = active" "isPast (currentPeriodEnd r) now" by (auto simp: due_period_def)
  then show ?thesis
    by (auto simp: lapsedRow_def due_grace_def due_period_def resolveEffectiveSubscriptionStatus_def
        Let_def split: tenant_status.splits)
qed

lemma due_grace_not_period: "due_grace now r \<Longrightarrow> \<not> due_period now r"
  by (auto simp: due_grace_def due_period_def)

lemma grace_after_first_scan:
  "filter (due_grace now) (map (\<lambda>r. if due_period now r then lapsedRow now r else r) t) =
     filter (due_grace now) t"
  by (induction t) (auto simp: lapsedRow_due_grace due_grace_not_period)

text \<open>The rows the paid sweep writes, in the order it visits them.\<close>

definition dueRows :: "instant \<Rightarrow> sub_table \<Rightarrow> sub_table" where
  "dueRows now t = sort_key organizationId (filter (due_period now) t)
                 @ sort_key organizationId (filter (due_grace now) t)"

lemma paid_sweep_writes:
  assumes "distinct_orgs (subs st)"
  shows "subs (expireDuePaidPeriods (Some owner) now st) = map (sweptRow now) (subs st)
       \<and> audit (expireDuePaidPeriods (Some owner) now st) =
           audit st @ map (transitionEntry now) (dueRows now (subs st))
       \<and> invalidated (expireDuePaidPeriods (Some owner) now st) =
           invalidated st @ map organizationId (dueRows now (subs st))
       \<and> graceStarted (expireDuePaidPeriods (Some owner) now st) =
           count_rows (\<lambda>r. eff r now = grace_period) (dueRows now (subs st))
       \<and> cancelledCount (expireDuePaidPeriods (Some owner) now st) =
           count_rows (\<lambda>r. eff r now = cancelled) (dueRows now (subs st))
       \<and> expiredCount (expireDuePaidPeriods (Some owner) now st) =
           count_rows (\<lambda>r. eff r now = expired) (dueRows now (subs st))"
proof -
  define st0 where "st0 = st\<lparr>graceStarted := 0, cancelledCount := 0, expiredCount := 0\<rparr>"
  define L where "L = sort_key organizationId (filter (due_period now) (subs st))"
  define G where "G = sort_key organizationId (filter (due_grace now) (subs st))"
  define st1 where "st1 = scan (due_period now) now None st0"
  have dist: "distinct_orgs (subs st0)" using assms by (simp add: st0_def)
  have subs1: "subs st1 = map (\<lambda>r. if due_period now r then lapsedRow now r else r) (subs st)"
    using first_scan(1) [OF dist, of now] by (simp add: st1_def st0_def)
  have st1: "st1 = fold (transition now) L st0"
    using first_scan(2) [OF dist, of now] by (simp add: st1_def L_def st0_def)
  have dist1: "distinct_orgs (subs st1)"
    using dist by (simp add: st1 fold_transition_keys)
  have run: "expireDuePaidPeriods (Some owner) now st = fold (transition now) G st1"
    using scan_one_pass [OF dist1, of "due_grace now" now None]
    by (simp add: expireDuePaidPeriods_def after_def G_def subs1 grace_after_first_scan
        flip: st0_def st1_def)
  have L: "set L \<subseteq> set (subs st0)" "distinct (map organizationId L)"
      "\<And>s. s \<in> set L \<Longrightarrow> due_period now s \<or> due_grace now s"
    using assms by (auto simp: L_def st0_def distinct_map inj_on_def)
  have "set G \<subseteq> set (filter (due_grace now) (subs st1))"
    by (simp only: subs1 grace_after_first_scan) (simp add: G_def)
  then have G: "set G \<subseteq> set (subs st1)" by auto
  have G': "distinct (map organizationId G)"
      "\<And>s. s \<in> set G \<Longrightarrow> due_period now s \<or> due_grace now s"
    using assms by (auto simp: G_def distinct_map inj_on_def)
  note one = fold_transition_writes [OF dist L, folded st1]
  note two = fold_transition_writes [OF dist1 G G', folded run]
  have swept: "map (\<lambda>r. if r \<in> set G then lapsedRow now r else r) (subs st1) = map (sweptRow now) (subs st)"
  proof -
    have "(r \<in> set G) = due_grace now r" if "r \<in> set (subs st)" for r
      using that by (simp add: G_def)
    moreover have "lapsedRow now r \<notin> set G" if "due_period now r" for r
      using lapsedRow_due_grace [OF that] by (simp add: G_def)
    ultimately show ?thesis
      by (auto simp: subs1 sweptRow_def)
  qed
  have rows: "dueRows now (subs st) = L @ G" by (simp add: dueRows_def L_def G_def)
  show ?thesis
    using one two swept by (simp add: rows st0_def count_rows_def)
qed

lemma sweptRow_not_due: "\<not> due_period now (sweptRow now r) \<and> \<not> due_grace now (sweptRow now r)"
proof (cases "due_period now r")
  case True
  with lapsedRow_due_grace show ?thesis by (simp add: sweptRow_def)
next
  case False
  then show ?thesis
    using due_grace_eff [of now r]
    by (auto simp: sweptRow_def lapsedRow_def Let_def due_period_def due_grace_def)
qed

lemma dueRows_swept: "dueRows now (map (sweptRow now) t) = []"
  by (simp add: dueRows_def sweptRow_not_due)

lemma sweptRow_idem: "sweptRow now (sweptRow now r) = sweptRow now r"
  using sweptRow_not_due [of now r] by (simp add: sweptRow_def [of now "sweptRow now r"])

subsection \<open>Trials and scheduled changes\<close>

lemma fold_markTrialExpired:
  assumes "\<And>s. s \<in> set L \<Longrightarrow> organizationId s \<in> organizationId ` set t"
  shows "fold (\<lambda>s t. case markTrialExpired (organizationId s) t of Some t' \<Rightarrow> t' | None \<Rightarrow> t) L t =
           map (\<lambda>r. if organizationId r \<in> organizationId ` set L
                    then r\<lparr>status := trial_expired\<rparr> else r) t"
  using assms
proof (induction L arbitrary: t)
  case (Cons s L)
  let ?t = "map (\<lambda>r. if organizationId r = organizationId s then r\<lparr>status := trial_expired\<rparr> else r) t"
  have keys: "organizationId ` set ?t = organizationId ` set t"
    unfolding set_map image_image by (rule image_cong) auto
  have "markTrialExpired (organizationId s) t = Some ?t"
    using Cons.prems by (simp add: markTrialExpired_def)
  moreover have "fold (\<lambda>s t. case markTrialExpired (organizationId s) t of Some t' \<Rightarrow> t' | None \<Rightarrow> t) L ?t =
      map (\<lambda>r. if organizationId r \<in> organizationId ` set L
               then r\<lparr>status := trial_expired\<rparr> else r) ?t"
    by (rule Cons.IH) (use Cons.prems keys in auto)
  ultimately show ?case by auto
qed simp

lemma trial_sweep_rows:
  assumes "distinct_orgs t"
  shows "expireDueTrials (Some owner) now t = (map (trialRow now) t, count_rows (due_trial now) t)"
proof -
  have "organizationId r \<in> organizationId ` set (filter (due_trial now) t) \<longleftrightarrow> due_trial now r"
    if "r \<in> set t" for r
    using assms that by (auto dest: distinct_keys_unique)
  then have "map (\<lambda>r. if organizationId r \<in> organizationId ` set (filter (due_trial now) t)
               then r\<lparr>status := trial_expired\<rparr> else r) t = map (trialRow now) t"
    by (intro map_cong refl) (simp only: trialRow_def)
  moreover have "fold (\<lambda>s t. case markTrialExpired (organizationId s) t of Some t' \<Rightarrow> t' | None \<Rightarrow> t)
        (filter (due_trial now) t) t =
      map (\<lambda>r. if organizationId r \<in> organizationId ` set (filter (due_trial now) t)
               then r\<lparr>status := trial_expired\<rparr> else r) t"
    by (rule fold_markTrialExpired) auto
  ultimately show ?thesis by (simp add: expireDueTrials_def count_rows_def)
qed

lemma applyChange_writes:
  assumes "distinct_orgs (cs_subs st)" "s \<in> set (cs_subs st)" "due_change now s"
  shows "cs_subs (applyChange s st) = map (\<lambda>r. if r = s then changedRow now r else r) (cs_subs st)"
proof -
  have key: "organizationId r = organizationId s \<longleftrightarrow> r = s" if "r \<in> set (cs_subs st)" for r
    using that assms(1,2) by (metis distinct_keys_unique)
  obtain d where d: "scheduledChangeAt s = Some d"
    using assms(3) by (auto simp: due_change_def isPast_def split: option.splits)
  show ?thesis
  proof (cases "scheduledPlanId s = None \<or> scheduledGrantedLimits s = DbNull")
    case True
    then have "applyChange s st = st" and same: "changedRow now s = s"
      by (auto simp: applyChange_def applyScheduledChange_def changedRow_def split: option.splits)
    moreover have "map (\<lambda>r. if r = s then changedRow now r else r) (cs_subs st) = cs_subs st"
      using same by (intro map_idI) auto
    ultimately show ?thesis by simp
  next
    case False
    then obtain plan where plan: "scheduledPlanId s = Some plan" "scheduledGrantedLimits s \<noteq> DbNull"
      by auto
    have guard: "scheduled_guard plan d s" by (simp add: scheduled_guard_def plan d)
    have "cs_subs (applyChange s st) =
       map (\<lambda>r. if organizationId r = organizationId s
                then r\<lparr>planId := plan, grantedLimits := scheduledGrantedLimits s,
                       scheduledPlanId := None, scheduledGrantedLimits := DbNull,
                       scheduledChangeAt := None\<rparr> else r) (cs_subs st)"
      using change_applied.write_row [OF assms(1,2) guard, of "scheduledGrantedLimits s"] plan d
      by (simp add: applyChange_def applyScheduledChange_def)
    also have "\<dots> = map (\<lambda>r. if r = s then changedRow now r else r) (cs_subs st)"
      by (intro map_cong refl) (use key plan assms(3) in \<open>auto simp: changedRow_def\<close>)
    finally show ?thesis .
  qed
qed

lemma fold_applyChange_writes:
  assumes "distinct_orgs (cs_subs st)" "set L \<subseteq> set (cs_subs st)" "distinct (map organizationId L)"
    and "\<And>s. s \<in> set L \<Longrightarrow> due_change now s"
  shows "cs_subs (fold applyChange L st) =
           map (\<lambda>r. if r \<in> set L then changedRow now r else r) (cs_subs st)"
  using assms
proof (induction L arbitrary: st)
  case (Cons s L)
  let ?st = "applyChange s st"
  have sub: "cs_subs ?st = map (\<lambda>r. if r = s then changedRow now r else r) (cs_subs st)"
    by (rule applyChange_writes) (use Cons.prems in auto)
  have "organizationId s \<notin> organizationId ` set L" using Cons.prems(3) by simp
  then have notin: "changedRow now s \<notin> set L" "s \<notin> set L"
    by (metis imageI changedRow_key, metis imageI)
  have "distinct_orgs (cs_subs ?st)" using Cons.prems(1) by (simp add: applyChange_keys)
  moreover have "set L \<subseteq> set (cs_subs ?st)"
    using Cons.prems(2) notin by (force simp: sub)
  moreover have "distinct (map organizationId L)" using Cons.prems(3) by simp
  ultimately have "cs_subs (fold applyChange L ?st) =
           map (\<lambda>r. if r \<in> set L then changedRow now r else r) (cs_subs ?st)"
    by (rule Cons.IH) (use Cons.prems(4) in simp)
  with notin show ?case by (auto simp: sub)
qed simp

lemma change_sweep_rows:
  assumes "distinct_orgs t"
  shows "cs_subs (applyDueScheduledPlanChanges (Some owner) now t) = map (changedRow now) t"
proof -
  let ?st = "\<lparr>cs_subs = t, cs_audit = [], cs_applied = 0\<rparr>"
  let ?L = "sort_key organizationId (filter (due_change now) t)"
  have "cs_subs (fold applyChange ?L ?st) =
          map (\<lambda>r. if r \<in> set ?L then changedRow now r else r) (cs_subs ?st)"
    by (rule fold_applyChange_writes) (use assms in \<open>auto simp: distinct_map inj_on_def\<close>)
  also have "\<dots> = map (changedRow now) t"
    by (auto simp: changedRow_def)
  finally show ?thesis
    using applyPages_one_pass [of ?st now None] assms
    by (simp add: applyDueScheduledPlanChanges_def after_def)
qed

subsection \<open>What the sweep persists is what readers already see\<close>

text \<open>
  A clock-driven write is invisible when a reader who derives the value live sees the
  same before and after it, at any later instant.
\<close>

locale lapse_clock =
  fixes persist :: "instant \<Rightarrow> 'r \<Rightarrow> 'r"
    and view :: "'r \<Rightarrow> instant \<Rightarrow> 'v"
  assumes invisible: "t \<le> t' \<Longrightarrow> view (persist t r) t' = view r t'"
begin

lemma invisible_fold: "\<forall>t \<in> set ts. t \<le> t' \<Longrightarrow> view (fold persist ts r) t' = view r t'"
  by (induction ts arbitrary: r) (simp_all add: invisible)

end

lemma eff_lapsedRow:
  assumes "t \<le> t'" "due_period t r \<or> due_grace t r"
  shows "eff (lapsedRow t r) t' = eff r t'"
  using assms(2)
proof
  assume d: "due_period t r"
  then have a: "status r = active" "isPast (currentPeriodEnd r) t" by (auto simp: due_period_def)
  then have late: "isPast (currentPeriodEnd r) t'" using assms(1) isPast_mono by blast
  from a have some: "resolveGraceEndsAt r \<noteq> None"
    by (auto simp: isPast_def resolveGraceEndsAt_def split: option.splits)
  then have res: "resolveGraceEndsAt (r\<lparr>status := grace_period, graceEndsAt := resolveGraceEndsAt r\<rparr>)
                  = resolveGraceEndsAt r"
    by (auto simp: resolveGraceEndsAt_def split: option.splits)
  consider (c) "cancelAtPeriodEnd r" | (e) "\<not> cancelAtPeriodEnd r" "isPast (resolveGraceEndsAt r) t"
    | (g) "\<not> cancelAtPeriodEnd r" "\<not> isPast (resolveGraceEndsAt r) t" by blast
  then show ?thesis
  proof cases
    case c
    with a late show ?thesis by (simp add: lapsedRow_def Let_def eff_active eff_undated)
  next
    case e
    moreover have "isPast (resolveGraceEndsAt r) t'" using e assms(1) isPast_mono by blast
    ultimately show ?thesis using a late by (simp add: lapsedRow_def Let_def eff_active eff_undated)
  next
    case g
    have "effectiveGraceEndsAt (resolveEffectiveSubscriptionStatus r t) = resolveGraceEndsAt r"
      using a g by (simp add: resolveEffectiveSubscriptionStatus_def Let_def)
    with a g late res show ?thesis
      by (simp add: lapsedRow_def Let_def eff_active eff_grace_period)
  qed
next
  assume d: "due_grace t r"
  then have "eff r t' = expired"
    using assms(1) isPast_mono by (intro due_grace_eff) (auto simp: due_grace_def)
  moreover have "eff r t = expired" using d by (rule due_grace_eff)
  ultimately show ?thesis by (simp add: lapsedRow_def Let_def eff_undated)
qed

interpretation swept: lapse_clock sweptRow eff
  by unfold_locales (simp add: sweptRow_def eff_lapsedRow)

interpretation trialed: lapse_clock trialRow eff
  using isPast_mono
  by unfold_locales (auto simp: trialRow_def due_trial_def eff_trialing eff_undated)

lemma status_changedRow: "status (changedRow t r) = status r"
  "trialEndsAt (changedRow t r) = trialEndsAt r" "currentPeriodEnd (changedRow t r) = currentPeriodEnd r"
  "graceEndsAt (changedRow t r) = graceEndsAt r" "cancelAtPeriodEnd (changedRow t r) = cancelAtPeriodEnd r"
  by (simp_all add: changedRow_def)

interpretation changed: lapse_clock changedRow eff
proof unfold_locales
  fix t t' r assume "t \<le> (t' :: instant)"
  have "resolveGraceEndsAt (changedRow t r) = resolveGraceEndsAt r"
    by (simp add: resolveGraceEndsAt_def status_changedRow cong: option.case_cong)
  then show "eff (changedRow t r) t' = eff r t'"
    by (cases "status r") (simp_all add: eff_simps status_changedRow)
qed

definition tickRow :: "instant \<Rightarrow> tenant_subscription \<Rightarrow> tenant_subscription" where
  "tickRow now r = sweptRow now (changedRow now (trialRow now r))"

interpretation ticked: lapse_clock tickRow eff
  by unfold_locales (simp add: tickRow_def swept.invisible changed.invisible trialed.invisible)

lemma run_rows:
  assumes "distinct_orgs (subs st)"
  shows "subs (subscriptionSweepRun (Some owner) n1 n2 n3 st) =
           map (\<lambda>r. sweptRow n3 (changedRow n2 (trialRow n1 r))) (subs st)"
proof -
  have d1: "distinct_orgs (map (trialRow n1) (subs st))"
    using assms by (simp add: comp_def)
  have d2: "distinct_orgs (map (changedRow n2) (map (trialRow n1) (subs st)))"
    using assms by (simp add: comp_def)
  show ?thesis
    using paid_sweep_writes [of "st\<lparr>subs := map (changedRow n2) (map (trialRow n1) (subs st))\<rparr>" owner n3] d2
    by (simp add: subscriptionSweepRun_def Let_def trial_sweep_rows [OF assms] change_sweep_rows [OF d1])
qed

lemma run_keys:
  "distinct_orgs (subs st) \<Longrightarrow>
     map organizationId (subs (subscriptionSweepRun (Some owner) n1 n2 n3 st)) = map organizationId (subs st)"
  by (simp add: run_rows comp_def)

definition sweepRuns :: "uid \<Rightarrow> (instant \<times> instant \<times> instant) list \<Rightarrow> sweep_state \<Rightarrow> sweep_state" where
  "sweepRuns owner ticks st =
     fold (\<lambda>(n1, n2, n3). subscriptionSweepRun (Some owner) n1 n2 n3) ticks st"

lemma run_eff:
  assumes "distinct_orgs (subs st)" "n1 \<le> now" "n2 \<le> now" "n3 \<le> now"
  shows "map (\<lambda>r. (organizationId r, eff r now)) (subs (subscriptionSweepRun (Some owner) n1 n2 n3 st))
         = map (\<lambda>r. (organizationId r, eff r now)) (subs st)"
  using assms by (simp add: run_rows swept.invisible changed.invisible trialed.invisible)

subsection \<open>Properties\<close>

text \<open>
  C1. The sweep never changes what a reader sees. However many ticks the sweep has run,
  at whatever instants up to \<open>now\<close>, and however late, every organization has at \<open>now\<close> the
  effective status, the access and the serving eligibility it would have had if the sweep
  had never run.
\<close>

theorem sweep_agnostic:
  assumes "distinct_orgs (subs st)"
    and "\<forall>(n1, n2, n3) \<in> set ticks. n1 \<le> now \<and> n2 \<le> now \<and> n3 \<le> now"
  shows "map (\<lambda>r. (organizationId r, eff r now, hasAccess (getAccessState (Some r) now),
                   isServingEligible (Some r) now)) (subs (sweepRuns owner ticks st))
       = map (\<lambda>r. (organizationId r, eff r now, hasAccess (getAccessState (Some r) now),
                   isServingEligible (Some r) now)) (subs st)"
proof -
  have "map (\<lambda>r. (organizationId r, eff r now)) (subs (sweepRuns owner ticks st)) =
        map (\<lambda>r. (organizationId r, eff r now)) (subs st)"
    using assms
  proof (induction ticks arbitrary: st)
    case (Cons tick ticks)
    obtain n1 n2 n3 where tick: "tick = (n1, n2, n3)" by (cases tick)
    let ?st = "subscriptionSweepRun (Some owner) n1 n2 n3 st"
    have "distinct_orgs (subs ?st)" using Cons.prems(1) by (simp add: run_keys)
    then have "map (\<lambda>r. (organizationId r, eff r now)) (subs (sweepRuns owner ticks ?st)) =
          map (\<lambda>r. (organizationId r, eff r now)) (subs ?st)"
      by (rule Cons.IH) (use Cons.prems(2) in simp)
    also have "\<dots> = map (\<lambda>r. (organizationId r, eff r now)) (subs st)"
      by (rule run_eff) (use Cons.prems tick in simp_all)
    finally show ?case by (simp add: sweepRuns_def tick)
  qed (simp add: sweepRuns_def)
  then have "map (\<lambda>(k, e). (k, e, e \<notin> {no_plan, trial_expired, expired, cancelled},
                               e \<notin> {trial_expired, expired, cancelled}))
               (map (\<lambda>r. (organizationId r, eff r now)) (subs (sweepRuns owner ticks st))) =
        map (\<lambda>(k, e). (k, e, e \<notin> {no_plan, trial_expired, expired, cancelled},
                               e \<notin> {trial_expired, expired, cancelled}))
               (map (\<lambda>r. (organizationId r, eff r now)) (subs st))"
    by (rule arg_cong)
  then show ?thesis by (simp add: comp_def hasAccess_eff isServingEligible_eff)
qed

definition exampleRow :: "uid \<Rightarrow> tenant_status \<Rightarrow> instant \<Rightarrow> tenant_subscription" where
  "exampleRow org st ends =
     (newSubscription org ''plan'' st (if st = trialing then Some ends else None))
       \<lparr>currentPeriodEnd := (if st = trialing then None else Some ends)\<rparr>"

definition exampleState :: sweep_state where
  "exampleState =
     \<lparr>subs = [exampleRow ''b'' active 1000, exampleRow ''a'' trialing 1000,
              (exampleRow ''c'' active 1000)\<lparr>cancelAtPeriodEnd := True\<rparr>],
      audit = [], invalidated = [], graceStarted = 0, cancelledCount = 0, expiredCount = 0\<rparr>"

lemmas example_defs = exampleState_def exampleRow_def newSubscription_def

lemma example_distinct: "distinct_orgs (subs exampleState)"
  by (simp add: example_defs)

lemma sweep_agnostic_witness:
  "map (\<lambda>r. (organizationId r, eff r 604801000))
      (subs (sweepRuns ''po'' [(0, 0, 0), (1000, 1000, 1000), (5000, 6000, 7000)] exampleState))
   = [(''b'', expired), (''a'', trial_expired), (''c'', cancelled)]"
proof -
  have "\<forall>(n1, n2, n3) \<in> set [(0 :: int, 0 :: int, 0 :: int), (1000, 1000, 1000), (5000, 6000, 7000)].
          n1 \<le> 604801000 \<and> n2 \<le> 604801000 \<and> n3 \<le> 604801000"
    by simp
  from arg_cong [where f = "map (\<lambda>(k, e, _). (k, e))",
      OF sweep_agnostic [OF example_distinct this, of "''po''"]]
  show ?thesis
    by (simp add: comp_def example_defs eff_active eff_trialing isPast_def resolveGraceEndsAt_def
        GRACE_PERIOD_MS_eq)
qed

text \<open>
  C3. The paginated paid sweep is one pass over the table: it writes each due row once with
  what the effective status says, leaves every other row as it was, writes one audit entry
  and one cache invalidation per transition in the order of the organization ids, and its
  counters count those transitions.
\<close>

theorem paid_sweep_one_pass:
  assumes "distinct_orgs (subs st)"
  shows "subs (expireDuePaidPeriods (Some owner) now st) = map (sweptRow now) (subs st)
       \<and> audit (expireDuePaidPeriods (Some owner) now st) =
           audit st @ map (transitionEntry now) (dueRows now (subs st))
       \<and> invalidated (expireDuePaidPeriods (Some owner) now st) =
           invalidated st @ map organizationId (dueRows now (subs st))
       \<and> graceStarted (expireDuePaidPeriods (Some owner) now st) =
           count_rows (\<lambda>r. eff r now = grace_period) (dueRows now (subs st))
       \<and> cancelledCount (expireDuePaidPeriods (Some owner) now st) =
           count_rows (\<lambda>r. eff r now = cancelled) (dueRows now (subs st))
       \<and> expiredCount (expireDuePaidPeriods (Some owner) now st) =
           count_rows (\<lambda>r. eff r now = expired) (dueRows now (subs st))"
  using assms by (rule paid_sweep_writes)

lemma paid_sweep_one_pass_witness:
  "map (\<lambda>a. (ae_organization a, ae_newStatus a))
     (audit (expireDuePaidPeriods (Some ''po'') 2000 exampleState))
     = [(''b'', grace_period), (''c'', cancelled)]
   \<and> graceStarted (expireDuePaidPeriods (Some ''po'') 2000 exampleState) = 1"
proof -
  have rows: "dueRows 2000 (subs exampleState) =
     [exampleRow ''b'' active 1000, (exampleRow ''c'' active 1000)\<lparr>cancelAtPeriodEnd := True\<rparr>]"
    by (simp add: dueRows_def example_defs due_period_def due_grace_def isPast_def)
  show ?thesis
    using paid_sweep_one_pass [OF example_distinct, of "''po''" 2000]
    by (simp only: rows)
      (simp add: example_defs transitionEntry_def count_rows_def eff_active isPast_def
        resolveGraceEndsAt_def GRACE_PERIOD_MS_eq)
qed

text \<open>
  The sweep is idempotent: run again at the same instant it changes no row, writes no
  audit entry, invalidates no cache and reports three zeros.
\<close>

theorem paid_sweep_idempotent:
  assumes "distinct_orgs (subs st)"
  shows "expireDuePaidPeriods (Some owner) now (expireDuePaidPeriods (Some owner) now st) =
           (expireDuePaidPeriods (Some owner) now st)
             \<lparr>graceStarted := 0, cancelledCount := 0, expiredCount := 0\<rparr>"
proof -
  let ?once = "expireDuePaidPeriods (Some owner) now st"
  have rows: "subs ?once = map (sweptRow now) (subs st)"
    using paid_sweep_writes [OF assms(1)] by simp
  then have "distinct_orgs (subs ?once)" using assms(1) by (simp add: comp_def)
  from paid_sweep_writes [OF this, of owner now] show ?thesis
    by (intro sweep_state.equality)
      (simp_all add: rows dueRows_swept sweptRow_idem count_rows_def comp_def)
qed

lemma paid_sweep_idempotent_witness:
  "expireDuePaidPeriods (Some ''po'') 2000 (expireDuePaidPeriods (Some ''po'') 2000 exampleState) =
     (expireDuePaidPeriods (Some ''po'') 2000 exampleState)
       \<lparr>graceStarted := 0, cancelledCount := 0, expiredCount := 0\<rparr>"
  by (rule paid_sweep_idempotent [OF example_distinct])

end
