(* ===== verification/Subscription_Lifecycle.thy ===== *)
theory Subscription_Lifecycle
  imports Sweep_Correctness
begin

text \<open>
  The life of the subscription table as a step relation: one rule per writer, in any order
  and with stale reads where the code reads in one transaction and writes in another. The
  lemmas give the row invariant every reachable table satisfies, and what follows from it:
  a trial is started at most once per organization and no row escapes the sweep's queries.
\<close>

subsection \<open>The row invariant\<close>

definition wf_schedule :: "tenant_subscription \<Rightarrow> bool" where
  "wf_schedule r \<longleftrightarrow>
     (scheduledChangeAt r = None \<longleftrightarrow> scheduledPlanId r = None)
   \<and> (scheduledGrantedLimits r = DbNull \<longleftrightarrow> scheduledPlanId r = None)"

definition wf_gift :: "tenant_subscription \<Rightarrow> bool" where
  "wf_gift r \<longleftrightarrow>
     (giftedPaymentId r = None \<longleftrightarrow> giftedDays r = None)
   \<and> (giftedStartsAt r = None \<longleftrightarrow> giftedDays r = None)
   \<and> (giftedEndsAt r = None \<longleftrightarrow> giftedDays r = None)"

definition wf_dates :: "tenant_subscription \<Rightarrow> bool" where
  "wf_dates r \<longleftrightarrow>
     status r \<noteq> past_due \<and> status r \<noteq> paused
   \<and> (status r = no_plan \<longrightarrow> trialEndsAt r = None)
   \<and> (status r = trialing \<longrightarrow> trialEndsAt r \<noteq> None)
   \<and> (status r = active \<longrightarrow> currentPeriodEnd r \<noteq> None \<and> graceEndsAt r = None)
   \<and> (status r = grace_period \<longrightarrow> graceEndsAt r \<noteq> None)"

definition wf_sub :: "tenant_subscription \<Rightarrow> bool" where
  "wf_sub r \<longleftrightarrow> wf_schedule r \<and> wf_gift r \<and> wf_dates r"

lemmas wf_sub_defs = wf_sub_def wf_schedule_def wf_gift_def wf_dates_def

lemma wf_datedWell: "wf_sub r \<Longrightarrow> datedWell r"
  by (simp add: wf_sub_def wf_dates_def datedWell_def)

definition wf_table :: "sub_table \<Rightarrow> bool" where
  "wf_table t \<longleftrightarrow> distinct_orgs t \<and> (\<forall>r \<in> set t. wf_sub r)"

lemma wf_table_map:
  assumes "wf_table t" and "\<And>r. organizationId (f r) = organizationId r"
    and "\<And>r. r \<in> set t \<Longrightarrow> wf_sub r \<Longrightarrow> wf_sub (f r)"
  shows "wf_table (map f t)"
  using assms by (simp add: wf_table_def comp_def)

subsection \<open>The writers\<close>

datatype sub_event =
  Bootstrapped uid | TrialStarted uid | TrialExpired | SweptPeriod | ChangeApplied
  | TrialCancelled | PaidCancelled | Purchased | Adjusted | PlanChanged | NoticeDismissed | NoticeWritten

inductive sub_step :: "sub_event \<Rightarrow> sub_table \<Rightarrow> sub_table \<Rightarrow> bool" where
  bootstrap: "bootstrapSubscription plan org t = Some t' \<Longrightarrow> sub_step (Bootstrapped org) t t'"
| start_trial: "startTrial org plan ends granted t = (t', True) \<Longrightarrow> sub_step (TrialStarted org) t t'"
| expire_trial: "markTrialExpired org t = Some t' \<Longrightarrow> sub_step TrialExpired t t'"
| sweep: "subs st = t \<Longrightarrow> sub_step SweptPeriod t (subs (transition now s st))"
| apply_change: "cs_subs st = t \<Longrightarrow> sub_step ChangeApplied t (cs_subs (applyChange s st))"
| cancel_trial: "sub_step TrialCancelled t (markTrialCancelled org t)"
| cancel_paid: "sub_step PaidCancelled t (markPaidCancelAtPeriodEnd org t)"
| purchase: "pp_grantedLimits d \<noteq> DbNull \<Longrightarrow> sub_step Purchased t (upsertForPlanPurchase org d t)"
| adjust: "adjustDays org days now t = Inr t' \<Longrightarrow> sub_step Adjusted t t'"
| change_plan: "changePlan org plan when now t = Inr t' \<Longrightarrow> sub_step PlanChanged t t'"
| dismiss: "dismissPriceChangeNotice org now t = (t', ok) \<Longrightarrow> sub_step NoticeDismissed t t'"
| write_notice: "sub_step NoticeWritten t (writePriceChangeNotice org notice t)"

inductive_cases started_stepE: "sub_step (TrialStarted org) t t'"

inductive sub_trace :: "sub_event list \<Rightarrow> sub_table \<Rightarrow> bool" where
  nothing: "sub_trace [] []"
| next_step: "sub_trace es t \<Longrightarrow> sub_step e t t' \<Longrightarrow> sub_trace (es @ [e]) t'"

inductive_simps sub_trace_Nil: "sub_trace [] t"

subsection \<open>Every writer keeps the invariant\<close>

lemma wf_guarded:
  assumes "wf_table t" and "\<And>r. organizationId (f r) = organizationId r"
    and "\<And>r. wf_sub r \<Longrightarrow> p r \<Longrightarrow> wf_sub (f r)"
  shows "wf_table (fst (guarded organizationId p f k t))"
  unfolding guarded_alt fst_conv by (rule wf_table_map) (use assms in auto)

lemma newSubscription_key [simp]: "organizationId (newSubscription org plan st ends) = org"
  by (simp add: newSubscription_def)

lemma wf_new: "wf_sub (newSubscription org plan no_plan None)"
  by (simp add: newSubscription_def wf_sub_defs)

lemma wf_schedule_status:
  "wf_schedule (r\<lparr>status := x\<rparr>) = wf_schedule r" "wf_schedule (r\<lparr>graceEndsAt := g\<rparr>) = wf_schedule r"
  "wf_schedule (r\<lparr>trialEndsAt := d\<rparr>) = wf_schedule r" "wf_schedule (r\<lparr>currentPeriodEnd := d\<rparr>) = wf_schedule r"
  "wf_schedule (r\<lparr>cancelAtPeriodEnd := b\<rparr>) = wf_schedule r" "wf_schedule (r\<lparr>planId := i\<rparr>) = wf_schedule r"
  "wf_schedule (r\<lparr>grantedLimits := l\<rparr>) = wf_schedule r"
  "wf_schedule (r\<lparr>priceChangeNoticeDismissedAt := d\<rparr>) = wf_schedule r"
  "wf_schedule (r\<lparr>priceChangeNotice := n\<rparr>) = wf_schedule r"
  by (simp_all add: wf_schedule_def)

lemma wf_gift_status:
  "wf_gift (r\<lparr>status := x\<rparr>) = wf_gift r" "wf_gift (r\<lparr>graceEndsAt := g\<rparr>) = wf_gift r"
  "wf_gift (r\<lparr>trialEndsAt := d\<rparr>) = wf_gift r" "wf_gift (r\<lparr>currentPeriodEnd := d\<rparr>) = wf_gift r"
  "wf_gift (r\<lparr>cancelAtPeriodEnd := b\<rparr>) = wf_gift r" "wf_gift (r\<lparr>planId := i\<rparr>) = wf_gift r"
  "wf_gift (r\<lparr>grantedLimits := l\<rparr>) = wf_gift r"
  "wf_gift (r\<lparr>scheduledPlanId := p\<rparr>) = wf_gift r"
  "wf_gift (r\<lparr>scheduledGrantedLimits := l\<rparr>) = wf_gift r"
  "wf_gift (r\<lparr>scheduledChangeAt := d\<rparr>) = wf_gift r"
  "wf_gift (r\<lparr>priceChangeNoticeDismissedAt := d\<rparr>) = wf_gift r"
  "wf_gift (r\<lparr>priceChangeNotice := n\<rparr>) = wf_gift r"
  by (simp_all add: wf_gift_def)

lemmas wf_row_simps = wf_sub_def wf_dates_def wf_schedule_status wf_gift_status

lemma effective_grace_dated:
  assumes "eff s now \<in> {grace_period, expired}" "eff s now \<noteq> status s"
  shows "effectiveGraceEndsAt (resolveEffectiveSubscriptionStatus s now) \<noteq> None"
proof (cases "status s")
  case active
  with assms have past: "isPast (currentPeriodEnd s) now" "\<not> cancelAtPeriodEnd s"
    by (auto simp: eff_active split: if_splits)
  then have "resolveGraceEndsAt s \<noteq> None"
    by (auto simp: resolveGraceEndsAt_def isPast_def split: option.splits)
  with active past show ?thesis by (simp add: resolveEffectiveSubscriptionStatus_def Let_def)
next
  case grace_period
  with assms have past: "isPast (resolveGraceEndsAt s) now"
    by (auto simp: eff_grace_period split: if_splits)
  then have "resolveGraceEndsAt s \<noteq> None" by (auto simp: isPast_def split: option.splits)
  with grace_period past show ?thesis by (simp add: resolveEffectiveSubscriptionStatus_def Let_def)
next
  case trialing
  with assms show ?thesis by (auto simp: eff_trialing split: if_splits)
qed (use assms in \<open>auto simp: eff_undated\<close>)

lemma wf_transition:
  assumes "wf_table (subs st)"
  shows "wf_table (subs (transition now s st))"
proof (cases "eff s now = status s")
  case True
  then show ?thesis using assms by (simp add: transition_def Let_def)
next
  case False
  let ?g = "effectiveGraceEndsAt (resolveEffectiveSubscriptionStatus s now)"
  have g: "wf_table (fst (markGraceStarted (organizationId s) ?g (subs st)))"
    if "eff s now = grace_period"
    unfolding markGraceStarted_def using assms effective_grace_dated [of s now] that False
    by (intro wf_guarded) (simp_all add: wf_row_simps)
  have c: "wf_table (fst (markCancelledAtPeriodEnd (organizationId s) (subs st)))"
    unfolding markCancelledAtPeriodEnd_def using assms
    by (intro wf_guarded) (simp_all add: wf_row_simps)
  have e: "wf_table (fst (markExpired (organizationId s) ?g (subs st)))"
    unfolding markExpired_def using assms by (intro wf_guarded) (simp_all add: wf_row_simps)
  show ?thesis
    using assms g c e
    by (cases "eff s now") (simp_all add: transition_def Let_def split_beta)
qed

lemma wf_scheduled_write:
  "wf_sub r \<Longrightarrow> wf_sub (r\<lparr>planId := plan, grantedLimits := l, scheduledPlanId := None,
     scheduledGrantedLimits := DbNull, scheduledChangeAt := None\<rparr>)"
  by (simp add: wf_row_simps) (simp add: wf_schedule_def)

lemma wf_applyChange:
  assumes "wf_table (cs_subs st)"
  shows "wf_table (cs_subs (applyChange s st))"
proof -
  have "wf_table (fst (guarded organizationId (scheduled_guard plan d)
         (\<lambda>r. r\<lparr>planId := plan, grantedLimits := scheduledGrantedLimits s, scheduledPlanId := None,
                scheduledGrantedLimits := DbNull, scheduledChangeAt := None\<rparr>)
         (organizationId s) (cs_subs st)))" for plan d
    using assms by (intro wf_guarded) (simp_all add: wf_scheduled_write)
  then show ?thesis
    using assms by (simp add: applyChange_def applyScheduledChange_def split_beta split: option.split)
qed

lemma wf_purchasedRow: "pp_grantedLimits d \<noteq> DbNull \<Longrightarrow> wf_sub r \<Longrightarrow> wf_sub (purchasedRow d r)"
  by (cases "pp_gift d"; cases "pp_scheduleAt d")
    (simp_all add: purchasedRow_def giftColumns_def planColumns_def wf_sub_defs)

lemma purchasedRow_key [simp]: "organizationId (purchasedRow d r) = organizationId r"
  by (simp add: purchasedRow_def giftColumns_def planColumns_def split: option.splits)

lemma wf_upsert:
  assumes "wf_table t" "pp_grantedLimits d \<noteq> DbNull"
  shows "wf_table (upsertForPlanPurchase org d t)"
proof (cases "org \<in> organizationId ` set t")
  case True
  have "wf_table (map (\<lambda>r. if organizationId r = org then purchasedRow d r else r) t)"
    using assms wf_purchasedRow by (intro wf_table_map) auto
  then show ?thesis by (simp add: upsertForPlanPurchase_def True)
next
  case False
  let ?r = "giftColumns (pp_gift d)
       ((newSubscription org (pp_planId d) active None)
          \<lparr>grantedLimits := pp_grantedLimits d, billingCycle := Some (pp_billingCycle d),
           currentPeriodStart := Some (pp_currentPeriodStart d),
           currentPeriodEnd := Some (pp_currentPeriodEnd d)\<rparr>)"
  have "organizationId ?r = org" "wf_sub ?r"
    by (cases "pp_gift d", simp_all add: giftColumns_def newSubscription_def wf_sub_defs)+
  then show ?thesis
    using False assms(1) by (simp add: upsertForPlanPurchase_def wf_table_def)
qed

lemma wf_updateRow:
  assumes "wf_table t" "\<And>r. organizationId (f r) = organizationId r"
    and "\<And>r. r \<in> set t \<Longrightarrow> organizationId r = org \<Longrightarrow> wf_sub r \<Longrightarrow> wf_sub (f r)"
  shows "wf_table (updateRow org f t)"
  unfolding updateRow_def by (rule wf_table_map) (use assms in auto)

lemma wf_adjustDays:
  assumes "wf_table t" "adjustDays org days now t = Inr t'"
  shows "wf_table t'"
proof -
  from assms(2) obtain cur where cur: "findByOrganizationId org t = Some cur"
    by (auto simp: adjustDays_def split: option.splits if_splits)
  then have "cur \<in> set t" "organizationId cur = org" by (auto dest: find_by_Some)
  then have only: "r = cur" if "r \<in> set t" "organizationId r = org" for r
    using that assms(1) by (auto simp: wf_table_def dest: distinct_keys_unique)
  from assms(2) cur obtain to where
    t': "t' = updateRow org (if status cur = trialing then (\<lambda>r. r\<lparr>trialEndsAt := Some to\<rparr>)
                        else (\<lambda>r. r\<lparr>currentPeriodEnd := Some to, status := active,
                                   graceEndsAt := None\<rparr>)) t"
    by (auto simp: adjustDays_def Let_def split: if_splits)
  show ?thesis
    unfolding t' by (rule wf_updateRow [OF assms(1)]) (use only in \<open>auto simp: wf_row_simps\<close>)
qed

lemma wf_changePlan:
  assumes "wf_table t" "changePlan org plan when now t = Inr t'"
  shows "wf_table t'"
proof -
  from assms(2) consider
    (a) pid limits where "t' = updateRow org (\<lambda>r. r\<lparr>planId := pid, grantedLimits := LimitObject limits,
            scheduledPlanId := None, scheduledGrantedLimits := DbNull, scheduledChangeAt := None\<rparr>) t"
  | (b) pid limits e where "t' = updateRow org (\<lambda>r. r\<lparr>scheduledPlanId := Some pid,
            scheduledGrantedLimits := LimitObject limits, scheduledChangeAt := Some e\<rparr>) t"
    by (auto simp: changePlan_def split: option.splits if_splits plan_change_apply_at.splits)
  then show ?thesis
  proof cases
    case a
    show ?thesis unfolding a
      by (rule wf_updateRow [OF assms(1)]) (simp_all add: wf_scheduled_write)
  next
    case b
    show ?thesis unfolding b
      by (rule wf_updateRow [OF assms(1)]) (simp_all add: wf_row_simps wf_schedule_def)
  qed
qed

lemma sub_step_wf:
  assumes "sub_step e t t'" "wf_table t"
  shows "wf_table t'"
  using assms
proof (induction rule: sub_step.induct)
  case (bootstrap plan org t t')
  then show ?case
    by (auto simp: bootstrapSubscription_def createSubscription_def wf_table_def wf_new
        split: option.splits if_splits)
next
  case (start_trial org plan ends granted t t')
  have "wf_table (fst (startTrial org plan ends granted t))"
    unfolding startTrial_def using start_trial(2)
    by (intro wf_guarded) (simp_all add: wf_row_simps trial_guard_def)
  then show ?case by (simp add: start_trial(1))
next
  case (expire_trial org t t')
  then show ?case
    by (auto simp: markTrialExpired_def wf_row_simps intro!: wf_table_map split: if_splits)
next
  case (sweep st t now s)
  then show ?case using wf_transition by blast
next
  case (apply_change st t s)
  then show ?case using wf_applyChange by blast
next
  case (cancel_trial t org)
  then show ?case
    by (auto simp: markTrialCancelled_def updateMany_def wf_row_simps intro!: wf_table_map)
next
  case (cancel_paid t org)
  then show ?case
    by (auto simp: markPaidCancelAtPeriodEnd_def updateMany_def wf_row_simps intro!: wf_table_map)
      (simp_all add: wf_schedule_def)
next
  case (purchase d t org)
  then show ?case by (simp add: wf_upsert)
next
  case (adjust org days now t t')
  then show ?case using wf_adjustDays by blast
next
  case (change_plan org plan "when" now t t')
  then show ?case using wf_changePlan by blast
next
  case (dismiss org now t t' ok)
  then show ?case
    by (auto simp: dismissPriceChangeNotice_def updateMany_def wf_row_simps intro!: wf_table_map)
next
  case (write_notice t org notice)
  then show ?case
    by (auto simp: writePriceChangeNotice_def updateRow_def wf_row_simps intro!: wf_table_map)
qed

lemma trace_wf: "sub_trace es t \<Longrightarrow> wf_table t"
  by (induction rule: sub_trace.induct) (use sub_step_wf in \<open>auto simp: wf_table_def\<close>)

subsection \<open>A plan, once held, is never un-held\<close>

definition left_no_plan :: "uid \<Rightarrow> sub_table \<Rightarrow> bool" where
  "left_no_plan org t \<longleftrightarrow> (\<exists>r \<in> set t. organizationId r = org \<and> status r \<noteq> no_plan)"

lemma left_no_plan_map:
  assumes "left_no_plan org t" "\<And>r. organizationId (f r) = organizationId r"
    and "\<And>r. status r \<noteq> no_plan \<Longrightarrow> status (f r) \<noteq> no_plan"
  shows "left_no_plan org (map f t)"
  using assms by (fastforce simp: left_no_plan_def)

lemma left_no_plan_guarded:
  assumes "left_no_plan org t" "\<And>r. organizationId (f r) = organizationId r"
    and "\<And>r. status r \<noteq> no_plan \<Longrightarrow> status (f r) \<noteq> no_plan"
  shows "left_no_plan org (fst (guarded organizationId p f k t))"
  unfolding guarded_alt fst_conv by (rule left_no_plan_map) (use assms in auto)

lemma left_no_plan_transition:
  "left_no_plan org (subs st) \<Longrightarrow> left_no_plan org (subs (transition now s st))"
  by (cases "eff s now")
    (simp_all add: transition_def Let_def split_beta markGraceStarted_def
      markCancelledAtPeriodEnd_def markExpired_def left_no_plan_guarded)

lemma left_no_plan_applyChange:
  "left_no_plan org (cs_subs st) \<Longrightarrow> left_no_plan org (cs_subs (applyChange s st))"
  by (auto simp: applyChange_def applyScheduledChange_def split_beta left_no_plan_guarded
      split: option.splits)

lemma left_no_plan_upsert: "left_no_plan org t \<Longrightarrow> left_no_plan org (upsertForPlanPurchase o' d t)"
proof -
  assume "left_no_plan org t"
  moreover have "status (purchasedRow d r) = active" for r
    by (simp add: purchasedRow_def giftColumns_def split: option.splits)
  then have "status r \<noteq> no_plan \<Longrightarrow> status (if organizationId r = o' then purchasedRow d r else r) \<noteq> no_plan" for r
    by simp
  ultimately have "left_no_plan org (map (\<lambda>r. if organizationId r = o' then purchasedRow d r else r) t)"
    by (intro left_no_plan_map) auto
  then show ?thesis
    using \<open>left_no_plan org t\<close> by (auto simp: upsertForPlanPurchase_def left_no_plan_def)
qed

lemma left_no_plan_adjust:
  "left_no_plan org t \<Longrightarrow> adjustDays o' days now t = Inr t' \<Longrightarrow> left_no_plan org t'"
  by (auto simp: adjustDays_def updateRow_def Let_def intro!: left_no_plan_map
      split: option.splits if_splits)

lemma left_no_plan_change:
  "left_no_plan org t \<Longrightarrow> changePlan o' plan when now t = Inr t' \<Longrightarrow> left_no_plan org t'"
  by (auto simp: changePlan_def updateRow_def intro!: left_no_plan_map
      split: option.splits if_splits plan_change_apply_at.splits)

lemma sub_step_left:
  assumes "sub_step e t t'" "left_no_plan org t"
  shows "left_no_plan org t'"
  using assms
proof (induction rule: sub_step.induct)
  case (bootstrap plan o' t t')
  then show ?case
    by (auto simp: bootstrapSubscription_def createSubscription_def left_no_plan_def
        split: option.splits if_splits)
next
  case (start_trial o' plan ends granted t t')
  then have "left_no_plan org (fst (startTrial o' plan ends granted t))"
    unfolding startTrial_def by (intro left_no_plan_guarded) simp_all
  then show ?case by (simp add: start_trial(1))
next
  case (expire_trial o' t t')
  then show ?case by (auto simp: markTrialExpired_def intro!: left_no_plan_map split: if_splits)
next
  case (cancel_trial t o')
  then show ?case
    by (auto simp: markTrialCancelled_def updateMany_def intro!: left_no_plan_map split: if_splits)
next
  case (cancel_paid t o')
  then show ?case
    by (auto simp: markPaidCancelAtPeriodEnd_def updateMany_def intro!: left_no_plan_map split: if_splits)
next
  case (dismiss o' now t t' ok)
  then show ?case
    by (auto simp: dismissPriceChangeNotice_def updateMany_def intro!: left_no_plan_map split: if_splits)
next
  case (write_notice t o' notice)
  then show ?case
    by (auto simp: writePriceChangeNotice_def updateRow_def intro!: left_no_plan_map split: if_splits)
next
  case (sweep st t now s)
  then show ?case using left_no_plan_transition by simp
next
  case (apply_change st t s)
  then show ?case using left_no_plan_applyChange by simp
next
  case (purchase d t o')
  then show ?case using left_no_plan_upsert by simp
next
  case (adjust o' days now t t')
  show ?case by (rule left_no_plan_adjust [OF adjust(2,1)])
next
  case (change_plan o' plan "when" now t t')
  show ?case by (rule left_no_plan_change [OF change_plan(2,1)])
qed

lemma startTrial_won:
  assumes "startTrial org plan ends granted t = (t', True)" "distinct_orgs t"
  shows "\<not> left_no_plan org t \<and> left_no_plan org t'"
proof -
  have "snd (startTrial org plan ends granted t)" by (simp add: assms(1))
  then obtain r where r: "findByOrganizationId org t = Some r" "trial_guard r"
    unfolding startTrial_def trial_started.won_iff [OF assms(2)] by blast
  then have mem: "r \<in> set t" "organizationId r = org" by (auto dest: find_by_Some)
  have "\<not> left_no_plan org t"
    using assms(2) mem r(2) by (auto simp: left_no_plan_def trial_guard_def dest: distinct_keys_unique)
  moreover have "t' = map (\<lambda>r. if organizationId r = org \<and> trial_guard r then r\<lparr>planId := plan,
        status := trialing, trialEndsAt := Some ends, grantedLimits := granted\<rparr> else r) t"
    using assms(1) by (simp add: startTrial_def guarded_alt)
  then have "r\<lparr>planId := plan, status := trialing, trialEndsAt := Some ends, grantedLimits := granted\<rparr> \<in> set t'"
    using mem r(2) by (auto intro: rev_image_eqI)
  then have "left_no_plan org t'"
    using mem(2) by (auto simp: left_no_plan_def intro: rev_bexI)
  ultimately show ?thesis by blast
qed

definition trialStarts :: "uid \<Rightarrow> sub_event list \<Rightarrow> nat" where
  "trialStarts org es = count_rows (\<lambda>e. e = TrialStarted org) es"

lemma trace_trials:
  "sub_trace es t \<Longrightarrow> trialStarts org es \<le> (if left_no_plan org t then 1 else 0)"
proof (induction rule: sub_trace.induct)
  case nothing
  then show ?case by (simp add: trialStarts_def count_rows_def)
next
  case (next_step es t e t')
  show ?case
  proof (cases "e = TrialStarted org")
    case True
    with next_step.hyps(2) obtain plan ends granted
      where "startTrial org plan ends granted t = (t', True)" by (auto elim: started_stepE)
    moreover have "distinct_orgs t" using trace_wf [OF next_step.hyps(1)] by (simp add: wf_table_def)
    ultimately have "\<not> left_no_plan org t" "left_no_plan org t'" using startTrial_won by blast+
    with next_step.IH True show ?thesis by (simp add: trialStarts_def count_rows_def)
  next
    case False
    with next_step sub_step_left [OF next_step.hyps(2), of org] show ?thesis
      by (auto simp: trialStarts_def count_rows_def split: if_splits)
  qed
qed

subsection \<open>Properties\<close>

text \<open>
  C4. The row invariant. After any sequence of writes, in any order and with any staleness of
  what the sweep had read: one row per organization; a trial has its end date; an active
  row has a period end and no grace end; a row in grace has a grace end; \<open>past_due\<close> and
  \<open>paused\<close> are never written; and the schedule columns and the gift columns are each all
  set or all empty.
\<close>

theorem subscription_invariant:
  assumes "sub_trace es t"
  shows "distinct_orgs t \<and> (\<forall>r \<in> set t. wf_sub r \<and> datedWell r)"
  using trace_wf [OF assms] wf_datedWell by (auto simp: wf_table_def)

definition examplePurchase :: plan_purchase where
  "examplePurchase = \<lparr>pp_planId = ''pro'', pp_billingCycle = monthly, pp_currentPeriodStart = 50,
     pp_currentPeriodEnd = 1050, pp_grantedLimits = LimitObject Map.empty,
     pp_gift = None, pp_scheduleAt = None\<rparr>"

definition exampleTable :: "nat \<Rightarrow> sub_table" where
  "exampleTable n =
     (let t1 = [newSubscription ''a'' ''basic'' no_plan None];
          t2 = fst (startTrial ''a'' ''basic'' 100 (LimitObject Map.empty) t1);
          t3 = upsertForPlanPurchase ''a'' examplePurchase t2
      in if n = 1 then t1 else if n = 2 then t2 else t3)"

lemma example_trace:
  "sub_trace [Bootstrapped ''a'', TrialStarted ''a'', Purchased] (exampleTable 3)"
proof -
  have "sub_step (Bootstrapped ''a'') [] (exampleTable 1)"
    by (rule sub_step.bootstrap [of "Some ''basic''"])
      (simp add: exampleTable_def bootstrapSubscription_def createSubscription_def)
  from sub_trace.next_step [OF sub_trace.nothing this] have 1: "sub_trace [Bootstrapped ''a''] (exampleTable 1)" by simp
  have "sub_step (TrialStarted ''a'') (exampleTable 1) (exampleTable 2)"
    by (rule sub_step.start_trial [of _ "''basic''" 100 "LimitObject Map.empty"])
      (simp add: exampleTable_def startTrial_def guarded_alt newSubscription_def trial_guard_def)
  from sub_trace.next_step [OF 1 this] have 2: "sub_trace [Bootstrapped ''a'', TrialStarted ''a''] (exampleTable 2)"
    by simp
  have "sub_step Purchased (exampleTable 2) (upsertForPlanPurchase ''a'' examplePurchase (exampleTable 2))"
    by (rule sub_step.purchase) (simp add: examplePurchase_def)
  then have "sub_step Purchased (exampleTable 2) (exampleTable 3)"
    by (simp add: exampleTable_def Let_def)
  from sub_trace.next_step [OF 2 this] show ?thesis by simp
qed

lemma subscription_invariant_witness:
  "distinct_orgs (exampleTable 3) \<and> list_all (\<lambda>r. wf_sub r \<and> datedWell r) (exampleTable 3)"
  using subscription_invariant [OF example_trace] by (simp add: list_all_iff)

text \<open>
  C5. One trial per organization, for ever: in any history of the table a trial is started
  at most once for an organization, whatever was bought, cancelled, expired or adjusted
  in between.
\<close>

theorem one_trial_per_organization:
  assumes "sub_trace es t"
  shows "trialStarts org es \<le> 1"
  using trace_trials [OF assms, of org] by (simp split: if_splits)

lemma one_trial_per_organization_witness:
  "trialStarts ''a'' [Bootstrapped ''a'', TrialStarted ''a'', Purchased] \<le> 1
   \<and> \<not> snd (startTrial ''a'' ''basic'' 100 (LimitObject Map.empty) (exampleTable 3))"
  using one_trial_per_organization [OF example_trace, of "''a''"]
  by (simp add: exampleTable_def examplePurchase_def startTrial_def guarded_alt newSubscription_def
      trial_guard_def upsertForPlanPurchase_def purchasedRow_def giftColumns_def planColumns_def Let_def)

lemma wf_due_complete:
  assumes "wf_sub r" "eff r now \<noteq> status r"
  shows "due_trial now r \<or> due_period now r \<or> due_grace now r"
proof (cases "status r")
  case grace_period
  with assms obtain g where "graceEndsAt r = Some g" by (auto simp: wf_sub_def wf_dates_def)
  with assms grace_period show ?thesis
    by (auto simp: eff_grace_period due_grace_def resolveGraceEndsAt_def split: if_splits)
qed (use assms in \<open>auto simp: eff_simps due_trial_def due_period_def split: if_splits\<close>)

lemma swept_status:
  assumes "wf_sub r" "\<not> due_trial now r"
  shows "status (sweptRow now r) = eff r now"
proof (cases "due_period now r \<or> due_grace now r")
  case True
  from due_transition [OF True] show ?thesis
    by (auto simp: sweptRow_def True lapsedRow_def Let_def)
next
  case False
  then have "status r = eff r now" using wf_due_complete [OF assms(1), of now] assms(2) by metis
  with False show ?thesis by (simp add: sweptRow_def)
qed

lemma wf_changed_trial: "wf_sub r \<Longrightarrow> wf_sub (changedRow now (trialRow now' r))"
proof -
  assume "wf_sub r"
  then have "wf_sub (trialRow now' r)" by (simp add: trialRow_def wf_row_simps)
  then show ?thesis by (simp add: changedRow_def wf_scheduled_write)
qed

lemma tick_status:
  assumes "wf_sub r"
  shows "status (sweptRow now (changedRow now (trialRow now r))) = eff r now"
proof -
  have "\<not> due_trial now (trialRow now r)" by (simp add: trialRow_def due_trial_def)
  then have "\<not> due_trial now (changedRow now (trialRow now r))"
    by (simp add: due_trial_def status_changedRow)
  from swept_status [OF wf_changed_trial [OF assms] this]
  show ?thesis by (simp add: changed.invisible trialed.invisible)
qed

text \<open>
  No row escapes the sweep. On a reachable table, right after the paid and the trial
  sweep have run at \<open>now\<close> every stored status is the status readers derive at \<open>now\<close>: the
  queries that pick the due rows miss none.
\<close>

theorem sweep_makes_durable:
  assumes "sub_trace es (subs st)"
  shows "map (\<lambda>r. (organizationId r, status r)) (subs (subscriptionSweepRun (Some owner) now now now st))
       = map (\<lambda>r. (organizationId r, eff r now)) (subs st)"
proof -
  have "wf_table (subs st)" using assms by (rule trace_wf)
  then show ?thesis by (auto simp: wf_table_def run_rows tick_status)
qed

lemma sweep_makes_durable_witness:
  "map (\<lambda>r. (organizationId r, status r))
     (subs (subscriptionSweepRun (Some ''po'') 1050 1050 1050
        \<lparr>subs = exampleTable 3, audit = [], invalidated = [],
         graceStarted = 0, cancelledCount = 0, expiredCount = 0\<rparr>))
   = [(''a'', grace_period)]"
  by (subst sweep_makes_durable [of "[Bootstrapped ''a'', TrialStarted ''a'', Purchased]"])
    (simp add: example_trace, simp add: exampleTable_def examplePurchase_def startTrial_def guarded_alt
      newSubscription_def trial_guard_def upsertForPlanPurchase_def purchasedRow_def giftColumns_def
      planColumns_def Let_def eff_active isPast_def resolveGraceEndsAt_def GRACE_PERIOD_MS_eq)

text \<open>
  What the trial sweep can lose. \<open>expireDueTrials\<close> reads the due trials in one
  transaction and writes each in another, with an unguarded update. A purchase committed in
  between is overwritten: a paying customer whose period runs to 1050 is \<open>trial_expired\<close>,
  without access, at 100.
\<close>

theorem stale_trial_sweep_overwrites_purchase:
  "filter (due_trial 100) (exampleTable 2) = exampleTable 2
   \<and> map_option (\<lambda>r. eff r 100) (findByOrganizationId ''a'' (exampleTable 3)) = Some active
   \<and> (\<exists>t. markTrialExpired ''a'' (exampleTable 3) = Some t
        \<and> (\<exists>r. findByOrganizationId ''a'' t = Some r
            \<and> status r = trial_expired \<and> currentPeriodEnd r = Some 1050
            \<and> \<not> hasAccess (getAccessState (Some r) 100)))"
  by (simp add: exampleTable_def examplePurchase_def startTrial_def guarded_alt newSubscription_def
      trial_guard_def upsertForPlanPurchase_def purchasedRow_def giftColumns_def planColumns_def Let_def
      eff_active isPast_def due_trial_def markTrialExpired_def hasAccess_eff eff_undated)

text \<open>
  What the paid sweep can undo. The guard of \<open>markGraceStarted\<close> names the stored status
  only, so it also matches a row a renewal has just rewritten: a transition computed from a
  row read before the renewal puts the renewed row, whose period runs to \<open>e > now\<close>, into
  grace with the old grace end.
\<close>

theorem stale_paid_sweep_undoes_renewal:
  assumes "distinct_orgs (subs st)" and "findByOrganizationId (organizationId s) (subs st) = Some r"
    and "due_period now s" "\<not> cancelAtPeriodEnd s" "\<not> isPast (resolveGraceEndsAt s) now"
    and "status r = active" "currentPeriodEnd r = Some e" "now < e" "\<not> cancelAtPeriodEnd r"
  shows "findByOrganizationId (organizationId s) (subs (transition now s st)) =
           Some (r\<lparr>status := grace_period, graceEndsAt := resolveGraceEndsAt s\<rparr>)"
proof -
  have s: "status s = active" "isPast (currentPeriodEnd s) now"
    using assms(3) by (auto simp: due_period_def)
  then have e: "resolveEffectiveSubscriptionStatus s now =
      \<lparr>effectiveStatus = grace_period, effectiveUntil = resolveGraceEndsAt s,
       effectiveGraceEndsAt = resolveGraceEndsAt s, reason = period_ended_grace\<rparr>"
    using assms(4,5) by (simp add: resolveEffectiveSubscriptionStatus_def Let_def)
  have "grace_guard r" using assms(6,9) by (simp add: grace_guard_def)
  then have won: "snd (markGraceStarted (organizationId s) (resolveGraceEndsAt s) (subs st))"
    unfolding markGraceStarted_def grace_started.won_iff [OF assms(1)] using assms(2) by blast
  have look: "findByOrganizationId (organizationId s)
      (fst (markGraceStarted (organizationId s) (resolveGraceEndsAt s) (subs st))) =
      Some (r\<lparr>status := grace_period, graceEndsAt := resolveGraceEndsAt s\<rparr>)"
    unfolding markGraceStarted_def grace_started.lookup using assms(2) \<open>grace_guard r\<close> by simp
  show ?thesis
    using won look s(1) by (simp add: transition_def e split_beta Let_def)
qed

lemma stale_paid_sweep_undoes_renewal_witness:
  "findByOrganizationId ''b'' (subs (transition 2000 (exampleRow ''b'' active 1000)
      (exampleState\<lparr>subs := [exampleRow ''b'' active 9000]\<rparr>))) =
   Some ((exampleRow ''b'' active 9000)\<lparr>status := grace_period, graceEndsAt := Some 604801000\<rparr>)"
  using stale_paid_sweep_undoes_renewal
    [of "exampleState\<lparr>subs := [exampleRow ''b'' active 9000]\<rparr>" "exampleRow ''b'' active 1000"
        "exampleRow ''b'' active 9000" 2000 9000]
  by (simp add: exampleRow_def newSubscription_def due_period_def isPast_def resolveGraceEndsAt_def
      GRACE_PERIOD_MS_eq)

end
