(* ===== verification/Calendar.thy ===== *)
theory Calendar
  imports Atlas_Prelude
begin

text \<open>
  The ECMAScript UTC calendar, as far as the backend uses it: the components of an instant
  (\<open>getUTCFullYear\<close>, \<open>getUTCMonth\<close>, \<open>getUTCDate\<close>, the time of day) and \<open>Date.UTC\<close> with its
  overflowing month and day and its two-digit-year rule. Months count from 0, as in the
  source. The lemmas show that the two are inverse to each other.
  Instants outside the range of a JavaScript date (about 270,000 years around 1970) are
  numbers here and \<open>NaN\<close> there.
\<close>

subsection \<open>Years\<close>

definition is_leap :: "int \<Rightarrow> bool" where
  "is_leap y \<longleftrightarrow> y mod 4 = 0 \<and> y mod 100 \<noteq> 0 \<or> y mod 400 = 0"

definition year_length :: "int \<Rightarrow> int" where
  "year_length y = (if is_leap y then 366 else 365)"

definition year_start :: "int \<Rightarrow> int" where
  "year_start y = 365 * (y - 1970) + (y - 1969) div 4 - (y - 1901) div 100 + (y - 1601) div 400"

definition year_of_day :: "int \<Rightarrow> int" where
  "year_of_day d =
     (let y = 1970 + (400 * d) div 146097
      in if year_start (y + 1) \<le> d then y + 1 else if d < year_start y then y - 1 else y)"

lemma div_step:
  fixes y n c :: int
  assumes "0 < n" "n dvd c"
  shows "(y - c) div n = (y - (c + 1)) div n + (if n dvd y then 1 else 0)"
proof -
  define x where "x = y - (c + 1)"
  have y: "y - c = x + 1" by (simp add: x_def)
  have dvd: "n dvd y \<longleftrightarrow> n dvd x + 1"
    using assms(2) unfolding y [symmetric] by (simp add: dvd_diff_left_iff)
  have x: "x = n * (x div n) + x mod n" and r: "0 \<le> x mod n" "x mod n < n" using assms(1) by simp_all
  show ?thesis
  proof (cases "x mod n = n - 1")
    case True
    with x have "x + 1 = n * (x div n + 1)" by (simp add: algebra_simps)
    then show ?thesis using assms(1) dvd by (simp add: y flip: x_def)
  next
    case False
    with r have "0 \<le> x mod n + 1" "x mod n + 1 < n" by auto
    moreover have "x + 1 = n * (x div n) + (x mod n + 1)" using x by simp
    ultimately have d: "(x + 1) div n = x div n" "(x + 1) mod n = x mod n + 1"
      by (blast intro: int_div_pos_eq, blast intro: int_mod_pos_eq)
    then have "\<not> n dvd x + 1" using r by (simp add: dvd_eq_mod_eq_0)
    then show ?thesis using d(1) dvd by (simp add: y flip: x_def)
  qed
qed

lemma year_start_Suc: "year_start (y + 1) = year_start y + year_length y"
proof -
  have start: "year_start (y + 1) =
      365 * (y - 1970) + 365 + (y - 1968) div 4 - (y - 1900) div 100 + (y - 1600) div 400"
    by (simp add: year_start_def)
  have 4: "(y - 1968) div 4 = (y - 1969) div 4 + (if 4 dvd y then 1 else 0)"
    using div_step [of 4 1968 y] by simp
  have 100: "(y - 1900) div 100 = (y - 1901) div 100 + (if 100 dvd y then 1 else 0)"
    using div_step [of 100 1900 y] by simp
  have 400: "(y - 1600) div 400 = (y - 1601) div 400 + (if 400 dvd y then 1 else 0)"
    using div_step [of 400 1600 y] by simp
  have nest: "400 dvd y \<longrightarrow> 100 dvd y" "100 dvd y \<longrightarrow> 4 dvd y"
    by (auto intro: dvd_trans [of _ 400] dvd_trans [of _ 100])
  show ?thesis
    unfolding start 4 100 400
    unfolding year_start_def year_length_def is_leap_def dvd_eq_mod_eq_0 [symmetric]
    using nest by (cases "4 dvd y"; cases "100 dvd y"; cases "400 dvd y") simp_all
qed

lemma year_start_mono_Suc: "year_start y < year_start (y + 1)"
  by (simp add: year_start_Suc year_length_def)

lemma year_start_mono:
  assumes "y \<le> z"
  shows "year_start y \<le> year_start z"
  using assms by (induction z rule: int_ge_induct) (use year_start_mono_Suc in \<open>auto intro: order.trans less_imp_le\<close>)

lemma year_start_bounds:
  "146097 * (y - 1970) - 506 \<le> 400 * year_start y \<and> 400 * year_start y \<le> 146097 * (y - 1970) + 589"
proof -
  define a where "a = (y - 1969) div 4"
  define b where "b = (y - 1901) div 100"
  define c where "c = (y - 1601) div 400"
  have rem: "n * (x div n) \<le> x \<and> x \<le> n * (x div n) + (n - 1)" if "0 < n" for x n :: int
    using that mult_div_mod_eq [of n x] pos_mod_bound [of n x] pos_mod_sign [of n x]
    by - (rule conjI; linarith)
  have "4 * a \<le> y - 1969 \<and> y - 1969 \<le> 4 * a + 3" unfolding a_def using rem [of 4] by simp
  moreover have "100 * b \<le> y - 1901 \<and> y - 1901 \<le> 100 * b + 99" unfolding b_def using rem [of 100] by simp
  moreover have "400 * c \<le> y - 1601 \<and> y - 1601 \<le> 400 * c + 399" unfolding c_def using rem [of 400] by simp
  moreover have "year_start y = 365 * (y - 1970) + a - b + c" by (simp add: year_start_def a_def b_def c_def)
  ultimately show ?thesis
    unfolding distrib_left right_diff_distrib by - (elim conjE, rule conjI; linarith)
qed

lemma year_of_day_spec:
  "year_start (year_of_day d) \<le> d \<and> d < year_start (year_of_day d + 1)"
proof -
  define y where "y = 1970 + (400 * d) div 146097"
  have e: "146097 * (y - 1970) \<le> 400 * d \<and> 400 * d < 146097 * (y - 1970) + 146097"
  proof -
    have "146097 * (400 * d div 146097) + 400 * d mod 146097 = 400 * d" by (rule mult_div_mod_eq)
    moreover have "0 \<le> 400 * d mod 146097" "400 * d mod 146097 < 146097" by simp_all
    ultimately show ?thesis
      unfolding y_def distrib_left right_diff_distrib by - (rule conjI; linarith)
  qed
  have "year_start y \<le> d + 1" using year_start_bounds [of y] e
    unfolding distrib_left right_diff_distrib by linarith
  moreover have "d < year_start (y + 1) + 2" using year_start_bounds [of "y + 1"] e
    unfolding distrib_left right_diff_distrib by linarith
  moreover have "year_start (y + 1) \<ge> year_start y + 365" "year_start (y + 1 + 1) \<ge> year_start (y + 1) + 365"
    "year_start (y - 1 + 1) \<ge> year_start (y - 1) + 365"
    unfolding year_start_Suc by (simp_all add: year_length_def)
  ultimately show ?thesis
    unfolding year_of_day_def Let_def y_def [symmetric] by auto
qed

lemma year_of_day_unique:
  assumes "year_start y \<le> d" "d < year_start (y + 1)"
  shows "year_of_day d = y"
proof -
  have "\<not> year_of_day d < y"
    using year_start_mono [of "year_of_day d + 1" y] year_of_day_spec [of d] assms by force
  moreover have "\<not> y < year_of_day d"
    using year_start_mono [of "y + 1" "year_of_day d"] year_of_day_spec [of d] assms by force
  ultimately show ?thesis by linarith
qed

subsection \<open>Months\<close>

definition month_lengths :: "int \<Rightarrow> int list" where
  "month_lengths y = [31, if is_leap y then 29 else 28, 31, 30, 31, 30, 31, 31, 30, 31, 30, 31]"

definition month_start :: "int \<Rightarrow> nat \<Rightarrow> int" where
  "month_start y m = sum_list (take m (month_lengths y))"

definition days_in_month :: "int \<Rightarrow> nat \<Rightarrow> int" where
  "days_in_month y m = month_lengths y ! m"

fun month_split :: "int list \<Rightarrow> int \<Rightarrow> nat \<times> int" where
  "month_split [] d = (0, d)"
| "month_split (l # ls) d =
     (if d < l then (0, d) else let (m, r) = month_split ls (d - l) in (Suc m, r))"

lemma month_split_spec:
  assumes "\<forall>l \<in> set ls. 0 < l" "0 \<le> d" "d < sum_list ls"
  shows "fst (month_split ls d) < length ls
       \<and> sum_list (take (fst (month_split ls d)) ls) + snd (month_split ls d) = d
       \<and> 0 \<le> snd (month_split ls d) \<and> snd (month_split ls d) < ls ! fst (month_split ls d)"
  using assms
proof (induction ls arbitrary: d)
  case (Cons l ls)
  show ?case
  proof (cases "d < l")
    case False
    with Cons.prems Cons.IH [of "d - l"] show ?thesis by (auto simp: split_beta)
  qed (use Cons.prems in simp)
qed simp

lemma month_split_unique:
  assumes "\<forall>l \<in> set ls. 0 < l" "m < length ls" "0 \<le> r" "r < ls ! m"
  shows "month_split ls (sum_list (take m ls) + r) = (m, r)"
  using assms
proof (induction ls arbitrary: m)
  case (Cons l ls)
  show ?case
  proof (cases m)
    case (Suc n)
    with Cons have "month_split ls (sum_list (take n ls) + r) = (n, r)" by simp
    moreover have "0 \<le> sum_list (take n ls)"
      using Cons.prems(1) by (intro sum_list_nonneg) (auto dest!: in_set_takeD)
    ultimately show ?thesis using Cons.prems(3) by (simp add: Suc add.commute add.left_commute)
  qed (use Cons.prems in simp)
qed simp

lemma sum_take_nth_le:
  fixes ls :: "int list"
  assumes "m < length ls" "\<forall>l \<in> set ls. 0 \<le> l"
  shows "sum_list (take m ls) + ls ! m \<le> sum_list ls"
proof -
  have "sum_list ls = sum_list (take m ls) + (ls ! m + sum_list (drop (Suc m) ls))"
    using id_take_nth_drop [OF assms(1)] by (metis sum_list.Cons sum_list_append)
  moreover have "0 \<le> sum_list (drop (Suc m) ls)"
    using assms(2) by (intro sum_list_nonneg) (auto dest: in_set_dropD)
  ultimately show ?thesis by linarith
qed

lemma month_lengths_facts:
  "length (month_lengths y) = 12" "\<forall>l \<in> set (month_lengths y). 0 < l"
  "sum_list (month_lengths y) = year_length y"
  by (simp_all add: month_lengths_def year_length_def)

subsection \<open>Components of an instant, and back\<close>

definition dayOf :: "instant \<Rightarrow> int" where "dayOf t = t div day_ms"
definition timeWithinDay :: "instant \<Rightarrow> int" where "timeWithinDay t = t mod day_ms"

definition getUTCFullYear :: "instant \<Rightarrow> int" where
  "getUTCFullYear t = year_of_day (dayOf t)"

definition getUTCMonth :: "instant \<Rightarrow> int" where
  "getUTCMonth t =
     (let y = getUTCFullYear t in int (fst (month_split (month_lengths y) (dayOf t - year_start y))))"

definition getUTCDate :: "instant \<Rightarrow> int" where
  "getUTCDate t =
     (let y = getUTCFullYear t in snd (month_split (month_lengths y) (dayOf t - year_start y)) + 1)"

definition getUTCHours :: "instant \<Rightarrow> int" where "getUTCHours t = t div hour_ms mod 24"
definition getUTCMinutes :: "instant \<Rightarrow> int" where "getUTCMinutes t = t div 60000 mod 60"
definition getUTCSeconds :: "instant \<Rightarrow> int" where "getUTCSeconds t = t div 1000 mod 60"
definition getUTCMilliseconds :: "instant \<Rightarrow> int" where "getUTCMilliseconds t = t mod 1000"

definition makeDay :: "int \<Rightarrow> int \<Rightarrow> int \<Rightarrow> int" where
  "makeDay y m d =
     (let ym = y + m div 12; mn = m mod 12
      in year_start ym + month_start ym (nat mn) + d - 1)"

definition DateUTC :: "int \<Rightarrow> int \<Rightarrow> int \<Rightarrow> int \<Rightarrow> int \<Rightarrow> int \<Rightarrow> int \<Rightarrow> instant" where
  "DateUTC y m d h mi s ms =
     (let yr = (if 0 \<le> y \<and> y \<le> 99 then 1900 + y else y)
      in makeDay yr m d * day_ms + (h * hour_ms + mi * 60000 + s * 1000 + ms))"

lemma time_of_day_parts:
  "getUTCHours t * hour_ms + getUTCMinutes t * 60000 + getUTCSeconds t * 1000 + getUTCMilliseconds t
     = timeWithinDay t"
proof -
  define a where "a = t div 1000"
  define b where "b = a div 60"
  define c where "c = b div 60"
  have d1: "t div 60000 = b" "t div 3600000 = c" "t div 86400000 = c div 24"
    unfolding a_def b_def c_def by (simp_all add: zdiv_zmult2_eq [symmetric])
  have "t = 1000 * a + t mod 1000" "a = 60 * b + a mod 60" "b = 60 * c + b mod 60"
      "c = 24 * (c div 24) + c mod 24"
    unfolding a_def b_def c_def by simp_all
  moreover have "t mod 86400000 = t - 86400000 * (t div 86400000)" by (simp add: minus_mult_div_eq_mod)
  ultimately show ?thesis
    unfolding getUTCHours_def getUTCMinutes_def getUTCSeconds_def getUTCMilliseconds_def
      timeWithinDay_def ms_simps d1 a_def [symmetric]
    by linarith
qed

lemma day_plus_time: "dayOf t * day_ms + timeWithinDay t = t"
  by (simp add: dayOf_def timeWithinDay_def)

lemma timeWithinDay_range: "0 \<le> timeWithinDay t" "timeWithinDay t < day_ms"
  by (simp_all add: timeWithinDay_def ms_simps)

lemma dayOf_make: "0 \<le> tod \<Longrightarrow> tod < day_ms \<Longrightarrow> dayOf (d * day_ms + tod) = d"
  and timeWithinDay_make: "0 \<le> tod \<Longrightarrow> tod < day_ms \<Longrightarrow> timeWithinDay (d * day_ms + tod) = tod"
  by (simp_all add: dayOf_def timeWithinDay_def ms_simps)

lemma day_of_year_range:
  "0 \<le> dayOf t - year_start (getUTCFullYear t)"
  "dayOf t - year_start (getUTCFullYear t) < sum_list (month_lengths (getUTCFullYear t))"
  using year_of_day_spec [of "dayOf t"]
  by (simp_all add: getUTCFullYear_def month_lengths_facts year_start_Suc)

lemma civil_components:
  "0 \<le> getUTCMonth t" "getUTCMonth t < 12" "1 \<le> getUTCDate t"
  "getUTCDate t \<le> days_in_month (getUTCFullYear t) (nat (getUTCMonth t))"
  "dayOf t = year_start (getUTCFullYear t)
     + month_start (getUTCFullYear t) (nat (getUTCMonth t)) + getUTCDate t - 1"
  using month_split_spec [OF month_lengths_facts(2) day_of_year_range(1) [of t] day_of_year_range(2) [of t]]
  unfolding getUTCMonth_def getUTCDate_def days_in_month_def month_start_def Let_def
      month_lengths_facts(1) nat_int
  by linarith+

text \<open>A calendar date and a time of day: what its components are.\<close>

lemma civil_of_day:
  assumes "m < 12" "1 \<le> d" "d \<le> days_in_month y m" "0 \<le> tod" "tod < day_ms"
    and "t = (year_start y + month_start y m + d - 1) * day_ms + tod"
  shows "getUTCFullYear t = y" "getUTCMonth t = int m" "getUTCDate t = d" "timeWithinDay t = tod"
proof -
  have day: "dayOf t = year_start y + (month_start y m + (d - 1))"
    unfolding assms(6) dayOf_make [OF assms(4,5)] by simp
  have "month_split (month_lengths y) (month_start y m + (d - 1)) = (m, d - 1)"
    unfolding month_start_def
    by (rule month_split_unique) (use assms in \<open>auto simp: month_lengths_facts days_in_month_def\<close>)
  moreover have "0 \<le> month_start y m"
    unfolding month_start_def
    by (intro sum_list_nonneg) (auto dest!: in_set_takeD simp: month_lengths_def)
  moreover have "month_start y m + days_in_month y m \<le> year_length y"
    unfolding month_start_def days_in_month_def month_lengths_facts(3) [symmetric]
    by (rule sum_take_nth_le) (use assms(1) in \<open>auto simp: month_lengths_def\<close>)
  ultimately show y: "getUTCFullYear t = y" and "getUTCMonth t = int m" "getUTCDate t = d"
    using year_of_day_unique [of y "dayOf t"] day assms(2,3)
    by (simp_all add: getUTCFullYear_def getUTCMonth_def getUTCDate_def Let_def year_start_Suc)
  show "timeWithinDay t = tod"
    unfolding assms(6) by (rule timeWithinDay_make [OF assms(4,5)])
qed

end
