(* ===== verification/Billing_Period.thy ===== *)
theory Billing_Period
  imports Calendar Tenant_Subscription
begin

text \<open>
  Billing-period arithmetic (\<open>billing/utils/billing-period.util.ts\<close>): calendar months with
  the day clamped to the target month, gifted days, the cycle a purchase is for and the
  dates an approved purchase produces. The lemmas give the calendar components of the
  result and the length of every period; the last ones show the drift that is left when
  each renewal starts from the clamped end of the one before.
\<close>

definition js_rem :: "int \<Rightarrow> int \<Rightarrow> int" where
  "js_rem a b = sgn a * (\<bar>a\<bar> mod \<bar>b\<bar>)"

lemma js_rem_12: "js_rem (js_rem a 12 + 12) 12 = a mod 12"
proof (cases "0 \<le> a")
  case True
  then have "js_rem a 12 = a mod 12" by (cases "a = 0") (simp_all add: js_rem_def)
  then show ?thesis by (simp add: js_rem_def)
next
  case False
  then have r: "js_rem a 12 = - ((- a) mod 12)" by (simp add: js_rem_def)
  have "0 < 12 - (- a) mod 12" by (simp add: pos_mod_bound)
  then have "js_rem (js_rem a 12 + 12) 12 = (12 - (- a) mod 12) mod 12"
    unfolding r by (simp add: js_rem_def)
  also have "\<dots> = a mod 12" by (simp add: mod_simps)
  finally show ?thesis .
qed

definition daysInUtcMonth :: "int \<Rightarrow> int \<Rightarrow> int" where
  "daysInUtcMonth y m = getUTCDate (DateUTC y (m + 1) 0 0 0 0 0)"

definition addCalendarMonthsUtc :: "instant \<Rightarrow> int \<Rightarrow> instant" where
  "addCalendarMonthsUtc start months =
     (let year = getUTCFullYear start;
          month = getUTCMonth start + months;
          targetYear = year + month div 12;
          targetMonth = js_rem (js_rem month 12 + 12) 12;
          day = min (getUTCDate start) (daysInUtcMonth targetYear targetMonth)
      in DateUTC targetYear targetMonth day (getUTCHours start) (getUTCMinutes start)
           (getUTCSeconds start) (getUTCMilliseconds start))"

definition addBillingPeriod :: "instant \<Rightarrow> billing_cycle \<Rightarrow> instant" where
  "addBillingPeriod start cycle = addCalendarMonthsUtc start (if cycle = yearly then 12 else 1)"

definition addDaysUtc :: "instant \<Rightarrow> int \<Rightarrow> instant" where
  "addDaysUtc start days = start + days * day_ms"

text \<open>
  The frozen snapshot is untyped JSON: not an object, or an object whose \<open>billingCycle\<close> is
  one of the two cycles or anything else (\<open>None\<close>).
\<close>

datatype snapshot = SnapshotNotObject | SnapshotObject "billing_cycle option"

definition resolvePurchaseBillingCycle :: "billing_cycle option \<Rightarrow> snapshot \<Rightarrow> billing_cycle" where
  "resolvePurchaseBillingCycle checkoutCycle snap =
     (case checkoutCycle of
        Some c \<Rightarrow> c
      | None \<Rightarrow> (case snap of SnapshotObject (Some c) \<Rightarrow> c | _ \<Rightarrow> monthly))"

record plan_gifts =
  giftedDaysMonthly :: "int option"
  giftedDaysYearly :: "int option"

definition giftedDaysForCycle :: "'a plan_gifts_scheme \<Rightarrow> billing_cycle \<Rightarrow> int option" where
  "giftedDaysForCycle plan cycle =
     (case (if cycle = yearly then giftedDaysYearly plan else giftedDaysMonthly plan) of
        None \<Rightarrow> None
      | Some v \<Rightarrow> if v < 5 \<or> v > 15 then None else Some v)"

record gift_segment =
  gs_days :: int
  gs_startsAt :: instant
  gs_endsAt :: instant

record purchase_dates =
  pd_gift :: "gift_segment option"
  pd_currentPeriodStart :: instant
  pd_currentPeriodEnd :: instant

text \<open>\<open>if (input.giftedDays)\<close>: null and 0 are both "no gift".\<close>

definition computePurchaseDates :: "instant \<Rightarrow> billing_cycle \<Rightarrow> int option \<Rightarrow> purchase_dates" where
  "computePurchaseDates periodStart cycle giftDays =
     (case (case giftDays of Some d \<Rightarrow> if d = 0 then None else Some d | None \<Rightarrow> None) of
        Some d \<Rightarrow>
          (let endsAt = addDaysUtc periodStart d
           in \<lparr>pd_gift = Some \<lparr>gs_days = d, gs_startsAt = periodStart, gs_endsAt = endsAt\<rparr>,
               pd_currentPeriodStart = endsAt,
               pd_currentPeriodEnd = addBillingPeriod endsAt cycle\<rparr>)
      | None \<Rightarrow>
          \<lparr>pd_gift = None, pd_currentPeriodStart = periodStart,
           pd_currentPeriodEnd = addBillingPeriod periodStart cycle\<rparr>)"

subsection \<open>The calendar rule\<close>

lemma month_cases:
  assumes "m < (12 :: nat)"
  obtains "m = 0" | "m = 1" | "m = 2" | "m = 3" | "m = 4" | "m = 5" | "m = 6" | "m = 7"
    | "m = 8" | "m = 9" | "m = 10" | "m = 11"
  using assms by (auto simp: numeral_eq_Suc less_Suc_eq)

lemma days_in_month_range:
  assumes "m < 12" shows "28 \<le> days_in_month y m \<and> days_in_month y m \<le> 31"
  using assms by (rule month_cases) (simp_all add: days_in_month_def month_lengths_def)

lemma month_start_Suc:
  assumes "m < 12" shows "month_start y (Suc m) = month_start y m + days_in_month y m"
  using assms by (simp add: month_start_def days_in_month_def take_Suc_conv_app_nth month_lengths_facts)

lemma month_start_12: "month_start y 12 = year_length y"
  by (simp add: month_start_def month_lengths_facts)

lemma daysInUtcMonth_eq:
  assumes "m < 12" "100 \<le> y"
  shows "daysInUtcMonth y (int m) = days_in_month y m"
proof -
  have "makeDay y (int m + 1) 0 = year_start y + month_start y m + days_in_month y m - 1"
  proof (cases "m = 11")
    case True
    have "(int 11 + 1) div 12 = 1" "(int 11 + 1) mod 12 = 0" by simp_all
    then show ?thesis
      using month_start_Suc [of 11 y] month_start_12 [of y]
      by (simp add: makeDay_def True year_start_Suc month_start_def)
  next
    case False
    with assms have "(int m + 1) div 12 = 0" "(int m + 1) mod 12 = int (Suc m)" by simp_all
    then show ?thesis
      using assms by (simp add: makeDay_def month_start_Suc nat_add_distrib del: of_nat_Suc)
  qed
  then have "DateUTC y (int m + 1) 0 0 0 0 0 =
      (year_start y + month_start y m + days_in_month y m - 1) * day_ms + 0"
    using assms(2) by (simp add: DateUTC_def)
  from civil_of_day(3) [OF assms(1) _ order.refl order.refl _ this]
  show ?thesis
    using days_in_month_range [OF assms(1), of y] by (simp add: daysInUtcMonth_def ms_simps)
qed

text \<open>What \<open>addCalendarMonthsUtc\<close> computes, with the target month as a calendar month.\<close>

lemma addCalendarMonthsUtc_eq:
  assumes "Y = getUTCFullYear t + (getUTCMonth t + n) div 12"
    and "M = nat ((getUTCMonth t + n) mod 12)" and "100 \<le> Y"
    and "d = min (getUTCDate t) (days_in_month Y M)"
  shows "addCalendarMonthsUtc t n = (year_start Y + month_start Y M + d - 1) * day_ms + timeWithinDay t"
    and "M < 12" and "1 \<le> d" and "d \<le> days_in_month Y M"
proof -
  show M: "M < 12" using assms(2) by simp
  have iM: "int M = (getUTCMonth t + n) mod 12" using assms(2) by simp
  have "daysInUtcMonth Y (int M) = days_in_month Y M" by (rule daysInUtcMonth_eq [OF M assms(3)])
  moreover have "int M div 12 = 0" "int M mod 12 = int M" using M by simp_all
  then have "makeDay Y (int M) d = year_start Y + month_start Y M + d - 1"
    by (simp add: makeDay_def)
  ultimately show "addCalendarMonthsUtc t n =
      (year_start Y + month_start Y M + d - 1) * day_ms + timeWithinDay t"
    using assms(3)
    by (simp add: addCalendarMonthsUtc_def Let_def js_rem_12 DateUTC_def time_of_day_parts
        flip: assms(1) iM assms(4))
  show "1 \<le> d" "d \<le> days_in_month Y M"
    using assms(4) civil_components(3) [of t] days_in_month_range [OF M, of Y] by auto
qed

text \<open>
  Adding calendar months is the calendar rule: the result lies in the month \<open>n\<close> months
  later (carrying into the year), on the same day of the month or on the month's last day
  when it has no such day, at the same time of day. (Years below 100 are outside: \<open>Date.UTC\<close>
  reads them as 19xx.)
\<close>

theorem addCalendarMonths_components:
  assumes "100 \<le> getUTCFullYear t + (getUTCMonth t + n) div 12"
  shows "getUTCFullYear (addCalendarMonthsUtc t n) = getUTCFullYear t + (getUTCMonth t + n) div 12
       \<and> getUTCMonth (addCalendarMonthsUtc t n) = (getUTCMonth t + n) mod 12
       \<and> getUTCDate (addCalendarMonthsUtc t n) =
           min (getUTCDate t)
             (days_in_month (getUTCFullYear t + (getUTCMonth t + n) div 12)
                (nat ((getUTCMonth t + n) mod 12)))
       \<and> timeWithinDay (addCalendarMonthsUtc t n) = timeWithinDay t"
proof -
  note eq = addCalendarMonthsUtc_eq [OF refl refl assms refl]
  from civil_of_day [OF eq(2-4) timeWithinDay_range eq(1)] show ?thesis by simp
qed

lemma addCalendarMonths_components_witness:
  "getUTCMonth (addCalendarMonthsUtc 1706659200000 1) = 1
   \<and> getUTCDate (addCalendarMonthsUtc 1706659200000 1) = 29"
proof -
  have y: "getUTCFullYear 1706659200000 = 2024" by code_simp
  have m: "getUTCMonth 1706659200000 = 0" by code_simp
  have d: "getUTCDate 1706659200000 = 31" by code_simp
  show ?thesis
    using addCalendarMonths_components [of 1706659200000 1]
    by (simp add: y m d days_in_month_def month_lengths_def is_leap_def)
qed

lemma period_days:
  assumes "Y = getUTCFullYear t + (getUTCMonth t + n) div 12"
    and "M = nat ((getUTCMonth t + n) mod 12)" and "100 \<le> Y"
    and "d = min (getUTCDate t) (days_in_month Y M)"
  shows "addCalendarMonthsUtc t n - t =
     (year_start Y + month_start Y M + d
      - (year_start (getUTCFullYear t) + month_start (getUTCFullYear t) (nat (getUTCMonth t)) + getUTCDate t))
     * day_ms"
proof -
  have "t = dayOf t * day_ms + timeWithinDay t" by (simp add: day_plus_time)
  then have "addCalendarMonthsUtc t n - t =
      (year_start Y + month_start Y M + d - 1 - dayOf t) * day_ms"
    unfolding addCalendarMonthsUtc_eq(1) [OF assms] left_diff_distrib by linarith
  then show ?thesis unfolding civil_components(5) by simp
qed

lemma month_period:
  assumes "1970 \<le> getUTCFullYear t"
  shows "28 * day_ms \<le> addCalendarMonthsUtc t 1 - t \<and> addCalendarMonthsUtc t 1 - t \<le> 31 * day_ms"
proof -
  define y where "y = getUTCFullYear t"
  define m where "m = nat (getUTCMonth t)"
  define d where "d = getUTCDate t"
  have m: "m < 12" "getUTCMonth t = int m" and d: "1 \<le> d" "d \<le> days_in_month y m"
    using civil_components [of t] by (auto simp: y_def m_def d_def)
  have "\<exists>k. addCalendarMonthsUtc t 1 - t = k * day_ms \<and> 28 \<le> k \<and> k \<le> 31"
  proof (cases "m = 11")
    case True
    have "(int 11 + 1) div 12 = 1" "(int 11 + 1) mod 12 = 0" by simp_all
    then have "addCalendarMonthsUtc t 1 - t =
        (year_start (y + 1) + month_start (y + 1) 0 + min d (days_in_month (y + 1) 0)
          - (year_start y + month_start y 11 + d)) * day_ms"
      using period_days [of "y + 1" t 1 0 "min d (days_in_month (y + 1) 0)"] assms m(2)
      by (simp add: y_def [symmetric] d_def [symmetric] True)
    also have "\<dots> = 31 * day_ms"
      using d True month_start_Suc [of 11 y] month_start_12 [of y]
      by (simp add: year_start_Suc month_start_def days_in_month_def month_lengths_def)
    finally show ?thesis by (intro exI [of _ 31]) simp
  next
    case False
    with m have q: "(int m + 1) div 12 = 0" "(int m + 1) mod 12 = int (Suc m)" and m': "Suc m < 12"
      by simp_all
    have "addCalendarMonthsUtc t 1 - t =
        (year_start y + month_start y (Suc m) + min d (days_in_month y (Suc m))
          - (year_start y + month_start y m + d)) * day_ms"
      using period_days [of y t 1 "Suc m" "min d (days_in_month y (Suc m))"] assms m(2) q
      by (simp add: y_def [symmetric] d_def [symmetric] nat_add_distrib del: of_nat_Suc)
    also have "\<dots> = (days_in_month y m + min d (days_in_month y (Suc m)) - d) * day_ms"
      using m(1) by (simp add: month_start_Suc)
    finally show ?thesis
      using d days_in_month_range [OF m(1), of y] days_in_month_range [OF m', of y]
      by (intro exI [of _ "days_in_month y m + min d (days_in_month y (Suc m)) - d"]) auto
  qed
  then show ?thesis by (auto simp: ms_simps)
qed

lemma not_both_leap: "\<not> (is_leap y \<and> is_leap (y + 1))"
proof -
  have "is_leap z \<Longrightarrow> z mod 4 = 0" for z
    unfolding is_leap_def dvd_eq_mod_eq_0 [symmetric] by (auto intro: dvd_trans [of _ 400])
  moreover have "\<not> (y mod 4 = 0 \<and> (y + 1) mod 4 = 0)" by presburger
  ultimately show ?thesis by blast
qed

lemma february: "days_in_month y 1 = 28 + (if is_leap y then 1 else 0)"
  by (simp add: days_in_month_def month_lengths_def)

lemma days_in_month_same: "m < 12 \<Longrightarrow> m \<noteq> 1 \<Longrightarrow> days_in_month y m = days_in_month z m"
  by (erule month_cases) (simp_all add: days_in_month_def month_lengths_def)

lemma month_start_leap:
  "m < 12 \<Longrightarrow> month_start y m = month_start 1 m + (if 2 \<le> m \<and> is_leap y then 1 else 0)"
  by (erule month_cases) (simp_all add: month_start_def month_lengths_def is_leap_def)

lemma year_period:
  assumes "1970 \<le> getUTCFullYear t"
  shows "365 * day_ms \<le> addCalendarMonthsUtc t 12 - t \<and> addCalendarMonthsUtc t 12 - t \<le> 366 * day_ms"
proof -
  define y where "y = getUTCFullYear t"
  define m where "m = nat (getUTCMonth t)"
  define d where "d = getUTCDate t"
  have m: "m < 12" "getUTCMonth t = int m" and d: "1 \<le> d" "d \<le> days_in_month y m"
    using civil_components [of t] by (auto simp: y_def m_def d_def)
  define k where "k = year_start (y + 1) + month_start (y + 1) m + min d (days_in_month (y + 1) m)
          - (year_start y + month_start y m + d)"
  from m have q: "(int m + 12) div 12 = 1" "(int m + 12) mod 12 = int m" by simp_all
  have Y: "y + 1 = getUTCFullYear t + (getUTCMonth t + 12) div 12"
    unfolding m(2) q(1) y_def ..
  have M: "m = nat ((getUTCMonth t + 12) mod 12)" unfolding m(2) q(2) nat_int ..
  have "100 \<le> y + 1" using assms by (simp add: y_def)
  from period_days [OF Y M this refl] have "addCalendarMonthsUtc t 12 - t = k * day_ms"
    unfolding k_def y_def m_def d_def .
  moreover have "365 \<le> k \<and> k \<le> 366"
  proof -
    have k: "k = year_length y + (month_start (y + 1) m - month_start y m)
                  + (min d (days_in_month (y + 1) m) - d)"
      by (simp add: k_def year_start_Suc)
    show ?thesis
    proof (cases "m = 1")
      case True
      then have "d \<le> 28 + (if is_leap y then 1 else 0)" using d february [of y] by simp
      moreover have "month_start (y + 1) 1 = month_start y 1"
        by (simp add: month_start_def month_lengths_def)
      ultimately have "k = year_length y + (min d (28 + (if is_leap (y + 1) then 1 else 0)) - d)"
        unfolding k True february by simp
      then show ?thesis
        using not_both_leap [of y] d february [of y] True by (auto simp: year_length_def)
    next
      case False
      have "min d (days_in_month (y + 1) m) = d"
        using d days_in_month_same [OF m(1) False, of "y + 1" y] by simp
      moreover have "month_start (y + 1) m - month_start y m =
          (if 2 \<le> m \<and> is_leap (y + 1) then 1 else 0) - (if 2 \<le> m \<and> is_leap y then 1 else 0)"
        using month_start_leap [OF m(1), of y] month_start_leap [OF m(1), of "y + 1"] by linarith
      ultimately show ?thesis
        using not_both_leap [of y] unfolding k by (auto simp: year_length_def)
    qed
  qed
  ultimately show ?thesis by (auto simp: ms_simps)
qed

text \<open>
  A paid period is never short-changed: a monthly period is 28 to 31 days long and a
  yearly one 365 or 366, wherever in the calendar it starts.
\<close>

theorem billing_period_length:
  assumes "1970 \<le> getUTCFullYear start"
  shows "(case cycle of monthly \<Rightarrow> 28 | yearly \<Rightarrow> 365) * day_ms \<le> addBillingPeriod start cycle - start
       \<and> addBillingPeriod start cycle - start \<le> (case cycle of monthly \<Rightarrow> 31 | yearly \<Rightarrow> 366) * day_ms"
  using month_period [OF assms] year_period [OF assms]
  by (cases cycle) (simp_all add: addBillingPeriod_def)

lemma billing_period_length_witness:
  "28 * day_ms \<le> addBillingPeriod 1706659200000 monthly - 1706659200000"
proof -
  have "getUTCFullYear 1706659200000 = 2024" by code_simp
  then show ?thesis using billing_period_length [of 1706659200000 monthly] by simp
qed


text \<open>
  The gift is on top of what was paid for. With gifted days the gifted segment starts
  with the purchase and lasts exactly that many days, the paid period starts where it ends,
  and it is as long as the same cycle bought without a gift at that instant; without a gift the paid
  period starts at once. The period end always lies after the period start.
\<close>

theorem gift_precedes_paid_period:
  assumes "1970 \<le> getUTCFullYear (pd_currentPeriodStart (computePurchaseDates start cycle giftDays))"
  shows "pd_currentPeriodEnd (computePurchaseDates start cycle giftDays) =
           pd_currentPeriodEnd (computePurchaseDates
             (pd_currentPeriodStart (computePurchaseDates start cycle giftDays)) cycle None)
       \<and> pd_currentPeriodStart (computePurchaseDates start cycle giftDays)
           < pd_currentPeriodEnd (computePurchaseDates start cycle giftDays)
       \<and> (case pd_gift (computePurchaseDates start cycle giftDays) of
            None \<Rightarrow> pd_currentPeriodStart (computePurchaseDates start cycle giftDays) = start
          | Some g \<Rightarrow> gs_startsAt g = start \<and> gs_endsAt g = start + gs_days g * day_ms
              \<and> pd_currentPeriodStart (computePurchaseDates start cycle giftDays) = gs_endsAt g
              \<and> giftDays = Some (gs_days g))"
proof -
  have later: "s < addBillingPeriod s cycle" if "1970 \<le> getUTCFullYear s" for s
    using month_period [OF that] year_period [OF that]
    by (cases cycle) (auto simp: addBillingPeriod_def ms_simps)
  show ?thesis
  proof (cases "giftDays = None \<or> giftDays = Some 0")
    case True
    then have "computePurchaseDates start cycle giftDays = computePurchaseDates start cycle None"
      by (auto simp: computePurchaseDates_def)
    then show ?thesis using assms later by (simp add: computePurchaseDates_def)
  next
    case False
    then obtain d where "giftDays = Some d" "d \<noteq> 0" by auto
    then show ?thesis using assms later by (simp add: computePurchaseDates_def Let_def addDaysUtc_def)
  qed
qed

lemma gift_precedes_paid_period_witness:
  "pd_currentPeriodStart (computePurchaseDates 1706659200000 monthly (Some 7)) = 1707264000000"
proof -
  have s: "pd_currentPeriodStart (computePurchaseDates 1706659200000 monthly (Some 7)) = 1707264000000"
    by (simp add: computePurchaseDates_def addDaysUtc_def Let_def ms_simps)
  have "getUTCFullYear 1707264000000 = 2024" by code_simp
  then have "1970 \<le> getUTCFullYear
      (pd_currentPeriodStart (computePurchaseDates 1706659200000 monthly (Some 7)))"
    unfolding s by simp
  from gift_precedes_paid_period [OF this] s show ?thesis by simp
qed

text \<open>
  What clamping leaves: a customer who pays on 31 January renews to 28 February, and the
  next renewal, which starts from that clamped end, runs to 28 March, three days short of the
  calendar day they pay on. Two months bought at once would run to 31 March.
\<close>

theorem clamped_renewals_drift:
  "getUTCDate 1738281600000 = 31
   \<and> getUTCDate (addBillingPeriod (addBillingPeriod 1738281600000 monthly) monthly) = 28
   \<and> getUTCDate (addCalendarMonthsUtc 1738281600000 2) = 31"
  by code_simp

end
