(* ===== verification/Plan_Changes.thy ===== *)
theory Plan_Changes
  imports Tenant_Subscription
begin

text \<open>
  What a plan grants and when a plan change takes effect: \<open>granted-limits.util.ts\<close>,
  \<open>scheduled-plan-change.util.ts\<close>, \<open>annual-plan-change.util.ts\<close>,
  \<open>add-on-purchase-rules.util.ts\<close>.
  A limit is a number or unlimited, ordered with unlimited on top.
\<close>

definition withinLimit :: "limit_value \<Rightarrow> limit_value \<Rightarrow> bool" where
  "withinLimit a b =
     (case (a, b) of (_, Unlimited) \<Rightarrow> True | (Unlimited, Limited _) \<Rightarrow> False
                   | (Limited x, Limited y) \<Rightarrow> x \<le> y)"

instantiation limit_value :: linorder
begin

definition less_eq_limit_value :: "limit_value \<Rightarrow> limit_value \<Rightarrow> bool" where
  "less_eq_limit_value = withinLimit"

definition less_limit_value :: "limit_value \<Rightarrow> limit_value \<Rightarrow> bool" where
  "less_limit_value a b = (a \<le> b \<and> \<not> b \<le> (a :: limit_value))"

instance
  by intro_classes
    (auto simp: less_eq_limit_value_def withinLimit_def less_limit_value_def split: limit_value.splits)

end

lemma limit_le_simps [simp]:
  "a \<le> Unlimited" "Unlimited \<le> Limited x \<longleftrightarrow> False" "Limited x \<le> Limited y \<longleftrightarrow> x \<le> y"
  "Limited x < Unlimited" "Unlimited < a \<longleftrightarrow> False" "Limited x < Limited y \<longleftrightarrow> x < y"
  by (auto simp: less_eq_limit_value_def withinLimit_def less_limit_value_def split: limit_value.splits)

definition ALL_LIMIT_KEYS :: "plan_limit_key list" where
  "ALL_LIMIT_KEYS = [academies, students, instructors, staff, courses, generalStorage,
     videoStorage, videoStorageMinutes, recordedSessions, monthlyEmails]"

lemma in_ALL_LIMIT_KEYS [simp]: "k \<in> set ALL_LIMIT_KEYS"
  by (cases k) (simp_all add: ALL_LIMIT_KEYS_def)

subsection \<open>Granted limits\<close>

definition resolveSubscriptionLimits :: "limits_column \<Rightarrow> plan_resource_limits \<Rightarrow> plan_resource_limits" where
  "resolveSubscriptionLimits granted planLimits =
     (case granted of LimitObject l \<Rightarrow> l | _ \<Rightarrow> planLimits)"

subsection \<open>Scheduled downgrades\<close>

definition SCHEDULED_CHANGE_MIN_DAYS_LEFT :: int where "SCHEDULED_CHANGE_MIN_DAYS_LEFT = 7"

definition isLimitDowngrade :: "plan_resource_limits \<Rightarrow> plan_resource_limits \<Rightarrow> bool" where
  "isLimitDowngrade current next_limits \<longleftrightarrow>
     list_ex (\<lambda>k. case (current k, next_limits k) of
                    (Some before, Some after) \<Rightarrow> after < before
                  | _ \<Rightarrow> False) ALL_LIMIT_KEYS"

definition shouldScheduleDowngrade ::
  "uid \<Rightarrow> uid \<Rightarrow> plan_resource_limits \<Rightarrow> plan_resource_limits \<Rightarrow> instant \<Rightarrow> instant \<Rightarrow> bool" where
  "shouldScheduleDowngrade currentPlanId nextPlanId currentLimits nextLimits periodEnd now =
     (if currentPlanId = nextPlanId then False
      else if periodEnd - now \<le> SCHEDULED_CHANGE_MIN_DAYS_LEFT * day_ms then False
      else isLimitDowngrade currentLimits nextLimits)"

lemma isLimitDowngrade_iff:
  "isLimitDowngrade c n \<longleftrightarrow> (\<exists>k b a. c k = Some b \<and> n k = Some a \<and> a < b)"
  by (force simp: isLimitDowngrade_def list_ex_iff split: option.splits)

subsection \<open>Changes during an annual period\<close>

definition ANNUAL_CHANGE_WINDOW_DAYS :: int where "ANNUAL_CHANGE_WINDOW_DAYS = 30"

record current_for_change =
  cc_status :: tenant_status
  cc_billingCycle :: "billing_cycle option"
  cc_currentPeriodEnd :: "instant option"
  cc_planKey :: string

definition isRefusedMidAnnualPlanChange ::
  "current_for_change option \<Rightarrow> string \<Rightarrow> instant \<Rightarrow> bool" where
  "isRefusedMidAnnualPlanChange current target now =
     (case current of
        None \<Rightarrow> False
      | Some c \<Rightarrow>
          if cc_planKey c = target then False
          else if cc_status c \<noteq> active \<and> cc_status c \<noteq> grace_period then False
          else if cc_billingCycle c \<noteq> Some yearly then False
          else case cc_currentPeriodEnd c of
                 None \<Rightarrow> False
               | Some e \<Rightarrow> e - now > ANNUAL_CHANGE_WINDOW_DAYS * 24 * 60 * 60 * 1000)"

subsection \<open>Add-ons\<close>

text \<open>
  \<open>pricing.amount\<close> of untyped JSON: absent, a finite number (given as a number or as a
  numeric string), or anything else.
\<close>

datatype pricing_amount = AmountAbsent | AmountNumber rat | AmountOther

definition isPricedAddOn :: "pricing_amount \<Rightarrow> bool" where
  "isPricedAddOn a = (case a of AmountNumber x \<Rightarrow> x > 0 | _ \<Rightarrow> False)"

definition isPlanCompatibleWithAddOn :: "string list option \<Rightarrow> string option \<Rightarrow> bool" where
  "isPlanCompatibleWithAddOn keys planKey =
     (case keys of
        None \<Rightarrow> True
      | Some ks \<Rightarrow> if ks = [] then True
                  else case planKey of None \<Rightarrow> False | Some k \<Rightarrow> k \<noteq> [] \<and> k \<in> set ks)"

text \<open>
  A plan change is called a downgrade exactly when some limit both plans define gets
  smaller, and of two different plans that define the same limits at least one direction
  is a downgrade unless the limits are equal. A mid-annual change is refused only while
  more than 30 days of a live annual period remain, never for a renewal of the same plan.
\<close>

theorem downgrade_spec:
  "(isLimitDowngrade c n \<longleftrightarrow> (\<exists>k b a. c k = Some b \<and> n k = Some a \<and> a < b))
   \<and> (dom c = dom n \<and> c \<noteq> n \<longrightarrow> isLimitDowngrade c n \<or> isLimitDowngrade n c)
   \<and> (isRefusedMidAnnualPlanChange (Some s) target now \<longrightarrow>
        cc_planKey s \<noteq> target \<and> cc_billingCycle s = Some yearly
        \<and> (\<exists>e. cc_currentPeriodEnd s = Some e \<and> now + 30 * day_ms < e))"
proof (intro conjI impI)
  show "isLimitDowngrade c n \<longleftrightarrow> (\<exists>k b a. c k = Some b \<and> n k = Some a \<and> a < b)"
    by (rule isLimitDowngrade_iff)
next
  assume *: "dom c = dom n \<and> c \<noteq> n"
  then obtain k where k: "c k \<noteq> n k" by (meson ext)
  with * obtain b a where ba: "c k = Some b" "n k = Some a"
    by (metis domD domI domIff option.exhaust)
  with k have "b < a \<or> a < b" by auto
  then show "isLimitDowngrade c n \<or> isLimitDowngrade n c"
    using ba unfolding isLimitDowngrade_iff by blast
qed (auto simp: isRefusedMidAnnualPlanChange_def ANNUAL_CHANGE_WINDOW_DAYS_def ms_simps
      split: if_splits option.splits)

lemma downgrade_spec_witness:
  "isLimitDowngrade [students \<mapsto> Unlimited] [students \<mapsto> Limited 10]
   \<and> isRefusedMidAnnualPlanChange
       (Some \<lparr>cc_status = active, cc_billingCycle = Some yearly,
              cc_currentPeriodEnd = Some (40 * day_ms), cc_planKey = ''a''\<rparr>) ''b'' 0"
  using downgrade_spec [of "[students \<mapsto> Unlimited]" "[students \<mapsto> Limited 10]"]
  by (auto simp: isLimitDowngrade_iff isRefusedMidAnnualPlanChange_def ANNUAL_CHANGE_WINDOW_DAYS_def
      ms_simps split: if_splits)

end
