(* ===== verification/Payment_Application.thy ===== *)
theory Payment_Application
  imports Subscription_Lifecycle Billing_Period Plan_Changes
begin

text \<open>
  What a successful payment does (\<open>billing/services/payment-application.service.ts\<close>): the
  conditional transition of the payment, the completed checkout, the plan purchase with its
  dates, its gifted days (\<open>plans/services/paid-gift-eligibility.service.ts\<close>) and its
  scheduled downgrade, the add-on activation and the receipt.
  A handler maps the tables before the transaction to an error (the transaction rolls
  back) or to the tables after it. Parameters (\<open>billing_env\<close>): the catalog read by the
  handler, the live owner of an organization and the hash of an owner's email address.
\<close>

subsection \<open>Data\<close>

datatype payment_status =
  pay_created | pay_pending | pay_processing | pay_requires_action | pay_requires_confirmation
  | pay_succeeded | pay_failed | pay_cancelled | pay_expired

definition NON_TERMINAL_PAYMENT_STATUSES :: "payment_status list" where
  "NON_TERMINAL_PAYMENT_STATUSES =
     [pay_created, pay_pending, pay_processing, pay_requires_action, pay_requires_confirmation]"

record payment =
  p_id :: uid
  p_organizationId :: uid
  p_status :: payment_status
  p_checkoutId :: "uid option"
  p_failureReason :: "string option"

datatype checkout_target = plan_subscription | add_on

datatype checkout_status =
  checkout_draft | checkout_pending_payment | checkout_completed | checkout_expired | checkout_cancelled

record checkout =
  co_id :: uid
  co_organizationId :: uid
  co_targetType :: checkout_target
  co_targetKey :: string
  co_billingCycle :: "billing_cycle option"
  co_snapshot :: snapshot
  co_status :: checkout_status

record plan = plan_gifts +
  pl_id :: uid
  pl_key :: string
  pl_limits :: plan_resource_limits

datatype catalog_status = catalog_draft | catalog_coming_soon | catalog_published

record add_on_entry =
  ao_id :: uid
  ao_key :: string
  ao_catalogStatus :: catalog_status

record gift_redemption =
  gr_subjectHash :: string
  gr_organizationId :: uid
  gr_redeemedByUserId :: uid
  gr_paymentId :: uid
  gr_giftedDays :: int
  gr_startsAt :: instant
  gr_endsAt :: instant

record receipt =
  rc_organizationId :: uid
  rc_periodStart :: instant
  rc_periodEnd :: instant
  rc_gift :: "(int \<times> instant \<times> instant) option"

record billing_state =
  bs_payments :: "payment list"
  bs_checkouts :: "checkout list"
  bs_subs :: sub_table
  bs_redemptions :: "gift_redemption list"
  bs_addOns :: "(uid \<times> uid) list"
  bs_receipts :: "receipt list"

text \<open>
  What the handler reads and does not write. \<open>liveOwner\<close> is the owner row that is not
  deleted and has an email address (its id and email); \<open>subjectHash\<close> the keyed hash of the
  email; \<open>ownerUser\<close> the organization's owner id.
\<close>

record billing_env =
  plans :: "plan list"
  addOnCatalog :: "add_on_entry list"
  liveOwner :: "uid \<Rightarrow> (uid \<times> string) option"
  subjectHash :: "string \<Rightarrow> string"
  ownerUser :: "uid \<Rightarrow> uid option"

subsection \<open>Payment transitions\<close>

definition success_guard :: "bool \<Rightarrow> payment \<Rightarrow> bool" where
  "success_guard fromNonTerminalOnly p \<longleftrightarrow>
     (if fromNonTerminalOnly then p_status p \<in> set NON_TERMINAL_PAYMENT_STATUSES
      else p_status p \<noteq> pay_succeeded)"

definition markSucceededIfNotAlready ::
  "uid \<Rightarrow> bool \<Rightarrow> payment list \<Rightarrow> payment list \<times> bool" where
  "markSucceededIfNotAlready pid fromNonTerminalOnly =
     guarded p_id (success_guard fromNonTerminalOnly)
       (\<lambda>p. p\<lparr>p_status := pay_succeeded, p_failureReason := None\<rparr>) pid"


definition applyFailedPayment :: "uid \<Rightarrow> string \<Rightarrow> payment list \<Rightarrow> payment list" where
  "applyFailedPayment pid why ps =
     map (\<lambda>p. if p_id p = pid then p\<lparr>p_status := pay_failed, p_failureReason := Some why\<rparr> else p) ps"

definition updateCheckoutStatus :: "uid \<Rightarrow> checkout_status \<Rightarrow> checkout list \<Rightarrow> checkout list" where
  "updateCheckoutStatus cid st cs = map (\<lambda>c. if co_id c = cid then c\<lparr>co_status := st\<rparr> else c) cs"

subsection \<open>Gifted days\<close>

datatype gift_refusal =
  not_fresh_start | no_gift_configured | organization_already_paid | owner_unavailable
  | already_redeemed

datatype gift_decision = GiftGranted int instant instant | GiftRefused gift_refusal

definition organizationHasPaidBefore ::
  "uid \<Rightarrow> tenant_subscription option \<Rightarrow> uid option \<Rightarrow> billing_state \<Rightarrow> bool" where
  "organizationHasPaidBefore org existing excluded st =
     ((case existing of
         None \<Rightarrow> False
       | Some r \<Rightarrow> giftedDays r \<noteq> None \<or> currentPeriodEnd r \<noteq> None)
      \<or> count_rows (\<lambda>p. p_organizationId p = org \<and> p_status p = pay_succeeded
            \<and> (case excluded of None \<Rightarrow> True | Some x \<Rightarrow> p_id p \<noteq> x)
            \<and> (case p_checkoutId p of
                 None \<Rightarrow> False
               | Some c \<Rightarrow> (case find_by co_id c (bs_checkouts st) of
                             None \<Rightarrow> False
                           | Some co \<Rightarrow> co_targetType co = plan_subscription))) (bs_payments st) > 0)"

definition claimFirstPaidGift ::
  "billing_env \<Rightarrow> uid \<Rightarrow> uid \<Rightarrow> plan \<Rightarrow> billing_cycle \<Rightarrow> bool \<Rightarrow> tenant_subscription option \<Rightarrow>
     instant \<Rightarrow> billing_state \<Rightarrow> gift_decision \<times> gift_redemption list" where
  "claimFirstPaidGift env org paymentId plan cycle extends existing now st =
     (let ledger = bs_redemptions st in
      if extends then (GiftRefused not_fresh_start, ledger)
      else case giftedDaysForCycle plan cycle of
        None \<Rightarrow> (GiftRefused no_gift_configured, ledger)
      | Some days \<Rightarrow>
          if organizationHasPaidBefore org existing (Some paymentId) st
          then (GiftRefused organization_already_paid, ledger)
          else case liveOwner env org of
            None \<Rightarrow> (GiftRefused owner_unavailable, ledger)
          | Some (ownerId, email) \<Rightarrow>
              (let h = subjectHash env email;
                   startsAt = now;
                   endsAt = addDaysUtc startsAt days
               in if h \<in> gr_subjectHash ` set ledger then (GiftRefused already_redeemed, ledger)
                  else (GiftGranted days startsAt endsAt,
                        ledger @ [\<lparr>gr_subjectHash = h, gr_organizationId = org,
                          gr_redeemedByUserId = ownerId, gr_paymentId = paymentId,
                          gr_giftedDays = days, gr_startsAt = startsAt, gr_endsAt = endsAt\<rparr>])))"

definition describeGiftAvailability ::
  "billing_env \<Rightarrow> uid \<Rightarrow> tenant_subscription option \<Rightarrow> billing_state \<Rightarrow> bool" where
  "describeGiftAvailability env org existing st =
     (if organizationHasPaidBefore org existing None st then False
      else case liveOwner env org of
             None \<Rightarrow> False
           | Some (_, email) \<Rightarrow> subjectHash env email \<notin> gr_subjectHash ` set (bs_redemptions st))"

subsection \<open>The commercial effect\<close>

definition planLimitsOf :: "billing_env \<Rightarrow> uid \<Rightarrow> plan_resource_limits" where
  "planLimitsOf env pid =
     (case find_by pl_id pid (plans env) of None \<Rightarrow> Map.empty | Some p \<Rightarrow> pl_limits p)"

definition extendsCurrentPeriod :: "tenant_subscription option \<Rightarrow> instant \<Rightarrow> bool" where
  "extendsCurrentPeriod existing now =
     (case existing of
        None \<Rightarrow> False
      | Some r \<Rightarrow> (status r = active \<or> status r = grace_period)
                  \<and> (case currentPeriodEnd r of None \<Rightarrow> False | Some e \<Rightarrow> e > now))"

text \<open>The argument of \<open>upsertForPlanPurchase\<close>, from the row read under the lock.\<close>

definition planPurchase ::
  "billing_env \<Rightarrow> tenant_subscription option \<Rightarrow> plan \<Rightarrow> billing_cycle \<Rightarrow> gift_decision \<Rightarrow> uid \<Rightarrow>
     instant \<Rightarrow> plan_purchase" where
  "planPurchase env existing plan cycle gift paymentId now =
     (let extends = extendsCurrentPeriod existing now;
          periodEnd = (case existing of None \<Rightarrow> None | Some r \<Rightarrow> currentPeriodEnd r);
          periodStart = (if extends then the periodEnd else now);
          dates = computePurchaseDates periodStart cycle
                    (case gift of GiftGranted d _ _ \<Rightarrow> Some d | GiftRefused _ \<Rightarrow> None);
          scheduleAt =
            (case existing of
               None \<Rightarrow> None
             | Some r \<Rightarrow>
                 if extends \<and> planId r \<noteq> pl_id plan
                    \<and> shouldScheduleDowngrade (planId r) (pl_id plan)
                        (resolveSubscriptionLimits (grantedLimits r) (planLimitsOf env (planId r)))
                        (pl_limits plan) (the periodEnd) now
                 then periodEnd else None)
      in \<lparr>pp_planId = pl_id plan, pp_billingCycle = cycle,
          pp_currentPeriodStart = pd_currentPeriodStart dates,
          pp_currentPeriodEnd = pd_currentPeriodEnd dates,
          pp_grantedLimits = LimitObject (pl_limits plan),
          pp_gift = map_option (\<lambda>g. \<lparr>gc_days = gs_days g, gc_startsAt = gs_startsAt g,
                                   gc_endsAt = gs_endsAt g, gc_paymentId = paymentId\<rparr>) (pd_gift dates),
          pp_scheduleAt = scheduleAt\<rparr>)"

definition applyCommercialEffect ::
  "billing_env \<Rightarrow> checkout \<Rightarrow> uid \<Rightarrow> instant \<Rightarrow> billing_state \<Rightarrow> billing_state outcome" where
  "applyCommercialEffect env co paymentId now st =
     (case co_targetType co of
        plan_subscription \<Rightarrow>
          (case find_by pl_key (co_targetKey co) (plans env) of
             None \<Rightarrow> throw NotFoundException ''errors.checkout.planNoLongerExists''
           | Some plan \<Rightarrow>
               (let org = co_organizationId co;
                    existing = findByOrganizationId org (bs_subs st);
                    cycle = resolvePurchaseBillingCycle (co_billingCycle co) (co_snapshot co);
                    (gift, ledger) = claimFirstPaidGift env org paymentId plan cycle
                                       (extendsCurrentPeriod existing now) existing now st
                in Inr (st\<lparr>bs_subs := upsertForPlanPurchase org
                              (planPurchase env existing plan cycle gift paymentId now) (bs_subs st),
                          bs_redemptions := ledger\<rparr>)))
      | add_on \<Rightarrow>
          (case find_by ao_key (co_targetKey co) (addOnCatalog env) of
             Some a \<Rightarrow>
               if ao_catalogStatus a \<noteq> catalog_published
               then throw ForbiddenException ''errors.addOns.comingSoon''
               else Inr (st\<lparr>bs_addOns :=
                      (if (co_organizationId co, ao_id a) \<in> set (bs_addOns st) then bs_addOns st
                       else bs_addOns st @ [(co_organizationId co, ao_id a)])\<rparr>)
           | None \<Rightarrow> throw NotFoundException ''errors.checkout.addOnNoLongerExists''))"

definition emitActivated :: "billing_env \<Rightarrow> checkout \<Rightarrow> uid \<Rightarrow> billing_state \<Rightarrow> receipt option" where
  "emitActivated env co paymentId st =
     (if co_targetType co \<noteq> plan_subscription then None
      else if ownerUser env (co_organizationId co) = None then None
      else case findByOrganizationId (co_organizationId co) (bs_subs st) of
        None \<Rightarrow> None
      | Some r \<Rightarrow>
          (case (currentPeriodStart r, currentPeriodEnd r) of
             (Some s, Some e) \<Rightarrow>
               Some \<lparr>rc_organizationId = co_organizationId co, rc_periodStart = s, rc_periodEnd = e,
                     rc_gift =
                       (case (giftedDays r, giftedStartsAt r, giftedEndsAt r) of
                          (Some d, Some gs, Some ge) \<Rightarrow>
                            if giftedPaymentId r = Some paymentId \<and> d > 0 then Some (d, gs, ge) else None
                        | _ \<Rightarrow> None)\<rparr>
           | _ \<Rightarrow> None))"

text \<open>\<open>payment\<close> is the row the caller read; a payment id that is not in the table throws.\<close>

definition applySuccessfulPayment ::
  "billing_env \<Rightarrow> payment \<Rightarrow> bool \<Rightarrow> instant \<Rightarrow> billing_state \<Rightarrow>
     (billing_state \<times> receipt option) outcome" where
  "applySuccessfulPayment env payment fromNonTerminalOnly now st =
     (let (ps, transitioned) =
            markSucceededIfNotAlready (p_id payment) fromNonTerminalOnly (bs_payments st);
          st1 = st\<lparr>bs_payments := ps\<rparr>
      in if p_id payment \<notin> p_id ` set ps then throw NotFoundException ''P2025''
         else if \<not> transitioned then Inr (st1, None)
         else case p_checkoutId payment of
           None \<Rightarrow> Inr (st1, None)
         | Some cid \<Rightarrow>
             (case find_by co_id cid (bs_checkouts st1) of
                None \<Rightarrow> Inr (st1, None)
              | Some co \<Rightarrow>
                  (let st2 = st1\<lparr>bs_checkouts :=
                         updateCheckoutStatus (co_id co) checkout_completed (bs_checkouts st1)\<rparr>
                   in case applyCommercialEffect env co (p_id payment) now st2 of
                        Inl e \<Rightarrow> Inl e
                      | Inr st3 \<Rightarrow>
                          (let rcpt = emitActivated env co (p_id payment) st3
                           in Inr (st3\<lparr>bs_receipts :=
                                     bs_receipts st3 @ (case rcpt of None \<Rightarrow> [] | Some r \<Rightarrow> [r])\<rparr>,
                                   rcpt)))))"

subsection \<open>Applying once\<close>


subsection \<open>What a plan purchase leaves\<close>

definition freshRow :: "uid \<Rightarrow> plan_purchase \<Rightarrow> tenant_subscription" where
  "freshRow org d =
     giftColumns (pp_gift d)
       ((newSubscription org (pp_planId d) active None)
          \<lparr>grantedLimits := pp_grantedLimits d, billingCycle := Some (pp_billingCycle d),
           currentPeriodStart := Some (pp_currentPeriodStart d),
           currentPeriodEnd := Some (pp_currentPeriodEnd d)\<rparr>)"

lemma upsert_lookup:
  "findByOrganizationId org (upsertForPlanPurchase org d t) =
     Some (case findByOrganizationId org t of None \<Rightarrow> freshRow org d | Some r \<Rightarrow> purchasedRow d r)"
proof (cases "org \<in> organizationId ` set t")
  case True
  then obtain r where r: "findByOrganizationId org t = Some r"
    by (metis find_by_None not_None_eq)
  have "upsertForPlanPurchase org d t =
          map (\<lambda>r. if organizationId r = org then purchasedRow d r else r) t"
    by (simp add: upsertForPlanPurchase_def True)
  moreover have "organizationId r = org" using r by (auto dest: find_by_Some)
  ultimately show ?thesis using r by (simp add: find_by_map)
next
  case False
  then have none: "findByOrganizationId org t = None" by simp
  have key: "organizationId (freshRow org d) = org"
    by (simp add: freshRow_def giftColumns_def newSubscription_def split: option.splits)
  have "find_by organizationId org (t @ [x]) = Some x" if "organizationId x = org" for x
    using False that by (induction t) auto
  moreover have "upsertForPlanPurchase org d t = t @ [freshRow org d]"
    using False by (simp add: upsertForPlanPurchase_def freshRow_def)
  ultimately show ?thesis using key unfolding none option.case by metis
qed

lemma purchased_columns:
  "status (purchasedRow d r) = active" "currentPeriodStart (purchasedRow d r) = Some (pp_currentPeriodStart d)"
  "currentPeriodEnd (purchasedRow d r) = Some (pp_currentPeriodEnd d)"
  "graceEndsAt (purchasedRow d r) = None" "cancelAtPeriodEnd (purchasedRow d r) = False"
  "status (freshRow org d) = active" "currentPeriodStart (freshRow org d) = Some (pp_currentPeriodStart d)"
  "currentPeriodEnd (freshRow org d) = Some (pp_currentPeriodEnd d)"
  "graceEndsAt (freshRow org d) = None" "cancelAtPeriodEnd (freshRow org d) = False"
  by (simp_all add: purchasedRow_def freshRow_def giftColumns_def planColumns_def newSubscription_def
      split: option.splits)

lemma plan_effect:
  assumes "applyCommercialEffect env co pid now st = Inr st'" "co_targetType co = plan_subscription"
  obtains plan gift where
    "find_by pl_key (co_targetKey co) (plans env) = Some plan"
    "claimFirstPaidGift env (co_organizationId co) pid plan
       (resolvePurchaseBillingCycle (co_billingCycle co) (co_snapshot co))
       (extendsCurrentPeriod (findByOrganizationId (co_organizationId co) (bs_subs st)) now)
       (findByOrganizationId (co_organizationId co) (bs_subs st)) now st = (gift, bs_redemptions st')"
    "bs_subs st' = upsertForPlanPurchase (co_organizationId co)
       (planPurchase env (findByOrganizationId (co_organizationId co) (bs_subs st)) plan
          (resolvePurchaseBillingCycle (co_billingCycle co) (co_snapshot co)) gift pid now) (bs_subs st)"
  using assms by (auto simp: applyCommercialEffect_def Let_def split: option.splits prod.splits)

lemma period_at_least:
  assumes "1970 \<le> getUTCFullYear start"
  shows "start + 28 * day_ms \<le> addBillingPeriod start cycle"
  using month_period [OF assms] year_period [OF assms]
  by (cases cycle) (auto simp: addBillingPeriod_def ms_simps)

lemma year_mono: "t \<le> t' \<Longrightarrow> getUTCFullYear t \<le> getUTCFullYear t'"
proof (rule ccontr)
  assume "t \<le> t'" and "\<not> getUTCFullYear t \<le> getUTCFullYear t'"
  then have "year_start (getUTCFullYear t' + 1) \<le> year_start (getUTCFullYear t)"
    by (intro year_start_mono) simp
  moreover have "dayOf t \<le> dayOf t'"
    using \<open>t \<le> t'\<close> by (simp add: dayOf_def ms_simps zdiv_mono1)
  ultimately show False
    using year_of_day_spec [of "dayOf t"] year_of_day_spec [of "dayOf t'"]
    unfolding getUTCFullYear_def by linarith
qed

lemma year_epoch: "0 \<le> t \<Longrightarrow> 1970 \<le> getUTCFullYear t"
proof -
  have "getUTCFullYear 0 = 1970" by code_simp
  then show "0 \<le> t \<Longrightarrow> 1970 \<le> getUTCFullYear t" using year_mono [of 0 t] by simp
qed

lemma gift_days_range: "giftedDaysForCycle plan cycle = Some d \<Longrightarrow> 5 \<le> d \<and> d \<le> 15"
  by (auto simp: giftedDaysForCycle_def split: option.splits if_splits)

lemma claim_granted:
  assumes "claimFirstPaidGift env org pid plan cycle extends existing now st = (GiftGranted d s e, ledger)"
  shows "\<not> extends \<and> 5 \<le> d \<and> d \<le> 15"
  using assms gift_days_range [of plan cycle d]
  by (auto simp: claimFirstPaidGift_def Let_def split: if_splits option.splits)

lemma purchase_period:
  assumes "0 \<le> now"
    and "\<And>d s e. gift = GiftGranted d s e \<Longrightarrow> \<not> extendsCurrentPeriod existing now \<and> 5 \<le> d"
  shows "now + 28 * day_ms \<le> pp_currentPeriodEnd (planPurchase env existing plan cycle gift pid now)
       \<and> (extendsCurrentPeriod existing now \<longrightarrow>
            (\<exists>r e. existing = Some r \<and> currentPeriodEnd r = Some e
              \<and> pp_currentPeriodStart (planPurchase env existing plan cycle gift pid now) = e
              \<and> e + 28 * day_ms \<le> pp_currentPeriodEnd (planPurchase env existing plan cycle gift pid now)))"
proof (cases "extendsCurrentPeriod existing now")
  case True
  then obtain r e where r: "existing = Some r" "currentPeriodEnd r = Some e" "now < e"
    by (auto simp: extendsCurrentPeriod_def split: option.splits)
  obtain why where g: "gift = GiftRefused why"
    using True assms(2) by (cases gift) auto
  have "e + 28 * day_ms \<le> addBillingPeriod e cycle"
    using r(3) assms(1) by (intro period_at_least year_epoch) simp
  then show ?thesis
    using True r g by (simp add: planPurchase_def Let_def computePurchaseDates_def)
next
  case False
  have base: "x + 28 * day_ms \<le> addBillingPeriod x cycle" if "now \<le> x" for x
    using that assms(1) by (intro period_at_least year_epoch) simp
  show ?thesis
  proof (cases gift)
    case (GiftGranted d s e)
    then have "5 \<le> d" using assms(2) by blast
    moreover have "now \<le> addDaysUtc now d" using \<open>5 \<le> d\<close> by (simp add: addDaysUtc_def ms_simps)
    ultimately show ?thesis
      using False base [of "addDaysUtc now d"] GiftGranted
      by (simp add: planPurchase_def Let_def computePurchaseDates_def)
  next
    case (GiftRefused why)
    then show ?thesis
      using False base [of now] by (simp add: planPurchase_def Let_def computePurchaseDates_def)
  qed
qed

text \<open>
  A purchase gives the whole period it sold. After a plan purchase is applied the
  organization is active with a period of at least 28 days from now, no grace and no
  pending cancellation; if a paid period was still running, the new one starts where that
  one ends, so paying early forfeits nothing; and access lasts until the new period's end
  at least.
\<close>

theorem purchase_gives_full_period:
  assumes "applyCommercialEffect env co pid now st = Inr st'"
    and "co_targetType co = plan_subscription" and "0 \<le> now"
  shows "\<exists>r e. findByOrganizationId (co_organizationId co) (bs_subs st') = Some r
       \<and> status r = active \<and> currentPeriodEnd r = Some e \<and> now + 28 * day_ms \<le> e
       \<and> (\<forall>old oldEnd. findByOrganizationId (co_organizationId co) (bs_subs st) = Some old
             \<and> status old \<in> {active, grace_period} \<and> currentPeriodEnd old = Some oldEnd \<and> now < oldEnd
             \<longrightarrow> currentPeriodStart r = Some oldEnd \<and> oldEnd + 28 * day_ms \<le> e)
       \<and> (\<forall>t < e. hasAccess (getAccessState (Some r) t))"
proof -
  let ?old = "findByOrganizationId (co_organizationId co) (bs_subs st)"
  from assms(1,2) obtain plan gift where
    c: "claimFirstPaidGift env (co_organizationId co) pid plan
          (resolvePurchaseBillingCycle (co_billingCycle co) (co_snapshot co))
          (extendsCurrentPeriod ?old now) ?old now st = (gift, bs_redemptions st')" and
    u: "bs_subs st' = upsertForPlanPurchase (co_organizationId co)
       (planPurchase env ?old plan (resolvePurchaseBillingCycle (co_billingCycle co) (co_snapshot co))
          gift pid now) (bs_subs st)"
    by (rule plan_effect)
  let ?d = "planPurchase env ?old plan
     (resolvePurchaseBillingCycle (co_billingCycle co) (co_snapshot co)) gift pid now"
  have gift: "\<not> extendsCurrentPeriod ?old now \<and> 5 \<le> d" if "gift = GiftGranted d s e" for d s e
    using claim_granted c that by blast
  note period = purchase_period [where env = env and plan = plan and pid = pid
      and cycle = "resolvePurchaseBillingCycle (co_billingCycle co) (co_snapshot co)", OF assms(3) gift]
  define r where "r = (case ?old of None \<Rightarrow> freshRow (co_organizationId co) ?d | Some r \<Rightarrow> purchasedRow ?d r)"
  have look: "findByOrganizationId (co_organizationId co) (bs_subs st') = Some r"
    unfolding u r_def by (rule upsert_lookup)
  have cols: "status r = active" "currentPeriodStart r = Some (pp_currentPeriodStart ?d)"
    "currentPeriodEnd r = Some (pp_currentPeriodEnd ?d)" "graceEndsAt r = None" "\<not> cancelAtPeriodEnd r"
    by (simp_all add: r_def purchased_columns split: option.splits)
  have "hasAccess (getAccessState (Some r) t)" if "t < pp_currentPeriodEnd ?d" for t
    using that cols by (simp add: hasAccess_eff eff_active isPast_def)
  moreover have "extendsCurrentPeriod (Some old) now"
    if "status old \<in> {active, grace_period} \<and> currentPeriodEnd old = Some oldEnd \<and> now < oldEnd" for old oldEnd
    using that by (auto simp: extendsCurrentPeriod_def)
  ultimately show ?thesis
    using look cols period by (intro exI [of _ r] exI [of _ "pp_currentPeriodEnd ?d"]) auto
qed

subsection \<open>A concrete history\<close>

definition examplePlan :: "uid \<Rightarrow> int \<Rightarrow> plan" where
  "examplePlan k limit = \<lparr>giftedDaysMonthly = Some 7, giftedDaysYearly = None, pl_id = k, pl_key = k,
     pl_limits = [students \<mapsto> Limited limit]\<rparr>"

definition exampleEnv :: billing_env where
  "exampleEnv = \<lparr>plans = [examplePlan ''big'' 100, examplePlan ''small'' 10], addOnCatalog = [],
     liveOwner = (\<lambda>org. Some (''u'', ''owner@example.org'')), subjectHash = (\<lambda>email. email),
     ownerUser = (\<lambda>org. Some ''u'')\<rparr>"

definition exampleCheckout :: "uid \<Rightarrow> string \<Rightarrow> checkout" where
  "exampleCheckout cid target = \<lparr>co_id = cid, co_organizationId = ''org'', co_targetType = plan_subscription,
     co_targetKey = target, co_billingCycle = Some monthly, co_snapshot = SnapshotNotObject,
     co_status = checkout_pending_payment\<rparr>"

definition examplePayment :: "uid \<Rightarrow> uid \<Rightarrow> payment" where
  "examplePayment pid cid = \<lparr>p_id = pid, p_organizationId = ''org'', p_status = pay_pending,
     p_checkoutId = Some cid, p_failureReason = None\<rparr>"

text \<open>
  An organization on the big plan until 1 May 2025; two checkouts for the small plan.
\<close>

definition bigRow :: tenant_subscription where
  "bigRow = (newSubscription ''org'' ''big'' active None)
     \<lparr>grantedLimits := LimitObject [students \<mapsto> Limited 100],
      currentPeriodStart := Some 1743465600000, currentPeriodEnd := Some 1746057600000\<rparr>"

definition exampleBilling :: billing_state where
  "exampleBilling = \<lparr>bs_payments = [examplePayment ''p1'' ''c1'', examplePayment ''p2'' ''c2''],
     bs_checkouts = [exampleCheckout ''c1'' ''small'', exampleCheckout ''c2'' ''small''],
     bs_subs = [bigRow], bs_redemptions = [], bs_addOns = [], bs_receipts = []\<rparr>"

lemmas billing_example_defs = exampleEnv_def examplePlan_def exampleCheckout_def exampleBilling_def
  bigRow_def newSubscription_def examplePayment_def

definition afterEffect :: "billing_state \<Rightarrow> uid \<Rightarrow> instant \<Rightarrow> billing_state" where
  "afterEffect st pid now =
     (case applyCommercialEffect exampleEnv (exampleCheckout ''c'' ''small'') pid now st of
        Inr st' \<Rightarrow> st' | Inl _ \<Rightarrow> st)"

lemma next_month: "addBillingPeriod 1746057600000 monthly = 1748736000000"
  "addBillingPeriod 1748736000000 monthly = 1751328000000"
  by code_simp+

lemma small_downgrade: "isLimitDowngrade [students \<mapsto> Limited 100] [students \<mapsto> Limited 10]"
  by (auto simp: isLimitDowngrade_iff)

lemmas purchase_eval = applyCommercialEffect_def billing_example_defs claimFirstPaidGift_def Let_def
  resolvePurchaseBillingCycle_def planPurchase_def extendsCurrentPeriod_def computePurchaseDates_def
  next_month shouldScheduleDowngrade_def SCHEDULED_CHANGE_MIN_DAYS_LEFT_def ms_simps
  resolveSubscriptionLimits_def small_downgrade upsertForPlanPurchase_def purchasedRow_def
  giftColumns_def planColumns_def

lemma purchase_gives_full_period_witness:
  "\<exists>r e. findByOrganizationId ''org'' (bs_subs (afterEffect exampleBilling ''p1'' 1743552000000)) = Some r
      \<and> currentPeriodStart r = Some 1746057600000 \<and> currentPeriodEnd r = Some e
      \<and> 1746057600000 + 28 * day_ms \<le> e"
proof -
  let ?co = "exampleCheckout ''c'' ''small''"
  obtain st' where st': "applyCommercialEffect exampleEnv ?co ''p1'' 1743552000000 exampleBilling = Inr st'"
    by (auto simp: applyCommercialEffect_def billing_example_defs Let_def split_beta)
  then have "afterEffect exampleBilling ''p1'' 1743552000000 = st'" by (simp add: afterEffect_def)
  moreover have "co_targetType ?co = plan_subscription" by (simp add: exampleCheckout_def)
  moreover have old: "findByOrganizationId (co_organizationId ?co) (bs_subs exampleBilling) = Some bigRow"
    "status bigRow = active" "currentPeriodEnd bigRow = Some 1746057600000"
    by (simp_all add: exampleBilling_def bigRow_def newSubscription_def exampleCheckout_def)
  moreover have "co_organizationId ?co = ''org''" by (simp add: exampleCheckout_def)
  ultimately show ?thesis
    using purchase_gives_full_period [OF st'] by auto
qed


subsection \<open>Downgrades wait\<close>

lemma purchase_plan_columns:
  assumes "bs_subs st' = upsertForPlanPurchase org (planPurchase env (Some old) plan cycle gift pid now) (bs_subs st)"
    and "findByOrganizationId org (bs_subs st) = Some old" and "currentPeriodEnd old = Some e"
    and "status old \<in> {active, grace_period}" and "now + 7 * day_ms < e"
    and "planId old \<noteq> pl_id plan"
    and "isLimitDowngrade (resolveSubscriptionLimits (grantedLimits old) (planLimitsOf env (planId old)))
           (pl_limits plan)"
  shows "\<exists>r. findByOrganizationId org (bs_subs st') = Some r
       \<and> planId r = planId old \<and> grantedLimits r = grantedLimits old
       \<and> scheduledPlanId r = Some (pl_id plan) \<and> scheduledGrantedLimits r = LimitObject (pl_limits plan)
       \<and> scheduledChangeAt r = Some e"
proof -
  have ext: "extendsCurrentPeriod (Some old) now"
    using assms(3-5) by (auto simp: extendsCurrentPeriod_def ms_simps)
  have "pp_scheduleAt (planPurchase env (Some old) plan cycle gift pid now) = Some e"
    using ext assms(3,5-7)
    by (simp add: planPurchase_def Let_def shouldScheduleDowngrade_def SCHEDULED_CHANGE_MIN_DAYS_LEFT_def)
  moreover have "pp_planId (planPurchase env (Some old) plan cycle gift pid now) = pl_id plan"
    "pp_grantedLimits (planPurchase env (Some old) plan cycle gift pid now) = LimitObject (pl_limits plan)"
    by (simp_all add: planPurchase_def Let_def)
  ultimately show ?thesis
    unfolding assms(1) upsert_lookup assms(2)
    by (simp add: purchasedRow_def planColumns_def giftColumns_def split: option.splits)
qed

text \<open>
  A downgrade bought mid-period waits. When a live period still has more than seven days
  to run and the purchased plan grants less of something, the organization keeps its plan
  and its granted limits, and the new plan and its limits are scheduled for the end of
  the period it was on.
\<close>

theorem downgrade_is_scheduled:
  assumes "applyCommercialEffect env co pid now st = Inr st'" "co_targetType co = plan_subscription"
    and "find_by pl_key (co_targetKey co) (plans env) = Some plan"
    and "findByOrganizationId (co_organizationId co) (bs_subs st) = Some old"
    and "currentPeriodEnd old = Some e" and "status old \<in> {active, grace_period}"
    and "now + 7 * day_ms < e" and "planId old \<noteq> pl_id plan"
    and "isLimitDowngrade (resolveSubscriptionLimits (grantedLimits old) (planLimitsOf env (planId old)))
           (pl_limits plan)"
  shows "\<exists>r. findByOrganizationId (co_organizationId co) (bs_subs st') = Some r
       \<and> planId r = planId old \<and> grantedLimits r = grantedLimits old
       \<and> scheduledPlanId r = Some (pl_id plan) \<and> scheduledGrantedLimits r = LimitObject (pl_limits plan)
       \<and> scheduledChangeAt r = Some e"
proof -
  from assms(1,2) obtain plan' gift where
    p: "find_by pl_key (co_targetKey co) (plans env) = Some plan'" and
    u: "bs_subs st' = upsertForPlanPurchase (co_organizationId co)
       (planPurchase env (findByOrganizationId (co_organizationId co) (bs_subs st)) plan'
          (resolvePurchaseBillingCycle (co_billingCycle co) (co_snapshot co)) gift pid now) (bs_subs st)"
    by (rule plan_effect)
  from p assms(3) have "plan' = plan" by simp
  show ?thesis
    by (rule purchase_plan_columns [OF u [unfolded assms(4) \<open>plan' = plan\<close>] assms(4-9)])
qed

lemma example_scheduled:
  "\<exists>st'. applyCommercialEffect exampleEnv (exampleCheckout ''c'' ''small'') ''p1'' 1743552000000 exampleBilling = Inr st'
     \<and> (\<exists>r. bs_subs st' = [r] \<and> organizationId r = ''org'' \<and> planId r = ''big''
          \<and> grantedLimits r = LimitObject [students \<mapsto> Limited 100]
          \<and> scheduledChangeAt r = Some 1746057600000 \<and> currentPeriodEnd r = Some 1748736000000
          \<and> status r = active)"
  by (simp add: purchase_eval)

lemma downgrade_is_scheduled_witness:
  "\<exists>r. findByOrganizationId ''org'' (bs_subs (afterEffect exampleBilling ''p1'' 1743552000000)) = Some r
     \<and> planId r = ''big'' \<and> scheduledPlanId r = Some ''small'' \<and> scheduledChangeAt r = Some 1746057600000"
proof -
  let ?co = "exampleCheckout ''c'' ''small''"
  obtain st' where st': "applyCommercialEffect exampleEnv ?co ''p1'' 1743552000000 exampleBilling = Inr st'"
    using example_scheduled by blast
  have "\<exists>r. findByOrganizationId (co_organizationId ?co) (bs_subs st') = Some r
       \<and> planId r = planId bigRow \<and> grantedLimits r = grantedLimits bigRow
       \<and> scheduledPlanId r = Some (pl_id (examplePlan ''small'' 10))
       \<and> scheduledGrantedLimits r = LimitObject (pl_limits (examplePlan ''small'' 10))
       \<and> scheduledChangeAt r = Some 1746057600000"
    by (rule downgrade_is_scheduled [OF st'])
      (simp_all add: billing_example_defs ms_simps resolveSubscriptionLimits_def small_downgrade)
  moreover have "afterEffect exampleBilling ''p1'' 1743552000000 = st'" using st' by (simp add: afterEffect_def)
  ultimately show ?thesis by (auto simp: billing_example_defs)
qed

text \<open>
  What renewing a scheduled downgrade does. Buying the smaller plan a second time before
  the switch is again a downgrade of the plan the row still names, and its end is the end
  of the period already extended: the switch moves from 1 May to 1 June although the
  period from 1 May on was sold, and paid, as the smaller plan. The bigger plan and its
  limits stay in force, one purchase of the smaller plan at a time.
\<close>

theorem repeated_downgrade_postpones_switch:
  "\<exists>r1 r2. bs_subs (afterEffect exampleBilling ''p1'' 1743552000000) = [r1]
     \<and> bs_subs (afterEffect (afterEffect exampleBilling ''p1'' 1743552000000) ''p2'' 1745884800000) = [r2]
     \<and> scheduledChangeAt r1 = Some 1746057600000 \<and> currentPeriodEnd r1 = Some 1748736000000
     \<and> scheduledChangeAt r2 = Some 1748736000000 \<and> planId r2 = ''big''
     \<and> grantedLimits r2 = LimitObject [students \<mapsto> Limited 100]"
proof -
  let ?co = "exampleCheckout ''c'' ''small''"
  obtain st1 r1 where st1: "applyCommercialEffect exampleEnv ?co ''p1'' 1743552000000 exampleBilling = Inr st1"
    and r1: "bs_subs st1 = [r1]" "organizationId r1 = ''org''" "planId r1 = ''big''"
      "grantedLimits r1 = LimitObject [students \<mapsto> Limited 100]"
      "scheduledChangeAt r1 = Some 1746057600000" "currentPeriodEnd r1 = Some 1748736000000" "status r1 = active"
    using example_scheduled by blast
  have a1: "afterEffect exampleBilling ''p1'' 1743552000000 = st1" using st1 by (simp add: afterEffect_def)
  obtain st2 where st2: "applyCommercialEffect exampleEnv ?co ''p2'' 1745884800000 st1 = Inr st2"
    by (auto simp: applyCommercialEffect_def billing_example_defs Let_def split_beta)
  have a2: "afterEffect st1 ''p2'' 1745884800000 = st2" using st2 by (simp add: afterEffect_def)
  have look: "findByOrganizationId (co_organizationId ?co) (bs_subs st1) = Some r1"
    using r1 by (simp add: exampleCheckout_def)
  from st2 obtain plan gift where u: "find_by pl_key (co_targetKey ?co) (plans exampleEnv) = Some plan"
    "bs_subs st2 = upsertForPlanPurchase (co_organizationId ?co)
       (planPurchase exampleEnv (findByOrganizationId (co_organizationId ?co) (bs_subs st1)) plan
          (resolvePurchaseBillingCycle (co_billingCycle ?co) (co_snapshot ?co)) gift ''p2'' 1745884800000) (bs_subs st1)"
    by (rule plan_effect) (simp_all add: exampleCheckout_def)
  have plan: "plan = examplePlan ''small'' 10" using u(1) by (simp add: billing_example_defs)
  have "\<exists>r. findByOrganizationId (co_organizationId ?co) (bs_subs st2) = Some r
       \<and> planId r = planId r1 \<and> grantedLimits r = grantedLimits r1
       \<and> scheduledPlanId r = Some (pl_id plan) \<and> scheduledGrantedLimits r = LimitObject (pl_limits plan)
       \<and> scheduledChangeAt r = Some 1748736000000"
    by (rule purchase_plan_columns [OF u(2) [unfolded look] look])
      (simp_all add: r1 plan examplePlan_def ms_simps resolveSubscriptionLimits_def small_downgrade)
  moreover have "\<exists>r. bs_subs st2 = [r]" unfolding u(2) using r1
    by (auto simp: upsertForPlanPurchase_def exampleCheckout_def)
  ultimately show ?thesis using r1 by (auto simp: a1 a2 split: if_splits)
qed

subsection \<open>One gift per customer identity\<close>

lemma claim_ledger:
  assumes "claimFirstPaidGift env org pid plan cycle extends existing now st = (gift, ledger)"
    and "distinct (map gr_subjectHash (bs_redemptions st))"
  shows "distinct (map gr_subjectHash ledger)
       \<and> (case gift of
            GiftRefused _ \<Rightarrow> ledger = bs_redemptions st
          | GiftGranted d s e \<Rightarrow> \<exists>g. ledger = bs_redemptions st @ [g] \<and> gr_organizationId g = org
              \<and> gr_giftedDays g = d \<and> gr_startsAt g = s \<and> gr_endsAt g = e \<and> gr_paymentId g = pid
              \<and> (\<exists>u mail. liveOwner env org = Some (u, mail) \<and> gr_subjectHash g = subjectHash env mail))"
  using assms by (auto simp: claimFirstPaidGift_def Let_def split: if_splits option.splits)

definition applyAll ::
  "billing_env \<Rightarrow> (payment \<times> bool \<times> instant) list \<Rightarrow> billing_state \<Rightarrow> billing_state" where
  "applyAll env calls st =
     fold (\<lambda>(p, b, now) st. case applySuccessfulPayment env p b now st of
                              Inl _ \<Rightarrow> st | Inr (st', _) \<Rightarrow> st') calls st"

lemma effect_ledger:
  assumes "applyCommercialEffect env co pid now st = Inr st'"
    and "distinct (map gr_subjectHash (bs_redemptions st))"
  shows "distinct (map gr_subjectHash (bs_redemptions st'))
       \<and> (\<exists>new. bs_redemptions st' = bs_redemptions st @ new \<and> length new \<le> 1)"
proof (cases "co_targetType co")
  case plan_subscription
  obtain plan gift where c: "claimFirstPaidGift env (co_organizationId co) pid plan
       (resolvePurchaseBillingCycle (co_billingCycle co) (co_snapshot co))
       (extendsCurrentPeriod (findByOrganizationId (co_organizationId co) (bs_subs st)) now)
       (findByOrganizationId (co_organizationId co) (bs_subs st)) now st = (gift, bs_redemptions st')"
    using plan_effect [OF assms(1) plan_subscription] by metis
  show ?thesis using claim_ledger [OF c assms(2)] by (cases gift) auto
next
  case add_on
  with assms show ?thesis
    by (auto simp: applyCommercialEffect_def split: option.splits if_splits)
qed

lemma apply_ledger:
  assumes "applySuccessfulPayment env p b now st = Inr (st', r)"
    and "distinct (map gr_subjectHash (bs_redemptions st))"
  shows "distinct (map gr_subjectHash (bs_redemptions st'))
       \<and> (\<exists>new. bs_redemptions st' = bs_redemptions st @ new \<and> length new \<le> 1)"
  using assms
  by (auto simp: applySuccessfulPayment_def Let_def split_beta
      split: if_splits option.splits sum.splits dest!: effect_ledger)

text \<open>
  One gift per customer identity. Over any sequence of applied payments, for any
  organizations and in any order, the append-only ledger holds at most one redemption per
  identity hash, every application adds at most one, and what was recorded stays recorded.
\<close>

theorem one_gift_per_identity:
  assumes "distinct (map gr_subjectHash (bs_redemptions st))"
  shows "distinct (map gr_subjectHash (bs_redemptions (applyAll env calls st)))
       \<and> (\<exists>new. bs_redemptions (applyAll env calls st) = bs_redemptions st @ new
            \<and> length new \<le> length calls)"
  using assms
proof (induction calls arbitrary: st)
  case (Cons call calls)
  obtain p b now where call: "call = (p, b, now)" by (cases call)
  define st1 where "st1 = (case applySuccessfulPayment env p b now st of Inl _ \<Rightarrow> st | Inr (st', _) \<Rightarrow> st')"
  have step: "distinct (map gr_subjectHash (bs_redemptions st1))
      \<and> (\<exists>new. bs_redemptions st1 = bs_redemptions st @ new \<and> length new \<le> 1)"
    using apply_ledger [of env p b now st] Cons.prems
    by (auto simp: st1_def split: sum.splits)
  have "applyAll env (call # calls) st = applyAll env calls st1"
    by (simp add: applyAll_def call st1_def)
  moreover have "distinct (map gr_subjectHash (bs_redemptions (applyAll env calls st1)))
       \<and> (\<exists>new. bs_redemptions (applyAll env calls st1) = bs_redemptions st1 @ new
            \<and> length new \<le> length calls)"
    by (rule Cons.IH) (use step in blast)
  ultimately show ?case using step by (auto simp del: map_append)
qed (simp add: applyAll_def)

lemma one_gift_per_identity_witness:
  "distinct (map gr_subjectHash (bs_redemptions (applyAll exampleEnv
      [(examplePayment ''p1'' ''c1'', False, 1743552000000), (examplePayment ''p2'' ''c2'', True, 1743552000000)]
      (exampleBilling\<lparr>bs_subs := []\<rparr>))))"
  using one_gift_per_identity [of "exampleBilling\<lparr>bs_subs := []\<rparr>"] by (simp add: exampleBilling_def)

end
