(* ===== verification/Quiz_Engine.thy ===== *)
theory Quiz_Engine
  imports Atlas_Prelude "HOL-Library.Word" "HOL-Library.Multiset"
begin

text \<open>
  The pure core of the quiz engine (\<open>learning/services/quiz-engine.util.ts\<close>): the seeded
  paper of an attempt, its deadline and windows, the validation and scoring of answers, the
  result over several attempts, what is disclosed, and integrity decisions.
  Points and scores are exact rationals (the code computes in doubles). \<open>mulberry32\<close> works
  on 32-bit words; its quotient by \<open>2^32\<close> stays the word here and the index it is used for is
  computed exactly, as the double computation does for lists below \<open>2^21\<close> elements.
  Answer texts are sequences of 8-bit characters; Unicode normalisation and lower-casing are
  parameters.
\<close>

unbundle bit_operations_syntax

subsection \<open>Constants\<close>

definition QUIZ_SUBMIT_GRACE_SECONDS :: int where "QUIZ_SUBMIT_GRACE_SECONDS = 30"
definition QUIZ_AUTO_SUBMIT_DELAY_SECONDS :: int where
  "QUIZ_AUTO_SUBMIT_DELAY_SECONDS = QUIZ_SUBMIT_GRACE_SECONDS"
definition MAX_SHORT_ANSWER_LENGTH :: nat where "MAX_SHORT_ANSWER_LENGTH = 2000"
definition MAX_ESSAY_LENGTH :: nat where "MAX_ESSAY_LENGTH = 20000"
definition MAX_EVENTS_PER_BATCH :: nat where "MAX_EVENTS_PER_BATCH = 50"
definition INTEGRITY_DEBOUNCE_MS :: int where "INTEGRITY_DEBOUNCE_MS = 2000"
definition INTEGRITY_WARM_UP_MS :: int where "INTEGRITY_WARM_UP_MS = 5000"
definition INTEGRITY_SUB_SECOND_MS :: int where "INTEGRITY_SUB_SECOND_MS = 1000"

subsection \<open>Types\<close>

datatype question_type = single_choice | multiple_choice | true_false | short_answer | essay

record engine_option =
  eo_id :: uid
  eo_isCorrect :: bool

record engine_question =
  eq_id :: uid
  eq_type :: question_type
  eq_points :: rat
  eq_order :: int
  eq_acceptedAnswers :: "string list option"
  eq_options :: "engine_option list"

record attempt_answer =
  aa_questionId :: uid
  aa_selectedOptionIds :: "uid list option"
  aa_text :: "string option"

datatype answer_validation_error =
  unknownQuestion | duplicateQuestion | invalidOption | textTooLong | wrongAnswerShape

record question_score =
  qs_questionId :: uid
  qs_correct :: "bool option"
  qs_pointsAwarded :: rat
  qs_pointsPossible :: rat
  qs_needsManualGrading :: bool
  qs_answered :: bool

record attempt_score =
  as_pointsEarned :: rat
  as_pointsTotal :: rat
  as_score :: "rat option"
  as_pendingManual :: bool
  as_perQuestion :: "question_score list"

subsection \<open>Seeded randomness\<close>

definition mulberry32_init :: "32 word \<Rightarrow> 32 word" where
  "mulberry32_init seed = seed"

definition mulberry32 :: "32 word \<Rightarrow> 32 word \<times> 32 word" where
  "mulberry32 a =
     (let a' = a + 0x6d2b79f5;
          t1 = (a' XOR drop_bit 15 a') * (a' OR 1);
          t2 = t1 XOR (t1 + (t1 XOR drop_bit 7 t1) * (t1 OR 61))
      in (t2 XOR drop_bit 14 t2, a'))"

text \<open>\<open>Math.floor(random() * (i + 1))\<close> for the quotient of the word by \<open>2^32\<close>.\<close>

definition randomIndex :: "32 word \<Rightarrow> nat \<Rightarrow> nat" where
  "randomIndex r i = (unat r * (i + 1)) div 2 ^ 32"

definition swap :: "'a list \<Rightarrow> nat \<Rightarrow> nat \<Rightarrow> 'a list" where
  "swap xs i j = xs[i := xs ! j, j := xs ! i]"

fun shuffleDown :: "('s \<Rightarrow> 32 word \<times> 's) \<Rightarrow> nat \<Rightarrow> 'a list \<Rightarrow> 's \<Rightarrow> 'a list \<times> 's" where
  "shuffleDown random 0 out s = (out, s)"
| "shuffleDown random (Suc i) out s =
     (case random s of
        (r, s') \<Rightarrow> shuffleDown random i (swap out (Suc i) (randomIndex r (Suc i))) s')"

definition seededShuffle :: "('s \<Rightarrow> 32 word \<times> 's) \<Rightarrow> 'a list \<Rightarrow> 's \<Rightarrow> 'a list \<times> 's" where
  "seededShuffle random items s = shuffleDown random (length items - 1) items s"

record attempt_plan =
  ap_questionIds :: "uid list"
  ap_optionOrder :: "(uid \<times> uid list) list"

fun orderOptions ::
  "bool \<Rightarrow> ('s \<Rightarrow> 32 word \<times> 's) \<Rightarrow> engine_question list \<Rightarrow> 's \<Rightarrow> (uid \<times> uid list) list" where
  "orderOptions shuffleOptions random [] s = []"
| "orderOptions shuffleOptions random (q # qs) s =
     (let ids = map eo_id (eq_options q);
          (order, s') = (if shuffleOptions then seededShuffle random ids s else (ids, s))
      in (eq_id q, order) # orderOptions shuffleOptions random qs s')"

definition buildAttemptPlan ::
  "engine_question list \<Rightarrow> bool \<Rightarrow> bool \<Rightarrow> int option \<Rightarrow> 32 word \<Rightarrow> attempt_plan" where
  "buildAttemptPlan questions shuffleQuestions shuffleOptions questionsPerAttempt seed =
     (let authored = sort_key eq_order questions;
          (ordered, s) = (if shuffleQuestions
                          then seededShuffle mulberry32 authored (mulberry32_init seed)
                          else (authored, mulberry32_init seed));
          limit = (case questionsPerAttempt of
                     Some n \<Rightarrow> if n > 0 then min (nat n) (length ordered) else length ordered
                   | None \<Rightarrow> length ordered);
          chosen = take limit ordered
      in \<lparr>ap_questionIds = map eq_id chosen,
          ap_optionOrder = orderOptions shuffleOptions mulberry32 chosen s\<rparr>)"

subsection \<open>Time\<close>

definition computeDeadline ::
  "instant \<Rightarrow> int option \<Rightarrow> rat \<Rightarrow> instant option \<Rightarrow> instant option" where
  "computeDeadline startedAt timeLimitSeconds timeMultiplier availableUntil =
     (let limit = (case timeLimitSeconds of
                     Some s \<Rightarrow>
                       if s > 0
                       then Some (startedAt + js_round (of_int s
                              * (if timeMultiplier > 0 then timeMultiplier else 1) * 1000))
                       else None
                   | None \<Rightarrow> None)
      in case (limit, availableUntil) of
           (None, u) \<Rightarrow> u
         | (Some l, None) \<Rightarrow> Some l
         | (Some l, Some u) \<Rightarrow> Some (min l u))"

definition isPastGrace :: "instant option \<Rightarrow> instant \<Rightarrow> bool" where
  "isPastGrace deadlineAt now =
     (case deadlineAt of
        None \<Rightarrow> False
      | Some d \<Rightarrow> now > d + QUIZ_SUBMIT_GRACE_SECONDS * 1000)"

definition remainingSeconds :: "instant option \<Rightarrow> instant \<Rightarrow> int option" where
  "remainingSeconds deadlineAt now =
     (case deadlineAt of None \<Rightarrow> None | Some d \<Rightarrow> Some (max 0 ((d - now) div 1000)))"

datatype window_state = open_window | not_yet_open | closed | late_blocked | late_allowed

datatype late_policy = late_block | late_accept_flagged

definition resolveWindow ::
  "instant \<Rightarrow> instant option \<Rightarrow> instant option \<Rightarrow> instant option \<Rightarrow> late_policy \<Rightarrow> window_state" where
  "resolveWindow t availableFrom availableUntil dueAt latePolicy =
     (if (case availableFrom of Some f \<Rightarrow> t < f | None \<Rightarrow> False) then not_yet_open
      else if (case availableUntil of Some u \<Rightarrow> t > u | None \<Rightarrow> False) then closed
      else if (case dueAt of Some d \<Rightarrow> t > d | None \<Rightarrow> False)
           then (if latePolicy = late_block then late_blocked else late_allowed)
      else open_window)"

definition canStartAttempt :: "int \<Rightarrow> int option \<Rightarrow> int \<Rightarrow> bool" where
  "canStartAttempt existingAttemptCount maxAttempts extraAttempts =
     (case maxAttempts of
        None \<Rightarrow> True
      | Some m \<Rightarrow> existingAttemptCount < m + max 0 extraAttempts)"

subsection \<open>Answers\<close>

definition js_space :: "char \<Rightarrow> bool" where
  "js_space c \<longleftrightarrow> (let n = (of_char c :: nat) in 9 \<le> n \<and> n \<le> 13 \<or> n = 32 \<or> n = 160)"

definition trim :: "string \<Rightarrow> string" where
  "trim s = rev (dropWhile js_space (rev (dropWhile js_space s)))"

text \<open>\<open>replace(/\s+/g, ' ')\<close>: every maximal run of white space becomes one blank.\<close>

fun collapse :: "bool \<Rightarrow> string \<Rightarrow> string" where
  "collapse inRun [] = []"
| "collapse inRun (c # cs) =
     (if js_space c then (if inRun then collapse True cs else CHR '' '' # collapse True cs)
      else c # collapse False cs)"

text \<open>\<open>normalize('NFKC')\<close> and \<open>toLocaleLowerCase\<close>, from the Unicode tables.\<close>

record text_tables =
  nfkc :: "string \<Rightarrow> string"
  lower :: "string \<Rightarrow> string"

definition normalizeShortAnswer :: "text_tables \<Rightarrow> string \<Rightarrow> string" where
  "normalizeShortAnswer u v = lower u (collapse False (trim (nfkc u v)))"

definition isChoiceType :: "question_type \<Rightarrow> bool" where
  "isChoiceType t \<longleftrightarrow> t = single_choice \<or> t = multiple_choice \<or> t = true_false"

text \<open>\<open>new Map(entries)\<close>: a later entry replaces an earlier one with the same key.\<close>

definition map_of_last :: "('r \<Rightarrow> 'k) \<Rightarrow> 'r list \<Rightarrow> 'k \<Rightarrow> 'r option" where
  "map_of_last key xs k = find_by key k (rev xs)"

definition checkAnswer :: "engine_question \<Rightarrow> attempt_answer \<Rightarrow> answer_validation_error option" where
  "checkAnswer q a =
     (if isChoiceType (eq_type q) then
        (if aa_text a \<noteq> None then Some wrongAnswerShape
         else (let selected = (case aa_selectedOptionIds a of Some ids \<Rightarrow> ids | None \<Rightarrow> []);
                   owned = map eo_id (eq_options q)
               in if card (set selected) \<noteq> length selected then Some invalidOption
                  else if \<not> list_all (\<lambda>i. i \<in> set owned) selected then Some invalidOption
                  else if (eq_type q = single_choice \<or> eq_type q = true_false) \<and> length selected > 1
                  then Some invalidOption
                  else None))
      else if (case aa_selectedOptionIds a of Some ids \<Rightarrow> ids \<noteq> [] | None \<Rightarrow> False)
           then Some wrongAnswerShape
      else if length (case aa_text a of Some t \<Rightarrow> t | None \<Rightarrow> [])
                > (if eq_type q = essay then MAX_ESSAY_LENGTH else MAX_SHORT_ANSWER_LENGTH)
           then Some textTooLong
      else None)"

fun validateLoop ::
  "engine_question list \<Rightarrow> uid list \<Rightarrow> attempt_answer list \<Rightarrow> answer_validation_error option" where
  "validateLoop questions seen [] = None"
| "validateLoop questions seen (a # answers) =
     (case map_of_last eq_id questions (aa_questionId a) of
        None \<Rightarrow> Some unknownQuestion
      | Some q \<Rightarrow>
          if aa_questionId a \<in> set seen then Some duplicateQuestion
          else (case checkAnswer q a of
                  Some e \<Rightarrow> Some e
                | None \<Rightarrow> validateLoop questions (aa_questionId a # seen) answers))"

definition validateAnswers ::
  "engine_question list \<Rightarrow> attempt_answer list \<Rightarrow> answer_validation_error option" where
  "validateAnswers questions answers = validateLoop questions [] answers"

subsection \<open>Scoring\<close>

definition isAnswered :: "engine_question \<Rightarrow> attempt_answer option \<Rightarrow> bool" where
  "isAnswered q answer =
     (case answer of
        None \<Rightarrow> False
      | Some a \<Rightarrow>
          if isChoiceType (eq_type q)
          then (case aa_selectedOptionIds a of Some ids \<Rightarrow> ids \<noteq> [] | None \<Rightarrow> False)
          else trim (case aa_text a of Some t \<Rightarrow> t | None \<Rightarrow> []) \<noteq> [])"

definition answerCorrect :: "text_tables \<Rightarrow> engine_question \<Rightarrow> attempt_answer option \<Rightarrow> bool" where
  "answerCorrect u q answer =
     (let txt = (case answer of None \<Rightarrow> [] | Some a \<Rightarrow> (case aa_text a of Some t \<Rightarrow> t | None \<Rightarrow> []));
          sel = (case answer of None \<Rightarrow> [] | Some a \<Rightarrow>
                   (case aa_selectedOptionIds a of Some ids \<Rightarrow> ids | None \<Rightarrow> []))
      in if eq_type q = short_answer
         then normalizeShortAnswer u txt
                \<in> set (map (normalizeShortAnswer u)
                        (case eq_acceptedAnswers q of Some l \<Rightarrow> l | None \<Rightarrow> []))
         else (let correctIds = set (map eo_id (filter eo_isCorrect (eq_options q)));
                   selected = set sel
               in card selected = card correctIds \<and> correctIds \<subseteq> selected))"

definition scoreQuestion ::
  "text_tables \<Rightarrow> (uid \<Rightarrow> attempt_answer option) \<Rightarrow> (uid \<rightharpoonup> rat) option \<Rightarrow> engine_question \<Rightarrow>
     question_score" where
  "scoreQuestion u answerOf manualGrades q =
     (let points = max 0 (eq_points q);
          answer = answerOf (eq_id q);
          answered = isAnswered q answer
      in if eq_type q = essay then
           (case (case manualGrades of None \<Rightarrow> None | Some g \<Rightarrow> g (eq_id q)) of
              Some manual \<Rightarrow>
                (let awarded = min points (max 0 manual)
                 in \<lparr>qs_questionId = eq_id q,
                     qs_correct = (if points = 0 then None else Some (awarded \<ge> points)),
                     qs_pointsAwarded = awarded, qs_pointsPossible = points,
                     qs_needsManualGrading = False, qs_answered = answered\<rparr>)
            | None \<Rightarrow>
                \<lparr>qs_questionId = eq_id q, qs_correct = (if answered then None else Some False),
                 qs_pointsAwarded = 0, qs_pointsPossible = points,
                 qs_needsManualGrading = answered, qs_answered = answered\<rparr>)
         else (let correct = answered \<and> answerCorrect u q answer
               in \<lparr>qs_questionId = eq_id q, qs_correct = Some correct,
                   qs_pointsAwarded = (if correct then points else 0), qs_pointsPossible = points,
                   qs_needsManualGrading = False, qs_answered = answered\<rparr>))"

definition scoreAttempt ::
  "text_tables \<Rightarrow> engine_question list \<Rightarrow> attempt_answer list \<Rightarrow> (uid \<rightharpoonup> rat) option \<Rightarrow>
     attempt_score" where
  "scoreAttempt u questions answers manualGrades =
     (let perQuestion = map (scoreQuestion u (map_of_last aa_questionId answers) manualGrades) questions;
          earned = sum_list (map qs_pointsAwarded perQuestion);
          total = sum_list (map qs_pointsPossible perQuestion);
          pending = list_ex qs_needsManualGrading perQuestion
      in \<lparr>as_pointsEarned = round2 earned, as_pointsTotal = round2 total,
          as_score = (if pending then None
                      else Some (if total > 0 then round2 ((earned / total) * 100) else 0)),
          as_pendingManual = pending, as_perQuestion = perQuestion\<rparr>)"

definition isPassing :: "rat option \<Rightarrow> rat option \<Rightarrow> bool option" where
  "isPassing score passingScore =
     (case score of
        None \<Rightarrow> None
      | Some s \<Rightarrow> Some (case passingScore of None \<Rightarrow> True | Some p \<Rightarrow> s \<ge> p))"

subsection \<open>The result over several attempts\<close>

record finalized_attempt =
  fa_id :: uid
  fa_attemptNumber :: int
  fa_score :: "rat option"
  fa_submittedAt :: instant
  fa_pendingGrading :: bool

record aggregated_result =
  ar_attemptsCount :: nat
  ar_bestScore :: "rat option"
  ar_latestScore :: "rat option"
  ar_effectiveScore :: "rat option"
  ar_effectiveAttemptId :: "uid option"
  ar_passed :: bool
  ar_pendingGrading :: bool

datatype grading_policy = policy_highest | policy_latest | policy_first | policy_average

definition scoredAttempts :: "finalized_attempt list \<Rightarrow> finalized_attempt list" where
  "scoredAttempts attempts =
     filter (\<lambda>a. fa_score a \<noteq> None \<and> \<not> fa_pendingGrading a)
       (sort_key (\<lambda>a. (fa_submittedAt a, fa_attemptNumber a)) attempts)"

text \<open>\<open>reduce\<close> keeps the first of the attempts with the best score.\<close>

fun bestOf :: "finalized_attempt \<Rightarrow> finalized_attempt list \<Rightarrow> finalized_attempt" where
  "bestOf acc [] = acc"
| "bestOf acc (a # as) = bestOf (if the (fa_score a) > the (fa_score acc) then a else acc) as"

definition aggregateResult ::
  "grading_policy \<Rightarrow> finalized_attempt list \<Rightarrow> rat option \<Rightarrow> aggregated_result" where
  "aggregateResult policy attempts passingScore =
     (let scored = scoredAttempts attempts;
          pendingGrading = list_ex fa_pendingGrading attempts
      in case scored of
           [] \<Rightarrow>
             \<lparr>ar_attemptsCount = length attempts, ar_bestScore = None, ar_latestScore = None,
              ar_effectiveScore = None, ar_effectiveAttemptId = None, ar_passed = False,
              ar_pendingGrading = pendingGrading\<rparr>
         | first # rest \<Rightarrow>
             (let best = bestOf first rest;
                  latest = last scored;
                  (effectiveScore, effectiveAttemptId) =
                    (case policy of
                       policy_latest \<Rightarrow> (the (fa_score latest), Some (fa_id latest))
                     | policy_first \<Rightarrow> (the (fa_score first), Some (fa_id first))
                     | policy_average \<Rightarrow>
                         (round2 (sum_list (map (the \<circ> fa_score) scored) / of_nat (length scored)), None)
                     | policy_highest \<Rightarrow> (the (fa_score best), Some (fa_id best)))
              in \<lparr>ar_attemptsCount = length attempts, ar_bestScore = fa_score best,
                  ar_latestScore = fa_score latest, ar_effectiveScore = Some effectiveScore,
                  ar_effectiveAttemptId = effectiveAttemptId,
                  ar_passed = (isPassing (Some effectiveScore) passingScore = Some True),
                  ar_pendingGrading = pendingGrading\<rparr>))"

subsection \<open>The paper: facts\<close>

lemma swap_mset: "i < length xs \<Longrightarrow> j < length xs \<Longrightarrow> mset (swap xs i j) = mset xs"
  by (simp add: swap_def mset_swap)

lemma swap_length [simp]: "length (swap xs i j) = length xs"
  by (simp add: swap_def)

lemma randomIndex_le: "randomIndex r i \<le> i"
proof -
  have "unat r < 2 ^ 32" using unsigned_less [of r] by simp
  then have "unat r * (i + 1) < 2 ^ 32 * (i + 1)" by (intro mult_strict_right_mono) simp_all
  then have "unat r * (i + 1) div 2 ^ 32 < i + 1"
    by (simp only: less_mult_imp_div_less mult.commute)
  then show ?thesis by (simp add: randomIndex_def)
qed

lemma shuffleDown_mset: "i < length out \<Longrightarrow> mset (fst (shuffleDown random i out s)) = mset out"
proof (induction random i out s rule: shuffleDown.induct)
  case (2 random i out s)
  obtain r s' where rs: "random s = (r, s')" by force
  have j: "randomIndex r (Suc i) < length out" using randomIndex_le [of r "Suc i"] 2(2) by linarith
  have "mset (fst (shuffleDown random i (swap out (Suc i) (randomIndex r (Suc i))) s')) =
        mset (swap out (Suc i) (randomIndex r (Suc i)))"
    by (rule 2(1) [OF rs [symmetric]]) (use 2(2) in simp)
  then show ?case using 2(2) j by (simp add: rs swap_mset)
qed simp

lemma seededShuffle_mset: "mset (fst (seededShuffle random items s)) = mset items"
  by (cases items) (simp_all add: seededShuffle_def shuffleDown_mset)

lemma seededShuffle_facts:
  "length (fst (seededShuffle random items s)) = length items"
  "set (fst (seededShuffle random items s)) = set items"
  "distinct (map f (fst (seededShuffle random items s))) \<longleftrightarrow> distinct (map f items)"
proof -
  note m = seededShuffle_mset [of random items s]
  from m show "length (fst (seededShuffle random items s)) = length items" by (rule mset_eq_length)
  from m show "set (fst (seededShuffle random items s)) = set items" by (rule mset_eq_setD)
  have "mset (map f (fst (seededShuffle random items s))) = mset (map f items)" using m by simp
  then show "distinct (map f (fst (seededShuffle random items s))) \<longleftrightarrow> distinct (map f items)"
    by (rule mset_eq_imp_distinct_iff)
qed

lemma orderOptions_keys: "map fst (orderOptions b random qs s) = map eq_id qs"
  by (induction qs arbitrary: s) (simp_all add: Let_def split_beta)

lemma orderOptions_perm:
  "list_all2 (\<lambda>q (k, order). k = eq_id q \<and> mset order = mset (map eo_id (eq_options q))
       \<and> (\<not> b \<longrightarrow> order = map eo_id (eq_options q))) qs (orderOptions b random qs s)"
proof (induction qs arbitrary: s)
  case (Cons q qs)
  have "mset (fst (seededShuffle random (map eo_id (eq_options q)) s)) = mset (map eo_id (eq_options q))"
    by (rule seededShuffle_mset)
  with Cons show ?case by (simp add: Let_def split_beta)
qed simp

lemma list_all2_in_right: "list_all2 P xs ys \<Longrightarrow> y \<in> set ys \<Longrightarrow> \<exists>x \<in> set xs. P x y"
  by (induction rule: list_all2_induct) auto

text \<open>
  The paper of an attempt is drawn from the quiz. It has the requested number of
  questions (all of them when none is requested, never more than there are), each question
  of the quiz at most once, in authoring order when questions are not shuffled; and every
  chosen question comes with an order of exactly its own options, the authored one when
  options are not shuffled.
\<close>

theorem attempt_plan_drawn_from_quiz:
  assumes "distinct (map eq_id questions)"
    and plan_def: "plan = buildAttemptPlan questions shuffleQuestions shuffleOptions perAttempt seed"
  shows "distinct (ap_questionIds plan) \<and> set (ap_questionIds plan) \<subseteq> eq_id ` set questions
       \<and> length (ap_questionIds plan) =
           (case perAttempt of Some n \<Rightarrow> if n > 0 then min (nat n) (length questions) else length questions
                             | None \<Rightarrow> length questions)
       \<and> (\<not> shuffleQuestions \<longrightarrow>
            ap_questionIds plan = take (length (ap_questionIds plan)) (map eq_id (sort_key eq_order questions)))
       \<and> map fst (ap_optionOrder plan) = ap_questionIds plan
       \<and> (\<forall>(k, order) \<in> set (ap_optionOrder plan). \<exists>q \<in> set questions. eq_id q = k
             \<and> mset order = mset (map eo_id (eq_options q))
             \<and> (\<not> shuffleOptions \<longrightarrow> order = map eo_id (eq_options q)))"
proof -
  let ?authored = "sort_key eq_order questions"
  define ordered where "ordered = (if shuffleQuestions
      then fst (seededShuffle mulberry32 ?authored (mulberry32_init seed)) else ?authored)"
  define s where "s = (if shuffleQuestions
      then snd (seededShuffle mulberry32 ?authored (mulberry32_init seed)) else mulberry32_init seed)"
  define limit where "limit = (case perAttempt of
        Some n \<Rightarrow> if n > 0 then min (nat n) (length ordered) else length ordered | None \<Rightarrow> length ordered)"
  have plan: "plan = \<lparr>ap_questionIds = map eq_id (take limit ordered),
      ap_optionOrder = orderOptions shuffleOptions mulberry32 (take limit ordered) s\<rparr>"
    by (cases shuffleQuestions; cases perAttempt)
      (simp_all add: plan_def buildAttemptPlan_def ordered_def s_def limit_def Let_def split_beta)
  have set_eq: "set ordered = set questions" and len: "length ordered = length questions"
    by (simp_all add: ordered_def seededShuffle_facts)
  have "distinct (map eq_id ordered)"
    using assms(1) by (simp only: ordered_def seededShuffle_facts(3) split: if_split)
      (simp add: distinct_map inj_on_def)
  then have dist: "distinct (map eq_id (take limit ordered))"
    by (simp add: distinct_map inj_on_def) (metis in_set_takeD)
  have sub: "set (take limit ordered) \<subseteq> set questions"
    using set_eq by (auto dest: in_set_takeD)
  have lim: "limit \<le> length ordered" by (simp add: limit_def split: option.splits)
  have opts: "\<exists>q \<in> set questions. eq_id q = k \<and> mset order = mset (map eo_id (eq_options q))
      \<and> (\<not> shuffleOptions \<longrightarrow> order = map eo_id (eq_options q))"
    if "(k, order) \<in> set (ap_optionOrder plan)" for k order
    using list_all2_in_right [OF orderOptions_perm [of shuffleOptions "take limit ordered" mulberry32 s]
        that [unfolded plan attempt_plan.simps]] sub by auto
  show ?thesis
    using dist sub lim len opts
    by (auto simp: plan orderOptions_keys limit_def ordered_def take_map min_def split: option.splits)
qed

definition exampleQuestion :: "uid \<Rightarrow> question_type \<Rightarrow> engine_question" where
  "exampleQuestion k ty = \<lparr>eq_id = k, eq_type = ty, eq_points = 2, eq_order = 1,
     eq_acceptedAnswers = Some [''Paris''],
     eq_options = [\<lparr>eo_id = ''x'', eo_isCorrect = True\<rparr>, \<lparr>eo_id = ''y'', eo_isCorrect = False\<rparr>]\<rparr>"

lemma attempt_plan_drawn_from_quiz_witness:
  "length (ap_questionIds (buildAttemptPlan
      [exampleQuestion ''a'' single_choice, exampleQuestion ''b'' essay] True True (Some 1) 7)) = 1"
proof -
  have "distinct (map eq_id [exampleQuestion ''a'' single_choice, exampleQuestion ''b'' essay])"
    by (simp add: exampleQuestion_def)
  from attempt_plan_drawn_from_quiz [OF this refl, of True True "Some 1" 7] show ?thesis by simp
qed

text \<open>
  The deadline of an attempt is the earlier of the time limit, stretched by the learner's
  accommodation, and the closing of the quiz. A longer accommodation never brings it
  forward, it never lies after the closing time, and work is refused only when more than
  the grace has passed since it.
\<close>

theorem deadline_respects_limit_and_window:
  assumes "computeDeadline startedAt limit multiplier availableUntil = Some d"
  shows "(\<forall>u. availableUntil = Some u \<longrightarrow> d \<le> u)
       \<and> (\<forall>s. limit = Some s \<and> 0 < s \<longrightarrow> d \<le> startedAt + js_round (of_int s
              * (if multiplier > 0 then multiplier else 1) * 1000))
       \<and> (\<forall>m' d'. 0 < multiplier \<and> multiplier \<le> m'
              \<and> computeDeadline startedAt limit m' availableUntil = Some d' \<longrightarrow> d \<le> d')
       \<and> (\<forall>now. isPastGrace (Some d) now \<longleftrightarrow> d + 30000 < now)"
proof (intro conjI allI impI)
  fix m' d' assume m: "0 < multiplier \<and> multiplier \<le> m'
      \<and> computeDeadline startedAt limit m' availableUntil = Some d'"
  have mono: "js_round (of_int s * multiplier * 1000) \<le> js_round (of_int s * m' * 1000)"
    if "0 < s" for s :: int
    using m that by (intro js_round_mono) (simp add: mult_left_mono)
  have "0 < m'" using m by linarith
  then show "d \<le> d'"
    using assms m mono
    by (auto simp: computeDeadline_def Let_def min_le_iff_disj split: option.splits if_splits)
qed (use assms in \<open>auto simp: computeDeadline_def Let_def isPastGrace_def QUIZ_SUBMIT_GRACE_SECONDS_def
      split: option.splits if_splits\<close>)

lemma deadline_respects_limit_and_window_witness:
  "computeDeadline 0 (Some 60) (3 / 2) (Some 100000) = Some 90000
   \<and> isPastGrace (Some 90000) 120001 \<and> \<not> isPastGrace (Some 90000) 120000"
proof -
  have "js_round (90000 :: rat) = 90000" using js_round_of_int [of 90000] by simp
  then have d: "computeDeadline 0 (Some 60) (3 / 2) (Some 100000) = Some 90000"
    by (simp add: computeDeadline_def)
  show ?thesis using deadline_respects_limit_and_window [OF d] d by simp
qed

end
