(* ===== verification/Quiz_Grading.thy ===== *)
theory Quiz_Grading
  imports Quiz_Engine
begin

text \<open>
  Facts about validating, scoring and aggregating quiz attempts: what an accepted answer set
  is, the bounds of a score and its independence of the order of the answers, and what each
  grading policy reports over several attempts.
\<close>

subsection \<open>Accepted answers\<close>

definition wellFormedAnswer :: "engine_question \<Rightarrow> attempt_answer \<Rightarrow> bool" where
  "wellFormedAnswer q a \<longleftrightarrow>
     (let selected = (case aa_selectedOptionIds a of Some ids \<Rightarrow> ids | None \<Rightarrow> []);
          txt = (case aa_text a of Some t \<Rightarrow> t | None \<Rightarrow> [])
      in if isChoiceType (eq_type q)
         then aa_text a = None \<and> distinct selected \<and> set selected \<subseteq> eo_id ` set (eq_options q)
              \<and> (eq_type q = multiple_choice \<or> length selected \<le> 1)
         else selected = [] \<and> length txt \<le> (if eq_type q = essay then 20000 else 2000))"

lemma checkAnswer_None: "checkAnswer q a = None \<longleftrightarrow> wellFormedAnswer q a"
proof (cases "isChoiceType (eq_type q)")
  case True
  then have "eq_type q = single_choice \<or> eq_type q = multiple_choice \<or> eq_type q = true_false"
    by (simp add: isChoiceType_def)
  then show ?thesis
    using True card_distinct distinct_card
    by (auto simp: checkAnswer_def wellFormedAnswer_def Let_def list_all_iff
        subset_iff image_iff split: option.splits)
next
  case False
  then show ?thesis
    by (auto simp: checkAnswer_def wellFormedAnswer_def Let_def MAX_ESSAY_LENGTH_def
        MAX_SHORT_ANSWER_LENGTH_def split: option.splits)
qed

lemma map_of_last_distinct:
  assumes "distinct (map key xs)"
  shows "map_of_last key xs k = Some x \<longleftrightarrow> x \<in> set xs \<and> key x = k"
proof -
  have "distinct (map key (rev xs))" using assms by (simp add: rev_map [symmetric])
  then show ?thesis
    unfolding map_of_last_def using find_by_distinct [of key "rev xs"] find_by_Some [of key k "rev xs"]
    by auto
qed

lemma validateLoop_None:
  assumes "distinct (map eq_id questions)"
  shows "validateLoop questions seen answers = None \<longleftrightarrow>
     distinct (map aa_questionId answers) \<and> set (map aa_questionId answers) \<inter> set seen = {}
     \<and> (\<forall>a \<in> set answers. \<exists>q \<in> set questions. eq_id q = aa_questionId a \<and> wellFormedAnswer q a)"
proof (induction answers arbitrary: seen)
  case (Cons a answers)
  show ?case
  proof (cases "map_of_last eq_id questions (aa_questionId a)")
    case None
    then have "\<not> (\<exists>q \<in> set questions. eq_id q = aa_questionId a)"
      by (auto simp: map_of_last_def) (metis imageI)
    with None show ?thesis by auto
  next
    case (Some q)
    then have q: "q \<in> set questions" "eq_id q = aa_questionId a"
      using map_of_last_distinct [OF assms] by auto
    then have only: "q' = q" if "q' \<in> set questions" "eq_id q' = aa_questionId a" for q'
      using that assms by (metis distinct_keys_unique)
    have ex: "(\<exists>q \<in> set questions. eq_id q = aa_questionId a \<and> wellFormedAnswer q a)
        \<longleftrightarrow> wellFormedAnswer q a"
      using q only by blast
    show ?thesis
    proof (cases "checkAnswer q a")
      case None
      then have wf: "wellFormedAnswer q a" using checkAnswer_None by blast
      show ?thesis
        by (simp add: Some None ex wf Cons.IH) blast
    next
      case bad: (Some e)
      then have "\<not> wellFormedAnswer q a" using checkAnswer_None [of q a] by simp
      then show ?thesis by (simp add: Some bad ex)
    qed
  qed
qed simp

text \<open>
  C12. \<open>validateAnswers\<close> accepts exactly the well-formed partial answer sets: every answer is
  for a question of the attempt, no question twice; a choice answer has no text and selects
  distinct options of its question, at most one for single choice and true/false; a text
  answer selects nothing and keeps within the length limit.
\<close>

theorem validateAnswers_accepts_iff:
  assumes "distinct (map eq_id questions)"
  shows "validateAnswers questions answers = None \<longleftrightarrow>
     distinct (map aa_questionId answers)
     \<and> (\<forall>a \<in> set answers. \<exists>q \<in> set questions. eq_id q = aa_questionId a \<and> wellFormedAnswer q a)"
  using validateLoop_None [OF assms, of "[]"] by (simp add: validateAnswers_def)

definition exampleAnswer :: "uid \<Rightarrow> uid list option \<Rightarrow> string option \<Rightarrow> attempt_answer" where
  "exampleAnswer k sel txt = \<lparr>aa_questionId = k, aa_selectedOptionIds = sel, aa_text = txt\<rparr>"

lemma validateAnswers_accepts_iff_witness:
  "validateAnswers [exampleQuestion ''a'' single_choice, exampleQuestion ''b'' essay]
     [exampleAnswer ''b'' None (Some ''text''), exampleAnswer ''a'' (Some [''y'']) None] = None"
proof -
  have "distinct (map eq_id [exampleQuestion ''a'' single_choice, exampleQuestion ''b'' essay])"
    by (simp add: exampleQuestion_def)
  from validateAnswers_accepts_iff [OF this] show ?thesis
    by (simp add: exampleQuestion_def exampleAnswer_def wellFormedAnswer_def isChoiceType_def)
qed

subsection \<open>Scores\<close>

lemma scoreQuestion_bounds:
  "0 \<le> qs_pointsAwarded (scoreQuestion u f g q)"
  "qs_pointsAwarded (scoreQuestion u f g q) \<le> qs_pointsPossible (scoreQuestion u f g q)"
  "qs_pointsPossible (scoreQuestion u f g q) = max 0 (eq_points q)"
  by (auto simp: scoreQuestion_def Let_def split: option.splits)

lemma scores_bounds:
  fixes per :: "question_score list"
  assumes "\<forall>s \<in> set per. 0 \<le> qs_pointsAwarded s \<and> qs_pointsAwarded s \<le> qs_pointsPossible s"
  shows "0 \<le> sum_list (map qs_pointsAwarded per)
       \<and> sum_list (map qs_pointsAwarded per) \<le> sum_list (map qs_pointsPossible per)"
  using assms by (induction per) auto

lemma map_of_last_mset:
  assumes "mset xs = mset ys" "distinct (map key xs)"
  shows "map_of_last key xs = map_of_last key ys"
proof
  fix k
  have "distinct (map key ys)" using assms by (metis mset_eq_imp_distinct_iff mset_map)
  moreover have "set xs = set ys" using assms(1) by (rule mset_eq_setD)
  ultimately have "map_of_last key xs k = Some x \<longleftrightarrow> map_of_last key ys k = Some x" for x
    using map_of_last_distinct [OF assms(2)] map_of_last_distinct by metis
  then show "map_of_last key xs k = map_of_last key ys k"
    by (metis not_None_eq)
qed

text \<open>
  A score is a percentage. It is null exactly while an answered essay has no grade;
  otherwise it lies between 0 and 100, the points earned lie between 0 and the points
  possible, a manual grade can add no more than the question's points, and the order in which the answers were
  saved does not matter.
\<close>

theorem score_is_percentage:
  assumes "result = scoreAttempt u questions answers grades"
  shows "(as_score result = None \<longleftrightarrow> (\<exists>q \<in> set questions. eq_type q = essay
            \<and> isAnswered q (map_of_last aa_questionId answers (eq_id q))
            \<and> (case grades of None \<Rightarrow> True | Some g \<Rightarrow> g (eq_id q) = None)))
       \<and> (case as_score result of None \<Rightarrow> True | Some s \<Rightarrow> 0 \<le> s \<and> s \<le> 100)
       \<and> 0 \<le> as_pointsEarned result \<and> as_pointsEarned result \<le> as_pointsTotal result
       \<and> (\<forall>s \<in> set (as_perQuestion result). 0 \<le> qs_pointsAwarded s
             \<and> qs_pointsAwarded s \<le> qs_pointsPossible s)
       \<and> (\<forall>answers'. mset answers' = mset answers \<and> distinct (map aa_questionId answers)
             \<longrightarrow> scoreAttempt u questions answers' grades = result)"
proof -
  define per where "per = map (scoreQuestion u (map_of_last aa_questionId answers) grades) questions"
  define earned where "earned = sum_list (map qs_pointsAwarded per)"
  define total where "total = sum_list (map qs_pointsPossible per)"
  have each: "\<forall>s \<in> set per. 0 \<le> qs_pointsAwarded s \<and> qs_pointsAwarded s \<le> qs_pointsPossible s"
    by (auto simp: per_def scoreQuestion_bounds(1,2))
  from scores_bounds [OF each] have et: "0 \<le> earned" "earned \<le> total"
    by (simp_all add: earned_def total_def)
  have result: "result = \<lparr>as_pointsEarned = round2 earned, as_pointsTotal = round2 total,
      as_score = (if list_ex qs_needsManualGrading per then None
                  else Some (if total > 0 then round2 ((earned / total) * 100) else 0)),
      as_pendingManual = list_ex qs_needsManualGrading per, as_perQuestion = per\<rparr>"
    by (simp add: assms scoreAttempt_def Let_def per_def earned_def total_def)
  have pct: "0 \<le> (earned / total) * 100 \<and> (earned / total) * 100 \<le> 100" if "0 < total"
    using that et by (simp add: field_simps)
  have manual: "qs_needsManualGrading (scoreQuestion u f grades q) \<longleftrightarrow> eq_type q = essay
        \<and> isAnswered q (f (eq_id q)) \<and> (case grades of None \<Rightarrow> True | Some g \<Rightarrow> g (eq_id q) = None)" for f q
    by (auto simp: scoreQuestion_def Let_def split: option.splits)
  have perm: "scoreAttempt u questions answers' grades = result"
    if "mset answers' = mset answers" "distinct (map aa_questionId answers)" for answers'
    using map_of_last_mset [OF that(1) [symmetric] that(2)] by (simp add: assms scoreAttempt_def)
  have null: "as_score result = None \<longleftrightarrow> (\<exists>q \<in> set questions. eq_type q = essay
            \<and> isAnswered q (map_of_last aa_questionId answers (eq_id q))
            \<and> (case grades of None \<Rightarrow> True | Some g \<Rightarrow> g (eq_id q) = None))"
    by (simp add: result per_def list_ex_iff manual)
  show ?thesis
    using null perm each et pct round2_mono [OF et(2)] round2_nonneg [OF et(1)]
      round2_nonneg [of "earned / total * 100"] round2_le_100 [of "earned / total * 100"]
    by (auto simp: result)
qed

definition exampleTables :: text_tables where
  "exampleTables = \<lparr>nfkc = (\<lambda>s. s), lower = (\<lambda>s. s)\<rparr>"

lemma score_is_percentage_witness:
  "as_score (scoreAttempt exampleTables
      [exampleQuestion ''a'' single_choice, exampleQuestion ''b'' short_answer]
      [exampleAnswer ''b'' None (Some '' Paris''), exampleAnswer ''a'' (Some [''y'']) None] None) = Some 50"
proof -
  let ?qs = "[exampleQuestion ''a'' single_choice, exampleQuestion ''b'' short_answer]"
  let ?as = "[exampleAnswer ''b'' None (Some '' Paris''), exampleAnswer ''a'' (Some [''y'']) None]"
  have "as_score (scoreAttempt exampleTables ?qs ?as None) \<noteq> None"
    using score_is_percentage [OF refl, of exampleTables ?qs ?as None] by (auto simp: exampleQuestion_def)
  moreover have "round2 (50 :: rat) = 50" using round2_of_int [of 50] by simp
  ultimately show ?thesis
    by (simp add: scoreAttempt_def scoreQuestion_def Let_def map_of_last_def exampleQuestion_def
        exampleAnswer_def isAnswered_def isChoiceType_def answerCorrect_def trim_def js_space_def
        normalizeShortAnswer_def exampleTables_def)
qed

subsection \<open>Grading policies\<close>

definition counts :: "finalized_attempt \<Rightarrow> bool" where
  "counts a \<longleftrightarrow> fa_score a \<noteq> None \<and> \<not> fa_pendingGrading a"

definition attemptKey :: "finalized_attempt \<Rightarrow> instant \<times> int" where
  "attemptKey a = (fa_submittedAt a, fa_attemptNumber a)"

lemma scoredAttempts_set: "set (scoredAttempts attempts) = {a \<in> set attempts. counts a}"
  by (auto simp: scoredAttempts_def counts_def)

lemma scoredAttempts_sorted: "sorted (map attemptKey (scoredAttempts attempts))"
  unfolding scoredAttempts_def attemptKey_def by (rule sorted_filter) simp

lemma bestOf_spec:
  "bestOf acc as \<in> set (acc # as)
   \<and> (\<forall>a \<in> set (acc # as). the (fa_score a) \<le> the (fa_score (bestOf acc as)))"
proof (induction acc as rule: bestOf.induct)
  case (2 acc a as)
  then show ?case by (auto split: if_splits intro: order.trans)
qed simp

lemma sorted_last_max: "sorted (map key xs) \<Longrightarrow> x \<in> set xs \<Longrightarrow> key x \<le> key (last xs)"
  by (induction xs) auto

text \<open>The score and the attempt a policy names among the counted attempts, the first one given.\<close>

definition policyPick :: "grading_policy \<Rightarrow> finalized_attempt \<Rightarrow> finalized_attempt list \<Rightarrow> rat \<times> uid option" where
  "policyPick policy a as =
     (case policy of
        policy_latest \<Rightarrow> (the (fa_score (last (a # as))), Some (fa_id (last (a # as))))
      | policy_first \<Rightarrow> (the (fa_score a), Some (fa_id a))
      | policy_average \<Rightarrow> (round2 (sum_list (map (the \<circ> fa_score) (a # as)) / of_nat (length (a # as))), None)
      | policy_highest \<Rightarrow> (the (fa_score (bestOf a as)), Some (fa_id (bestOf a as))))"

lemma aggregate_picks:
  assumes "scoredAttempts attempts = a # as"
  shows "ar_effectiveScore (aggregateResult policy attempts p) = Some (fst (policyPick policy a as))
    \<and> ar_effectiveAttemptId (aggregateResult policy attempts p) = snd (policyPick policy a as)
    \<and> (ar_passed (aggregateResult policy attempts p) \<longleftrightarrow>
         (case p of None \<Rightarrow> True | Some m \<Rightarrow> m \<le> fst (policyPick policy a as)))"
  by (cases policy; cases p) (simp_all add: assms aggregateResult_def policyPick_def isPassing_def Let_def)

lemma counted_attempt:
  assumes "x \<in> set (scoredAttempts attempts)" "\<And>b. b \<in> set (scoredAttempts attempts) \<Longrightarrow> P x b"
  shows "\<exists>a \<in> set attempts. counts a \<and> fa_score a = Some (the (fa_score x)) \<and> Some (fa_id x) = Some (fa_id a)
      \<and> (\<forall>b \<in> set attempts. counts b \<longrightarrow> P a b)"
proof (rule bexI [of _ x])
  show "x \<in> set attempts" using assms(1) scoredAttempts_set by auto
  show "counts x \<and> fa_score x = Some (the (fa_score x)) \<and> Some (fa_id x) = Some (fa_id x)
      \<and> (\<forall>b \<in> set attempts. counts b \<longrightarrow> P x b)"
    using assms by (auto simp: scoredAttempts_set counts_def)
qed

lemma policy_picks_right:
  assumes "scoredAttempts attempts = a # as" "policy \<noteq> policy_average"
  shows "\<exists>x \<in> set attempts. counts x \<and> fa_score x = Some (fst (policyPick policy a as))
      \<and> snd (policyPick policy a as) = Some (fa_id x)
      \<and> (\<forall>b \<in> set attempts. counts b \<longrightarrow>
           (case policy of policy_highest \<Rightarrow> the (fa_score b) \<le> fst (policyPick policy a as)
            | policy_latest \<Rightarrow> attemptKey b \<le> attemptKey x
            | _ \<Rightarrow> attemptKey x \<le> attemptKey b))"
proof -
  have srt: "sorted (map attemptKey (a # as))" using scoredAttempts_sorted [of attempts] assms(1) by simp
  note pick = counted_attempt [where attempts = attempts, unfolded assms(1)]
  show ?thesis
  proof (cases policy)
    case policy_highest
    with pick [OF conjunct1 [OF bestOf_spec], of "\<lambda>x b. the (fa_score b) \<le> the (fa_score (bestOf a as))"]
      bestOf_spec [of a as] show ?thesis by (simp add: policyPick_def)
  next
    case policy_latest
    have "last (a # as) \<in> set (a # as)" by (rule last_in_set) simp
    with policy_latest pick [OF this, of "\<lambda>x b. attemptKey b \<le> attemptKey x"] sorted_last_max [OF srt]
    show ?thesis by (simp add: policyPick_def del: last.simps)
  next
    case policy_first
    with pick [of a "\<lambda>x b. attemptKey x \<le> attemptKey b"] srt show ?thesis by (auto simp: policyPick_def)
  qed (use assms(2) in simp)
qed

text \<open>
  The result over several attempts. Attempts that await grading never count. With no
  counted attempt there is no score and the learner has not passed. Otherwise the
  effective score is, by policy, one no counted attempt exceeds, the one of the last or
  the first submitted counted attempt, or the mean of the counted scores within half a
  hundredth; it names its attempt except for the mean; and passing is reaching the
  passing score with exactly that score.
\<close>

theorem aggregate_follows_policy:
  assumes "result = aggregateResult policy attempts passingScore"
  shows "(ar_effectiveScore result = None \<longleftrightarrow> (\<forall>a \<in> set attempts. \<not> counts a))
       \<and> (ar_effectiveScore result = None \<longrightarrow> \<not> ar_passed result)
       \<and> (\<forall>s. ar_effectiveScore result = Some s \<longrightarrow>
            (ar_passed result \<longleftrightarrow> (case passingScore of None \<Rightarrow> True | Some p \<Rightarrow> p \<le> s))
            \<and> (if policy = policy_average
               then ar_effectiveAttemptId result = None
                  \<and> \<bar>s - sum_list (map (the \<circ> fa_score) (scoredAttempts attempts))
                        / of_nat (length (scoredAttempts attempts))\<bar> \<le> 1 / 200
               else \<exists>a \<in> set attempts. counts a \<and> fa_score a = Some s
                  \<and> ar_effectiveAttemptId result = Some (fa_id a)
                  \<and> (\<forall>b \<in> set attempts. counts b \<longrightarrow>
                       (case policy of policy_highest \<Rightarrow> the (fa_score b) \<le> s
                        | policy_latest \<Rightarrow> attemptKey b \<le> attemptKey a
                        | _ \<Rightarrow> attemptKey a \<le> attemptKey b))))"
proof (cases "scoredAttempts attempts")
  case Nil
  then have "\<forall>a \<in> set attempts. \<not> counts a"
    using scoredAttempts_set [of attempts] by auto
  with Nil show ?thesis by (simp add: assms aggregateResult_def)
next
  case (Cons a as)
  have some: "\<exists>a \<in> set attempts. counts a" using scoredAttempts_set [of attempts] Cons by auto
  note result = aggregate_picks [OF Cons, of policy passingScore, folded assms]
  show ?thesis
  proof (cases "policy = policy_average")
    case True
    with result some round2_error show ?thesis by (cases passingScore) (simp_all add: Cons policyPick_def)
  next
    case False
    with result some policy_picks_right [OF Cons False] show ?thesis by auto
  qed
qed

definition exampleAttempt :: "uid \<Rightarrow> int \<Rightarrow> rat \<Rightarrow> finalized_attempt" where
  "exampleAttempt k n s = \<lparr>fa_id = k, fa_attemptNumber = n, fa_score = Some s, fa_submittedAt = 100 * n,
     fa_pendingGrading = False\<rparr>"

lemma aggregate_follows_policy_witness:
  "ar_effectiveScore (aggregateResult policy_highest [exampleAttempt ''b'' 2 60, exampleAttempt ''a'' 1 80]
     (Some 70)) = Some 80
   \<and> ar_passed (aggregateResult policy_highest [exampleAttempt ''b'' 2 60, exampleAttempt ''a'' 1 80] (Some 70))"
proof -
  let ?as = "[exampleAttempt ''b'' 2 60, exampleAttempt ''a'' 1 80]"
  have s: "ar_effectiveScore (aggregateResult policy_highest ?as (Some 70)) = Some 80"
    by (simp add: aggregateResult_def scoredAttempts_def exampleAttempt_def Let_def)
  show ?thesis
    using aggregate_follows_policy [OF refl, of policy_highest ?as "Some 70"] s by auto
qed

end
