(* ===== verification/Quiz_Policies.thy ===== *)
theory Quiz_Policies
  imports Quiz_Engine
begin

text \<open>
  Disclosure and integrity of quiz attempts (the last part of
  \<open>learning/services/quiz-engine.util.ts\<close>): when a learner sees the score and the answers of
  an attempt, and how a batch of browser events is counted.
\<close>

subsection \<open>Disclosure\<close>

datatype quiz_disclosure = immediately | after_due | after_attempts_exhausted | never

record disclosure_input =
  di_showScore :: quiz_disclosure
  di_showAnswers :: quiz_disclosure
  di_showExplanations :: bool
  di_now :: instant
  di_dueAt :: "instant option"
  di_availableUntil :: "instant option"
  di_attemptsUsed :: int
  di_maxAttempts :: "int option"
  di_attemptFinalized :: bool

record disclosure =
  d_score :: bool
  d_answers :: bool
  d_explanations :: bool

definition exhausted :: "disclosure_input \<Rightarrow> bool" where
  "exhausted i = (case di_maxAttempts i of None \<Rightarrow> False | Some m \<Rightarrow> di_attemptsUsed i \<ge> m)"

definition disclosureAllows :: "quiz_disclosure \<Rightarrow> disclosure_input \<Rightarrow> bool" where
  "disclosureAllows policy i =
     (case policy of
        immediately \<Rightarrow> di_attemptFinalized i
      | after_due \<Rightarrow>
          (case (case di_dueAt i of Some d \<Rightarrow> Some d | None \<Rightarrow> di_availableUntil i) of
             None \<Rightarrow> exhausted i
           | Some gate \<Rightarrow> di_attemptFinalized i \<and> di_now i > gate)
      | after_attempts_exhausted \<Rightarrow> di_attemptFinalized i \<and> exhausted i
      | never \<Rightarrow> False)"

definition resolveDisclosure :: "disclosure_input \<Rightarrow> disclosure" where
  "resolveDisclosure i =
     (let answers = disclosureAllows (di_showAnswers i) i
      in \<lparr>d_score = disclosureAllows (di_showScore i) i, d_answers = answers,
          d_explanations = answers \<and> di_showExplanations i\<rparr>)"

text \<open>
  What a learner sees of an attempt that is not finished: the correct answers are
  disclosed exactly when they are set to show "after due", the quiz has neither a due date nor a
  closing time, and the learner's attempts, this one included, are used up. Every other
  setting keeps them hidden until the attempt is finished; explanations never show without
  the answers.
\<close>

theorem unfinished_attempt_disclosure:
  assumes "\<not> di_attemptFinalized i"
  shows "(d_answers (resolveDisclosure i) \<longleftrightarrow>
            di_showAnswers i = after_due \<and> di_dueAt i = None \<and> di_availableUntil i = None
            \<and> (\<exists>m. di_maxAttempts i = Some m \<and> m \<le> di_attemptsUsed i))
       \<and> (d_explanations (resolveDisclosure i) \<longrightarrow> d_answers (resolveDisclosure i))"
  using assms
  by (auto simp: resolveDisclosure_def disclosureAllows_def exhausted_def Let_def
      split: quiz_disclosure.splits option.splits)

definition lastAttemptRunning :: disclosure_input where
  "lastAttemptRunning = \<lparr>di_showScore = never, di_showAnswers = after_due, di_showExplanations = True,
     di_now = 0, di_dueAt = None, di_availableUntil = None, di_attemptsUsed = 1,
     di_maxAttempts = Some 1, di_attemptFinalized = False\<rparr>"

lemma unfinished_attempt_disclosure_witness:
  "d_answers (resolveDisclosure lastAttemptRunning)"
proof -
  have "\<not> di_attemptFinalized lastAttemptRunning" by (simp add: lastAttemptRunning_def)
  from unfinished_attempt_disclosure [OF this] show ?thesis by (simp add: lastAttemptRunning_def)
qed

subsection \<open>Integrity\<close>

datatype quiz_event_type =
  visibility_hidden | visibility_visible | blur | focus | fullscreen_exit | fullscreen_enter
  | fullscreen_unavailable | copy_event | paste_event | cut_event | contextmenu | print_event
  | heartbeat | second_session | device_change | warning_acknowledged

datatype integrity_mode = mode_off | mode_monitor | mode_warn | mode_strict
datatype integrity_action = action_none | action_warn | action_auto_submit

definition VIOLATION_TYPES :: "quiz_event_type list" where
  "VIOLATION_TYPES = [visibility_hidden, blur, fullscreen_exit, copy_event, paste_event, cut_event,
     contextmenu, print_event, second_session, device_change]"

definition EVENT_PAYLOAD_ALLOWLIST :: "quiz_event_type \<Rightarrow> (string \<times> string list) list" where
  "EVENT_PAYLOAD_ALLOWLIST ty =
     (if ty = fullscreen_unavailable then [(''reason'', [''unsupported'', ''refused''])] else [])"

text \<open>A payload is an object; only its string values are kept apart from the other ones.\<close>

definition sanitizeEventPayload ::
  "quiz_event_type \<Rightarrow> (string \<rightharpoonup> string) option \<Rightarrow> (string \<times> string) list option" where
  "sanitizeEventPayload ty payload =
     (case payload of
        None \<Rightarrow> None
      | Some p \<Rightarrow>
          (let kept = concat (map (\<lambda>(key, values).
                 case p key of
                   Some v \<Rightarrow> if v \<in> set values then [(key, v)] else []
                 | None \<Rightarrow> []) (EVENT_PAYLOAD_ALLOWLIST ty))
           in if kept = [] then None else Some kept))"

record integrity_state =
  is_counted :: "bool list"
  is_violationCount :: int
  is_lastHiddenAt :: "instant option"
  is_lastCountedAt :: "quiz_event_type \<rightharpoonup> instant"

record integrity_decision =
  id_counted :: "bool list"
  id_violationCount :: int
  id_flagged :: bool
  id_action :: integrity_action
  id_lastHiddenAt :: "instant option"

record integrity_input =
  ii_mode :: integrity_mode
  ii_maxViolations :: int
  ii_violationCount :: int
  ii_startedAt :: instant
  ii_now :: instant
  ii_lastCountedAt :: "quiz_event_type \<rightharpoonup> instant"
  ii_lastHiddenAt :: "instant option"
  ii_events :: "quiz_event_type list"

definition countsNow :: "integrity_input \<Rightarrow> integrity_state \<Rightarrow> quiz_event_type \<Rightarrow> bool" where
  "countsNow i s ev =
     (ii_mode i \<noteq> mode_off \<and> List.member VIOLATION_TYPES ev
      \<and> ii_now i \<ge> ii_startedAt i + INTEGRITY_WARM_UP_MS
      \<and> \<not> (case is_lastCountedAt s ev of
             None \<Rightarrow> False
           | Some l \<Rightarrow> ii_now i - l < INTEGRITY_DEBOUNCE_MS))"

text \<open>
  The uncounting of a flicker: the event just before this one in the batch, if it is a
  counted \<open>visibility_hidden\<close>.
\<close>

definition uncountFlicker :: "integrity_input \<Rightarrow> integrity_state \<Rightarrow> integrity_state" where
  "uncountFlicker i s =
     (let n = length (is_counted s)
      in if n \<noteq> 0 \<and> n \<le> length (ii_events i) \<and> ii_events i ! (n - 1) = visibility_hidden
            \<and> is_counted s ! (n - 1)
         then s\<lparr>is_counted := (is_counted s)[n - 1 := False],
                is_violationCount := max (ii_violationCount i) (is_violationCount s - 1),
                is_lastCountedAt := (is_lastCountedAt s)(visibility_hidden := None)\<rparr>
         else s)"

definition integrityStep :: "integrity_input \<Rightarrow> quiz_event_type \<Rightarrow> integrity_state \<Rightarrow> integrity_state" where
  "integrityStep i ev s =
     (let c = countsNow i s ev;
          s1 = (if ev = visibility_hidden then s\<lparr>is_lastHiddenAt := Some (ii_now i)\<rparr> else s);
          s2 = (if ev = visibility_visible \<and> is_lastHiddenAt s1 \<noteq> None
                then (if ii_now i - the (is_lastHiddenAt s1) < INTEGRITY_SUB_SECOND_MS
                      then uncountFlicker i s1 else s1)\<lparr>is_lastHiddenAt := None\<rparr>
                else s1);
          s3 = (if c then s2\<lparr>is_violationCount := is_violationCount s2 + 1,
                             is_lastCountedAt := (is_lastCountedAt s2)(ev \<mapsto> ii_now i)\<rparr>
                else s2)
      in s3\<lparr>is_counted := is_counted s3 @ [c]\<rparr>)"

definition integrityStart :: "integrity_input \<Rightarrow> integrity_state" where
  "integrityStart i =
     \<lparr>is_counted = [], is_violationCount = ii_violationCount i, is_lastHiddenAt = ii_lastHiddenAt i,
      is_lastCountedAt = ii_lastCountedAt i\<rparr>"

definition decideIntegrity :: "integrity_input \<Rightarrow> integrity_decision" where
  "decideIntegrity i =
     (let s = fold (integrityStep i) (ii_events i) (integrityStart i);
          newlyCounted = list_ex (\<lambda>b. b) (is_counted s);
          action =
            (if newlyCounted \<and> (ii_mode i = mode_warn \<or> ii_mode i = mode_strict)
             then (if ii_mode i = mode_strict \<and> is_violationCount s \<ge> max 1 (ii_maxViolations i)
                   then action_auto_submit else action_warn)
             else action_none)
      in \<lparr>id_counted = is_counted s, id_violationCount = is_violationCount s,
          id_flagged = (ii_mode i \<noteq> mode_off \<and> is_violationCount s > 0), id_action = action,
          id_lastHiddenAt = is_lastHiddenAt s\<rparr>)"

subsection \<open>Counting a batch\<close>

lemma count_true_update:
  "n < length bs \<Longrightarrow> bs ! n \<Longrightarrow> count_rows id bs = Suc (count_rows id (bs[n := False]))"
proof (induction bs arbitrary: n)
  case (Cons b bs)
  then show ?case by (cases n) (auto simp: count_rows_def)
qed simp

text \<open>
  The bookkeeping of the loop: after the events \<open>done\<close>, one flag per event, the count is the
  old one plus the flags that stand, and every event that stands counted is a violation
  whose type was last counted now.
\<close>

definition integrityInv :: "integrity_input \<Rightarrow> quiz_event_type list \<Rightarrow> integrity_state \<Rightarrow> bool" where
  "integrityInv i processed s \<longleftrightarrow>
     length (is_counted s) = length processed
   \<and> is_violationCount s = ii_violationCount i + int (count_rows id (is_counted s))
   \<and> (\<forall>n < length processed. is_counted s ! n \<longrightarrow>
        processed ! n \<in> set VIOLATION_TYPES \<and> ii_mode i \<noteq> mode_off
        \<and> ii_startedAt i + INTEGRITY_WARM_UP_MS \<le> ii_now i
        \<and> is_lastCountedAt s (processed ! n) = Some (ii_now i))
   \<and> (\<forall>m n. m < n \<and> n < length processed \<and> is_counted s ! m \<and> is_counted s ! n
        \<longrightarrow> processed ! m \<noteq> processed ! n)"

lemma integrityInv_start: "integrityInv i [] (integrityStart i)"
  by (simp add: integrityInv_def integrityStart_def count_rows_def)

lemma integrityInv_uncount:
  assumes inv: "integrityInv i processed s" and pre: "ii_events i = processed @ rest"
  shows "integrityInv i processed (uncountFlicker i s)"
proof -
  let ?n = "length (is_counted s)"
  show ?thesis
  proof (cases "?n \<noteq> 0 \<and> ?n \<le> length (ii_events i) \<and> ii_events i ! (?n - 1) = visibility_hidden
            \<and> is_counted s ! (?n - 1)")
    case False
    then show ?thesis using inv by (auto simp: uncountFlicker_def Let_def)
  next
    case True
    have len: "?n = length processed" using inv by (simp add: integrityInv_def)
    then have prev: "processed ! (?n - 1) = visibility_hidden"
      using True pre by (auto simp: nth_append)
    have lt: "?n - 1 < ?n" using True by simp
    have cnt: "count_rows id (is_counted s) = Suc (count_rows id ((is_counted s)[?n - 1 := False]))"
      by (rule count_true_update [OF lt]) (use True in simp)
    have un: "uncountFlicker i s = s\<lparr>is_counted := (is_counted s)[?n - 1 := False],
        is_violationCount := max (ii_violationCount i) (is_violationCount s - 1),
        is_lastCountedAt := (is_lastCountedAt s)(visibility_hidden := None)\<rparr>"
      using True by (simp add: uncountFlicker_def Let_def)
    have only: "processed ! m \<noteq> visibility_hidden" if "m < ?n - 1" "is_counted s ! m" for m
      using inv that True prev len lt unfolding integrityInv_def by metis
    show ?thesis
      unfolding un integrityInv_def
      using inv cnt len only
      by (auto simp: integrityInv_def nth_list_update split: if_splits)
  qed
qed

lemma integrityInv_hidden:
  "integrityInv i processed (s\<lparr>is_lastHiddenAt := h\<rparr>) = integrityInv i processed s"
  by (simp add: integrityInv_def)

lemma integrityInv_not_counted:
  "integrityInv i processed s \<Longrightarrow> integrityInv i (processed @ [ev]) (s\<lparr>is_counted := is_counted s @ [False]\<rparr>)"
  by (auto simp: integrityInv_def nth_append count_rows_def less_Suc_eq)

lemma integrityInv_counted:
  assumes inv: "integrityInv i processed s" and c: "countsNow i s ev"
  shows "integrityInv i (processed @ [ev])
     (s\<lparr>is_violationCount := is_violationCount s + 1,
        is_lastCountedAt := (is_lastCountedAt s)(ev \<mapsto> ii_now i),
        is_counted := is_counted s @ [True]\<rparr>)"
proof -
  have "is_lastCountedAt s ev \<noteq> Some (ii_now i)"
    using c by (auto simp: countsNow_def INTEGRITY_DEBOUNCE_MS_def)
  then have fresh: "processed ! n \<noteq> ev" if "n < length processed" "is_counted s ! n" for n
    using inv that unfolding integrityInv_def by metis
  have "ev \<in> set VIOLATION_TYPES" "ii_mode i \<noteq> mode_off"
    "ii_startedAt i + INTEGRITY_WARM_UP_MS \<le> ii_now i"
    using c by (auto simp: countsNow_def VIOLATION_TYPES_def)
  then show ?thesis
    using inv fresh by (auto simp: integrityInv_def nth_append count_rows_def less_Suc_eq)
qed

lemma integrityInv_step:
  assumes inv: "integrityInv i processed s" and pre: "ii_events i = processed @ ev # rest"
  shows "integrityInv i (processed @ [ev]) (integrityStep i ev s)"
proof (cases "ev = visibility_visible")
  case True
  then have c: "\<not> countsNow i s ev" by (simp add: countsNow_def VIOLATION_TYPES_def)
  have "integrityInv i processed (uncountFlicker i s)"
    using inv pre by (rule integrityInv_uncount)
  then show ?thesis
    using c inv integrityInv_not_counted [of i processed _ ev]
    by (auto simp: integrityStep_def Let_def True integrityInv_hidden)
next
  case False
  define s1 where "s1 = (if ev = visibility_hidden then s\<lparr>is_lastHiddenAt := Some (ii_now i)\<rparr> else s)"
  have inv1: "integrityInv i processed s1" using inv by (simp add: s1_def integrityInv_hidden)
  have c1: "countsNow i s1 ev = countsNow i s ev" by (simp add: s1_def countsNow_def)
  show ?thesis
  proof (cases "countsNow i s ev")
    case True
    then show ?thesis
      using integrityInv_counted [OF inv1] c1 False
      by (simp add: integrityStep_def Let_def flip: s1_def)
  next
    case no: False
    then show ?thesis
      using integrityInv_not_counted [OF inv1] False
      by (simp add: integrityStep_def Let_def flip: s1_def)
  qed
qed

lemma integrityInv_fold:
  assumes "integrityInv i processed s" "ii_events i = processed @ rest"
  shows "integrityInv i (ii_events i) (fold (integrityStep i) rest s)"
  using assms
proof (induction rest arbitrary: processed s)
  case (Cons ev rest)
  have "integrityInv i (processed @ [ev]) (integrityStep i ev s)"
    using integrityInv_step Cons.prems by blast
  from Cons.IH [OF this] Cons.prems(2) show ?case by simp
qed simp

text \<open>
  What a batch of browser events can do. Every event gets one flag; the violation count
  grows by exactly the flags that stand, so it never falls; only violation types count, never before
  the warm-up is over and never when integrity is off, and one type counts at most once
  per batch. An attempt is auto-submitted only in strict mode, on a newly counted
  violation that reaches the limit (at least one).
\<close>

theorem integrity_counts_fairly:
  assumes "d = decideIntegrity i"
  shows "length (id_counted d) = length (ii_events i)
       \<and> id_violationCount d = ii_violationCount i + int (count_rows id (id_counted d))
       \<and> (\<forall>n < length (ii_events i). id_counted d ! n \<longrightarrow>
            ii_events i ! n \<in> set VIOLATION_TYPES \<and> ii_mode i \<noteq> mode_off
            \<and> ii_startedAt i + 5000 \<le> ii_now i)
       \<and> (\<forall>m n. m < n \<and> n < length (ii_events i) \<and> id_counted d ! m \<and> id_counted d ! n
            \<longrightarrow> ii_events i ! m \<noteq> ii_events i ! n)
       \<and> (id_action d = action_auto_submit \<longrightarrow> ii_mode i = mode_strict
            \<and> ii_violationCount i < id_violationCount d \<and> max 1 (ii_maxViolations i) \<le> id_violationCount d)"
proof -
  define s where "s = fold (integrityStep i) (ii_events i) (integrityStart i)"
  have inv: "integrityInv i (ii_events i) s"
    unfolding s_def using integrityInv_fold [OF integrityInv_start] by simp
  have d: "id_counted d = is_counted s" "id_violationCount d = is_violationCount s"
    by (simp_all add: assms decideIntegrity_def Let_def s_def)
  have act: "id_action d = action_auto_submit \<longrightarrow> list_ex (\<lambda>b. b) (is_counted s)
      \<and> ii_mode i = mode_strict \<and> max 1 (ii_maxViolations i) \<le> is_violationCount s"
    by (simp add: assms decideIntegrity_def Let_def s_def)
  have "0 < count_rows id (is_counted s)" if "list_ex (\<lambda>b. b) (is_counted s)"
    using that by (induction "is_counted s") (auto simp: count_rows_def list_ex_iff filter_empty_conv)
  then show ?thesis
    using inv act by (auto simp: d integrityInv_def INTEGRITY_WARM_UP_MS_def)
qed

definition tabSwitch :: "quiz_event_type list \<Rightarrow> integrity_input" where
  "tabSwitch evs = \<lparr>ii_mode = mode_strict, ii_maxViolations = 1, ii_violationCount = 0, ii_startedAt = 0,
     ii_now = 600000, ii_lastCountedAt = Map.empty, ii_lastHiddenAt = None, ii_events = evs\<rparr>"

lemma integrity_counts_fairly_witness:
  "id_action (decideIntegrity (tabSwitch [visibility_hidden])) = action_auto_submit
   \<and> 1 \<le> id_violationCount (decideIntegrity (tabSwitch [visibility_hidden]))"
proof -
  have "id_action (decideIntegrity (tabSwitch [visibility_hidden])) = action_auto_submit"
    by (simp add: decideIntegrity_def integrityStep_def integrityStart_def tabSwitch_def countsNow_def
        VIOLATION_TYPES_def INTEGRITY_WARM_UP_MS_def Let_def)
  then show ?thesis
    using integrity_counts_fairly [OF refl, of "tabSwitch [visibility_hidden]"] by (simp add: tabSwitch_def)
qed

text \<open>
  A tab switch sent as one batch never counts. The loop stamps every event of a batch with
  the same server time, so a \<open>visibility_hidden\<close> directly followed by its
  \<open>visibility_visible\<close> always looks shorter than a second: in strict mode with one violation
  allowed, a learner who was away for any time, and whose client then sends the two events together, is
  neither flagged nor submitted.
\<close>

theorem batched_tab_switch_is_free:
  "id_counted (decideIntegrity (tabSwitch [visibility_hidden, visibility_visible])) = [False, False]
   \<and> id_violationCount (decideIntegrity (tabSwitch [visibility_hidden, visibility_visible])) = 0
   \<and> id_action (decideIntegrity (tabSwitch [visibility_hidden, visibility_visible])) = action_none"
  by (simp add: decideIntegrity_def integrityStep_def integrityStart_def tabSwitch_def countsNow_def
      uncountFlicker_def VIOLATION_TYPES_def INTEGRITY_WARM_UP_MS_def INTEGRITY_SUB_SECOND_MS_def Let_def)

end
