(* ===== verification/Quiz_Attempts.thy ===== *)
theory Quiz_Attempts
  imports Quiz_Grading Quiz_Policies
begin

text \<open>
  The attempts of a quiz (\<open>learning/services/quiz-attempt-engine.service.ts\<close>,
  \<open>learning/repositories/quiz-attempts.repository.ts\<close>): start and resume, autosave, submit,
  integrity events, results, and the finalisation every path shares.
  A handler returns its outcome and the state its transaction leaves. A throw inside the transaction leaves the
  state as it was; an expired attempt is different, its finalisation commits and the error
  is raised afterwards. What the handler asks of other services (enrollment, course,
  feature flags, the sequence lock, random numbers) is an argument.
\<close>

subsection \<open>State\<close>

datatype attempt_status =
  att_not_started | att_in_progress | att_submitted | att_passed | att_failed | att_expired
  | att_invalidated

datatype grading_status = grading_not_required | grading_pending | grading_graded

datatype finalize_reason = reason_submit | reason_timeout | reason_integrity

record settings_snapshot =
  ss_timeLimitSeconds :: "int option"
  ss_showScore :: quiz_disclosure
  ss_showAnswers :: quiz_disclosure
  ss_showExplanations :: bool
  ss_integrityMode :: integrity_mode
  ss_maxViolations :: int
  ss_requireFullscreen :: bool
  ss_timeMultiplier :: rat
  ss_extraAttempts :: int
  ss_optionOrder :: "(uid \<times> uid list) list"
  ss_engineV2 :: bool

record quiz_attempt =
  at_id :: uid
  at_quizId :: uid
  at_studentId :: uid
  at_status :: attempt_status
  at_attemptNumber :: int
  at_createdAt :: instant
  at_startedAt :: "instant option"
  at_deadlineAt :: "instant option"
  at_answers :: "attempt_answer list"
  at_answersRevision :: int
  at_lastSavedAt :: "instant option"
  at_questionIds :: "uid list option"
  at_settingsSnapshot :: "settings_snapshot option"
  at_score :: "rat option"
  at_passed :: "bool option"
  at_pointsEarned :: "rat option"
  at_pointsTotal :: "rat option"
  at_submittedAt :: "instant option"
  at_autoSubmitted :: bool
  at_autoSubmittedReason :: "finalize_reason option"
  at_gradingStatus :: grading_status
  at_manualGrades :: "(uid \<rightharpoonup> rat) option"
  at_isLate :: bool
  at_violationCount :: int
  at_integrityFlagged :: bool

record quiz =
  qz_id :: uid
  qz_courseId :: uid
  qz_published :: bool
  qz_questions :: "engine_question list"
  qz_maxAttempts :: "int option"
  qz_passingScore :: "rat option"
  qz_gradingPolicy :: grading_policy
  qz_timeLimitSeconds :: "int option"
  qz_availableFrom :: "instant option"
  qz_availableUntil :: "instant option"
  qz_dueAt :: "instant option"
  qz_latePolicy :: late_policy
  qz_shuffleQuestions :: bool
  qz_shuffleOptions :: bool
  qz_questionsPerAttempt :: "int option"
  qz_showScore :: quiz_disclosure
  qz_showAnswers :: quiz_disclosure
  qz_showExplanations :: bool
  qz_integrityMode :: integrity_mode
  qz_maxViolations :: int
  qz_requireFullscreen :: bool

record student_override =
  ov_timeMultiplier :: rat
  ov_extraAttempts :: int
  ov_availableFrom :: "instant option"
  ov_availableUntil :: "instant option"

record attempt_event =
  ev_attemptId :: uid
  ev_type :: quiz_event_type
  ev_counted :: bool
  ev_clientAt :: "instant option"
  ev_serverAt :: instant
  ev_payload :: "(string \<times> string) list option"

record quiz_state =
  st_attempts :: "quiz_attempt list"
  st_events :: "attempt_event list"
  st_results :: "uid \<times> uid \<rightharpoonup> aggregated_result"
  st_notified :: "uid list"
  st_recomputed :: "uid list"

subsection \<open>Rows\<close>

definition in_progress :: "quiz_attempt \<Rightarrow> bool" where
  "in_progress a \<longleftrightarrow> at_status a = att_in_progress"

definition countForStudent :: "uid \<Rightarrow> uid \<Rightarrow> int option \<Rightarrow> quiz_attempt list \<Rightarrow> int" where
  "countForStudent student quiz upTo t =
     int (count_rows (\<lambda>a. at_studentId a = student \<and> at_quizId a = quiz \<and> at_status a \<noteq> att_invalidated
            \<and> (case upTo of None \<Rightarrow> True | Some n \<Rightarrow> at_attemptNumber a \<le> n)) t)"

definition countAllForStudent :: "uid \<Rightarrow> uid \<Rightarrow> quiz_attempt list \<Rightarrow> int" where
  "countAllForStudent student quiz t =
     int (count_rows (\<lambda>a. at_studentId a = student \<and> at_quizId a = quiz) t)"

definition findOpenAttempt :: "uid \<Rightarrow> uid \<Rightarrow> quiz_attempt list \<Rightarrow> quiz_attempt option" where
  "findOpenAttempt student quiz t =
     (case rev (sort_key at_attemptNumber
              (filter (\<lambda>a. at_studentId a = student \<and> at_quizId a = quiz \<and> in_progress a) t)) of
        [] \<Rightarrow> None | a # _ \<Rightarrow> Some a)"

definition findFinalizedForStudent :: "uid \<Rightarrow> uid \<Rightarrow> quiz_attempt list \<Rightarrow> quiz_attempt list" where
  "findFinalizedForStudent student quiz t =
     sort_key at_attemptNumber
       (filter (\<lambda>a. at_studentId a = student \<and> at_quizId a = quiz
                  \<and> at_status a \<in> set [att_submitted, att_passed, att_failed, att_expired]) t)"

text \<open>The newest 200 events of the attempt, newest first, read until the hidden state is known.\<close>

fun integrityStateLoop ::
  "attempt_event list \<Rightarrow> (quiz_event_type \<rightharpoonup> instant) \<times> instant option \<Rightarrow>
     (quiz_event_type \<rightharpoonup> instant) \<times> instant option" where
  "integrityStateLoop [] acc = acc"
| "integrityStateLoop (e # es) (counted, hidden) =
     (let counted' = (if ev_counted e \<and> counted (ev_type e) = None
                      then counted(ev_type e \<mapsto> ev_serverAt e) else counted);
          hidden' = (if ev_type e = visibility_hidden \<and> hidden = None
                     then Some (ev_serverAt e) else hidden)
      in if ev_type e = visibility_visible \<and> hidden' = None then (counted', hidden')
         else integrityStateLoop es (counted', hidden'))"

definition findIntegrityState ::
  "uid \<Rightarrow> attempt_event list \<Rightarrow> (quiz_event_type \<rightharpoonup> instant) \<times> instant option" where
  "findIntegrityState aid evs =
     integrityStateLoop
       (take 200 (rev (sort_key ev_serverAt (filter (\<lambda>e. ev_attemptId e = aid) evs))))
       (Map.empty, None)"

definition updateAttempt :: "uid \<Rightarrow> (quiz_attempt \<Rightarrow> quiz_attempt) \<Rightarrow> quiz_attempt list \<Rightarrow> quiz_attempt list"
  where "updateAttempt aid f t = map (\<lambda>a. if at_id a = aid then f a else a) t"

definition updateIfInProgress ::
  "uid \<Rightarrow> (quiz_attempt \<Rightarrow> quiz_attempt) \<Rightarrow> quiz_attempt list \<Rightarrow> quiz_attempt list \<times> nat" where
  "updateIfInProgress aid f t = updateMany (\<lambda>a. at_id a = aid \<and> in_progress a) f t"

definition attemptQuestions :: "quiz \<Rightarrow> quiz_attempt \<Rightarrow> engine_question list" where
  "attemptQuestions q a =
     (case at_questionIds a of
        Some (i # ids) \<Rightarrow> List.map_filter (map_of_last eq_id (qz_questions q)) (i # ids)
      | _ \<Rightarrow> sort_key eq_order (qz_questions q))"

text \<open>An attempt without a snapshot behaves as before the engine: no integrity, defaults of the quiz.\<close>

definition snapshotOf :: "quiz_attempt \<Rightarrow> quiz \<Rightarrow> settings_snapshot" where
  "snapshotOf a q =
     (case at_settingsSnapshot a of
        Some s \<Rightarrow> s
      | None \<Rightarrow>
          \<lparr>ss_timeLimitSeconds = None, ss_showScore = qz_showScore q, ss_showAnswers = qz_showAnswers q,
           ss_showExplanations = qz_showExplanations q, ss_integrityMode = mode_off,
           ss_maxViolations = qz_maxViolations q, ss_requireFullscreen = False, ss_timeMultiplier = 1,
           ss_extraAttempts = 0, ss_optionOrder = [], ss_engineV2 = False\<rparr>)"

definition extraAttempts :: "student_override option \<Rightarrow> int" where
  "extraAttempts ov = (case ov of None \<Rightarrow> 0 | Some v \<Rightarrow> ov_extraAttempts v)"

subsection \<open>Finalisation\<close>

definition summaryOf :: "quiz_attempt \<Rightarrow> finalized_attempt" where
  "summaryOf a =
     \<lparr>fa_id = at_id a, fa_attemptNumber = at_attemptNumber a, fa_score = at_score a,
      fa_submittedAt = (case at_submittedAt a of Some t \<Rightarrow> t | None \<Rightarrow> at_createdAt a),
      fa_pendingGrading = (at_gradingStatus a = grading_pending)\<rparr>"

definition recomputeResultAndCompletion :: "quiz \<Rightarrow> uid \<Rightarrow> bool \<Rightarrow> quiz_state \<Rightarrow> quiz_state" where
  "recomputeResultAndCompletion q student enrolled st =
     (let rows = findFinalizedForStudent student (qz_id q) (st_attempts st);
          aggregate = aggregateResult (qz_gradingPolicy q) (map summaryOf rows) (qz_passingScore q)
      in st\<lparr>st_results := (st_results st)((qz_id q, student) \<mapsto> aggregate),
            st_recomputed := st_recomputed st @ (if enrolled then [student] else [])\<rparr>)"

definition finalizedRow ::
  "attempt_score \<Rightarrow> quiz \<Rightarrow> finalize_reason \<Rightarrow> instant \<Rightarrow> attempt_answer list \<Rightarrow> int option \<Rightarrow>
     quiz_attempt \<Rightarrow> quiz_attempt \<Rightarrow> quiz_attempt" where
  "finalizedRow score q why now answers revision read a =
     (let passed = isPassing (as_score score) (qz_passingScore q)
      in a\<lparr>at_status := (if as_pendingManual score then att_submitted
                        else if passed = Some True then att_passed else att_failed),
           at_answers := answers,
           at_answersRevision := (case revision of
              Some v \<Rightarrow> if v > at_answersRevision read then v else at_answersRevision a
            | None \<Rightarrow> at_answersRevision a),
           at_score := as_score score,
           at_passed := (if as_pendingManual score then None else passed),
           at_pointsEarned := Some (as_pointsEarned score),
           at_pointsTotal := Some (as_pointsTotal score),
           at_submittedAt := Some now,
           at_autoSubmitted := (why \<noteq> reason_submit),
           at_autoSubmittedReason := (if why = reason_submit then None else Some why),
           at_gradingStatus := (if as_pendingManual score then grading_pending
                               else if at_gradingStatus read = grading_pending then grading_graded
                               else grading_not_required),
           at_lastSavedAt := Some now\<rparr>)"

text \<open>\<open>read\<close> is the row the caller loaded; the write is guarded by the stored status.\<close>

definition finalizeInTransaction ::
  "text_tables \<Rightarrow> quiz_attempt \<Rightarrow> quiz \<Rightarrow> finalize_reason \<Rightarrow> instant \<Rightarrow> bool \<Rightarrow>
     attempt_answer list option \<Rightarrow> int option \<Rightarrow> quiz_state \<Rightarrow> quiz_attempt \<times> quiz_state" where
  "finalizeInTransaction u read q why now enrolled givenAnswers revision st =
     (let answers = (case givenAnswers of Some l \<Rightarrow> l | None \<Rightarrow> at_answers read);
          score = scoreAttempt u (attemptQuestions q read) answers (at_manualGrades read);
          (t, changed) = updateIfInProgress (at_id read)
             (finalizedRow score q why now answers revision read) (st_attempts st);
          fresh = (case find_by at_id (at_id read) t of Some a \<Rightarrow> a | None \<Rightarrow> read)
      in if changed = 0 then (fresh, st\<lparr>st_attempts := t\<rparr>)
         else (fresh,
               recomputeResultAndCompletion q (at_studentId fresh) enrolled
                 (st\<lparr>st_attempts := t,
                     st_notified := st_notified st
                       @ (if why \<noteq> reason_submit then [at_id fresh] else [])\<rparr>)))"

subsection \<open>Requests\<close>

record request =
  rq_user :: uid
  rq_course :: uid
  rq_quiz :: uid
  rq_attempt :: uid
  rq_now :: instant

text \<open>
  \<open>assertActiveEnrollment\<close> either throws or lets the request through; the other services a
  handler reads are fields too. Quizzes are the rows of their table, read by identifier.
\<close>

record learner_env =
  le_enrolled :: "unit outcome"
  le_override :: "student_override option"

record start_env = learner_env +
  se_courseFound :: bool
  se_engineV2 :: bool
  se_integrityOn :: bool
  se_sequenceLocked :: bool
  se_random :: nat
  se_newId :: uid

text \<open>
  \<open>toQuizAttemptResponse\<close>: the row, whether another attempt may start, and whether the
  score shows (the flag masks score, verdict and points of the row).
\<close>

record attempt_response =
  ar_attempt :: quiz_attempt
  ar_canRetry :: bool

definition toQuizAttemptResponse :: "quiz_attempt \<Rightarrow> bool \<Rightarrow> bool \<Rightarrow> attempt_response" where
  "toQuizAttemptResponse a canRetry showScore =
     \<lparr>ar_attempt = (if showScore then a
                    else a\<lparr>at_score := None, at_passed := None, at_pointsEarned := None\<rparr>),
      ar_canRetry = canRetry\<rparr>"

definition expiredAttempt :: "'a outcome" where
  "expiredAttempt = throw ConflictException ''errors.quiz.attemptExpired''"

definition findQuiz :: "uid \<Rightarrow> quiz list \<Rightarrow> quiz option" where
  "findQuiz k quizzes = find_by qz_id k quizzes"

definition loadOwnAttempt :: "quiz list \<Rightarrow> request \<Rightarrow> quiz_attempt list \<Rightarrow> (quiz_attempt \<times> quiz) outcome" where
  "loadOwnAttempt quizzes rq t =
     (case find_by at_id (rq_attempt rq) t of
        None \<Rightarrow> throw NotFoundException ''errors.notFound''
      | Some a \<Rightarrow>
          if at_studentId a \<noteq> rq_user rq \<or> at_quizId a \<noteq> rq_quiz rq
          then throw NotFoundException ''errors.notFound''
          else (case findQuiz (rq_quiz rq) quizzes of
                  None \<Rightarrow> throw NotFoundException ''errors.notFound''
                | Some q \<Rightarrow>
                    if qz_courseId q \<noteq> rq_course rq then throw NotFoundException ''errors.notFound''
                    else Inr (a, q)))"

definition canRetryFor :: "student_override option \<Rightarrow> uid \<Rightarrow> quiz \<Rightarrow> quiz_attempt list \<Rightarrow> bool" where
  "canRetryFor ov user q t =
     canStartAttempt (countForStudent user (qz_id q) None t) (qz_maxAttempts q)
       (extraAttempts ov)"

definition disclosureFor :: "quiz_attempt list \<Rightarrow> quiz \<Rightarrow> quiz_attempt \<Rightarrow> int \<Rightarrow> instant \<Rightarrow> disclosure" where
  "disclosureFor t q a extra now =
     resolveDisclosure
       \<lparr>di_showScore = ss_showScore (snapshotOf a q), di_showAnswers = ss_showAnswers (snapshotOf a q),
        di_showExplanations = ss_showExplanations (snapshotOf a q), di_now = now,
        di_dueAt = qz_dueAt q, di_availableUntil = qz_availableUntil q,
        di_attemptsUsed = countForStudent (at_studentId a) (at_quizId a) (Some (at_attemptNumber a)) t,
        di_maxAttempts = (case qz_maxAttempts q of None \<Rightarrow> None | Some m \<Rightarrow> Some (m + extra)),
        di_attemptFinalized = (at_status a \<noteq> att_in_progress \<and> at_status a \<noteq> att_not_started)\<rparr>"

subsection \<open>Start and resume\<close>

definition newAttempt :: "start_env \<Rightarrow> uid \<Rightarrow> quiz \<Rightarrow> instant \<Rightarrow> window_state \<Rightarrow> int \<Rightarrow> quiz_attempt" where
  "newAttempt env user q now window totalRows =
     (let ov = le_override env;
          v2 = se_engineV2 env;
          timeMultiplier = (case ov of Some v \<Rightarrow> ov_timeMultiplier v | None \<Rightarrow> 1);
          seed = (word_of_nat (se_random env) XOR word_of_int totalRows :: 32 word);
          plan = (if v2
                  then buildAttemptPlan (qz_questions q) (qz_shuffleQuestions q) (qz_shuffleOptions q)
                         (qz_questionsPerAttempt q) seed
                  else buildAttemptPlan (qz_questions q) False False None seed);
          integrity = (if v2 \<and> se_integrityOn env then qz_integrityMode q else mode_off);
          timeLimit = (if v2 then qz_timeLimitSeconds q else None);
          until = (case ov of Some v \<Rightarrow> (case ov_availableUntil v of Some t \<Rightarrow> Some t | None \<Rightarrow> qz_availableUntil q)
                   | None \<Rightarrow> qz_availableUntil q);
          deadline = (if v2 then computeDeadline now timeLimit timeMultiplier until else None)
      in \<lparr>at_id = se_newId env, at_quizId = qz_id q, at_studentId = user, at_status = att_in_progress,
          at_attemptNumber = totalRows + 1, at_createdAt = now, at_startedAt = Some now,
          at_deadlineAt = deadline, at_answers = [], at_answersRevision = 0, at_lastSavedAt = None,
          at_questionIds = Some (ap_questionIds plan),
          at_settingsSnapshot = Some
            \<lparr>ss_timeLimitSeconds = timeLimit, ss_showScore = qz_showScore q,
             ss_showAnswers = qz_showAnswers q, ss_showExplanations = qz_showExplanations q,
             ss_integrityMode = integrity, ss_maxViolations = qz_maxViolations q,
             ss_requireFullscreen = (v2 \<and> se_integrityOn env \<and> qz_integrityMode q \<noteq> mode_off
                                     \<and> qz_requireFullscreen q),
             ss_timeMultiplier = timeMultiplier, ss_extraAttempts = extraAttempts ov,
             ss_optionOrder = ap_optionOrder plan, ss_engineV2 = v2\<rparr>,
          at_score = None, at_passed = None, at_pointsEarned = None, at_pointsTotal = None,
          at_submittedAt = None, at_autoSubmitted = False, at_autoSubmittedReason = None,
          at_gradingStatus = grading_not_required, at_manualGrades = None,
          at_isLate = (window = late_allowed), at_violationCount = 0, at_integrityFlagged = False\<rparr>)"

definition startWindow :: "start_env \<Rightarrow> quiz \<Rightarrow> instant \<Rightarrow> window_state" where
  "startWindow env q now =
     (if se_engineV2 env
      then resolveWindow now
             (case le_override env of Some v \<Rightarrow>
                (case ov_availableFrom v of Some t \<Rightarrow> Some t | None \<Rightarrow> qz_availableFrom q)
              | None \<Rightarrow> qz_availableFrom q)
             (case le_override env of Some v \<Rightarrow>
                (case ov_availableUntil v of Some t \<Rightarrow> Some t | None \<Rightarrow> qz_availableUntil q)
              | None \<Rightarrow> qz_availableUntil q)
             (qz_dueAt q) (qz_latePolicy q)
      else open_window)"

definition startAttempt ::
  "text_tables \<Rightarrow> start_env \<Rightarrow> quiz list \<Rightarrow> request \<Rightarrow> quiz_state \<Rightarrow> attempt_response outcome \<times> quiz_state"
  where
  "startAttempt u env quizzes rq st =
     (let user = rq_user rq; now = rq_now rq in
      case le_enrolled env of
        Inl e \<Rightarrow> (Inl e, st)
      | Inr _ \<Rightarrow>
          if \<not> se_courseFound env then (throw NotFoundException ''errors.notFound'', st)
          else case findQuiz (rq_quiz rq) quizzes of
            None \<Rightarrow> (throw NotFoundException ''errors.notFound'', st)
          | Some q \<Rightarrow>
              if qz_courseId q \<noteq> rq_course rq \<or> \<not> qz_published q
              then (throw NotFoundException ''errors.notFound'', st)
              else case findOpenAttempt user (qz_id q) (st_attempts st) of
                Some row \<Rightarrow>
                  if isPastGrace (at_deadlineAt row) now
                  then (expiredAttempt,
                        snd (finalizeInTransaction u row q reason_timeout now True None None st))
                  else (Inr (toQuizAttemptResponse row
                              (canRetryFor (le_override env) user q (st_attempts st)) True), st)
              | None \<Rightarrow>
                  (let existingCount = countForStudent user (qz_id q) None (st_attempts st);
                       totalRows = countAllForStudent user (qz_id q) (st_attempts st);
                       window = startWindow env q now
                   in if \<not> canStartAttempt existingCount (qz_maxAttempts q) (extraAttempts (le_override env))
                      then (throw ForbiddenException ''errors.quiz.maxAttemptsReached'', st)
                      else if window = not_yet_open
                      then (throw ForbiddenException ''errors.quiz.notYetAvailable'', st)
                      else if window = closed
                      then (throw ForbiddenException ''errors.quiz.windowClosed'', st)
                      else if window = late_blocked
                      then (throw ForbiddenException ''errors.quiz.pastDue'', st)
                      else if se_sequenceLocked env
                      then (throw ForbiddenException ''errors.quiz.locked'', st)
                      else (let a = newAttempt env user q now window totalRows;
                                t = st_attempts st @ [a]
                            in (Inr (toQuizAttemptResponse a
                                      (canRetryFor (le_override env) user q t) True),
                                st\<lparr>st_attempts := t\<rparr>))))"

end
