(* ===== verification/Quiz_Handlers.thy ===== *)
theory Quiz_Handlers
  imports Quiz_Attempts
begin

text \<open>
  The remaining handlers of \<open>learning/services/quiz-attempt-engine.service.ts\<close>: autosave,
  submit, integrity events, the session and results reads (which finalise an overdue attempt
  on the way) and the deadline sweep.
\<close>

subsection \<open>Autosave\<close>

definition answerProblem :: "answer_validation_error \<Rightarrow> string" where
  "answerProblem e = (if e = textTooLong then ''errors.quiz.answerTooLong''
                      else ''errors.quiz.invalidOption'')"

record save_response =
  sr_revision :: int
  sr_applied :: bool
  sr_savedAt :: "instant option"
  sr_answers :: "attempt_answer list option"

text \<open>
  What the handler decides from the row it read; the write that follows (\<open>SaveWrite\<close>) is a
  plain update by identifier.
\<close>

datatype save_decision =
  SaveReject http_error
| SaveExpire quiz_attempt quiz
| SaveStale quiz_attempt
| SaveWrite "attempt_answer list"

definition saveDecision ::
  "learner_env \<Rightarrow> quiz list \<Rightarrow> request \<Rightarrow> attempt_answer list \<Rightarrow> int \<Rightarrow> quiz_state \<Rightarrow> save_decision"
  where
  "saveDecision env quizzes rq answers revision st =
     (case le_enrolled env of
        Inl e \<Rightarrow> SaveReject e
      | Inr _ \<Rightarrow>
          (case loadOwnAttempt quizzes rq (st_attempts st) of
             Inl e \<Rightarrow> SaveReject e
           | Inr (a, q) \<Rightarrow>
               if \<not> in_progress a
               then SaveReject (HttpException ConflictException ''errors.quiz.attemptAlreadySubmitted'')
               else if isPastGrace (at_deadlineAt a) (rq_now rq) then SaveExpire a q
               else if revision \<le> at_answersRevision a then SaveStale a
               else (case validateAnswers (attemptQuestions q a) answers of
                       Some e \<Rightarrow> SaveReject (HttpException BadRequestException (answerProblem e))
                     | None \<Rightarrow> SaveWrite answers)))"

definition writeSave :: "request \<Rightarrow> attempt_answer list \<Rightarrow> int \<Rightarrow> quiz_state \<Rightarrow> quiz_state" where
  "writeSave rq answers revision st =
     st\<lparr>st_attempts := updateAttempt (rq_attempt rq)
          (\<lambda>a. a\<lparr>at_answers := answers, at_answersRevision := revision,
                 at_lastSavedAt := Some (rq_now rq)\<rparr>) (st_attempts st)\<rparr>"

definition saveAnswers ::
  "text_tables \<Rightarrow> learner_env \<Rightarrow> quiz list \<Rightarrow> request \<Rightarrow> attempt_answer list \<Rightarrow> int \<Rightarrow> quiz_state \<Rightarrow>
     save_response outcome \<times> quiz_state" where
  "saveAnswers u env quizzes rq answers revision st =
     (case saveDecision env quizzes rq answers revision st of
        SaveReject e \<Rightarrow> (Inl e, st)
      | SaveExpire a q \<Rightarrow>
          (expiredAttempt,
           snd (finalizeInTransaction u a q reason_timeout (rq_now rq) True None None st))
      | SaveStale a \<Rightarrow>
          (Inr \<lparr>sr_revision = at_answersRevision a, sr_applied = False,
                sr_savedAt = at_lastSavedAt a, sr_answers = Some (at_answers a)\<rparr>, st)
      | SaveWrite ans \<Rightarrow>
          (Inr \<lparr>sr_revision = revision, sr_applied = True, sr_savedAt = Some (rq_now rq),
                sr_answers = None\<rparr>, writeSave rq ans revision st))"

subsection \<open>Submit\<close>

definition answeredIds :: "attempt_answer list \<Rightarrow> uid list" where
  "answeredIds answers =
     map aa_questionId
       (filter (\<lambda>a. (case aa_selectedOptionIds a of Some ids \<Rightarrow> ids \<noteq> [] | None \<Rightarrow> False)
                  \<or> trim (case aa_text a of Some t \<Rightarrow> t | None \<Rightarrow> []) \<noteq> []) answers)"

definition submittedAnswers ::
  "quiz \<Rightarrow> quiz_attempt \<Rightarrow> attempt_answer list option \<Rightarrow> int option \<Rightarrow> attempt_answer list outcome" where
  "submittedAnswers q a given revision =
     (case given of
        None \<Rightarrow> Inr (at_answers a)
      | Some l \<Rightarrow>
          if (case revision of Some r \<Rightarrow> r < at_answersRevision a | None \<Rightarrow> False)
          then Inr (at_answers a)
          else (case validateAnswers (attemptQuestions q a) l of
                  Some e \<Rightarrow> throw BadRequestException (answerProblem e)
                | None \<Rightarrow> Inr l))"

definition submit ::
  "text_tables \<Rightarrow> learner_env \<Rightarrow> quiz list \<Rightarrow> request \<Rightarrow> attempt_answer list option \<Rightarrow> int option \<Rightarrow>
     quiz_state \<Rightarrow> attempt_response outcome \<times> quiz_state" where
  "submit u env quizzes rq given revision st =
     (let now = rq_now rq; user = rq_user rq;
          extra = extraAttempts (le_override env);
          answer = (\<lambda>a q t. toQuizAttemptResponse a (canRetryFor (le_override env) user q t)
                              (d_score (disclosureFor t q a extra now)))
      in case le_enrolled env of
           Inl e \<Rightarrow> (Inl e, st)
         | Inr _ \<Rightarrow>
             (case loadOwnAttempt quizzes rq (st_attempts st) of
                Inl e \<Rightarrow> (Inl e, st)
              | Inr (a, q) \<Rightarrow>
                  if \<not> in_progress a then
                    (if at_status a = att_invalidated \<or> at_status a = att_not_started
                     then (throw BadRequestException ''errors.quiz.attemptAlreadySubmitted'', st)
                     else (Inr (answer a q (st_attempts st)), st))
                  else if isPastGrace (at_deadlineAt a) now then
                    (expiredAttempt, snd (finalizeInTransaction u a q reason_timeout now True None None st))
                  else
                    (case submittedAnswers q a given revision of
                       Inl e \<Rightarrow> (Inl e, st)
                     | Inr answers \<Rightarrow>
                         if \<not> ss_engineV2 (snapshotOf a q)
                            \<and> list_ex (\<lambda>qu. eq_id qu \<notin> set (answeredIds answers)) (attemptQuestions q a)
                         then (throw BadRequestException ''errors.quiz.incompleteAnswers'', st)
                         else
                           (let timedOut = (case at_deadlineAt a of None \<Rightarrow> False | Some d \<Rightarrow> now \<ge> d);
                                (fresh, st') = finalizeInTransaction u a q
                                   (if timedOut then reason_timeout else reason_submit) now True
                                   (Some answers) revision st
                            in (Inr (answer fresh q (st_attempts st')), st')))))"

subsection \<open>Integrity events\<close>

record incoming_event =
  ie_type :: quiz_event_type
  ie_clientAt :: "instant option"
  ie_payload :: "(string \<rightharpoonup> string) option"

record events_response =
  er_recorded :: nat
  er_violationCount :: int
  er_maxViolations :: int
  er_action :: integrity_action
  er_status :: attempt_status

definition integrityOf :: "quiz_attempt \<Rightarrow> quiz \<Rightarrow> instant \<Rightarrow> incoming_event list \<Rightarrow> attempt_event list \<Rightarrow>
     integrity_decision" where
  "integrityOf a q now events stored =
     (case findIntegrityState (at_id a) stored of
        (lastCountedAt, lastHiddenAt) \<Rightarrow>
          decideIntegrity
            \<lparr>ii_mode = ss_integrityMode (snapshotOf a q),
             ii_maxViolations = ss_maxViolations (snapshotOf a q),
             ii_violationCount = at_violationCount a,
             ii_startedAt = (case at_startedAt a of Some t \<Rightarrow> t | None \<Rightarrow> at_createdAt a),
             ii_now = now, ii_lastCountedAt = lastCountedAt, ii_lastHiddenAt = lastHiddenAt,
             ii_events = map ie_type events\<rparr>)"

definition createEvents :: "uid \<Rightarrow> instant \<Rightarrow> (incoming_event \<times> bool) list \<Rightarrow> attempt_event list" where
  "createEvents aid now evs =
     map (\<lambda>(e, counted).
            \<lparr>ev_attemptId = aid, ev_type = ie_type e, ev_counted = counted,
             ev_clientAt = ie_clientAt e, ev_serverAt = now,
             ev_payload = sanitizeEventPayload (ie_type e) (ie_payload e)\<rparr>) evs"

definition storeDecision :: "quiz_attempt \<Rightarrow> integrity_decision \<Rightarrow> quiz_state \<Rightarrow> quiz_state" where
  "storeDecision a d st =
     (if id_violationCount d \<noteq> at_violationCount a \<or> id_flagged d \<noteq> at_integrityFlagged a
      then st\<lparr>st_attempts := updateAttempt (at_id a)
             (\<lambda>r. r\<lparr>at_violationCount := id_violationCount d,
                    at_integrityFlagged := at_integrityFlagged a \<or> id_flagged d\<rparr>)
             (st_attempts st)\<rparr>
      else st)"

definition autoSubmit ::
  "text_tables \<Rightarrow> quiz \<Rightarrow> instant \<Rightarrow> quiz_attempt \<Rightarrow> integrity_decision \<Rightarrow> quiz_state \<Rightarrow>
     attempt_status \<times> quiz_state" where
  "autoSubmit u q now a d st =
     (if id_action d = action_auto_submit
      then (case find_by at_id (at_id a) (st_attempts st) of
              None \<Rightarrow> (at_status a, st)
            | Some fresh \<Rightarrow>
                if in_progress fresh
                then (case finalizeInTransaction u fresh q reason_integrity now True None None st of
                        (r, st') \<Rightarrow> (at_status r, st'))
                else (at_status a, st))
      else (at_status a, st))"

definition recordEvents ::
  "text_tables \<Rightarrow> learner_env \<Rightarrow> quiz list \<Rightarrow> request \<Rightarrow> incoming_event list \<Rightarrow> quiz_state \<Rightarrow>
     events_response outcome \<times> quiz_state" where
  "recordEvents u env quizzes rq events st =
     (case le_enrolled env of
        Inl e \<Rightarrow> (Inl e, st)
      | Inr _ \<Rightarrow>
          (case loadOwnAttempt quizzes rq (st_attempts st) of
             Inl e \<Rightarrow> (Inl e, st)
           | Inr (a, q) \<Rightarrow>
               if \<not> in_progress a then
                 (Inr \<lparr>er_recorded = 0, er_violationCount = at_violationCount a,
                       er_maxViolations = ss_maxViolations (snapshotOf a q),
                       er_action = action_none, er_status = at_status a\<rparr>, st)
               else
                 (let now = rq_now rq;
                      d = integrityOf a q now events (st_events st);
                      st1 = st\<lparr>st_events := st_events st @ createEvents (at_id a) now (zip events (id_counted d))\<rparr>;
                      (newStatus, st2) = autoSubmit u q now a d (storeDecision a d st1)
                  in (Inr \<lparr>er_recorded = length events, er_violationCount = id_violationCount d,
                           er_maxViolations = ss_maxViolations (snapshotOf a q),
                           er_action = id_action d, er_status = newStatus\<rparr>, st2))))"

subsection \<open>Reading a session\<close>

text \<open>
  A question as a sitting learner gets it: the identifier, type, points and the identifiers
  of the options in the order of the paper. The texts are copied along and are not modelled.
\<close>

record session_question =
  sq_id :: uid
  sq_type :: question_type
  sq_points :: rat
  sq_options :: "uid list"

definition toSessionQuestion :: "engine_question \<Rightarrow> uid list option \<Rightarrow> session_question" where
  "toSessionQuestion q optionOrder =
     \<lparr>sq_id = eq_id q, sq_type = eq_type q, sq_points = eq_points q,
      sq_options = map eo_id (List.map_filter (map_of_last eo_id (eq_options q))
        (case optionOrder of Some l \<Rightarrow> l | None \<Rightarrow> map eo_id (eq_options q)))\<rparr>"

record session_response =
  se_status :: attempt_status
  se_attemptNumber :: int
  se_startedAt :: instant
  se_deadlineAt :: "instant option"
  se_remainingSeconds :: "int option"
  se_revision :: int
  se_lastSavedAt :: "instant option"
  se_violationCount :: int
  se_settings :: "integrity_mode \<times> int \<times> bool \<times> int option \<times> rat \<times> bool"
  se_questions :: "session_question list"
  se_answers :: "attempt_answer list"
  se_attemptsUsed :: int
  se_attemptsAllowed :: "int option"

definition settingsToResponse ::
  "settings_snapshot \<Rightarrow> integrity_mode \<times> int \<times> bool \<times> int option \<times> rat \<times> bool" where
  "settingsToResponse s = (ss_integrityMode s, ss_maxViolations s, ss_requireFullscreen s,
     ss_timeLimitSeconds s, ss_timeMultiplier s, ss_engineV2 s)"

definition attemptsAllowed :: "quiz \<Rightarrow> student_override option \<Rightarrow> int option" where
  "attemptsAllowed q ov =
     (case qz_maxAttempts q of None \<Rightarrow> None | Some m \<Rightarrow> Some (m + extraAttempts ov))"

definition getSession ::
  "text_tables \<Rightarrow> learner_env \<Rightarrow> quiz list \<Rightarrow> request \<Rightarrow> quiz_state \<Rightarrow>
     session_response outcome \<times> quiz_state" where
  "getSession u env quizzes rq st =
     (case le_enrolled env of
        Inl e \<Rightarrow> (Inl e, st)
      | Inr _ \<Rightarrow>
          (case loadOwnAttempt quizzes rq (st_attempts st) of
             Inl e \<Rightarrow> (Inl e, st)
           | Inr (a, q) \<Rightarrow>
               if in_progress a \<and> isPastGrace (at_deadlineAt a) (rq_now rq)
               then (expiredAttempt,
                     snd (finalizeInTransaction u a q reason_timeout (rq_now rq) True None None st))
               else
                 (Inr \<lparr>se_status = at_status a, se_attemptNumber = at_attemptNumber a,
                       se_startedAt = (case at_startedAt a of Some t \<Rightarrow> t | None \<Rightarrow> at_createdAt a),
                       se_deadlineAt = at_deadlineAt a,
                       se_remainingSeconds = remainingSeconds (at_deadlineAt a) (rq_now rq),
                       se_revision = at_answersRevision a, se_lastSavedAt = at_lastSavedAt a,
                       se_violationCount = at_violationCount a,
                       se_settings = settingsToResponse (snapshotOf a q),
                       se_questions = map (\<lambda>qu. toSessionQuestion qu
                          (map_of (ss_optionOrder (snapshotOf a q)) (eq_id qu))) (attemptQuestions q a),
                       se_answers = at_answers a,
                       se_attemptsUsed = countForStudent (rq_user rq) (rq_quiz rq) None (st_attempts st),
                       se_attemptsAllowed = attemptsAllowed q (le_override env)\<rparr>, st)))"

subsection \<open>Reading the results\<close>

record result_question =
  rs_questionId :: uid
  rs_answered :: bool
  rs_yourAnswer :: "attempt_answer option"
  rs_needsManualGrading :: bool
  rs_graded :: "(bool option \<times> rat) option"
  rs_correctOptionIds :: "uid list option"
  rs_acceptedAnswers :: "string list option"

definition toResultQuestion ::
  "engine_question \<Rightarrow> attempt_answer option \<Rightarrow> question_score option \<Rightarrow> disclosure \<Rightarrow> result_question" where
  "toResultQuestion q answer score d =
     \<lparr>rs_questionId = eq_id q,
      rs_answered = (case score of Some s \<Rightarrow> qs_answered s | None \<Rightarrow> answer \<noteq> None),
      rs_yourAnswer = answer,
      rs_needsManualGrading = (case score of Some s \<Rightarrow> qs_needsManualGrading s | None \<Rightarrow> False),
      rs_graded = (if d_score d
                   then Some (case score of Some s \<Rightarrow> (qs_correct s, qs_pointsAwarded s) | None \<Rightarrow> (None, 0))
                   else None),
      rs_correctOptionIds = (if d_answers d then Some (map eo_id (filter eo_isCorrect (eq_options q))) else None),
      rs_acceptedAnswers = (if d_answers d then eq_acceptedAnswers q else None)\<rparr>"

record results_response =
  rr_status :: attempt_status
  rr_submittedAt :: "instant option"
  rr_disclosure :: disclosure
  rr_score :: "(rat option \<times> bool option \<times> rat option \<times> rat option) option"
  rr_effective :: "(rat option \<times> bool) option"
  rr_questions :: "result_question list"
  rr_canRetry :: bool
  rr_attemptsUsed :: int
  rr_attemptsAllowed :: "int option"

definition getResults ::
  "text_tables \<Rightarrow> learner_env \<Rightarrow> quiz list \<Rightarrow> request \<Rightarrow> quiz_state \<Rightarrow>
     results_response outcome \<times> quiz_state" where
  "getResults u env quizzes rq st =
     (case le_enrolled env of
        Inl e \<Rightarrow> (Inl e, st)
      | Inr _ \<Rightarrow>
          (case loadOwnAttempt quizzes rq (st_attempts st) of
             Inl e \<Rightarrow> (Inl e, st)
           | Inr (a, q) \<Rightarrow>
               (let now = rq_now rq;
                    st' = (if in_progress a \<and> isPastGrace (at_deadlineAt a) now
                           then snd (finalizeInTransaction u a q reason_timeout now True None None st) else st);
                    cur = (case find_by at_id (rq_attempt rq) (st_attempts st') of Some r \<Rightarrow> r | None \<Rightarrow> a);
                    extra = extraAttempts (le_override env);
                    d = disclosureFor (st_attempts st') q cur extra now;
                    finished = (at_status cur \<noteq> att_in_progress \<and> at_status cur \<noteq> att_not_started);
                    questions = attemptQuestions q cur;
                    perQuestion = (if finished
                                   then as_perQuestion (scoreAttempt u questions (at_answers cur) (at_manualGrades cur))
                                   else []);
                    result = st_results st' (rq_quiz rq, rq_user rq)
                in (Inr \<lparr>rr_status = at_status cur, rr_submittedAt = at_submittedAt cur, rr_disclosure = d,
                         rr_score = (if d_score d
                           then Some (at_score cur, at_passed cur, at_pointsEarned cur, at_pointsTotal cur) else None),
                         rr_effective = (if d_score d
                           then Some (case result of None \<Rightarrow> (None, False)
                                      | Some r \<Rightarrow> (ar_effectiveScore r, ar_passed r)) else None),
                         rr_questions = map (\<lambda>qu. toResultQuestion qu
                            (map_of_last aa_questionId (at_answers cur) (eq_id qu))
                            (map_of_last qs_questionId perQuestion (eq_id qu)) d) questions,
                         rr_canRetry = (canRetryFor (le_override env) (rq_user rq) q (st_attempts st')
                                        \<and> at_status cur \<noteq> att_in_progress),
                         rr_attemptsUsed = countForStudent (rq_user rq) (rq_quiz rq) None (st_attempts st'),
                         rr_attemptsAllowed = attemptsAllowed q (le_override env)\<rparr>, st'))))"

subsection \<open>The deadline sweep\<close>

definition finalizeOverdueAttempt ::
  "text_tables \<Rightarrow> quiz list \<Rightarrow> (uid \<Rightarrow> uid \<Rightarrow> bool) \<Rightarrow> instant \<Rightarrow> uid \<Rightarrow> uid \<Rightarrow> quiz_state \<Rightarrow>
     bool \<times> quiz_state" where
  "finalizeOverdueAttempt u quizzes enrolledIn now aid student st =
     (case find_by at_id aid (st_attempts st) of
        None \<Rightarrow> (False, st)
      | Some a \<Rightarrow>
          if at_studentId a \<noteq> student \<or> \<not> in_progress a then (False, st)
          else if \<not> isPastGrace (at_deadlineAt a) now then (False, st)
          else (case findQuiz (at_quizId a) quizzes of
                  None \<Rightarrow> (False, st)
                | Some q \<Rightarrow>
                    (True, snd (finalizeInTransaction u a q reason_timeout now
                                  (enrolledIn student (qz_courseId q)) None None st))))"

text \<open>
  \<open>find_due_quiz_attempts\<close>, the SQL function: open attempts whose deadline is 30 seconds past, the
  oldest deadline first, at most \<open>limit\<close> of them and never more than 500.
\<close>

definition findDueAttempts :: "int \<Rightarrow> instant \<Rightarrow> quiz_attempt list \<Rightarrow> (uid \<times> uid) list" where
  "findDueAttempts limit dbNow t =
     map (\<lambda>a. (at_id a, at_studentId a))
       (take (nat (min (max limit 1) 500))
         (sort_key (\<lambda>a. the (at_deadlineAt a))
           (filter (\<lambda>a. in_progress a \<and> (case at_deadlineAt a of None \<Rightarrow> False | Some d \<Rightarrow> d + 30000 < dbNow)) t)))"

fun finalizeLoop ::
  "text_tables \<Rightarrow> quiz list \<Rightarrow> (uid \<Rightarrow> uid \<Rightarrow> bool) \<Rightarrow> (uid \<Rightarrow> instant) \<Rightarrow> (uid \<times> uid) list \<Rightarrow> nat \<Rightarrow>
     quiz_state \<Rightarrow> nat \<times> quiz_state" where
  "finalizeLoop u quizzes enrolledIn clock [] n st = (n, st)"
| "finalizeLoop u quizzes enrolledIn clock ((aid, student) # due) n st =
     (case finalizeOverdueAttempt u quizzes enrolledIn (clock aid) aid student st of
        (done, st') \<Rightarrow> finalizeLoop u quizzes enrolledIn clock due (if done then n + 1 else n) st')"

definition finalizeOverdue ::
  "text_tables \<Rightarrow> quiz list \<Rightarrow> (uid \<Rightarrow> uid \<Rightarrow> bool) \<Rightarrow> (uid \<Rightarrow> instant) \<Rightarrow> instant \<Rightarrow> int \<Rightarrow> quiz_state \<Rightarrow>
     nat \<times> quiz_state" where
  "finalizeOverdue u quizzes enrolledIn clock dbNow limit st =
     finalizeLoop u quizzes enrolledIn clock (findDueAttempts limit dbNow (st_attempts st)) 0 st"

end
