(* ===== verification/Quiz_Lifecycle.thy ===== *)
theory Quiz_Lifecycle
  imports Quiz_Handlers
begin

text \<open>
  What the attempt handlers guarantee. The abstract machine \<open>attempt_move\<close> has three moves
  (open a numbered attempt, edit an open one, finish an open one); every handler refines it, so
  an invariant of the moves holds after any sequence of requests.
\<close>

subsection \<open>Finalisation is a guarded write\<close>

lemma finalizedRow_frame [simp, frame_simps]:
  "at_id (finalizedRow sc q why now ans rv read a) = at_id a"
  "at_studentId (finalizedRow sc q why now ans rv read a) = at_studentId a"
  "at_quizId (finalizedRow sc q why now ans rv read a) = at_quizId a"
  "at_attemptNumber (finalizedRow sc q why now ans rv read a) = at_attemptNumber a"
  "at_submittedAt (finalizedRow sc q why now ans rv read a) = Some now"
  "at_score (finalizedRow sc q why now ans rv read a) = as_score sc"
  "at_answers (finalizedRow sc q why now ans rv read a) = ans"
  by (simp_all add: finalizedRow_def Let_def)

lemma finalizedRow_closed [simp]: "\<not> in_progress (finalizedRow sc q why now ans rv read a)"
  by (simp add: finalizedRow_def in_progress_def Let_def)

lemma finalizedRow_status:
  "at_status (finalizedRow sc q why now ans rv read a) \<in> set [att_submitted, att_passed, att_failed, att_expired]"
  by (simp add: finalizedRow_def Let_def)

interpretation finalized: guarded_write at_id in_progress "finalizedRow sc q why now ans rv read"
  for sc q why now ans rv read
  by unfold_locales simp_all

lemma updateIfInProgress_guarded:
  assumes "distinct (map at_id t)"
  shows "fst (updateIfInProgress aid f t) = fst (guarded at_id in_progress f aid t)"
    and "snd (updateIfInProgress aid f t) = 0 \<longleftrightarrow> \<not> snd (guarded at_id in_progress f aid t)"
  using filter_distinct_key [OF assms, of aid in_progress]
  by (auto simp: updateIfInProgress_def updateMany_def guarded_alt le_Suc_eq)

definition finishWith ::
  "text_tables \<Rightarrow> quiz_attempt \<Rightarrow> quiz \<Rightarrow> finalize_reason \<Rightarrow> instant \<Rightarrow> attempt_answer list option \<Rightarrow>
     int option \<Rightarrow> quiz_attempt \<Rightarrow> quiz_attempt" where
  "finishWith u read q why now given revision =
     finalizedRow (scoreAttempt u (attemptQuestions q read)
         (case given of Some l \<Rightarrow> l | None \<Rightarrow> at_answers read) (at_manualGrades read))
       q why now (case given of Some l \<Rightarrow> l | None \<Rightarrow> at_answers read) revision read"

lemma finishWith_frame [simp, frame_simps]:
  "at_id (finishWith u read q why now g rv a) = at_id a"
  "at_studentId (finishWith u read q why now g rv a) = at_studentId a"
  "at_quizId (finishWith u read q why now g rv a) = at_quizId a"
  "at_attemptNumber (finishWith u read q why now g rv a) = at_attemptNumber a"
  "at_submittedAt (finishWith u read q why now g rv a) = Some now"
  "\<not> in_progress (finishWith u read q why now g rv a)"
  by (simp_all add: finishWith_def)

lemma finalize_open:
  assumes "distinct (map at_id (st_attempts st))" "find_by at_id (at_id read) (st_attempts st) = Some cur"
    and "in_progress cur"
  shows "finalizeInTransaction u read q why now enr given rv st =
     (finishWith u read q why now given rv cur,
      recomputeResultAndCompletion q (at_studentId cur) enr
        (st\<lparr>st_attempts := updateAttempt (at_id read) (finishWith u read q why now given rv) (st_attempts st),
            st_notified := st_notified st @ (if why \<noteq> reason_submit then [at_id cur] else [])\<rparr>))"
proof -
  let ?f = "finishWith u read q why now given rv"
  note cur = find_by_Some [OF assms(2)]
  have w: "guarded at_id in_progress ?f (at_id read) (st_attempts st) =
      (updateAttempt (at_id read) ?f (st_attempts st), True)"
    using finalized.write_row [OF assms(1) conjunct1 [OF cur] assms(3)] cur
    by (simp add: finishWith_def updateAttempt_def)
  have l: "find_by at_id (at_id read) (updateAttempt (at_id read) ?f (st_attempts st)) = Some (?f cur)"
    unfolding updateAttempt_def by (subst find_by_map) (simp_all add: assms(2) cur)
  obtain t n where tn: "updateIfInProgress (at_id read) ?f (st_attempts st) = (t, n)" by force
  from updateIfInProgress_guarded [OF assms(1), of "at_id read" ?f] w tn
  have "t = updateAttempt (at_id read) ?f (st_attempts st)" "n \<noteq> 0" by simp_all
  with tn l cur show ?thesis
    by (simp add: finalizeInTransaction_def finishWith_def Let_def)
qed

lemma finalize_closed:
  assumes "distinct (map at_id (st_attempts st))" "find_by at_id (at_id read) (st_attempts st) = Some cur"
    and "\<not> in_progress cur"
  shows "finalizeInTransaction u read q why now enr given rv st = (cur, st)"
proof -
  let ?f = "finishWith u read q why now given rv"
  have "\<not> snd (guarded at_id in_progress ?f (at_id read) (st_attempts st))"
    using assms finalized.won_iff [OF assms(1)] by (simp add: finishWith_def)
  moreover from this have "fst (guarded at_id in_progress ?f (at_id read) (st_attempts st)) = st_attempts st"
    unfolding finishWith_def by (rule finalized.no_winner_no_change [OF assms(1)])
  moreover obtain t n where tn: "updateIfInProgress (at_id read) ?f (st_attempts st) = (t, n)" by force
  ultimately have "t = st_attempts st" "n = 0"
    using updateIfInProgress_guarded [OF assms(1), of "at_id read" ?f] by simp_all
  with tn assms(2) show ?thesis
    by (simp add: finalizeInTransaction_def finishWith_def Let_def)
qed

lemma recompute_frame [simp, frame_simps]:
  "st_attempts (recomputeResultAndCompletion q s e st) = st_attempts st"
  "st_events (recomputeResultAndCompletion q s e st) = st_events st"
  "st_notified (recomputeResultAndCompletion q s e st) = st_notified st"
  by (simp_all add: recomputeResultAndCompletion_def Let_def)

lemma updateAttempt_ids [simp]:
  assumes "\<And>a. at_id (f a) = at_id a"
  shows "map at_id (updateAttempt aid f t) = map at_id t"
  using assms by (simp add: updateAttempt_def)

lemma finalize_ids:
  assumes "distinct (map at_id (st_attempts st))"
  shows "map at_id (st_attempts (snd (finalizeInTransaction u read q why now enr g rv st))) =
           map at_id (st_attempts st)"
proof -
  have "map at_id (fst (updateIfInProgress (at_id read)
            (finalizedRow sc q why now ans rv read) (st_attempts st))) = map at_id (st_attempts st)" for sc ans
    by (simp add: updateIfInProgress_guarded [OF assms] finalized.keys_kept)
  then show ?thesis
    by (simp add: finalizeInTransaction_def Let_def split: prod.split) (metis fst_conv)
qed

text \<open>
  C8. An attempt is finalised once. Whatever finalises it first (the learner's submit, the
  deadline job, the sweep, a read, the integrity rule), any later finaliser, working from a
  row it may have read before, with other answers, at another time and for another reason,
  changes nothing: no regrading, no second notification, no new result. Both callers
  get the same row, and it is no longer in progress.
\<close>

theorem attempt_finalized_once:
  assumes "distinct (map at_id (st_attempts st))"
    and "find_by at_id (at_id read) (st_attempts st) \<noteq> None"
    and "at_id read2 = at_id read"
  shows "finalizeInTransaction u read2 q2 why2 now2 enr2 given2 rv2
           (snd (finalizeInTransaction u read q why now enr given rv st))
         = finalizeInTransaction u read q why now enr given rv st
       \<and> \<not> in_progress (fst (finalizeInTransaction u read q why now enr given rv st))"
proof -
  let ?r = "finalizeInTransaction u read q why now enr given rv st"
  from assms(2) obtain cur where cur: "find_by at_id (at_id read) (st_attempts st) = Some cur" by blast
  have stored: "find_by at_id (at_id read2) (st_attempts (snd ?r)) = Some (fst ?r) \<and> \<not> in_progress (fst ?r)"
  proof (cases "in_progress cur")
    case True
    show ?thesis
      using cur find_by_Some [OF cur] assms(3)
      by (simp add: finalize_open [OF assms(1) cur True] updateAttempt_def find_by_map)
  next
    case False
    then show ?thesis using cur assms(3) by (simp add: finalize_closed [OF assms(1) cur False])
  qed
  moreover have "distinct (map at_id (st_attempts (snd ?r)))"
    using finalize_ids [OF assms(1)] assms(1) by metis
  ultimately show ?thesis
    using finalize_closed [of "snd ?r" read2 "fst ?r"] by simp
qed

end
