(* ===== verification/Quiz_Machine.thy ===== *)
theory Quiz_Machine
  imports Quiz_Lifecycle
begin

text \<open>
  The abstract machine of quiz attempts and its invariant: attempts of a learner on a quiz
  are numbered 1, 2, 3, ... in the order they were opened, at most one of them is open, a
  finished one is graded, and the stored result is the aggregate of the finished ones.
\<close>

subsection \<open>The moves\<close>

definition edits :: "(quiz_attempt \<Rightarrow> quiz_attempt) \<Rightarrow> bool" where
  "edits f \<longleftrightarrow> (\<forall>a. at_id (f a) = at_id a \<and> at_studentId (f a) = at_studentId a
     \<and> at_quizId (f a) = at_quizId a \<and> at_attemptNumber (f a) = at_attemptNumber a
     \<and> at_status (f a) = at_status a \<and> at_score (f a) = at_score a
     \<and> at_passed (f a) = at_passed a \<and> at_submittedAt (f a) = at_submittedAt a)"

inductive attempt_move :: "text_tables \<Rightarrow> quiz list \<Rightarrow> quiz_state \<Rightarrow> quiz_state \<Rightarrow> bool"
  for u quizzes where
  move_open:
    "\<lbrakk>at_id a \<notin> at_id ` set (st_attempts st); in_progress a;
      at_attemptNumber a = countAllForStudent (at_studentId a) (at_quizId a) (st_attempts st) + 1;
      findOpenAttempt (at_studentId a) (at_quizId a) (st_attempts st) = None;
      at_score a = None; at_submittedAt a = None\<rbrakk>
     \<Longrightarrow> attempt_move u quizzes st (st\<lparr>st_attempts := st_attempts st @ [a]\<rparr>)"
| move_edit:
    "\<lbrakk>find_by at_id aid (st_attempts st) = Some a; in_progress a; edits f\<rbrakk>
     \<Longrightarrow> attempt_move u quizzes st
          (st\<lparr>st_attempts := updateAttempt aid f (st_attempts st), st_events := evs\<rparr>)"
| move_finish:
    "\<lbrakk>find_by at_id (at_id a) (st_attempts st) = Some a; in_progress a;
      findQuiz (at_quizId a) quizzes = Some q\<rbrakk>
     \<Longrightarrow> attempt_move u quizzes st (snd (finalizeInTransaction u a q why now enr given rv st))"

inductive_cases attempt_moveE: "attempt_move u quizzes st st'"

subsection \<open>The invariant\<close>

definition mine :: "uid \<Rightarrow> uid \<Rightarrow> quiz_attempt \<Rightarrow> bool" where
  "mine s k a \<longleftrightarrow> at_studentId a = s \<and> at_quizId a = k"

definition row_ok :: "quiz_attempt \<Rightarrow> bool" where
  "row_ok a =
     (if in_progress a then at_submittedAt a = None \<and> at_score a = None
      else at_submittedAt a \<noteq> None
         \<and> (case at_score a of None \<Rightarrow> at_status a = att_submitted
             | Some v \<Rightarrow> 0 \<le> v \<and> v \<le> 100
                 \<and> at_status a = (if at_passed a = Some True then att_passed else att_failed)))"

definition numbered :: "uid \<Rightarrow> uid \<Rightarrow> quiz_attempt list \<Rightarrow> bool" where
  "numbered s k t \<longleftrightarrow>
     map at_attemptNumber (filter (mine s k) t) = map int [1..<Suc (length (filter (mine s k) t))]"

definition oneOpen :: "uid \<Rightarrow> uid \<Rightarrow> quiz_attempt list \<Rightarrow> bool" where
  "oneOpen s k t \<longleftrightarrow> length (filter (\<lambda>a. mine s k a \<and> in_progress a) t) \<le> 1"

definition resultFresh :: "quiz \<Rightarrow> uid \<Rightarrow> quiz_state \<Rightarrow> bool" where
  "resultFresh q s st \<longleftrightarrow>
     findFinalizedForStudent s (qz_id q) (st_attempts st) = []
     \<or> st_results st (qz_id q, s) = Some (aggregateResult (qz_gradingPolicy q)
          (map summaryOf (findFinalizedForStudent s (qz_id q) (st_attempts st))) (qz_passingScore q))"

definition attempts_ok :: "quiz list \<Rightarrow> quiz_state \<Rightarrow> bool" where
  "attempts_ok quizzes st \<longleftrightarrow>
     distinct (map at_id (st_attempts st))
     \<and> (\<forall>s k. numbered s k (st_attempts st) \<and> oneOpen s k (st_attempts st))
     \<and> (\<forall>a \<in> set (st_attempts st). row_ok a)
     \<and> (\<forall>q s. findQuiz (qz_id q) quizzes = Some q \<longrightarrow> resultFresh q s st)"

lemma attempts_okD:
  assumes "attempts_ok quizzes st"
  shows "distinct (map at_id (st_attempts st))" "numbered s k (st_attempts st)"
    "oneOpen s k (st_attempts st)" "a \<in> set (st_attempts st) \<Longrightarrow> row_ok a"
    "findQuiz (qz_id q) quizzes = Some q \<Longrightarrow> resultFresh q s st"
  using assms by (simp_all add: attempts_ok_def)

subsection \<open>How rows change\<close>

lemma findFinalized_alt:
  "findFinalizedForStudent s k t =
     sort_key at_attemptNumber (filter (\<lambda>a. mine s k a
        \<and> at_status a \<in> set [att_submitted, att_passed, att_failed, att_expired]) t)"
  by (simp add: findFinalizedForStudent_def mine_def conj_assoc)

lemma countAll_mine: "countAllForStudent s k t = int (length (filter (mine s k) t))"
  by (simp add: countAllForStudent_def count_rows_def mine_def [abs_def])

lemma filter_update_irrelevant:
  assumes "\<And>x. x \<in> set t \<Longrightarrow> at_id x = aid \<Longrightarrow> \<not> P x \<and> \<not> P (f x)"
  shows "filter P (updateAttempt aid f t) = filter P t"
  using assms by (induction t) (auto simp: updateAttempt_def)

lemma filter_update_frame:
  assumes "\<And>x. P (f x) = P x" "\<And>x. g (f x) = g x"
  shows "map g (filter P (updateAttempt aid f t)) = map g (filter P t)"
  using assms by (induction t) (auto simp: updateAttempt_def)

lemma filter_update_shrinks:
  assumes "\<And>x. P (f x) \<Longrightarrow> P x"
  shows "length (filter P (updateAttempt aid f t)) \<le> length (filter P t)"
  using assms by (induction t) (auto simp: updateAttempt_def le_SucI)

lemma numbered_update:
  assumes "\<And>x. mine s k (f x) = mine s k x" "\<And>x. at_attemptNumber (f x) = at_attemptNumber x"
  shows "numbered s k (updateAttempt aid f t) = numbered s k t"
proof -
  note m = filter_update_frame [where P = "mine s k" and f = f and aid = aid and t = t, OF assms(1)]
  have "map at_attemptNumber (filter (mine s k) (updateAttempt aid f t)) = map at_attemptNumber (filter (mine s k) t)"
    by (rule m) (rule assms(2))
  moreover from this have "length (filter (mine s k) (updateAttempt aid f t)) = length (filter (mine s k) t)"
    by (rule map_eq_imp_length_eq)
  ultimately show ?thesis by (simp add: numbered_def)
qed

lemma oneOpen_update:
  assumes "oneOpen s k t" "\<And>x. mine s k (f x) = mine s k x" "\<And>x. in_progress (f x) \<Longrightarrow> in_progress x"
  shows "oneOpen s k (updateAttempt aid f t)"
  using filter_update_shrinks [of "\<lambda>a. mine s k a \<and> in_progress a" f aid t] assms
  by (auto simp: oneOpen_def)

lemma score_bounds:
  "case as_score (scoreAttempt u qs ans g) of None \<Rightarrow> True | Some v \<Rightarrow> 0 \<le> v \<and> v \<le> 100"
proof -
  let ?per = "map (scoreQuestion u (map_of_last aa_questionId ans) g) qs"
  let ?e = "sum_list (map qs_pointsAwarded ?per)" and ?t = "sum_list (map qs_pointsPossible ?per)"
  have "\<forall>s \<in> set ?per. 0 \<le> qs_pointsAwarded s \<and> qs_pointsAwarded s \<le> qs_pointsPossible s"
    by (auto simp: scoreQuestion_bounds(1,2))
  from scores_bounds [OF this] have et: "0 \<le> ?e" "?e \<le> ?t" by simp_all
  then have "0 < ?t \<Longrightarrow> 0 \<le> (?e / ?t) * 100 \<and> (?e / ?t) * 100 \<le> 100" by (simp add: field_simps)
  then show ?thesis
    using round2_nonneg round2_le_100 by (simp add: scoreAttempt_def Let_def)
qed

lemma row_ok_finish: "row_ok (finishWith u read q why now g rv a)"
proof -
  define sc where "sc = scoreAttempt u (attemptQuestions q read)
      (case g of Some l \<Rightarrow> l | None \<Rightarrow> at_answers read) (at_manualGrades read)"
  have "as_pendingManual sc \<longleftrightarrow> as_score sc = None"
    by (simp add: sc_def scoreAttempt_def Let_def)
  moreover have "case as_score sc of None \<Rightarrow> True | Some v \<Rightarrow> 0 \<le> v \<and> v \<le> 100"
    unfolding sc_def by (rule score_bounds)
  ultimately show ?thesis
    by (auto simp: row_ok_def in_progress_def finishWith_def sc_def [symmetric] finalizedRow_def Let_def
        isPassing_def split: option.splits)
qed

lemma row_in_update:
  "b \<in> set (updateAttempt aid f t) \<Longrightarrow> (b \<in> set t \<and> at_id b \<noteq> aid) \<or> (\<exists>a \<in> set t. at_id a = aid \<and> b = f a)"
  by (auto simp: updateAttempt_def split: if_splits)

lemma find_by_unique:
  "distinct (map key t) \<Longrightarrow> find_by key k t = Some a \<Longrightarrow> x \<in> set t \<Longrightarrow> key x = k \<Longrightarrow> x = a"
  using find_by_distinct by fastforce

lemma findOpen_alt:
  "findOpenAttempt s k t =
     (case rev (sort_key at_attemptNumber (filter (\<lambda>a. mine s k a \<and> in_progress a) t)) of
        [] \<Rightarrow> None | a # _ \<Rightarrow> Some a)"
  by (simp add: findOpenAttempt_def mine_def conj_assoc)

lemma findOpen_None: "findOpenAttempt s k t = None \<longleftrightarrow> filter (\<lambda>a. mine s k a \<and> in_progress a) t = []"
proof -
  have "findOpenAttempt s k t = None \<longleftrightarrow>
      sort_key at_attemptNumber (filter (\<lambda>a. mine s k a \<and> in_progress a) t) = []"
    by (simp add: findOpen_alt split: list.split)
  also have "\<dots> \<longleftrightarrow> filter (\<lambda>a. mine s k a \<and> in_progress a) t = []"
    by (metis length_0_conv length_sort)
  finally show ?thesis .
qed

lemma findOpen_Some:
  assumes "findOpenAttempt s k t = Some a"
  shows "a \<in> set t \<and> mine s k a \<and> in_progress a"
proof -
  have "a \<in> set (rev (sort_key at_attemptNumber (filter (\<lambda>a. mine s k a \<and> in_progress a) t)))"
    using assms by (auto simp only: findOpen_alt split: list.splits intro: list.set_intros)
  then show ?thesis by simp
qed

subsection \<open>Every move keeps the invariant\<close>

lemma open_keeps:
  assumes ok: "attempts_ok quizzes st"
    and new: "at_id a \<notin> at_id ` set (st_attempts st)" "in_progress a"
      "at_attemptNumber a = countAllForStudent (at_studentId a) (at_quizId a) (st_attempts st) + 1"
      "findOpenAttempt (at_studentId a) (at_quizId a) (st_attempts st) = None"
      "at_score a = None" "at_submittedAt a = None"
  shows "attempts_ok quizzes (st\<lparr>st_attempts := st_attempts st @ [a]\<rparr>)"
proof -
  let ?t = "st_attempts st"
  have n: "numbered s k (?t @ [a])" for s k
  proof (cases "mine s k a")
    case True
    then show ?thesis
      using attempts_okD(2) [OF ok, of s k] new(3) by (simp add: numbered_def countAll_mine mine_def)
  next
    case False
    then show ?thesis using attempts_okD(2) [OF ok, of s k] by (simp add: numbered_def)
  qed
  have none: "filter (\<lambda>x. mine (at_studentId a) (at_quizId a) x \<and> in_progress x) ?t = []"
    using findOpen_None new(4) by blast
  have o: "oneOpen s k (?t @ [a])" for s k
  proof (cases "mine s k a")
    case True
    then have "s = at_studentId a" "k = at_quizId a" by (simp_all add: mine_def)
    with none show ?thesis by (simp add: oneOpen_def)
  next
    case False
    then show ?thesis using attempts_okD(3) [OF ok, of s k] by (simp add: oneOpen_def)
  qed
  have f: "findFinalizedForStudent s k (?t @ [a]) = findFinalizedForStudent s k ?t" for s k
    using new(2) by (auto simp: findFinalized_alt in_progress_def)
  have r: "resultFresh q s (st\<lparr>st_attempts := ?t @ [a]\<rparr>)" if "findQuiz (qz_id q) quizzes = Some q" for q s
    using attempts_okD(5) [OF ok that, of s] by (simp add: resultFresh_def f)
  show ?thesis
    using n o r new attempts_okD(1,4) [OF ok] by (auto simp: attempts_ok_def row_ok_def)
qed

lemma edit_keeps:
  assumes ok: "attempts_ok quizzes st"
    and a: "find_by at_id aid (st_attempts st) = Some a" "in_progress a" and f: "edits f"
  shows "attempts_ok quizzes (st\<lparr>st_attempts := updateAttempt aid f (st_attempts st), st_events := evs\<rparr>)"
proof -
  let ?t = "st_attempts st"
  have fr: "at_id (f x) = at_id x" "mine s k (f x) = mine s k x" "at_attemptNumber (f x) = at_attemptNumber x"
      "in_progress (f x) = in_progress x" "row_ok (f x) = row_ok x" for s k x
    using f by (simp_all add: edits_def mine_def in_progress_def row_ok_def cong: option.case_cong)
  have "\<not> (mine s k x \<and> at_status x \<in> set [att_submitted, att_passed, att_failed, att_expired])
      \<and> \<not> (mine s k (f x) \<and> at_status (f x) \<in> set [att_submitted, att_passed, att_failed, att_expired])"
    if "x \<in> set ?t" "at_id x = aid" for s k x
    using find_by_unique [OF attempts_okD(1) [OF ok] a(1) that] a(2) fr(4) [of x]
    by (auto simp: in_progress_def)
  then have ff: "findFinalizedForStudent s k (updateAttempt aid f ?t) = findFinalizedForStudent s k ?t" for s k
    unfolding findFinalized_alt by (subst filter_update_irrelevant) blast+
  have "row_ok b" if "b \<in> set (updateAttempt aid f ?t)" for b
    using row_in_update [OF that] attempts_okD(4) [OF ok] fr(5) by auto
  moreover have "oneOpen s k (updateAttempt aid f ?t)" for s k
    by (rule oneOpen_update [OF attempts_okD(3) [OF ok] fr(2)]) (simp add: fr(4))
  ultimately show ?thesis
    using attempts_okD [OF ok] by (simp add: attempts_ok_def fr numbered_update resultFresh_def ff)
qed

lemma finish_keeps:
  assumes ok: "attempts_ok quizzes st"
    and a: "find_by at_id (at_id a) (st_attempts st) = Some a" "in_progress a"
    and q: "findQuiz (at_quizId a) quizzes = Some q"
  shows "attempts_ok quizzes (snd (finalizeInTransaction u a q why now enr g rv st))"
proof -
  let ?t = "st_attempts st" and ?f = "finishWith u a q why now g rv"
  let ?t' = "updateAttempt (at_id a) ?f ?t"
  let ?st' = "snd (finalizeInTransaction u a q why now enr g rv st)"
  note d = attempts_okD(1) [OF ok]
  note fin = finalize_open [OF d a]
  have qa: "qz_id q = at_quizId a" using q by (auto simp: findQuiz_def dest: find_by_Some)
  have t': "st_attempts ?st' = ?t'" by (simp add: fin)
  have m: "mine s k (?f x) = mine s k x" for s k x by (simp add: mine_def)
  have rows: "row_ok b" if "b \<in> set ?t'" for b
    using row_in_update [OF that] attempts_okD(4) [OF ok] row_ok_finish by blast
  have fresh: "resultFresh q' s ?st'" if q': "findQuiz (qz_id q') quizzes = Some q'" for q' s
  proof (cases "qz_id q' = at_quizId a \<and> s = at_studentId a")
    case True
    with q q' have "q' = q" by simp
    with True qa show ?thesis
      by (simp add: resultFresh_def fin recomputeResultAndCompletion_def Let_def)
  next
    case False
    have "\<not> mine s (qz_id q') x" if "x \<in> set ?t" "at_id x = at_id a" for x
      using find_by_unique [OF d a(1) that] False by (auto simp: mine_def)
    then have "findFinalizedForStudent s (qz_id q') ?t' = findFinalizedForStudent s (qz_id q') ?t"
      unfolding findFinalized_alt by (subst filter_update_irrelevant) (auto simp: m)
    moreover have "st_results ?st' (qz_id q', s) = st_results st (qz_id q', s)"
      using False qa by (auto simp: fin recomputeResultAndCompletion_def Let_def)
    ultimately show ?thesis
      using attempts_okD(5) [OF ok q', of s] by (simp add: resultFresh_def t')
  qed
  have "oneOpen s k ?t'" for s k
    by (rule oneOpen_update [OF attempts_okD(3) [OF ok] m]) simp
  then show ?thesis
    using rows fresh d attempts_okD(2) [OF ok]
    by (simp add: attempts_ok_def t' numbered_update m)
qed

lemma attempt_move_keeps: "attempt_move u quizzes st st' \<Longrightarrow> attempts_ok quizzes st \<Longrightarrow> attempts_ok quizzes st'"
  by (induction rule: attempt_move.induct) (auto intro: open_keeps edit_keeps finish_keeps)

lemma attempt_moves_keep:
  "(attempt_move u quizzes)\<^sup>*\<^sup>* st st' \<Longrightarrow> attempts_ok quizzes st \<Longrightarrow> attempts_ok quizzes st'"
  by (induction rule: rtranclp_induct) (auto intro: attempt_move_keeps)

end
