(* ===== verification/Quiz_Refinement.thy ===== *)
theory Quiz_Refinement
  imports Quiz_Machine
begin

text \<open>
  Every handler is a sequence of moves of the abstract machine; the properties of whole request
  histories follow from the machine's invariant.
\<close>

subsection \<open>Each handler refines the machine\<close>

lemma loadOwnAttempt_Inr:
  assumes "loadOwnAttempt quizzes rq t = Inr (a, q)"
  shows "find_by at_id (rq_attempt rq) t = Some a" "find_by at_id (at_id a) t = Some a"
    "at_studentId a = rq_user rq" "at_quizId a = rq_quiz rq" "findQuiz (at_quizId a) quizzes = Some q"
    "qz_courseId q = rq_course rq" "at_id a = rq_attempt rq" "qz_id q = rq_quiz rq"
proof -
  from assms show f: "find_by at_id (rq_attempt rq) t = Some a"
    by (auto simp: loadOwnAttempt_def split: option.splits if_splits)
  then show i: "at_id a = rq_attempt rq" by (auto dest: find_by_Some)
  from f i show "find_by at_id (at_id a) t = Some a" by simp
  from assms show "at_studentId a = rq_user rq" "at_quizId a = rq_quiz rq"
      "findQuiz (at_quizId a) quizzes = Some q" "qz_courseId q = rq_course rq"
    by (auto simp: loadOwnAttempt_def split: option.splits if_splits)
  then show "qz_id q = rq_quiz rq" by (auto simp: findQuiz_def dest: find_by_Some)
qed

lemma finish_moves:
  "\<lbrakk>find_by at_id (at_id a) (st_attempts st) = Some a; in_progress a; findQuiz (at_quizId a) quizzes = Some q\<rbrakk>
   \<Longrightarrow> (attempt_move u quizzes)\<^sup>*\<^sup>* st (snd (finalizeInTransaction u a q why now enr g rv st))"
  by (rule r_into_rtranclp) (rule move_finish)

lemma loaded_finish_moves:
  "\<lbrakk>loadOwnAttempt quizzes rq (st_attempts st) = Inr (a, q); in_progress a\<rbrakk>
   \<Longrightarrow> (attempt_move u quizzes)\<^sup>*\<^sup>* st (snd (finalizeInTransaction u a q why now enr g rv st))"
  by (rule finish_moves [OF loadOwnAttempt_Inr(2) _ loadOwnAttempt_Inr(5)])

lemma newAttempt_fields [simp]:
  "at_id (newAttempt env user q now w n) = se_newId env"
  "at_studentId (newAttempt env user q now w n) = user"
  "at_quizId (newAttempt env user q now w n) = qz_id q"
  "at_attemptNumber (newAttempt env user q now w n) = n + 1"
  "in_progress (newAttempt env user q now w n)"
  "at_score (newAttempt env user q now w n) = None"
  "at_submittedAt (newAttempt env user q now w n) = None"
  by (simp_all add: newAttempt_def Let_def in_progress_def)

lemma startAttempt_moves:
  assumes "distinct (map at_id (st_attempts st))" "se_newId env \<notin> at_id ` set (st_attempts st)"
  shows "(attempt_move u quizzes)\<^sup>*\<^sup>* st (snd (startAttempt u env quizzes rq st))"
proof (cases "snd (startAttempt u env quizzes rq st) = st")
  case False
  obtain q where q: "findQuiz (rq_quiz rq) quizzes = Some q"
    using False by (auto simp: startAttempt_def Let_def split: sum.splits option.splits if_splits)
  have qz: "qz_id q = rq_quiz rq" using q by (auto simp: findQuiz_def dest: find_by_Some)
  show ?thesis
  proof (cases "findOpenAttempt (rq_user rq) (qz_id q) (st_attempts st)")
    case (Some a)
    note a = findOpen_Some [OF Some]
    have "snd (startAttempt u env quizzes rq st) =
        snd (finalizeInTransaction u a q reason_timeout (rq_now rq) True None None st)"
      using False Some q by (auto simp: startAttempt_def Let_def split: sum.splits if_splits)
    moreover have "find_by at_id (at_id a) (st_attempts st) = Some a"
      using a find_by_distinct [OF assms(1)] by blast
    ultimately show ?thesis using finish_moves a q qz by (simp add: mine_def)
  next
    case None
    then obtain w n where
      "snd (startAttempt u env quizzes rq st) =
         st\<lparr>st_attempts := st_attempts st @ [newAttempt env (rq_user rq) q (rq_now rq) w n]\<rparr>"
      "n = countAllForStudent (rq_user rq) (qz_id q) (st_attempts st)"
      using False q by (auto simp: startAttempt_def Let_def split: sum.splits if_splits)
    with None assms(2) move_open [of "newAttempt env (rq_user rq) q (rq_now rq) w n" st u quizzes]
    show ?thesis by simp
  qed
qed simp

lemma edit_moves:
  "\<lbrakk>find_by at_id aid (st_attempts st) = Some a; in_progress a; edits f\<rbrakk>
   \<Longrightarrow> attempt_move u quizzes st (st\<lparr>st_attempts := updateAttempt aid f (st_attempts st)\<rparr>)"
  using move_edit [of aid st a f u quizzes "st_events st"] by simp

lemma edits_save: "edits (\<lambda>a. a\<lparr>at_answers := ans, at_answersRevision := r, at_lastSavedAt := l\<rparr>)"
  and edits_count: "edits (\<lambda>a. a\<lparr>at_violationCount := n, at_integrityFlagged := b\<rparr>)"
  and edits_id: "edits (\<lambda>a. a)"
  by (simp_all add: edits_def)

lemma saveAnswers_moves: "(attempt_move u quizzes)\<^sup>*\<^sup>* st (snd (saveAnswers u env quizzes rq ans rv st))"
proof (cases "saveDecision env quizzes rq ans rv st")
  case (SaveExpire a q)
  then have "loadOwnAttempt quizzes rq (st_attempts st) = Inr (a, q)" "in_progress a"
    by (auto simp: saveDecision_def split: sum.splits if_splits option.splits)
  then show ?thesis
    by (simp add: saveAnswers_def SaveExpire loaded_finish_moves)
next
  case (SaveWrite l)
  then obtain a q where "loadOwnAttempt quizzes rq (st_attempts st) = Inr (a, q)" "in_progress a"
    by (auto simp: saveDecision_def split: sum.splits if_splits option.splits)
  then show ?thesis
    using edit_moves [OF loadOwnAttempt_Inr(1) _ edits_save]
    by (simp add: saveAnswers_def SaveWrite writeSave_def r_into_rtranclp)
qed (simp_all add: saveAnswers_def)

lemma submit_loaded:
  assumes "le_enrolled env = Inr ()" "loadOwnAttempt quizzes rq (st_attempts st) = Inr (a, q)" "in_progress a"
    and "\<not> isPastGrace (at_deadlineAt a) (rq_now rq)" "submittedAnswers q a g rv = Inr ans"
    and "ss_engineV2 (snapshotOf a q) \<or> \<not> list_ex (\<lambda>qu. eq_id qu \<notin> set (answeredIds ans)) (attemptQuestions q a)"
  shows "snd (submit u env quizzes rq g rv st) =
     snd (finalizeInTransaction u a q
       (if (case at_deadlineAt a of None \<Rightarrow> False | Some d \<Rightarrow> rq_now rq \<ge> d) then reason_timeout else reason_submit)
       (rq_now rq) True (Some ans) rv st)"
  using assms by (auto simp: submit_def Let_def split: prod.split)

lemma submit_moves: "(attempt_move u quizzes)\<^sup>*\<^sup>* st (snd (submit u env quizzes rq g rv st))"
proof (cases "snd (submit u env quizzes rq g rv st) = st")
  case False
  then obtain a q where aq: "le_enrolled env = Inr ()" "loadOwnAttempt quizzes rq (st_attempts st) = Inr (a, q)"
    by (cases "le_enrolled env"; cases "loadOwnAttempt quizzes rq (st_attempts st)") (auto simp: submit_def Let_def)
  with False have ip: "in_progress a" by (simp add: submit_def Let_def split: if_splits)
  show ?thesis
  proof (cases "isPastGrace (at_deadlineAt a) (rq_now rq)")
    case True
    with aq ip show ?thesis by (simp add: submit_def Let_def loaded_finish_moves)
  next
    case early: False
    with False aq ip obtain ans where "submittedAnswers q a g rv = Inr ans"
      by (cases "submittedAnswers q a g rv") (simp_all add: submit_def Let_def)
    moreover from this False aq ip early
    have "ss_engineV2 (snapshotOf a q) \<or> \<not> list_ex (\<lambda>qu. eq_id qu \<notin> set (answeredIds ans)) (attemptQuestions q a)"
      by (simp add: submit_def Let_def split: if_splits)
    ultimately show ?thesis
      using aq ip early by (simp add: submit_loaded loaded_finish_moves)
  qed
qed simp

lemma getSession_moves: "(attempt_move u quizzes)\<^sup>*\<^sup>* st (snd (getSession u env quizzes rq st))"
  by (auto simp: getSession_def loaded_finish_moves split: sum.splits)

lemma getResults_moves: "(attempt_move u quizzes)\<^sup>*\<^sup>* st (snd (getResults u env quizzes rq st))"
  by (auto simp: getResults_def Let_def loaded_finish_moves split: sum.splits)

lemma finalizeOverdueAttempt_moves:
  "(attempt_move u quizzes)\<^sup>*\<^sup>* st (snd (finalizeOverdueAttempt u quizzes en now aid s st))"
proof (cases "find_by at_id aid (st_attempts st)")
  case (Some a)
  then have "find_by at_id (at_id a) (st_attempts st) = Some a" by (auto dest: find_by_Some)
  with Some show ?thesis
    by (auto simp: finalizeOverdueAttempt_def finish_moves split: option.splits)
qed (simp add: finalizeOverdueAttempt_def del: find_by_None)

lemma finalizeLoop_moves:
  "(attempt_move u quizzes)\<^sup>*\<^sup>* st (snd (finalizeLoop u quizzes en clock due n st))"
proof (induction due arbitrary: n st)
  case (Cons d due)
  obtain aid s where d: "d = (aid, s)" by force
  obtain b st1 where s1: "finalizeOverdueAttempt u quizzes en (clock aid) aid s st = (b, st1)" by force
  have "(attempt_move u quizzes)\<^sup>*\<^sup>* st st1"
    using finalizeOverdueAttempt_moves [of u quizzes st en "clock aid" aid s] s1 by simp
  from rtranclp_trans [OF this Cons.IH] show ?case by (simp add: d s1)
qed simp

lemma storeDecision_move:
  assumes "find_by at_id (at_id a) (st_attempts st) = Some a" "in_progress a"
  shows "attempt_move u quizzes st (storeDecision a d (st\<lparr>st_events := evs\<rparr>))"
    and "\<exists>b. find_by at_id (at_id a) (st_attempts (storeDecision a d (st\<lparr>st_events := evs\<rparr>))) = Some b
           \<and> at_id b = at_id a \<and> at_quizId b = at_quizId a \<and> in_progress b"
proof -
  define f where "f = (if id_violationCount d \<noteq> at_violationCount a \<or> id_flagged d \<noteq> at_integrityFlagged a
      then (\<lambda>r :: quiz_attempt. r\<lparr>at_violationCount := id_violationCount d,
               at_integrityFlagged := at_integrityFlagged a \<or> id_flagged d\<rparr>)
      else (\<lambda>r. r))"
  have e: "edits f" by (simp add: f_def edits_count edits_id)
  have s: "storeDecision a d (st\<lparr>st_events := evs\<rparr>) =
      st\<lparr>st_attempts := updateAttempt (at_id a) f (st_attempts st), st_events := evs\<rparr>"
  proof (cases "id_violationCount d \<noteq> at_violationCount a \<or> id_flagged d \<noteq> at_integrityFlagged a")
    case False
    then have "updateAttempt (at_id a) f (st_attempts st) = st_attempts st"
      by (simp add: f_def updateAttempt_def)
    with False show ?thesis by (simp add: storeDecision_def)
  qed (simp add: storeDecision_def f_def)
  show "attempt_move u quizzes st (storeDecision a d (st\<lparr>st_events := evs\<rparr>))"
    unfolding s by (rule move_edit [OF assms e])
  have "at_id (f x) = at_id x" "at_quizId (f x) = at_quizId x" "in_progress (f x) = in_progress x" for x
    using e by (auto simp: edits_def in_progress_def)
  then show "\<exists>b. find_by at_id (at_id a) (st_attempts (storeDecision a d (st\<lparr>st_events := evs\<rparr>))) = Some b
           \<and> at_id b = at_id a \<and> at_quizId b = at_quizId a \<and> in_progress b"
    using assms by (simp add: s updateAttempt_def find_by_map)
qed

lemma recordEvents_moves: "(attempt_move u quizzes)\<^sup>*\<^sup>* st (snd (recordEvents u env quizzes rq events st))"
proof (cases "\<exists>a q. loadOwnAttempt quizzes rq (st_attempts st) = Inr (a, q) \<and> in_progress a \<and> le_enrolled env = Inr ()")
  case True
  then obtain a q where aq: "loadOwnAttempt quizzes rq (st_attempts st) = Inr (a, q)" "in_progress a"
    "le_enrolled env = Inr ()" by blast
  define d where "d = integrityOf a q (rq_now rq) events (st_events st)"
  define st1 where "st1 = storeDecision a d
      (st\<lparr>st_events := st_events st @ createEvents (at_id a) (rq_now rq) (zip events (id_counted d))\<rparr>)"
  note l = loadOwnAttempt_Inr [OF aq(1)]
  have m1: "attempt_move u quizzes st st1"
    unfolding st1_def by (rule storeDecision_move(1) [OF l(2) aq(2)])
  obtain b where b: "find_by at_id (at_id a) (st_attempts st1) = Some b"
      "at_id b = at_id a" "at_quizId b = at_quizId a" "in_progress b"
    unfolding st1_def using storeDecision_move(2) [OF l(2) aq(2)] by blast
  have m2: "(attempt_move u quizzes)\<^sup>*\<^sup>* st1 (snd (finalizeInTransaction u b q reason_integrity (rq_now rq) True None None st1))"
    by (rule finish_moves) (use b l in simp_all)
  have "snd (recordEvents u env quizzes rq events st) = snd (autoSubmit u q (rq_now rq) a d st1)"
    using aq by (simp add: recordEvents_def Let_def d_def st1_def split: prod.split)
  moreover have "snd (autoSubmit u q (rq_now rq) a d st1) = st1 \<or>
      snd (autoSubmit u q (rq_now rq) a d st1) =
        snd (finalizeInTransaction u b q reason_integrity (rq_now rq) True None None st1)"
    using b by (simp add: autoSubmit_def split: prod.split)
  ultimately show ?thesis using m1 m2 by (auto intro: converse_rtranclp_into_rtranclp)
next
  case False
  then show ?thesis by (auto simp: recordEvents_def split: sum.splits)
qed

end
