(* ===== verification/Quiz_Histories.thy ===== *)
theory Quiz_Histories
  imports Quiz_Refinement
begin

text \<open>
  Properties of request histories on quiz attempts: the invariant after any sequence of
  requests, starting and resuming, and what an autosave or a late submit does.
\<close>

subsection \<open>Any sequence of requests\<close>

inductive attempts_reachable :: "text_tables \<Rightarrow> quiz list \<Rightarrow> quiz_state \<Rightarrow> bool" for u quizzes where
  at_empty: "attempts_reachable u quizzes
    \<lparr>st_attempts = [], st_events = [], st_results = Map.empty, st_notified = [], st_recomputed = []\<rparr>"
| at_start: "\<lbrakk>attempts_reachable u quizzes st; se_newId env \<notin> at_id ` set (st_attempts st)\<rbrakk>
    \<Longrightarrow> attempts_reachable u quizzes (snd (startAttempt u env quizzes rq st))"
| at_save: "attempts_reachable u quizzes st
    \<Longrightarrow> attempts_reachable u quizzes (snd (saveAnswers u lenv quizzes rq ans rv st))"
| at_submit: "attempts_reachable u quizzes st
    \<Longrightarrow> attempts_reachable u quizzes (snd (submit u lenv quizzes rq given rv' st))"
| at_events: "attempts_reachable u quizzes st
    \<Longrightarrow> attempts_reachable u quizzes (snd (recordEvents u lenv quizzes rq events st))"
| at_session: "attempts_reachable u quizzes st
    \<Longrightarrow> attempts_reachable u quizzes (snd (getSession u lenv quizzes rq st))"
| at_results: "attempts_reachable u quizzes st
    \<Longrightarrow> attempts_reachable u quizzes (snd (getResults u lenv quizzes rq st))"
| at_sweep: "attempts_reachable u quizzes st
    \<Longrightarrow> attempts_reachable u quizzes (snd (finalizeOverdue u quizzes en clock dbNow limit st))"

lemma reachable_ok: "attempts_reachable u quizzes st \<Longrightarrow> attempts_ok quizzes st"
proof (induction rule: attempts_reachable.induct)
  case at_empty
  then show ?case
    by (simp add: attempts_ok_def numbered_def oneOpen_def resultFresh_def findFinalizedForStudent_def)
next
  case (at_start st env rq)
  then show ?case
    using attempt_moves_keep [OF startAttempt_moves] attempts_okD(1) by blast
next
  case (at_sweep st en clock dbNow limit)
  then show ?case
    using attempt_moves_keep [OF finalizeLoop_moves] by (simp add: finalizeOverdue_def)
qed (auto intro: attempt_moves_keep [OF saveAnswers_moves] attempt_moves_keep [OF submit_moves]
      attempt_moves_keep [OF recordEvents_moves] attempt_moves_keep [OF getSession_moves]
      attempt_moves_keep [OF getResults_moves])

text \<open>
  C7. After any sequence of requests of any learners and of runs of the deadline sweep: the
  attempts of a learner on a quiz are numbered 1, 2, 3, ... in the order they were opened; at
  most one of them is open; an open attempt has neither score nor submission time, a finished
  one has a submission time and is either waiting for a manual grade or passed or failed with a
  score between 0 and 100; and the stored quiz result is the aggregate, by the quiz's policy,
  of exactly the finished attempts.
\<close>

theorem attempts_invariant:
  assumes "attempts_reachable u quizzes st"
  shows "map at_attemptNumber (filter (mine s k) (st_attempts st))
           = map int [1..<Suc (length (filter (mine s k) (st_attempts st)))]
       \<and> length (filter (\<lambda>a. mine s k a \<and> in_progress a) (st_attempts st)) \<le> 1
       \<and> (\<forall>a \<in> set (st_attempts st). row_ok a)
       \<and> (\<forall>q. findQuiz (qz_id q) quizzes = Some q
             \<and> findFinalizedForStudent s (qz_id q) (st_attempts st) \<noteq> []
           \<longrightarrow> st_results st (qz_id q, s) = Some (aggregateResult (qz_gradingPolicy q)
                 (map summaryOf (findFinalizedForStudent s (qz_id q) (st_attempts st)))
                 (qz_passingScore q)))"
  using attempts_okD(2,3) [OF reachable_ok [OF assms], of s k] attempts_okD(4,5) [OF reachable_ok [OF assms]]
  by (auto simp: numbered_def oneOpen_def resultFresh_def)

definition exampleQuiz :: quiz where
  "exampleQuiz =
     \<lparr>qz_id = ''q'', qz_courseId = ''c'', qz_published = True,
      qz_questions = [exampleQuestion ''a'' single_choice], qz_maxAttempts = Some 1,
      qz_passingScore = Some 50, qz_gradingPolicy = policy_highest, qz_timeLimitSeconds = Some 60,
      qz_availableFrom = None, qz_availableUntil = None, qz_dueAt = None, qz_latePolicy = late_block,
      qz_shuffleQuestions = False, qz_shuffleOptions = False, qz_questionsPerAttempt = None,
      qz_showScore = immediately, qz_showAnswers = never, qz_showExplanations = False,
      qz_integrityMode = mode_off, qz_maxViolations = 3, qz_requireFullscreen = False\<rparr>"

definition exampleEnv :: start_env where
  "exampleEnv = \<lparr>le_enrolled = Inr (), le_override = None, se_courseFound = True, se_engineV2 = True,
     se_integrityOn = False, se_sequenceLocked = False, se_random = 7, se_newId = ''t1''\<rparr>"

definition exampleRequest :: "instant \<Rightarrow> request" where
  "exampleRequest now = \<lparr>rq_user = ''s'', rq_course = ''c'', rq_quiz = ''q'', rq_attempt = ''t1'', rq_now = now\<rparr>"

definition emptyState :: quiz_state where
  "emptyState = \<lparr>st_attempts = [], st_events = [], st_results = Map.empty, st_notified = [], st_recomputed = []\<rparr>"

lemmas start_example_simps = startAttempt_def exampleEnv_def exampleRequest_def emptyState_def
  exampleQuiz_def findQuiz_def findOpenAttempt_def countForStudent_def countAllForStudent_def count_rows_def
  startWindow_def resolveWindow_def canStartAttempt_def extraAttempts_def Let_def

lemma example_started:
  "snd (startAttempt exampleTables exampleEnv [exampleQuiz] (exampleRequest 0) emptyState) =
     emptyState\<lparr>st_attempts := [newAttempt exampleEnv ''s'' exampleQuiz 0 open_window 0]\<rparr>"
  by (simp add: start_example_simps)

lemma attempts_invariant_witness:
  "length (filter (\<lambda>a. mine ''s'' ''q'' a \<and> in_progress a)
     (st_attempts (snd (startAttempt exampleTables exampleEnv [exampleQuiz] (exampleRequest 0) emptyState)))) \<le> 1"
proof -
  have "attempts_reachable exampleTables [exampleQuiz] emptyState"
    unfolding emptyState_def by (rule at_empty)
  moreover have "se_newId exampleEnv \<notin> at_id ` set (st_attempts emptyState)"
    by (simp add: emptyState_def)
  ultimately have "attempts_reachable exampleTables [exampleQuiz]
      (snd (startAttempt exampleTables exampleEnv [exampleQuiz] (exampleRequest 0) emptyState))"
    by (rule at_start)
  from attempts_invariant [OF this] show ?thesis by blast
qed

subsection \<open>Starting and resuming\<close>

text \<open>
  What a start may answer. It returns an open attempt of the learner on that quiz: either
  the one already open, not past its deadline, with nothing written, or a new one appended to
  the table, numbered after every earlier row, only when none is open, the allowance (maximum plus extra
  attempts, voided ones not counted) has room, the window is open or late work is accepted (the attempt is then
  flagged late), and the sequence does not lock the quiz.
\<close>

theorem start_answer:
  assumes "startAttempt u env quizzes rq st = (Inr resp, st')"
  shows "\<exists>q. findQuiz (rq_quiz rq) quizzes = Some q \<and> qz_published q \<and> qz_courseId q = rq_course rq
       \<and> mine (rq_user rq) (rq_quiz rq) (ar_attempt resp) \<and> in_progress (ar_attempt resp)
       \<and> ((findOpenAttempt (rq_user rq) (rq_quiz rq) (st_attempts st) = Some (ar_attempt resp)
             \<and> \<not> isPastGrace (at_deadlineAt (ar_attempt resp)) (rq_now rq) \<and> st' = st)
         \<or> (findOpenAttempt (rq_user rq) (rq_quiz rq) (st_attempts st) = None
             \<and> st' = st\<lparr>st_attempts := st_attempts st @ [ar_attempt resp]\<rparr>
             \<and> at_attemptNumber (ar_attempt resp)
                 = countAllForStudent (rq_user rq) (rq_quiz rq) (st_attempts st) + 1
             \<and> (case qz_maxAttempts q of None \<Rightarrow> True
                | Some m \<Rightarrow> countForStudent (rq_user rq) (rq_quiz rq) None (st_attempts st)
                            < m + max 0 (extraAttempts (le_override env)))
             \<and> startWindow env q (rq_now rq) \<in> {open_window, late_allowed}
             \<and> at_isLate (ar_attempt resp) = (startWindow env q (rq_now rq) = late_allowed)
             \<and> \<not> se_sequenceLocked env))"
proof -
  have e: "le_enrolled env = Inr ()" and c: "se_courseFound env"
    using assms by (auto simp: startAttempt_def Let_def split: sum.splits if_splits)
  then obtain q where q: "findQuiz (rq_quiz rq) quizzes = Some q"
    using assms by (cases "findQuiz (rq_quiz rq) quizzes") (auto simp: startAttempt_def Let_def)
  have qz: "qz_id q = rq_quiz rq" using q by (auto simp: findQuiz_def dest: find_by_Some)
  have p: "qz_courseId q = rq_course rq" "qz_published q"
    using assms e c q by (auto simp: startAttempt_def Let_def split: if_splits)
  show ?thesis
  proof (cases "findOpenAttempt (rq_user rq) (rq_quiz rq) (st_attempts st)")
    case (Some a)
    then show ?thesis
      using assms e c q qz p findOpen_Some [OF Some]
      by (auto simp: startAttempt_def Let_def toQuizAttemptResponse_def expiredAttempt_def split: if_splits)
  next
    case None
    have late: "at_isLate (newAttempt env user q now w n) = (w = late_allowed)" for user now w n
      by (simp add: newAttempt_def Let_def)
    from None show ?thesis
      using assms e c q qz p
      by (cases "startWindow env q (rq_now rq)")
        (auto simp: startAttempt_def Let_def toQuizAttemptResponse_def mine_def canStartAttempt_def late
          split: if_splits option.splits)
  qed
qed

lemma start_answer_witness:
  "\<exists>q. findQuiz ''q'' [exampleQuiz] = Some q \<and> qz_published q"
proof -
  obtain resp st' where "startAttempt exampleTables exampleEnv [exampleQuiz] (exampleRequest 0) emptyState = (Inr resp, st')"
    by (simp add: start_example_simps)
  from start_answer [OF this] show ?thesis by (auto simp: exampleRequest_def)
qed

subsection \<open>Autosaves\<close>

text \<open>A learner's autosaves of one attempt, in the order the server handles them.\<close>

fun saveAll ::
  "text_tables \<Rightarrow> learner_env \<Rightarrow> quiz list \<Rightarrow> request \<Rightarrow> (attempt_answer list \<times> int \<times> instant) list \<Rightarrow>
     quiz_state \<Rightarrow> quiz_state" where
  "saveAll u env quizzes rq [] st = st"
| "saveAll u env quizzes rq ((ans, rv, now) # saves) st =
     saveAll u env quizzes rq saves (snd (saveAnswers u env quizzes (rq\<lparr>rq_now := now\<rparr>) ans rv st))"

lemma loadOwn_now [simp]: "loadOwnAttempt quizzes (rq\<lparr>rq_now := now\<rparr>) t = loadOwnAttempt quizzes rq t"
  by (simp add: loadOwnAttempt_def del: find_by_None split: option.split)

lemma loadOwn_find:
  assumes "loadOwnAttempt quizzes rq t = Inr (a, q)" "find_by at_id (rq_attempt rq) t' = Some b"
    and "at_studentId b = at_studentId a" "at_quizId b = at_quizId a"
  shows "loadOwnAttempt quizzes rq t' = Inr (b, q)"
  using assms loadOwnAttempt_Inr [OF assms(1)] by (simp add: loadOwnAttempt_def)

lemma attemptQuestions_cong: "at_questionIds b = at_questionIds a \<Longrightarrow> attemptQuestions q b = attemptQuestions q a"
  by (simp add: attemptQuestions_def)

definition savable :: "quiz \<Rightarrow> quiz_attempt \<Rightarrow> attempt_answer list \<times> int \<times> instant \<Rightarrow> bool" where
  "savable q a = (\<lambda>(ans, rv, now). validateAnswers (attemptQuestions q a) ans = None
                    \<and> \<not> isPastGrace (at_deadlineAt a) now)"

lemma one_save:
  assumes "loadOwnAttempt quizzes rq (st_attempts st) = Inr (a, q)" "in_progress a" "le_enrolled env = Inr ()"
    and "savable q a (ans, rv, now)"
  defines "b \<equiv> (if rv \<le> at_answersRevision a then a
               else a\<lparr>at_answers := ans, at_answersRevision := rv, at_lastSavedAt := Some now\<rparr>)"
  shows "loadOwnAttempt quizzes rq
      (st_attempts (snd (saveAnswers u env quizzes (rq\<lparr>rq_now := now\<rparr>) ans rv st))) = Inr (b, q)"
proof (cases "rv \<le> at_answersRevision a")
  case True
  then show ?thesis using assms by (simp add: saveAnswers_def saveDecision_def savable_def)
next
  case False
  note l = loadOwnAttempt_Inr [OF assms(1)]
  have f: "find_by at_id (rq_attempt rq) (st_attempts (writeSave (rq\<lparr>rq_now := now\<rparr>) ans rv st)) = Some b"
    using l False by (simp add: writeSave_def updateAttempt_def find_by_map b_def)
  have "snd (saveAnswers u env quizzes (rq\<lparr>rq_now := now\<rparr>) ans rv st) = writeSave (rq\<lparr>rq_now := now\<rparr>) ans rv st"
    using assms(1-4) False by (simp add: saveAnswers_def saveDecision_def savable_def)
  moreover have "at_studentId b = at_studentId a" "at_quizId b = at_quizId a" by (simp_all add: b_def)
  ultimately show ?thesis using loadOwn_find [OF assms(1) f] by simp
qed

lemma newest_save:
  assumes "loadOwnAttempt quizzes rq (st_attempts st) = Inr (a, q)" "in_progress a" "le_enrolled env = Inr ()"
    and "list_all (savable q a) saves"
  shows "\<exists>b. loadOwnAttempt quizzes rq (st_attempts (saveAll u env quizzes rq saves st)) = Inr (b, q)
       \<and> in_progress b \<and> at_answersRevision b = fold max (map (\<lambda>s. fst (snd s)) saves) (at_answersRevision a)
       \<and> (if at_answersRevision b = at_answersRevision a then at_answers b = at_answers a
          else (at_answers b, at_answersRevision b) \<in> set (map (\<lambda>(ans, rv, now). (ans, rv)) saves))"
  using assms
proof (induction saves arbitrary: st a)
  case (Cons s saves)
  obtain ans rv now where s: "s = (ans, rv, now)" by (cases s) auto
  define b where "b = (if rv \<le> at_answersRevision a then a
               else a\<lparr>at_answers := ans, at_answersRevision := rv, at_lastSavedAt := Some now\<rparr>)"
  let ?st = "snd (saveAnswers u env quizzes (rq\<lparr>rq_now := now\<rparr>) ans rv st)"
  have l: "loadOwnAttempt quizzes rq (st_attempts ?st) = Inr (b, q)"
    unfolding b_def by (rule one_save) (use Cons.prems s in auto)
  have b: "in_progress b" "at_answersRevision b = max rv (at_answersRevision a)" "list_all (savable q b) saves"
    using Cons.prems by (auto simp: b_def in_progress_def savable_def list_all_iff max_def
        cong: attemptQuestions_cong split: if_splits)
  have ge: "x \<le> fold max rs x" for x :: int and rs
    by (induction rs arbitrary: x) (auto intro: order_trans [OF max.cobounded2])
  from Cons.IH [OF l b(1) Cons.prems(3) b(3)] obtain c where c:
    "loadOwnAttempt quizzes rq (st_attempts (saveAll u env quizzes rq saves ?st)) = Inr (c, q)" "in_progress c"
    "at_answersRevision c = fold max (map (\<lambda>s. fst (snd s)) saves) (at_answersRevision b)"
    "if at_answersRevision c = at_answersRevision b then at_answers c = at_answers b
     else (at_answers c, at_answersRevision c) \<in> set (map (\<lambda>(ans, rv, now). (ans, rv)) saves)"
    by blast
  have mono: "at_answersRevision b \<le> at_answersRevision c" using ge c(3) by simp
  have "if at_answersRevision c = at_answersRevision a then at_answers c = at_answers a
     else (at_answers c, at_answersRevision c) \<in> set (map (\<lambda>(ans, rv, now). (ans, rv)) (s # saves))"
    using c(4) mono by (auto simp: b_def s split: if_splits)
  moreover have "at_answersRevision c = fold max (map (\<lambda>s. fst (snd s)) (s # saves)) (at_answersRevision a)"
    using c(3) b(2) by (simp add: s)
  moreover have "saveAll u env quizzes rq (s # saves) st = saveAll u env quizzes rq saves ?st"
    by (simp add: s)
  ultimately show ?case using c(1,2) by metis
qed (simp add: loadOwnAttempt_Inr)

text \<open>
  C9. The newest autosave wins, in whatever order the saves arrive. After any sequence of saves
  of one open attempt of an enrolled learner, each valid and in time, with pairwise distinct
  revisions, handled one after another and with no other request in between, the attempt is still
  open, its revision is the largest one received, if that exceeds the one stored before, and its
  answers are those sent with it. A save that arrives late never overwrites newer answers. (Saves
  that overlap are another matter: the check and the update are two statements without a lock, see
  \<open>racing_autosave_overwrites_submission\<close>.)
\<close>

theorem newest_autosave_wins:
  assumes "loadOwnAttempt quizzes rq (st_attempts st) = Inr (a, q)" "in_progress a"
    and "le_enrolled env = Inr ()" "list_all (savable q a) saves"
    and "distinct (map (\<lambda>s. fst (snd s)) saves)" and "(ans, rv, now) \<in> set saves"
    and "rv > at_answersRevision a" "list_all (\<lambda>s. fst (snd s) \<le> rv) saves"
  shows "\<exists>b. loadOwnAttempt quizzes rq (st_attempts (saveAll u env quizzes rq saves st)) = Inr (b, q)
       \<and> in_progress b \<and> at_answersRevision b = rv \<and> at_answers b = ans"
proof -
  obtain b where b: "loadOwnAttempt quizzes rq (st_attempts (saveAll u env quizzes rq saves st)) = Inr (b, q)"
    "in_progress b" "at_answersRevision b = fold max (map (\<lambda>s. fst (snd s)) saves) (at_answersRevision a)"
    "if at_answersRevision b = at_answersRevision a then at_answers b = at_answers a
     else (at_answers b, at_answersRevision b) \<in> set (map (\<lambda>(ans, rv, now). (ans, rv)) saves)"
    using newest_save [OF assms(1-4)] by blast
  have "fold max rs x = Max (insert x (set rs))" for rs and x :: int
    by (metis Max.set_eq_fold list.simps(15))
  then have "at_answersRevision b = Max (insert (at_answersRevision a) (set (map (\<lambda>s. fst (snd s)) saves)))"
    using b(3) by simp
  also have "\<dots> = rv"
    by (rule Max_eqI) (use assms(6-8) in \<open>force simp: list_all_iff\<close>)+
  finally have rv: "at_answersRevision b = rv" .
  with b(4) assms(7) obtain now' where "(at_answers b, rv, now') \<in> set saves" by (auto split: if_splits)
  from distinct_keys_unique [OF assms(5) this assms(6)] have "at_answers b = ans" by simp
  with b rv show ?thesis by blast
qed

definition exampleSaves :: "(attempt_answer list \<times> int \<times> instant) list" where
  "exampleSaves = [([exampleAnswer ''a'' (Some [''x'']) None], 2, 10), ([], 1, 20)]"

definition startedState :: quiz_state where
  "startedState = emptyState\<lparr>st_attempts := [newAttempt exampleEnv ''s'' exampleQuiz 0 open_window 0]\<rparr>"

definition exampleLearner :: learner_env where
  "exampleLearner = \<lparr>le_enrolled = Inr (), le_override = None\<rparr>"

lemma example_paper:
  "attemptQuestions exampleQuiz (newAttempt exampleEnv ''s'' exampleQuiz 0 open_window 0)
     = [exampleQuestion ''a'' single_choice]"
  by (simp add: attemptQuestions_def newAttempt_def exampleEnv_def exampleQuiz_def buildAttemptPlan_def
      exampleQuestion_def map_of_last_def List.map_filter_def Let_def)

lemma example_deadline: "at_deadlineAt (newAttempt exampleEnv ''s'' exampleQuiz 0 open_window 0) = Some 60000"
proof -
  have "js_round 60000 = (60000 :: int)" using js_round_of_int [of 60000] by simp
  then show ?thesis
    by (simp add: newAttempt_def exampleEnv_def exampleQuiz_def computeDeadline_def Let_def)
qed

lemma example_request [simp]: "rq_now (exampleRequest now) = now" "le_enrolled exampleLearner = Inr ()"
  by (simp_all add: exampleRequest_def exampleLearner_def)

lemma example_loaded:
  "loadOwnAttempt [exampleQuiz] (exampleRequest now) (st_attempts startedState)
     = Inr (newAttempt exampleEnv ''s'' exampleQuiz 0 open_window 0, exampleQuiz)"
  by (simp add: loadOwnAttempt_def startedState_def emptyState_def findQuiz_def)
    (simp add: exampleRequest_def exampleEnv_def exampleQuiz_def)

lemma example_revision: "at_answersRevision (newAttempt env user q now w n) = 0"
  by (simp add: newAttempt_def Let_def)

lemma newest_autosave_wins_witness:
  "\<exists>b. loadOwnAttempt [exampleQuiz] (exampleRequest 0)
         (st_attempts (saveAll exampleTables exampleLearner [exampleQuiz] (exampleRequest 0) exampleSaves startedState))
       = Inr (b, exampleQuiz) \<and> at_answersRevision b = 2"
proof -
  let ?a = "newAttempt exampleEnv ''s'' exampleQuiz 0 open_window 0"
  have "list_all (savable exampleQuiz ?a) exampleSaves"
    by (simp add: savable_def exampleSaves_def example_paper example_deadline isPastGrace_def
        validateAnswers_def map_of_last_def exampleQuestion_def exampleAnswer_def checkAnswer_def
        isChoiceType_def QUIZ_SUBMIT_GRACE_SECONDS_def)
  moreover have "distinct (map (\<lambda>s. fst (snd s)) exampleSaves)" by (simp add: exampleSaves_def)
  moreover have "([exampleAnswer ''a'' (Some [''x'']) None], 2, 10) \<in> set exampleSaves"
    by (simp add: exampleSaves_def)
  moreover have "list_all (\<lambda>s. fst (snd s) \<le> 2) exampleSaves" by (simp add: exampleSaves_def)
  ultimately show ?thesis
    using newest_autosave_wins [OF example_loaded, of exampleLearner exampleSaves _ 2]
    by (fastforce simp: example_revision)
qed

lemma attempt_finalized_once_witness:
  "\<not> in_progress (fst (finalizeInTransaction exampleTables (newAttempt exampleEnv ''s'' exampleQuiz 0 open_window 0)
     exampleQuiz reason_timeout 90001 True None None startedState))"
proof -
  let ?a = "newAttempt exampleEnv ''s'' exampleQuiz 0 open_window 0"
  have "distinct (map at_id (st_attempts startedState))" by (simp add: startedState_def)
  moreover have "find_by at_id (at_id ?a) (st_attempts startedState) \<noteq> None" by (simp add: startedState_def)
  ultimately show ?thesis by (rule attempt_finalized_once [OF _ _ refl, THEN conjunct2])
qed

subsection \<open>Late submits\<close>

text \<open>
  A submit past the deadline and its grace gets "attempt expired" and still closes the
  attempt, with the answers saved before: what the request carries is ignored (the same state
  results for any payload and revision), the row is marked auto-submitted for "timeout" at
  the time of the request, and its score is the score of the saved answers.
\<close>

theorem late_submit_grades_saved_answers:
  assumes "distinct (map at_id (st_attempts st))" "le_enrolled env = Inr ()"
    and "loadOwnAttempt quizzes rq (st_attempts st) = Inr (a, q)" "in_progress a"
    and "isPastGrace (at_deadlineAt a) (rq_now rq)"
  shows "fst (submit u env quizzes rq given rv st) = expiredAttempt
       \<and> submit u env quizzes rq given rv st = submit u env quizzes rq None None st
       \<and> (\<exists>b. find_by at_id (at_id a) (st_attempts (snd (submit u env quizzes rq given rv st))) = Some b
             \<and> \<not> in_progress b \<and> at_answers b = at_answers a
             \<and> at_autoSubmittedReason b = Some reason_timeout \<and> at_submittedAt b = Some (rq_now rq)
             \<and> at_score b = as_score (scoreAttempt u (attemptQuestions q a) (at_answers a) (at_manualGrades a)))"
proof -
  note f = loadOwnAttempt_Inr(2) [OF assms(3)]
  have s: "submit u env quizzes rq g r st =
      (expiredAttempt, snd (finalizeInTransaction u a q reason_timeout (rq_now rq) True None None st))" for g r
    using assms by (simp add: submit_def Let_def)
  have "find_by at_id (at_id a) (st_attempts (snd (submit u env quizzes rq given rv st))) =
      Some (finishWith u a q reason_timeout (rq_now rq) None None a)"
    using f by (simp add: s finalize_open [OF assms(1) f assms(4)] updateAttempt_def find_by_map)
  then show ?thesis
    by (simp add: s) (simp add: finishWith_def finalizedRow_def Let_def)
qed

lemma late_submit_grades_saved_answers_witness:
  "fst (submit exampleTables exampleLearner [exampleQuiz] (exampleRequest 90001)
     (Some [exampleAnswer ''a'' (Some [''y'']) None]) (Some 1) startedState) = expiredAttempt"
proof -
  have "distinct (map at_id (st_attempts startedState))" by (simp add: startedState_def)
  moreover have "isPastGrace (at_deadlineAt (newAttempt exampleEnv ''s'' exampleQuiz 0 open_window 0))
      (rq_now (exampleRequest 90001))"
    by (simp add: example_deadline isPastGrace_def QUIZ_SUBMIT_GRACE_SECONDS_def)
  ultimately show ?thesis
    using late_submit_grades_saved_answers [OF _ example_request(2) example_loaded newAttempt_fields(5)] by blast
qed

text \<open>
  An autosave that read the row before a submit and writes after it damages the finished attempt. The
  handler checks status and revision on the row it read; its write is a plain update by
  identifier. Afterwards the attempt is still finished and keeps the score of the submitted
  answers, but its stored answers are those of the autosave, whatever their revision.
\<close>

theorem racing_autosave_overwrites_submission:
  assumes "distinct (map at_id (st_attempts st))"
    and "loadOwnAttempt quizzes rq (st_attempts st) = Inr (a, q)"
    and "saveDecision env quizzes rq saved rv st = SaveWrite saved"
  shows "\<exists>b. find_by at_id (at_id a) (st_attempts (writeSave rq saved rv
               (snd (finalizeInTransaction u a q reason_submit now enr (Some given) rv2 st)))) = Some b
           \<and> \<not> in_progress b \<and> at_answers b = saved \<and> at_answersRevision b = rv
           \<and> at_score b = as_score (scoreAttempt u (attemptQuestions q a) given (at_manualGrades a))"
proof -
  note l = loadOwnAttempt_Inr [OF assms(2)]
  have ip: "in_progress a"
    using assms(2,3) by (auto simp: saveDecision_def split: sum.splits if_splits)
  have "find_by at_id (at_id a) (st_attempts (snd (finalizeInTransaction u a q reason_submit now enr (Some given) rv2 st)))
      = Some (finishWith u a q reason_submit now (Some given) rv2 a)"
    using l(2) by (simp add: finalize_open [OF assms(1) l(2) ip] updateAttempt_def find_by_map)
  then show ?thesis
    using l(7) by (simp add: writeSave_def updateAttempt_def find_by_map)
      (simp add: finishWith_def finalizedRow_def in_progress_def Let_def)
qed

lemma racing_autosave_overwrites_submission_witness:
  "\<exists>b. find_by at_id ''t1'' (st_attempts (writeSave (exampleRequest 0) [] 1
         (snd (finalizeInTransaction exampleTables (newAttempt exampleEnv ''s'' exampleQuiz 0 open_window 0)
            exampleQuiz reason_submit 5 True (Some [exampleAnswer ''a'' (Some [''y'']) None]) (Some 2) startedState)))) = Some b
     \<and> at_answers b = []"
proof -
  have "distinct (map at_id (st_attempts startedState))" by (simp add: startedState_def)
  moreover have "saveDecision exampleLearner [exampleQuiz] (exampleRequest 0) [] 1 startedState = SaveWrite []"
    by (simp add: saveDecision_def example_loaded example_deadline example_revision
        isPastGrace_def QUIZ_SUBMIT_GRACE_SECONDS_def validateAnswers_def)
  ultimately have "\<exists>b. find_by at_id (at_id (newAttempt exampleEnv ''s'' exampleQuiz 0 open_window 0))
     (st_attempts (writeSave (exampleRequest 0) [] 1
         (snd (finalizeInTransaction exampleTables (newAttempt exampleEnv ''s'' exampleQuiz 0 open_window 0)
            exampleQuiz reason_submit 5 True (Some [exampleAnswer ''a'' (Some [''y'']) None]) (Some 2) startedState)))) = Some b
     \<and> at_answers b = []"
    using racing_autosave_overwrites_submission [OF _ example_loaded] by blast
  then show ?thesis by (simp add: exampleEnv_def)
qed

end
