(* ===== verification/Quiz_Reads.thy ===== *)
theory Quiz_Reads
  imports Quiz_Histories
begin

text \<open>
  What a learner can read while sitting a quiz, and what one run of the deadline sweep does.
\<close>

subsection \<open>A session does not depend on the correct answers\<close>

definition maskQuestion :: "engine_question \<Rightarrow> engine_question" where
  "maskQuestion q = q\<lparr>eq_options := map (\<lambda>opt. opt\<lparr>eo_isCorrect := False\<rparr>) (eq_options q),
                     eq_acceptedAnswers := None\<rparr>"

definition maskQuiz :: "quiz \<Rightarrow> quiz" where
  "maskQuiz q = q\<lparr>qz_questions := map maskQuestion (qz_questions q)\<rparr>"

lemma mask_fields [simp]:
  "eq_id (maskQuestion q) = eq_id q" "eq_order (maskQuestion q) = eq_order q"
  "qz_id (maskQuiz z) = qz_id z" "qz_courseId (maskQuiz z) = qz_courseId z"
  "qz_questions (maskQuiz z) = map maskQuestion (qz_questions z)"
  "qz_maxAttempts (maskQuiz z) = qz_maxAttempts z" "snapshotOf a (maskQuiz z) = snapshotOf a z"
  by (simp_all add: maskQuestion_def maskQuiz_def snapshotOf_def split: option.split)

lemma map_of_last_map:
  "(\<And>r. key (f r) = key r) \<Longrightarrow> map_of_last key (map f xs) k = map_option f (map_of_last key xs k)"
  by (simp add: map_of_last_def rev_map find_by_map)

lemma map_filter_option: "List.map_filter (\<lambda>k. map_option f (g k)) ks = map f (List.map_filter g ks)"
  by (induction ks) (auto simp: List.map_filter_def)

lemma sort_key_map: "(\<And>x. key (f x) = key x) \<Longrightarrow> sort_key key (map f xs) = map f (sort_key key xs)"
proof -
  assume k: "\<And>x. key (f x) = key x"
  have "insort_key key (f x) (map f ys) = map f (insort_key key x ys)" for x ys
    by (induction ys) (simp_all add: k)
  then show ?thesis by (induction xs) simp_all
qed

lemma toSessionQuestion_mask: "toSessionQuestion (maskQuestion q) order = toSessionQuestion q order"
proof -
  have "map_of_last eo_id (eq_options (maskQuestion q)) =
      (\<lambda>k. map_option (\<lambda>opt. opt\<lparr>eo_isCorrect := False\<rparr>) (map_of_last eo_id (eq_options q) k))"
    by (rule ext) (simp add: maskQuestion_def map_of_last_map)
  moreover have "map eo_id (eq_options (maskQuestion q)) = map eo_id (eq_options q)"
      "eq_id (maskQuestion q) = eq_id q" "eq_type (maskQuestion q) = eq_type q"
      "eq_points (maskQuestion q) = eq_points q"
    by (simp_all add: maskQuestion_def o_def)
  ultimately show ?thesis
    by (simp only: toSessionQuestion_def map_filter_option map_map) (simp add: o_def)
qed

lemma attemptQuestions_mask: "attemptQuestions (maskQuiz z) a = map maskQuestion (attemptQuestions z a)"
proof -
  have "map_of_last eq_id (map maskQuestion (qz_questions z)) =
      (\<lambda>k. map_option maskQuestion (map_of_last eq_id (qz_questions z) k))"
    by (rule ext) (simp add: map_of_last_map)
  then show ?thesis
    by (simp add: attemptQuestions_def map_filter_option sort_key_map split: option.split list.split)
qed

lemma loadOwn_mask:
  "loadOwnAttempt (map maskQuiz quizzes) rq t =
     (case loadOwnAttempt quizzes rq t of Inl e \<Rightarrow> Inl e | Inr (a, q) \<Rightarrow> Inr (a, maskQuiz q))"
proof -
  have "findQuiz k (map maskQuiz quizzes) = map_option maskQuiz (findQuiz k quizzes)" for k
    by (simp add: findQuiz_def find_by_map)
  then show ?thesis
    by (simp add: loadOwnAttempt_def del: find_by_None split: option.split)
qed

text \<open>
  C10. What a learner sees while sitting a quiz does not depend on the correct answers. The response of
  the session request, errors included, is the same when every option is marked wrong and
  every accepted short answer is removed: neither the questions, nor the order of the
  options, nor any counter carries information about what is correct.
\<close>

theorem session_independent_of_correct_answers:
  "fst (getSession u env (map maskQuiz quizzes) rq st) = fst (getSession u env quizzes rq st)"
proof (cases "loadOwnAttempt quizzes rq (st_attempts st)")
  case (Inr p)
  obtain a q where p: "p = (a, q)" by force
  show ?thesis
    using Inr by (cases "le_enrolled env")
      (simp_all add: p getSession_def loadOwn_mask attemptQuestions_mask toSessionQuestion_mask
        attemptsAllowed_def o_def)
qed (cases "le_enrolled env"; simp add: getSession_def loadOwn_mask)

subsection \<open>The deadline sweep\<close>

lemma overdue_step:
  assumes "distinct (map at_id (st_attempts st))" "find_by at_id aid (st_attempts st) = Some a"
    and "in_progress a" "isPastGrace (at_deadlineAt a) now" "findQuiz (at_quizId a) quizzes = Some q"
  shows "fst (finalizeOverdueAttempt u quizzes en now aid (at_studentId a) st)"
    and "find_by at_id x (st_attempts (snd (finalizeOverdueAttempt u quizzes en now aid (at_studentId a) st))) =
           (if x = aid then Some (finishWith u a q reason_timeout now None None a)
            else find_by at_id x (st_attempts st))"
    and "distinct (map at_id (st_attempts (snd (finalizeOverdueAttempt u quizzes en now aid (at_studentId a) st))))"
proof -
  have aid: "at_id a = aid" "find_by at_id (at_id a) (st_attempts st) = Some a"
    using find_by_Some [OF assms(2)] assms(2) by auto
  have f: "finalizeOverdueAttempt u quizzes en now aid (at_studentId a) st =
      (True, snd (finalizeInTransaction u a q reason_timeout now (en (at_studentId a) (qz_courseId q)) None None st))"
    using assms by (simp add: finalizeOverdueAttempt_def)
  then show "fst (finalizeOverdueAttempt u quizzes en now aid (at_studentId a) st)" by simp
  have "map_option (\<lambda>r. if at_id r = aid then finishWith u a q reason_timeout now None None r else r)
          (find_by at_id x (st_attempts st)) = find_by at_id x (st_attempts st)" if "x \<noteq> aid"
    using that by (cases "find_by at_id x (st_attempts st)") (auto dest: find_by_Some simp del: find_by_None)
  then show "find_by at_id x (st_attempts (snd (finalizeOverdueAttempt u quizzes en now aid (at_studentId a) st))) =
           (if x = aid then Some (finishWith u a q reason_timeout now None None a)
            else find_by at_id x (st_attempts st))"
    using aid by (simp add: f finalize_open [OF assms(1) aid(2) assms(3)] updateAttempt_def find_by_map)
  show "distinct (map at_id (st_attempts (snd (finalizeOverdueAttempt u quizzes en now aid (at_studentId a) st))))"
    using assms(1) finalize_ids [OF assms(1)] by (simp add: f)
qed

definition overdue :: "quiz list \<Rightarrow> (uid \<Rightarrow> instant) \<Rightarrow> quiz_state \<Rightarrow> uid \<times> uid \<Rightarrow> bool" where
  "overdue quizzes clock st = (\<lambda>(aid, s).
     \<exists>a q. find_by at_id aid (st_attempts st) = Some a \<and> at_studentId a = s \<and> in_progress a
       \<and> isPastGrace (at_deadlineAt a) (clock aid) \<and> findQuiz (at_quizId a) quizzes = Some q)"

definition timedOut :: "quiz_state \<Rightarrow> uid \<Rightarrow> bool" where
  "timedOut st aid = (case find_by at_id aid (st_attempts st) of
     None \<Rightarrow> False
   | Some b \<Rightarrow> \<not> in_progress b \<and> at_autoSubmittedReason b = Some reason_timeout)"

lemma finishWith_reason: "at_autoSubmittedReason (finishWith u a q reason_timeout now g r b) = Some reason_timeout"
  by (simp add: finishWith_def finalizedRow_def Let_def)

lemma finalizeLoop_closes:
  assumes "distinct (map at_id (st_attempts st))" "distinct (map fst due)"
    and "list_all (overdue quizzes clock st) due"
  shows "fst (finalizeLoop u quizzes en clock due n st) = n + length due
       \<and> list_all (\<lambda>d. timedOut (snd (finalizeLoop u quizzes en clock due n st)) (fst d)) due
       \<and> (\<forall>x. x \<notin> fst ` set due \<longrightarrow> find_by at_id x (st_attempts (snd (finalizeLoop u quizzes en clock due n st)))
            = find_by at_id x (st_attempts st))"
  using assms
proof (induction due arbitrary: n st)
  case (Cons d due)
  obtain aid s where d: "d = (aid, s)" by force
  from Cons.prems(3) obtain a q where a: "find_by at_id aid (st_attempts st) = Some a" "at_studentId a = s"
    "in_progress a" "isPastGrace (at_deadlineAt a) (clock aid)" "findQuiz (at_quizId a) quizzes = Some q"
    by (auto simp: d overdue_def)
  obtain b st1 where s1: "finalizeOverdueAttempt u quizzes en (clock aid) aid s st = (b, st1)" by force
  note step = overdue_step [OF Cons.prems(1) a(1,3,4,5), where u = u and en = en, unfolded a(2) s1 fst_conv snd_conv]
  have "overdue quizzes clock st1 (x, s')" if "(x, s') \<in> set due" for x s'
  proof -
    have "x \<noteq> aid" using that Cons.prems(2) by (auto simp: d rev_image_eqI)
    then have "find_by at_id x (st_attempts st1) = find_by at_id x (st_attempts st)" by (simp add: step(2))
    moreover have "overdue quizzes clock st (x, s')" using that Cons.prems(3) by (simp add: list_all_iff)
    ultimately show ?thesis by (simp add: overdue_def)
  qed
  then have "list_all (overdue quizzes clock st1) due" by (auto simp: list_all_iff)
  note ih = Cons.IH [OF step(3) _ this, of "n + 1"]
  have "aid \<notin> fst ` set due" using Cons.prems(2) by (simp add: d)
  with ih Cons.prems(2) step(2) have "timedOut (snd (finalizeLoop u quizzes en clock due (n + 1) st1)) aid"
    by (simp add: timedOut_def finishWith_reason)
  then show ?case
    using ih Cons.prems(2) step by (auto simp: d s1)
qed simp

lemma due_overdue:
  assumes "distinct (map at_id (st_attempts st))"
    and "list_all (\<lambda>a. findQuiz (at_quizId a) quizzes \<noteq> None) (st_attempts st)" "\<And>aid. dbNow \<le> clock aid"
  shows "distinct (map fst (findDueAttempts limit dbNow (st_attempts st)))"
    and "list_all (overdue quizzes clock st) (findDueAttempts limit dbNow (st_attempts st))"
proof -
  let ?p = "\<lambda>a. in_progress a \<and> (case at_deadlineAt a of None \<Rightarrow> False | Some d \<Rightarrow> d + 30000 < dbNow)"
  let ?l = "take (nat (min (max limit 1) 500)) (sort_key (\<lambda>a. the (at_deadlineAt a)) (filter ?p (st_attempts st)))"
  have m: "mset (map at_id (sort_key (\<lambda>a. the (at_deadlineAt a)) (filter ?p (st_attempts st)))) =
      mset (map at_id (filter ?p (st_attempts st)))" by (simp only: mset_map mset_sort)
  then have "distinct (map at_id (sort_key (\<lambda>a. the (at_deadlineAt a)) (filter ?p (st_attempts st))))"
    by (rule mset_eq_imp_distinct_iff [THEN iffD2]) (rule distinct_map_filter [OF assms(1)])
  then have "distinct (map at_id ?l)" by (simp only: take_map [symmetric] distinct_take)
  then show "distinct (map fst (findDueAttempts limit dbNow (st_attempts st)))"
    by (simp add: findDueAttempts_def o_def)
  have "overdue quizzes clock st (at_id a, at_studentId a)" if "a \<in> set ?l" for a
  proof -
    from in_set_takeD [OF that] have a: "a \<in> set (st_attempts st)" "?p a" by simp_all
    then obtain d where "at_deadlineAt a = Some d" "d + 30000 < dbNow" by (auto split: option.splits)
    with assms(3) [of "at_id a"] have "isPastGrace (at_deadlineAt a) (clock (at_id a))"
      by (simp add: isPastGrace_def QUIZ_SUBMIT_GRACE_SECONDS_def)
    moreover have "\<exists>q. findQuiz (at_quizId a) quizzes = Some q" using assms(2) a(1) by (auto simp: list_all_iff)
    ultimately show ?thesis using a find_by_distinct [OF assms(1) a(1)] by (auto simp: overdue_def)
  qed
  then show "list_all (overdue quizzes clock st) (findDueAttempts limit dbNow (st_attempts st))"
    by (auto simp: findDueAttempts_def list_all_iff)
qed

text \<open>
  C11. One run of the deadline sweep finalises every attempt it found due, counts each once, leaves every other
  attempt as it was, and when fewer attempts are overdue than its limit no overdue attempt
  stays open. (The quizzes of the attempts exist, and the clock of the application does not
  run behind the database's.)
\<close>

theorem sweep_closes_due_attempts:
  assumes "distinct (map at_id (st_attempts st))"
    and "list_all (\<lambda>a. findQuiz (at_quizId a) quizzes \<noteq> None) (st_attempts st)" "\<And>aid. dbNow \<le> clock aid"
    and "due = findDueAttempts limit dbNow (st_attempts st)"
    and "run = finalizeOverdue u quizzes en clock dbNow limit st"
  shows "fst run = length due
       \<and> list_all (\<lambda>d. timedOut (snd run) (fst d)) due
       \<and> (\<forall>x. x \<notin> fst ` set due \<longrightarrow> find_by at_id x (st_attempts (snd run)) = find_by at_id x (st_attempts st))
       \<and> (int (length due) < min (max limit 1) 500 \<longrightarrow>
            (\<forall>x a d. find_by at_id x (st_attempts (snd run)) = Some a \<and> in_progress a
               \<and> at_deadlineAt a = Some d \<longrightarrow> dbNow \<le> d + 30000))"
proof -
  let ?p = "\<lambda>a. in_progress a \<and> (case at_deadlineAt a of None \<Rightarrow> False | Some d \<Rightarrow> d + 30000 < dbNow)"
  have run: "run = finalizeLoop u quizzes en clock due 0 st"
    by (simp add: assms(4,5) finalizeOverdue_def)
  have l: "fst run = 0 + length due \<and> list_all (\<lambda>d. timedOut (snd run) (fst d)) due
      \<and> (\<forall>x. x \<notin> fst ` set due \<longrightarrow> find_by at_id x (st_attempts (snd run)) = find_by at_id x (st_attempts st))"
    unfolding run
    by (rule finalizeLoop_closes [OF assms(1)])
      (simp_all only: assms(4) due_overdue [OF assms(1-3)])
  have "dbNow \<le> d + 30000"
    if small: "int (length due) < min (max limit 1) 500"
      and a: "find_by at_id x (st_attempts (snd run)) = Some a" "in_progress a" "at_deadlineAt a = Some d" for x a d
  proof (rule ccontr)
    assume late: "\<not> dbNow \<le> d + 30000"
    have "x \<notin> fst ` set due"
      using l a by (fastforce simp: list_all_iff timedOut_def)
    with l a(1) have st: "find_by at_id x (st_attempts st) = Some a" by simp
    have "length due = min (length (filter ?p (st_attempts st))) (nat (min (max limit 1) 500))"
      by (simp add: assms(4) findDueAttempts_def)
    with small have "length (filter ?p (st_attempts st)) \<le> nat (min (max limit 1) 500)" by linarith
    moreover have "a \<in> set (filter ?p (st_attempts st))"
      using find_by_Some [OF st] a(2,3) late by simp
    ultimately have "(at_id a, at_studentId a) \<in> set due"
      by (simp add: assms(4) findDueAttempts_def)
    with \<open>x \<notin> fst ` set due\<close> find_by_Some [OF st] show False by force
  qed
  then show ?thesis using l by auto
qed

lemma sweep_closes_due_attempts_witness:
  "fst (finalizeOverdue exampleTables [exampleQuiz] (\<lambda>_ _. True) (\<lambda>_. 90002) 90001 200 startedState) = 1"
proof -
  let ?a = "newAttempt exampleEnv ''s'' exampleQuiz 0 open_window 0"
  have "distinct (map at_id (st_attempts startedState))" by (simp add: startedState_def)
  moreover have "list_all (\<lambda>a. findQuiz (at_quizId a) [exampleQuiz] \<noteq> None) (st_attempts startedState)"
    by (simp add: startedState_def findQuiz_def)
  moreover have "length (findDueAttempts 200 90001 (st_attempts startedState)) = 1"
    by (simp add: findDueAttempts_def startedState_def example_deadline)
  ultimately show ?thesis
    using sweep_closes_due_attempts [OF _ _ _ refl refl, where st = startedState and quizzes = "[exampleQuiz]"
        and dbNow = 90001 and clock = "\<lambda>_. 90002" and limit = 200 and u = exampleTables and en = "\<lambda>_ _. True"]
    by simp
qed

end
