(* ===== verification/Learning_Lease.thy ===== *)
theory Learning_Lease
  imports Atlas_Prelude
begin

text \<open>
  The learning lease (\<open>learning/services/learning-lease.service.ts\<close>): one learner, one active
  learning session. The service is a set of small programs over Redis. A program is a tree
  of commands; a command's reply, or a connection error, selects the rest. So a program runs
  on its own, or its commands interleave with those of other clients, one at a time.
  Redis is not part of the repository: it is a record of operations, and what the service
  relies on (\<open>SET\<close> with \<open>EX\<close> and \<open>NX\<close>, \<open>GET\<close>, \<open>DEL\<close>) is the predicate \<open>redis_laws\<close>. The
  stored JSON text is the record it encodes.
\<close>

subsection \<open>The store\<close>

record lease_holder =
  lh_leaseId :: uid
  lh_deviceId :: uid
  lh_sessionId :: uid
  lh_courseId :: "uid option"
  lh_lessonId :: "uid option"
  lh_acquiredAt :: instant

record 's redis_ops =
  r_get :: "'s \<Rightarrow> instant \<Rightarrow> string \<Rightarrow> lease_holder option"
  r_set :: "'s \<Rightarrow> instant \<Rightarrow> string \<Rightarrow> lease_holder \<Rightarrow> int \<Rightarrow> 's"
  r_setnx :: "'s \<Rightarrow> instant \<Rightarrow> string \<Rightarrow> lease_holder \<Rightarrow> int \<Rightarrow> bool \<times> 's"
  r_del :: "'s \<Rightarrow> string \<Rightarrow> 's"

definition redis_laws :: "'s redis_ops \<Rightarrow> bool" where
  "redis_laws r \<longleftrightarrow>
     (\<forall>s t k v ttl t' k'. t \<le> t' \<longrightarrow>
        r_get r (r_set r s t k v ttl) t' k' =
          (if k' = k then (if t' < t + 1000 * ttl then Some v else None) else r_get r s t' k'))
   \<and> (\<forall>s t k v ttl. r_setnx r s t k v ttl =
        (if r_get r s t k = None then (True, r_set r s t k v ttl) else (False, s)))
   \<and> (\<forall>s k t' k'. r_get r (r_del r s k) t' k' = (if k' = k then None else r_get r s t' k'))"

lemma redis_get_set:
  "redis_laws r \<Longrightarrow> t \<le> t' \<Longrightarrow> r_get r (r_set r s t k v ttl) t' k' =
     (if k' = k then (if t' < t + 1000 * ttl then Some v else None) else r_get r s t' k')"
  by (simp add: redis_laws_def)

lemma redis_setnx:
  "redis_laws r \<Longrightarrow> r_setnx r s t k v ttl =
     (if r_get r s t k = None then (True, r_set r s t k v ttl) else (False, s))"
  by (simp add: redis_laws_def)

lemma redis_del:
  "redis_laws r \<Longrightarrow> r_get r (r_del r s k) t' k' = (if k' = k then None else r_get r s t' k')"
  by (simp add: redis_laws_def)

text \<open>A map with expiry instants satisfies the laws.\<close>

definition ttl_map :: "(string \<rightharpoonup> lease_holder \<times> instant) redis_ops" where
  "ttl_map =
     \<lparr>r_get = (\<lambda>m t k. case m k of Some (v, e) \<Rightarrow> if t < e then Some v else None | None \<Rightarrow> None),
      r_set = (\<lambda>m t k v ttl. m(k \<mapsto> (v, t + 1000 * ttl))),
      r_setnx = (\<lambda>m t k v ttl.
        if (case m k of Some (v, e) \<Rightarrow> t < e | None \<Rightarrow> False) then (False, m)
        else (True, m(k \<mapsto> (v, t + 1000 * ttl)))),
      r_del = (\<lambda>m k. m(k := None))\<rparr>"

lemma ttl_map_laws: "redis_laws ttl_map"
  by (auto simp: redis_laws_def ttl_map_def split: option.splits)

subsection \<open>Programs over the store\<close>

text \<open>The reply \<open>None\<close> of a command is a thrown connection error.\<close>

datatype 'a prog =
  Return 'a
| GetC string "lease_holder option option \<Rightarrow> 'a prog"
| SetC string lease_holder "bool \<Rightarrow> 'a prog"
| SetNxC string lease_holder "bool option \<Rightarrow> 'a prog"
| DelC string "bool \<Rightarrow> 'a prog"

text \<open>One command at instant \<open>t\<close>; \<open>up\<close> says whether the connection works.\<close>

fun execCommand :: "'s redis_ops \<Rightarrow> int \<Rightarrow> bool \<Rightarrow> instant \<Rightarrow> 's \<Rightarrow> 'a prog \<Rightarrow> 's \<times> 'a prog" where
  "execCommand r ttl up t s (Return x) = (s, Return x)"
| "execCommand r ttl up t s (GetC k f) = (s, f (if up then Some (r_get r s t k) else None))"
| "execCommand r ttl up t s (SetC k v f) = (if up then (r_set r s t k v ttl, f True) else (s, f False))"
| "execCommand r ttl up t s (SetNxC k v f) =
     (if up then (case r_setnx r s t k v ttl of (ok, s') \<Rightarrow> (s', f (Some ok))) else (s, f None))"
| "execCommand r ttl up t s (DelC k f) = (if up then (r_del r s k, f True) else (s, f False))"

text \<open>A program alone, every command at the same instant.\<close>

primrec runProg :: "'s redis_ops \<Rightarrow> int \<Rightarrow> instant \<Rightarrow> 'a prog \<Rightarrow> 's \<Rightarrow> 'a \<times> 's" where
  "runProg r ttl t (Return x) = (\<lambda>s. (x, s))"
| "runProg r ttl t (GetC k f) = (\<lambda>s. runProg r ttl t (f (Some (r_get r s t k))) s)"
| "runProg r ttl t (SetC k v f) = (\<lambda>s. runProg r ttl t (f True) (r_set r s t k v ttl))"
| "runProg r ttl t (SetNxC k v f) =
     (\<lambda>s. case r_setnx r s t k v ttl of (ok, s') \<Rightarrow> runProg r ttl t (f (Some ok)) s')"
| "runProg r ttl t (DelC k f) = (\<lambda>s. runProg r ttl t (f True) (r_del r s k))"

text \<open>Several clients: a schedule says whose command runs next, when, and whether it gets through.\<close>

fun interleave ::
  "'s redis_ops \<Rightarrow> int \<Rightarrow> (nat \<times> bool \<times> instant) list \<Rightarrow> 's \<Rightarrow> 'a prog list \<Rightarrow> 's \<times> 'a prog list" where
  "interleave r ttl [] s ps = (s, ps)"
| "interleave r ttl ((i, up, t) # sched) s ps =
     (if i < length ps
      then (case execCommand r ttl up t s (ps ! i) of (s', p) \<Rightarrow> interleave r ttl sched s' (ps[i := p]))
      else interleave r ttl sched s ps)"

subsection \<open>The service\<close>

definition leaseKey :: "uid \<Rightarrow> uid \<Rightarrow> string" where
  "leaseKey userId academyId = ''learning_lease:'' @ userId @ '':'' @ academyId"

record lease_request =
  lr_userId :: uid
  lr_academyId :: uid
  lr_deviceId :: uid
  lr_sessionId :: uid
  lr_courseId :: "uid option"
  lr_lessonId :: "uid option"
  lr_freshId :: uid
  lr_now :: instant

definition requestKey :: "lease_request \<Rightarrow> string" where
  "requestKey q = leaseKey (lr_userId q) (lr_academyId q)"

definition newLease :: "lease_request \<Rightarrow> lease_holder" where
  "newLease q = \<lparr>lh_leaseId = lr_freshId q, lh_deviceId = lr_deviceId q, lh_sessionId = lr_sessionId q,
     lh_courseId = lr_courseId q, lh_lessonId = lr_lessonId q, lh_acquiredAt = lr_now q\<rparr>"

datatype lease_outcome = Acquired lease_holder | HeldByOther lease_holder | Unavailable

definition sameSession :: "lease_request \<Rightarrow> lease_holder \<Rightarrow> bool" where
  "sameSession q h \<longleftrightarrow> lh_deviceId h = lr_deviceId q \<and> lh_sessionId h = lr_sessionId q"

definition renewedLease :: "lease_request \<Rightarrow> lease_holder \<Rightarrow> lease_holder" where
  "renewedLease q h =
     h\<lparr>lh_courseId := (case lr_courseId q of Some c \<Rightarrow> Some c | None \<Rightarrow> lh_courseId h),
       lh_lessonId := (case lr_lessonId q of Some c \<Rightarrow> Some c | None \<Rightarrow> lh_lessonId h)\<rparr>"

text \<open>What \<open>acquire\<close> does once the key was found taken.\<close>

definition acquireTaken :: "lease_request \<Rightarrow> lease_outcome prog" where
  "acquireTaken q =
     GetC (requestKey q) (\<lambda>existing. case existing of
       None \<Rightarrow> Return Unavailable
     | Some None \<Rightarrow>
         SetNxC (requestKey q) (newLease q) (\<lambda>retaken. case retaken of
           None \<Rightarrow> Return Unavailable
         | Some True \<Rightarrow> Return (Acquired (newLease q))
         | Some False \<Rightarrow>
             GetC (requestKey q) (\<lambda>now. case now of
               Some (Some h) \<Rightarrow> Return (HeldByOther h)
             | _ \<Rightarrow> Return Unavailable))
     | Some (Some h) \<Rightarrow>
         if sameSession q h
         then SetC (requestKey q) (renewedLease q h) (\<lambda>ok.
                Return (if ok then Acquired (renewedLease q h) else Unavailable))
         else Return (HeldByOther h))"

definition acquire :: "lease_request \<Rightarrow> lease_outcome prog" where
  "acquire q =
     SetNxC (requestKey q) (newLease q) (\<lambda>taken. case taken of
       None \<Rightarrow> Return Unavailable
     | Some True \<Rightarrow> Return (Acquired (newLease q))
     | Some False \<Rightarrow> acquireTaken q)"

text \<open>A takeover whose write throws rejects: the result is \<open>None\<close>.\<close>

definition takeover :: "lease_request \<Rightarrow> (lease_holder option \<times> lease_holder) option prog" where
  "takeover q =
     GetC (requestKey q) (\<lambda>previous.
       SetC (requestKey q) (newLease q) (\<lambda>ok.
         Return (if ok then Some (case previous of Some p \<Rightarrow> p | None \<Rightarrow> None, newLease q) else None)))"

definition renew :: "uid \<Rightarrow> uid \<Rightarrow> uid \<Rightarrow> bool prog" where
  "renew userId academyId leaseId =
     GetC (leaseKey userId academyId) (\<lambda>existing. case existing of
       Some (Some h) \<Rightarrow>
         if lh_leaseId h \<noteq> leaseId then Return False
         else SetC (leaseKey userId academyId) h (\<lambda>ok. Return ok)
     | _ \<Rightarrow> Return False)"

definition release :: "uid \<Rightarrow> uid \<Rightarrow> uid \<Rightarrow> unit prog" where
  "release userId academyId leaseId =
     GetC (leaseKey userId academyId) (\<lambda>existing. case existing of
       Some (Some h) \<Rightarrow>
         if lh_leaseId h = leaseId then DelC (leaseKey userId academyId) (\<lambda>_. Return ()) else Return ()
     | _ \<Rightarrow> Return ())"

definition revokeAll :: "uid \<Rightarrow> uid \<Rightarrow> unit prog" where
  "revokeAll userId academyId = DelC (leaseKey userId academyId) (\<lambda>_. Return ())"

definition current :: "uid \<Rightarrow> uid \<Rightarrow> lease_holder option prog" where
  "current userId academyId =
     GetC (leaseKey userId academyId) (\<lambda>h. Return (case h of Some x \<Rightarrow> x | None \<Rightarrow> None))"

subsection \<open>Calls one at a time\<close>

lemma acquire_alone:
  assumes "redis_laws r"
  shows "runProg r ttl t (acquire q) s =
     (case r_get r s t (requestKey q) of
        None \<Rightarrow> (Acquired (newLease q), r_set r s t (requestKey q) (newLease q) ttl)
      | Some h \<Rightarrow>
          if sameSession q h
          then (Acquired (renewedLease q h), r_set r s t (requestKey q) (renewedLease q h) ttl)
          else (HeldByOther h, s))"
  by (simp add: acquire_def acquireTaken_def redis_setnx [OF assms] split: option.split)

lemma renew_alone:
  "runProg r ttl t (renew u ac lid) s =
     (case r_get r s t (leaseKey u ac) of
        None \<Rightarrow> (False, s)
      | Some h \<Rightarrow> if lh_leaseId h \<noteq> lid then (False, s) else (True, r_set r s t (leaseKey u ac) h ttl))"
  by (simp add: renew_def split: option.split)

lemma takeover_alone:
  "snd (runProg r ttl t (takeover q) s) = r_set r s t (requestKey q) (newLease q) ttl"
  by (simp add: takeover_def)

lemma release_alone:
  "snd (runProg r ttl t (release u ac lid) s) =
     (case r_get r s t (leaseKey u ac) of
        None \<Rightarrow> s
      | Some h \<Rightarrow> if lh_leaseId h = lid then r_del r s (leaseKey u ac) else s)"
  by (simp add: release_def split: option.split)

lemma revoke_alone: "snd (runProg r ttl t (revokeAll u ac) s) = r_del r s (leaseKey u ac)"
  by (simp add: revokeAll_def)

lemma current_alone: "snd (runProg r ttl t (current u ac) s) = s"
  by (simp add: current_def)

text \<open>Every operation of the service, by anybody, for any learner and academy.\<close>

datatype lease_call =
  AcquireCall lease_request
| TakeoverCall lease_request
| RenewCall uid uid uid
| ReleaseCall uid uid uid
| RevokeCall uid uid
| CurrentCall uid uid

definition callAt :: "'s redis_ops \<Rightarrow> int \<Rightarrow> instant \<times> lease_call \<Rightarrow> 's \<Rightarrow> 's" where
  "callAt r ttl = (\<lambda>(t, c) s. case c of
     AcquireCall q \<Rightarrow> snd (runProg r ttl t (acquire q) s)
   | TakeoverCall q \<Rightarrow> snd (runProg r ttl t (takeover q) s)
   | RenewCall u ac lid \<Rightarrow> snd (runProg r ttl t (renew u ac lid) s)
   | ReleaseCall u ac lid \<Rightarrow> snd (runProg r ttl t (release u ac lid) s)
   | RevokeCall u ac \<Rightarrow> snd (runProg r ttl t (revokeAll u ac) s)
   | CurrentCall u ac \<Rightarrow> snd (runProg r ttl t (current u ac) s))"

fun callsInOrder :: "'s redis_ops \<Rightarrow> int \<Rightarrow> (instant \<times> lease_call) list \<Rightarrow> 's \<Rightarrow> 's" where
  "callsInOrder r ttl [] s = s"
| "callsInOrder r ttl (c # cs) s = callsInOrder r ttl cs (callAt r ttl c s)"

text \<open>
  The contract of the lease, without the store. The session of \<open>q\<close> holds the lease \<open>lid\<close> until
  \<open>d\<close>; the next call leaves it until the result, or ends it (\<open>None\<close>). It is over once its
  deadline has passed; a takeover or a revocation of the same learner and academy and a release
  of this lease end it; a heartbeat with this lease, or the session asking again, start its
  lifetime anew; nothing else touches it.
\<close>

definition heldAfter :: "int \<Rightarrow> lease_request \<Rightarrow> uid \<Rightarrow> instant \<Rightarrow> instant \<times> lease_call \<Rightarrow> instant option" where
  "heldAfter ttl q lid d = (\<lambda>(t, c). if d \<le> t then None else (case c of
     AcquireCall p \<Rightarrow>
       if requestKey p = requestKey q \<and> lr_deviceId p = lr_deviceId q \<and> lr_sessionId p = lr_sessionId q
       then Some (t + 1000 * ttl) else Some d
   | TakeoverCall p \<Rightarrow> if requestKey p = requestKey q then None else Some d
   | RenewCall u ac i \<Rightarrow> if leaseKey u ac = requestKey q \<and> i = lid then Some (t + 1000 * ttl) else Some d
   | ReleaseCall u ac i \<Rightarrow> if leaseKey u ac = requestKey q \<and> i = lid then None else Some d
   | RevokeCall u ac \<Rightarrow> if leaseKey u ac = requestKey q then None else Some d
   | CurrentCall u ac \<Rightarrow> Some d))"

fun heldUntil ::
  "int \<Rightarrow> lease_request \<Rightarrow> uid \<Rightarrow> instant \<Rightarrow> (instant \<times> lease_call) list \<Rightarrow> instant option" where
  "heldUntil ttl q lid d [] = Some d"
| "heldUntil ttl q lid d (c # cs) =
     (case heldAfter ttl q lid d c of None \<Rightarrow> None | Some d' \<Rightarrow> heldUntil ttl q lid d' cs)"

text \<open>From \<open>from\<close> on, the store agrees: this lease of this session until \<open>d\<close>, nothing afterwards.\<close>

definition leaseHeld :: "'s redis_ops \<Rightarrow> lease_request \<Rightarrow> uid \<Rightarrow> instant \<Rightarrow> instant \<Rightarrow> 's \<Rightarrow> bool" where
  "leaseHeld r q lid d from s \<longleftrightarrow>
     (\<exists>h. lh_deviceId h = lr_deviceId q \<and> lh_sessionId h = lr_sessionId q \<and> lh_leaseId h = lid
        \<and> (\<forall>t\<ge>from. r_get r s t (requestKey q) = (if t < d then Some h else None)))"

lemma renewedLease_session [simp]:
  "lh_deviceId (renewedLease q h) = lh_deviceId h" "lh_sessionId (renewedLease q h) = lh_sessionId h"
  "lh_leaseId (renewedLease q h) = lh_leaseId h"
  by (simp_all add: renewedLease_def)

lemma set_held:
  assumes "redis_laws r" "lh_deviceId h = lr_deviceId q" "lh_sessionId h = lr_sessionId q" "lh_leaseId h = lid"
  shows "leaseHeld r q lid (t + 1000 * ttl) t (r_set r s t (requestKey q) h ttl)"
  using assms by (auto simp: leaseHeld_def redis_get_set)

lemma other_key_held:
  assumes "redis_laws r" "leaseHeld r q lid d t s" "k \<noteq> requestKey q"
  shows "leaseHeld r q lid d t (r_set r s t k v ttl)" "leaseHeld r q lid d t (r_del r s k)"
  using assms by (auto simp: leaseHeld_def redis_get_set redis_del)

lemma call_follows_contract:
  assumes laws: "redis_laws r" and h: "leaseHeld r q lid d from s" and t: "from \<le> t"
    and d': "heldAfter ttl q lid d (t, c) = Some d'"
  shows "leaseHeld r q lid d' t (callAt r ttl (t, c) s)"
proof -
  from h obtain x where x: "lh_deviceId x = lr_deviceId q" "lh_sessionId x = lr_sessionId q" "lh_leaseId x = lid"
      "\<forall>t'\<ge>from. r_get r s t' (requestKey q) = (if t' < d then Some x else None)"
    unfolding leaseHeld_def by blast
  have d: "t < d" using d' by (simp add: heldAfter_def split: if_splits)
  have g: "r_get r s t (requestKey q) = Some x" using x(4) t d by simp
  have same: "leaseHeld r q lid d t s" using x t unfolding leaseHeld_def by fastforce
  note held = same set_held [OF laws] other_key_held [OF laws same] x(1-3) g
  show ?thesis
  proof (cases c)
    case (AcquireCall p)
    with d d' held show ?thesis
      by (cases "requestKey p = requestKey q")
        (auto simp: callAt_def heldAfter_def acquire_alone [OF laws] sameSession_def split: option.split if_splits)
  next
    case (RenewCall u ac i)
    with d d' held show ?thesis
      by (cases "leaseKey u ac = requestKey q")
        (auto simp: callAt_def heldAfter_def renew_alone split: option.split if_splits)
  next
    case (ReleaseCall u ac i)
    with d d' held show ?thesis
      by (cases "leaseKey u ac = requestKey q")
        (auto simp: callAt_def heldAfter_def release_alone split: option.split if_splits)
  qed (use d d' held in \<open>auto simp: callAt_def heldAfter_def takeover_alone revoke_alone current_alone split: if_splits\<close>)
qed

lemma calls_follow_contract:
  assumes "redis_laws r" "leaseHeld r q lid d from s" "sorted (map fst calls)"
    and "list_all (\<lambda>c. from \<le> fst c \<and> fst c \<le> t) calls" "from \<le> t"
    and "heldUntil ttl q lid d calls = Some d'"
  shows "leaseHeld r q lid d' t (callsInOrder r ttl calls s)"
  using assms
proof (induction calls arbitrary: s "from" d)
  case Nil
  then show ?case unfolding leaseHeld_def by (auto intro: order_trans)
next
  case (Cons c cs)
  obtain t0 a where c: "c = (t0, a)" by force
  obtain d0 where d0: "heldAfter ttl q lid d (t0, a) = Some d0"
    using Cons.prems(6) by (auto simp: c split: option.splits)
  have k: "leaseHeld r q lid d0 t0 (callAt r ttl (t0, a) s)"
    by (rule call_follows_contract [OF Cons.prems(1,2) _ d0]) (use Cons.prems(4) c in simp)
  show ?case
    using Cons.IH [OF Cons.prems(1) k] Cons.prems d0 by (simp add: c list_all_iff)
qed

lemma acquired_is_held:
  assumes "redis_laws r" "runProg r ttl t (acquire q) s = (Acquired l, s')"
  shows "leaseHeld r q (lh_leaseId l) (t + 1000 * ttl) t s'"
  using assms(2) set_held [OF assms(1)]
  by (auto simp: acquire_alone [OF assms(1)] newLease_def sameSession_def split: option.splits if_splits)

text \<open>
  C13. One learning session at a time, as long as the calls themselves do not overlap. A session
  has got the lease at \<open>t\<close>, any calls of the service came afterwards, by anybody (requests for the
  lease, takeovers, heartbeats, releases, revocations and reads), and by the contract
  \<open>heldUntil\<close> the session still holds it until \<open>d\<close>: every own heartbeat or new request before the
  deadline moves it to one lifetime later, and what others do, short of a takeover or a
  revocation, moves nothing. Then up to \<open>d\<close> every other device or session that asks is
  answered "held by other" with this session and its lease, and a heartbeat is confirmed; from
  \<open>d\<close> on a heartbeat is refused and whoever asks first gets the lease.
\<close>

theorem lease_is_exclusive:
  assumes "redis_laws r" and "runProg r ttl t (acquire q) s = (Acquired l, s')"
    and "sorted (map fst calls)" "list_all (\<lambda>c. t \<le> fst c \<and> fst c \<le> t') calls" "t \<le> t'"
    and "heldUntil ttl q (lh_leaseId l) (t + 1000 * ttl) calls = Some d"
    and "requestKey q' = requestKey q"
    and "(lr_deviceId q', lr_sessionId q') \<noteq> (lr_deviceId q, lr_sessionId q)"
  shows "(\<exists>h. lh_deviceId h = lr_deviceId q \<and> lh_sessionId h = lr_sessionId q \<and> lh_leaseId h = lh_leaseId l
            \<and> fst (runProg r ttl t' (acquire q') (callsInOrder r ttl calls s'))
                = (if t' < d then HeldByOther h else Acquired (newLease q')))
       \<and> fst (runProg r ttl t' (renew (lr_userId q) (lr_academyId q) (lh_leaseId l)) (callsInOrder r ttl calls s'))
           = (t' < d)"
proof -
  have "leaseHeld r q (lh_leaseId l) d t' (callsInOrder r ttl calls s')"
    by (rule calls_follow_contract [OF assms(1) acquired_is_held [OF assms(1,2)] assms(3,4,5,6)])
  then obtain h where h: "lh_deviceId h = lr_deviceId q" "lh_sessionId h = lr_sessionId q"
      "lh_leaseId h = lh_leaseId l"
      "r_get r (callsInOrder r ttl calls s') t' (requestKey q) = (if t' < d then Some h else None)"
    unfolding leaseHeld_def by blast
  have "\<not> sameSession q' h" using assms(8) h(1,2) by (auto simp: sameSession_def)
  with h show ?thesis
    by (intro conjI exI [of _ h])
      (simp_all add: acquire_alone [OF assms(1)] renew_alone assms(7) requestKey_def [symmetric])
qed

definition laptop :: lease_request where
  "laptop = \<lparr>lr_userId = ''u'', lr_academyId = ''a'', lr_deviceId = ''laptop'', lr_sessionId = ''s1'',
     lr_courseId = None, lr_lessonId = None, lr_freshId = ''l1'', lr_now = 0\<rparr>"

definition phone :: lease_request where
  "phone = laptop\<lparr>lr_deviceId := ''phone'', lr_sessionId := ''s2'', lr_freshId := ''l2''\<rparr>"

text \<open>
  Taken at 20 s; the phone asks, its owner releases another lease, and the laptop's heartbeats at
  40 s and 90 s keep the lease until 150 s.
\<close>

definition lessonCalls :: "(instant \<times> lease_call) list" where
  "lessonCalls = [(30000, AcquireCall phone), (40000, RenewCall ''u'' ''a'' ''l1''),
     (50000, ReleaseCall ''u'' ''a'' ''l2''), (90000, RenewCall ''u'' ''a'' ''l1'')]"

lemma lease_is_exclusive_witness:
  "(\<exists>h. lh_sessionId h = ''s1'' \<and> fst (runProg ttl_map 60 149000 (acquire phone)
      (callsInOrder ttl_map 60 lessonCalls (snd (runProg ttl_map 60 20000 (acquire laptop) Map.empty))))
        = HeldByOther h)
   \<and> fst (runProg ttl_map 60 150000 (acquire phone)
      (callsInOrder ttl_map 60 lessonCalls (snd (runProg ttl_map 60 20000 (acquire laptop) Map.empty))))
        = Acquired (newLease phone)"
proof -
  let ?s = "snd (runProg ttl_map 60 20000 (acquire laptop) Map.empty)"
  have a: "runProg ttl_map 60 20000 (acquire laptop) Map.empty = (Acquired (newLease laptop), ?s)"
    by (simp add: acquire_alone [OF ttl_map_laws]) (simp add: ttl_map_def)
  have f: "requestKey phone = requestKey laptop"
      "(lr_deviceId phone, lr_sessionId phone) \<noteq> (lr_deviceId laptop, lr_sessionId laptop)"
    by (simp_all add: laptop_def phone_def requestKey_def)
  have u: "heldUntil 60 laptop (lh_leaseId (newLease laptop)) (20000 + 1000 * 60) lessonCalls = Some 150000"
    by (simp add: lessonCalls_def heldAfter_def laptop_def phone_def requestKey_def newLease_def)
  have c: "sorted (map fst lessonCalls)" "list_all (\<lambda>c. 20000 \<le> fst c \<and> fst c \<le> 149000) lessonCalls"
      "list_all (\<lambda>c. 20000 \<le> fst c \<and> fst c \<le> 150000) lessonCalls"
    by (simp_all add: lessonCalls_def)
  show ?thesis
    using lease_is_exclusive [OF ttl_map_laws a c(1,2) _ u f] lease_is_exclusive [OF ttl_map_laws a c(1,3) _ u f]
    by (auto simp: laptop_def)
qed

subsection \<open>Overlapping calls\<close>

text \<open>
  A heartbeat that overlaps a takeover undoes it. \<open>renew\<close> reads the lease and then writes it back
  without a condition. When the takeover's two commands run in between, the
  takeover reports the lease as moved, the heartbeat reports success, and the lease is the
  old holder's again: the stale client has resurrected the lease it lost.
\<close>

theorem stale_heartbeat_undoes_takeover:
  assumes "redis_laws r" and "r_get r s t (requestKey q) = Some h" and "t \<le> t'" "t' < t + 1000 * ttl"
  shows "interleave r ttl [(0, True, t), (1, True, t), (1, True, t), (0, True, t)] s
            [map_prog Inl (renew (lr_userId q) (lr_academyId q) (lh_leaseId h)), map_prog Inr (takeover q)]
         = (r_set r (r_set r s t (requestKey q) (newLease q) ttl) t (requestKey q) h ttl,
            [Return (Inl True), Return (Inr (Some (Some h, newLease q)))])
       \<and> r_get r (r_set r (r_set r s t (requestKey q) (newLease q) ttl) t (requestKey q) h ttl) t' (requestKey q)
           = Some h"
  using assms(2-4)
  by (simp add: renew_def takeover_def requestKey_def redis_get_set [OF assms(1)] comp_def)

lemma stale_heartbeat_undoes_takeover_witness:
  "\<exists>s. r_get ttl_map s 20000 (requestKey phone) = Some (newLease laptop)
     \<and> snd (interleave ttl_map 60 [(0, True, 20000), (1, True, 20000), (1, True, 20000), (0, True, 20000)] s
         [map_prog Inl (renew ''u'' ''a'' ''l1''), map_prog Inr (takeover phone)])
       = [Return (Inl True), Return (Inr (Some (Some (newLease laptop), newLease phone)))]"
proof -
  let ?s = "[requestKey phone \<mapsto> (newLease laptop, 60000)]"
  have g: "r_get ttl_map ?s 20000 (requestKey phone) = Some (newLease laptop)" by (simp add: ttl_map_def)
  from stale_heartbeat_undoes_takeover [OF ttl_map_laws this, of 20000 60] g show ?thesis
    by (intro exI [of _ ?s]) (simp add: phone_def laptop_def newLease_def)
qed

text \<open>
  The renewal of \<open>acquire\<close> has the same gap: the lease may expire between its read and its
  write, another session may take it, and both are told they hold it.
\<close>

lemma expired_renewal_grants_twice:
  assumes "redis_laws r" and "r_get r s t (requestKey q) = Some h" "sameSession q h"
    and "r_get r s t' (requestKey q) = None" and "requestKey q' = requestKey q"
  shows "snd (interleave r ttl [(0, True, t), (0, True, t), (1, True, t'), (0, True, t')] s [acquire q, acquire q'])
         = [Return (Acquired (renewedLease q h)), Return (Acquired (newLease q'))]"
  using assms(2-5) by (simp add: acquire_def acquireTaken_def redis_setnx [OF assms(1)])

subsection \<open>Every call finishes\<close>

text \<open>At most \<open>n\<close> commands remain, whatever the replies.\<close>

primrec returnsWithin :: "'a prog \<Rightarrow> nat \<Rightarrow> bool" where
  "returnsWithin (Return x) = (\<lambda>n. True)"
| "returnsWithin (GetC k f) = (\<lambda>n. n > 0 \<and> (\<forall>x. returnsWithin (f x) (n - 1)))"
| "returnsWithin (SetC k v f) = (\<lambda>n. n > 0 \<and> (\<forall>x. returnsWithin (f x) (n - 1)))"
| "returnsWithin (SetNxC k v f) = (\<lambda>n. n > 0 \<and> (\<forall>x. returnsWithin (f x) (n - 1)))"
| "returnsWithin (DelC k f) = (\<lambda>n. n > 0 \<and> (\<forall>x. returnsWithin (f x) (n - 1)))"

lemma command_progress:
  "returnsWithin p n \<Longrightarrow> returnsWithin (snd (execCommand r ttl up t s p)) (n - 1)"
  by (cases p) (auto split: prod.split)

lemma interleave_length [simp]: "length (snd (interleave r ttl sched s ps)) = length ps"
  by (induction r ttl sched s ps rule: interleave.induct) (auto split: prod.split)

lemma interleave_progress:
  assumes "i < length ps" "returnsWithin (ps ! i) n"
  shows "returnsWithin (snd (interleave r ttl sched s ps) ! i) (n - length (filter (\<lambda>(j, _). j = i) sched))"
  using assms
proof (induction sched arbitrary: s ps n)
  case (Cons c sched)
  obtain j up t where c: "c = (j, up, t)" by (cases c) auto
  show ?case
  proof (cases "j < length ps")
    case True
    obtain s' p where e: "execCommand r ttl up t s (ps ! j) = (s', p)" by force
    have "returnsWithin (ps[j := p] ! i) (if j = i then n - 1 else n)"
      using Cons.prems command_progress [of "ps ! i" n r ttl up t s] e True by auto
    from Cons.IH [OF _ this, of s'] Cons.prems(1)
    have "returnsWithin (snd (interleave r ttl sched s' (ps[j := p])) ! i)
        ((if j = i then n - 1 else n) - length (filter (\<lambda>(j, _). j = i) sched))" by simp
    moreover have "interleave r ttl (c # sched) s ps = interleave r ttl sched s' (ps[j := p])"
      by (simp add: c True e)
    moreover have "n - length (filter (\<lambda>(j, _). j = i) (c # sched)) =
        (if j = i then n - 1 else n) - length (filter (\<lambda>(j, _). j = i) sched)"
      by (simp add: c)
    ultimately show ?thesis by simp
  next
    case False
    with Cons show ?thesis by (auto simp: c)
  qed
qed simp

lemma returned: "returnsWithin p 0 \<Longrightarrow> \<exists>x. p = Return x"
  by (cases p) simp_all

lemma acquire_returns: "returnsWithin (acquire q) 4"
  unfolding acquire_def acquireTaken_def by (simp add: split_option_all all_bool_eq)

lemma acquire_answers:
  assumes "i < length ps" "ps ! i = acquire q" "4 \<le> length (filter (\<lambda>(j, _). j = i) sched)"
  shows "\<exists>out. snd (interleave r ttl sched s ps) ! i = Return out"
proof -
  have "returnsWithin (snd (interleave r ttl sched s ps) ! i) (4 - length (filter (\<lambda>(j, _). j = i) sched))"
    by (rule interleave_progress [OF assms(1)]) (simp add: assms(2) acquire_returns)
  with assms(3) show ?thesis by (intro returned) simp
qed

subsection \<open>A race for the free lease\<close>

text \<open>What everybody is told in a race that client \<open>w\<close> wins.\<close>

definition raceAnswer :: "nat \<Rightarrow> lease_request list \<Rightarrow> nat \<Rightarrow> lease_outcome" where
  "raceAnswer w qs i = (if i = w then Acquired (newLease (qs ! w)) else HeldByOther (newLease (qs ! w)))"

text \<open>Nobody has got through yet; \<open>fails\<close> says whether the connection may break.\<close>

definition raceOpen :: "'s redis_ops \<Rightarrow> string \<Rightarrow> lease_request list \<Rightarrow> bool \<Rightarrow> instant \<Rightarrow> 's \<Rightarrow>
    lease_outcome prog list \<Rightarrow> bool" where
  "raceOpen r k qs fails from s ps \<longleftrightarrow>
     length ps = length qs \<and> (\<forall>t\<ge>from. r_get r s t k = None)
   \<and> (\<forall>i<length qs. ps ! i = acquire (qs ! i) \<or> (fails \<and> ps ! i = Return Unavailable))"

text \<open>Client \<open>w\<close> has the lease; the others have asked, are about to look, or have their answer.\<close>

definition raceWon :: "'s redis_ops \<Rightarrow> string \<Rightarrow> lease_request list \<Rightarrow> bool \<Rightarrow> nat \<Rightarrow> instant \<Rightarrow> instant \<Rightarrow> 's \<Rightarrow>
    lease_outcome prog list \<Rightarrow> bool" where
  "raceWon r k qs fails w from until s ps \<longleftrightarrow>
     length ps = length qs \<and> w < length qs
   \<and> (\<forall>t. from \<le> t \<and> t < until \<longrightarrow> r_get r s t k = Some (newLease (qs ! w)))
   \<and> ps ! w = Return (raceAnswer w qs w)
   \<and> (\<forall>i<length qs. i \<noteq> w \<longrightarrow> ps ! i = acquire (qs ! i) \<or> ps ! i = acquireTaken (qs ! i)
        \<or> (fails \<and> ps ! i = Return Unavailable) \<or> ps ! i = Return (raceAnswer w qs i))"

lemma race_step_open:
  assumes laws: "redis_laws r" and k: "list_all (\<lambda>q. requestKey q = k) qs"
    and I: "raceOpen r k qs fails from s ps" and t: "from \<le> t" "until \<le> t + 1000 * ttl"
    and i: "i < length ps" and up: "up \<or> fails" and e: "execCommand r ttl up t s (ps ! i) = (s', p)"
  shows "raceOpen r k qs fails t s' (ps[i := p]) \<or> raceWon r k qs fails i t until s' (ps[i := p])"
proof -
  have n: "length ps = length qs" "r_get r s t k = None" "requestKey (qs ! i) = k"
    using I t k i by (auto simp: raceOpen_def list_all_length)
  show ?thesis
  proof (cases "ps ! i = acquire (qs ! i) \<and> up")
    case True
    then have "s' = r_set r s t k (newLease (qs ! i)) ttl" "p = Return (raceAnswer i qs i)"
      using e n by (auto simp: acquire_def redis_setnx [OF laws] raceAnswer_def)
    then have "raceWon r k qs fails i t until s' (ps[i := p])"
      using I i t n by (auto simp: raceWon_def raceOpen_def nth_list_update redis_get_set [OF laws])
    then show ?thesis ..
  next
    case False
    then have "s' = s" "p = Return Unavailable" fails
      using e I i n up by (auto simp: raceOpen_def acquire_def)
    then have "raceOpen r k qs fails t s' (ps[i := p])"
      using I t n i by (auto simp: raceOpen_def nth_list_update)
    then show ?thesis ..
  qed
qed

lemma other_session:
  assumes "distinct (map (\<lambda>q. (lr_deviceId q, lr_sessionId q)) qs)" "i < length qs" "w < length qs" "i \<noteq> w"
  shows "\<not> sameSession (qs ! i) (newLease (qs ! w))"
  using assms nth_eq_iff_index_eq [of "map (\<lambda>q. (lr_deviceId q, lr_sessionId q)) qs" i w]
  by (auto simp: sameSession_def newLease_def)

lemma race_step_won:
  assumes laws: "redis_laws r" and k: "list_all (\<lambda>q. requestKey q = k) qs"
    and d: "distinct (map (\<lambda>q. (lr_deviceId q, lr_sessionId q)) qs)"
    and I: "raceWon r k qs fails w from until s ps" and t: "from \<le> t" "t < until"
    and i: "i < length ps" and up: "up \<or> fails" and e: "execCommand r ttl up t s (ps ! i) = (s', p)"
  shows "raceWon r k qs fails w t until s' (ps[i := p])"
proof -
  have n: "length ps = length qs" "w < length qs" "r_get r s t k = Some (newLease (qs ! w))" "requestKey (qs ! i) = k"
    using I t k i by (auto simp: raceWon_def list_all_length)
  have o: "s' = s \<and> (if i = w then p = ps ! w
      else p = acquireTaken (qs ! i) \<or> (fails \<and> p = Return Unavailable) \<or> p = Return (raceAnswer w qs i))"
  proof (cases "i = w")
    case False
    then have "ps ! i = acquire (qs ! i) \<or> ps ! i = acquireTaken (qs ! i)
        \<or> (fails \<and> ps ! i = Return Unavailable) \<or> ps ! i = Return (raceAnswer w qs i)"
      using I i n by (auto simp: raceWon_def)
    then show ?thesis
      using e up False n other_session [OF d, of i w] i
      by (elim disjE) (auto simp: acquire_def acquireTaken_def redis_setnx [OF laws] raceAnswer_def split: if_splits)
  qed (use e I in \<open>auto simp: raceWon_def\<close>)
  then show ?thesis using I i n t by (auto simp: raceWon_def nth_list_update)
qed

lemma race_stays_won:
  assumes "redis_laws r" "list_all (\<lambda>q. requestKey q = k) qs"
    and "distinct (map (\<lambda>q. (lr_deviceId q, lr_sessionId q)) qs)"
    and "raceWon r k qs fails w from until s ps"
    and "sorted (map (\<lambda>(_, _, t). t) sched)" "list_all (\<lambda>(_, up, t). (up \<or> fails) \<and> from \<le> t \<and> t < until) sched"
  shows "\<exists>from'. raceWon r k qs fails w from' until (fst (interleave r ttl sched s ps)) (snd (interleave r ttl sched s ps))"
  using assms
proof (induction sched arbitrary: s ps "from")
  case (Cons c sched)
  obtain i up t where c: "c = (i, up, t)" by (cases c) auto
  show ?case
  proof (cases "i < length ps")
    case True
    obtain s' p where e: "execCommand r ttl up t s (ps ! i) = (s', p)" by force
    have "raceWon r k qs fails w t until s' (ps[i := p])"
      by (rule race_step_won [OF Cons.prems(1-4) _ _ True _ e]) (use Cons.prems(6) c in auto)
    moreover have "list_all (\<lambda>(_, up, t'). (up \<or> fails) \<and> t \<le> t' \<and> t' < until) sched"
      using Cons.prems(5,6) by (fastforce simp: c list_all_iff)
    ultimately show ?thesis using Cons.IH [OF Cons.prems(1-3)] Cons.prems(5) by (simp add: c True e)
  next
    case False
    with Cons show ?thesis by (auto simp: c)
  qed
qed auto

lemma race_runs:
  assumes "redis_laws r" "list_all (\<lambda>q. requestKey q = k) qs"
    and "distinct (map (\<lambda>q. (lr_deviceId q, lr_sessionId q)) qs)"
    and "raceOpen r k qs fails from s ps" "0 < ttl"
    and "sorted (map (\<lambda>(_, _, t). t) sched)"
    and "list_all (\<lambda>(_, up, t). (up \<or> fails) \<and> from \<le> t \<and> start \<le> t \<and> t < start + 1000 * ttl) sched"
  shows "\<exists>from'. raceOpen r k qs fails from' (fst (interleave r ttl sched s ps)) (snd (interleave r ttl sched s ps))
       \<or> (\<exists>w until. raceWon r k qs fails w from' until (fst (interleave r ttl sched s ps)) (snd (interleave r ttl sched s ps)))"
  using assms
proof (induction sched arbitrary: s ps "from")
  case (Cons c sched)
  obtain i up t where c: "c = (i, up, t)" by (cases c) auto
  show ?case
  proof (cases "i < length ps")
    case True
    obtain s' p where e: "execCommand r ttl up t s (ps ! i) = (s', p)" by force
    have later: "list_all (\<lambda>(_, up, t'). (up \<or> fails) \<and> t \<le> t' \<and> start \<le> t' \<and> t' < start + 1000 * ttl) sched"
      using Cons.prems(6,7) by (fastforce simp: c list_all_iff)
    have "raceOpen r k qs fails t s' (ps[i := p])
        \<or> raceWon r k qs fails i t (start + 1000 * ttl) s' (ps[i := p])"
      by (rule race_step_open [OF Cons.prems(1,2,4) _ _ True _ e]) (use Cons.prems(7) c in auto)
    then show ?thesis
    proof
      assume "raceOpen r k qs fails t s' (ps[i := p])"
      from Cons.IH [OF Cons.prems(1-3) this Cons.prems(5) _ later] Cons.prems(6) show ?thesis
        by (simp add: c True e)
    next
      assume "raceWon r k qs fails i t (start + 1000 * ttl) s' (ps[i := p])"
      moreover have "list_all (\<lambda>(_, up, t'). (up \<or> fails) \<and> t \<le> t' \<and> t' < start + 1000 * ttl) sched"
        using later by (auto simp: list_all_iff)
      ultimately show ?thesis using race_stays_won [OF Cons.prems(1-3)] Cons.prems(6) by (fastforce simp: c True e)
    qed
  next
    case False
    with Cons show ?thesis by (auto simp: c)
  qed
qed auto

text \<open>
  C14. Any number of sessions of one learner ask for the lease, which nobody holds, at the same
  time: their Redis commands interleave in any way, within one lifetime, and the connection may
  fail at any of them (\<open>fails\<close>). Every request whose four commands have run has its answer. There
  is one winner: everybody who is answered is told that the winner holds the lease (the winner
  itself that it has it), or that the store is unavailable, which happens only if the connection
  does fail. So no two requests get the lease, and with a working connection exactly one does.
\<close>

theorem race_has_one_winner:
  assumes "redis_laws r" "qs \<noteq> []" "list_all (\<lambda>q. requestKey q = k) qs"
    and "distinct (map (\<lambda>q. (lr_deviceId q, lr_sessionId q)) qs)"
    and "\<forall>t\<ge>start. r_get r s t k = None"
    and "sorted (map (\<lambda>(_, _, t). t) sched)"
    and "list_all (\<lambda>(_, up, t). (up \<or> fails) \<and> start \<le> t \<and> t < start + 1000 * ttl) sched"
  shows "\<exists>w<length qs. \<forall>i<length qs.
       (4 \<le> length (filter (\<lambda>(j, _). j = i) sched) \<longrightarrow>
          (\<exists>out. snd (interleave r ttl sched s (map acquire qs)) ! i = Return out))
     \<and> (\<forall>out. snd (interleave r ttl sched s (map acquire qs)) ! i = Return out \<longrightarrow>
          out = raceAnswer w qs i \<or> (fails \<and> out = Unavailable))"
proof -
  let ?fin = "snd (interleave r ttl sched s (map acquire qs))"
  have ans: "\<exists>out. ?fin ! i = Return out" if "i < length qs" "4 \<le> length (filter (\<lambda>(j, _). j = i) sched)" for i
    by (rule acquire_answers [of i _ "qs ! i"]) (use that in simp_all)
  have "\<exists>w<length qs. \<forall>i<length qs. \<forall>out. ?fin ! i = Return out \<longrightarrow>
      out = raceAnswer w qs i \<or> (fails \<and> out = Unavailable)"
  proof (cases "sched = []")
    case True
    have "0 < length qs" using assms(2) by simp
    then show ?thesis using True by (intro exI [of _ 0]) (auto simp: acquire_def)
  next
    case False
    then have ttl: "0 < ttl" using assms(7) by (cases sched) auto
    have "raceOpen r k qs fails start s (map acquire qs)" using assms(5) by (auto simp: raceOpen_def)
    from race_runs [OF assms(1,3,4) this ttl assms(6), of start] assms(7)
    obtain from' where "raceOpen r k qs fails from' (fst (interleave r ttl sched s (map acquire qs))) ?fin
        \<or> (\<exists>w until. raceWon r k qs fails w from' until (fst (interleave r ttl sched s (map acquire qs))) ?fin)"
      by (auto simp: list_all_iff)
    then show ?thesis
    proof
      assume o: "raceOpen r k qs fails from' (fst (interleave r ttl sched s (map acquire qs))) ?fin"
      have "0 < length qs" using assms(2) by simp
      with o show ?thesis by (intro exI [of _ 0]) (fastforce simp: raceOpen_def acquire_def)
    next
      assume "\<exists>w until. raceWon r k qs fails w from' until (fst (interleave r ttl sched s (map acquire qs))) ?fin"
      then show ?thesis by (fastforce simp: raceWon_def acquire_def acquireTaken_def)
    qed
  qed
  with ans show ?thesis by blast
qed

text \<open>The laptop and the phone ask together; the phone's command comes first.\<close>

definition twoAsk :: "(nat \<times> bool \<times> instant) list" where
  "twoAsk = [(1, True, 1), (0, True, 2), (0, True, 3), (0, True, 4), (1, True, 5), (0, True, 6),
     (1, True, 7), (1, True, 8)]"

theorem race_has_one_winner_witness:
  "\<exists>w<2. (\<exists>out. snd (interleave ttl_map 60 twoAsk Map.empty [acquire laptop, acquire phone]) ! 0 = Return out
      \<and> out = raceAnswer w [laptop, phone] 0)
    \<and> (\<exists>out. snd (interleave ttl_map 60 twoAsk Map.empty [acquire laptop, acquire phone]) ! 1 = Return out
      \<and> out = raceAnswer w [laptop, phone] 1)"
proof -
  have q: "[laptop, phone] \<noteq> []" "list_all (\<lambda>q. requestKey q = requestKey laptop) [laptop, phone]"
    "distinct (map (\<lambda>q. (lr_deviceId q, lr_sessionId q)) [laptop, phone])"
    "\<forall>t\<ge>0. r_get ttl_map Map.empty t (requestKey laptop) = None"
    by (simp_all add: laptop_def phone_def requestKey_def ttl_map_def)
  have sched: "sorted (map (\<lambda>(_, _, t). t) twoAsk)"
    "list_all (\<lambda>(_, up, t). (up \<or> False) \<and> 0 \<le> t \<and> t < 0 + 1000 * 60) twoAsk"
    "4 \<le> length (filter (\<lambda>(j, _). j = 0) twoAsk)" "4 \<le> length (filter (\<lambda>(j, _). j = 1) twoAsk)"
    by (simp_all add: twoAsk_def)
  obtain w where w: "w < length [laptop, phone]"
    and a: "\<forall>i<length [laptop, phone]. (4 \<le> length (filter (\<lambda>(j, _). j = i) twoAsk) \<longrightarrow>
        (\<exists>out. snd (interleave ttl_map 60 twoAsk Map.empty (map acquire [laptop, phone])) ! i = Return out))
      \<and> (\<forall>out. snd (interleave ttl_map 60 twoAsk Map.empty (map acquire [laptop, phone])) ! i = Return out \<longrightarrow>
          out = raceAnswer w [laptop, phone] i \<or> (False \<and> out = Unavailable))"
    using race_has_one_winner [OF ttl_map_laws q sched(1,2)] by blast
  have l: "w < 2" "0 < length [laptop, phone]" "1 < length [laptop, phone]" "map acquire [laptop, phone] = [acquire laptop, acquire phone]"
    using w by simp_all
  from a [rule_format, OF l(2)] a [rule_format, OF l(3)] sched(3,4) l(1) show ?thesis
    unfolding l(4) by blast
qed

end
