(* ===== verification/Learning_Access.thy ===== *)
theory Learning_Access
  imports Atlas_Prelude
begin

text \<open>
  Who may read, take, author and review a course (\<open>learning/services/learning-access.util.ts\<close>).
  The tables are lists of rows; the repositories' lookups are finds.
\<close>

subsection \<open>Rows\<close>

datatype enrollment_status = en_available | en_pending | en_enrolled | en_completed | en_unavailable

record enrollment =
  er_id :: uid
  er_studentId :: uid
  er_courseId :: uid
  er_academyId :: uid
  er_enrollmentStatus :: enrollment_status
  er_revokedAt :: "instant option"
  er_expiresAt :: "instant option"

datatype member_status = ms_active | ms_inactive | ms_pending

record academy_student =
  as_academyId :: uid
  as_userId :: uid
  as_status :: member_status
  as_blockedAt :: "instant option"

datatype member_role = role_owner | role_administrator | role_manager | role_instructor | role_staff

record academy_member =
  am_academyId :: uid
  am_userId :: uid
  am_status :: member_status
  am_role :: member_role

record access_tables =
  tb_enrollments :: "enrollment list"
  tb_students :: "academy_student list"
  tb_members :: "academy_member list"
  tb_instructors :: "(uid \<times> uid) list"
  tb_courses :: "(uid \<times> uid) list"

subsection \<open>Lookups\<close>

definition ACTIVE_ENROLLMENT_STATUSES :: "enrollment_status list" where
  "ACTIVE_ENROLLMENT_STATUSES = [en_enrolled, en_completed]"

definition MANAGING_ROLES :: "member_role list" where
  "MANAGING_ROLES = [role_owner, role_administrator, role_manager]"

definition findEnrollment :: "access_tables \<Rightarrow> uid \<Rightarrow> uid \<Rightarrow> enrollment option" where
  "findEnrollment tb student course =
     find (\<lambda>e. er_studentId e = student \<and> er_courseId e = course) (tb_enrollments tb)"

definition findStudent :: "access_tables \<Rightarrow> uid \<Rightarrow> uid \<Rightarrow> academy_student option" where
  "findStudent tb academy user =
     find (\<lambda>m. as_academyId m = academy \<and> as_userId m = user) (tb_students tb)"

definition findActiveMember :: "access_tables \<Rightarrow> uid \<Rightarrow> uid \<Rightarrow> academy_member option" where
  "findActiveMember tb academy user =
     find (\<lambda>m. am_academyId m = academy \<and> am_userId m = user \<and> am_status m = ms_active) (tb_members tb)"

definition isInstructor :: "access_tables \<Rightarrow> uid \<Rightarrow> uid \<Rightarrow> bool" where
  "isInstructor tb course user \<longleftrightarrow> List.member (tb_instructors tb) (course, user)"

subsection \<open>The rules\<close>

definition isEnrollmentActive :: "enrollment \<Rightarrow> instant \<Rightarrow> bool" where
  "isEnrollmentActive e now =
     (if \<not> List.member ACTIVE_ENROLLMENT_STATUSES (er_enrollmentStatus e) then False
      else if er_revokedAt e \<noteq> None then False
      else (case er_expiresAt e of Some x \<Rightarrow> \<not> x \<le> now | None \<Rightarrow> True))"

definition membershipLive :: "academy_student option \<Rightarrow> bool" where
  "membershipLive m = (case m of None \<Rightarrow> False | Some x \<Rightarrow> as_status x = ms_active \<and> as_blockedAt x = None)"

definition assertActiveEnrollment :: "access_tables \<Rightarrow> uid \<Rightarrow> uid \<Rightarrow> instant \<Rightarrow> enrollment outcome" where
  "assertActiveEnrollment tb student course now =
     (case findEnrollment tb student course of
        None \<Rightarrow> throw NotFoundException ''errors.notFound''
      | Some e \<Rightarrow>
          if \<not> isEnrollmentActive e now then throw NotFoundException ''errors.notFound''
          else if \<not> membershipLive (findStudent tb (er_academyId e) student)
          then throw NotFoundException ''errors.notFound''
          else Inr e)"

text \<open>\<open>reviewers\<close> says whether the caller passed the two repositories of the review tier.\<close>

definition assertCourseReadAccess :: "access_tables \<Rightarrow> bool \<Rightarrow> uid \<Rightarrow> uid \<Rightarrow> instant \<Rightarrow> unit outcome" where
  "assertCourseReadAccess tb reviewers user course now =
     (let hasActiveEnrollment =
            (case findEnrollment tb user course of
               None \<Rightarrow> False
             | Some e \<Rightarrow> isEnrollmentActive e now \<and> membershipLive (findStudent tb (er_academyId e) user))
      in if hasActiveEnrollment \<or> isInstructor tb course user then Inr ()
         else if reviewers
              \<and> (case map_of (tb_courses tb) course of
                   None \<Rightarrow> False
                 | Some academy \<Rightarrow>
                     (case findActiveMember tb academy user of
                        None \<Rightarrow> False
                      | Some m \<Rightarrow> am_status m = ms_active \<and> List.member MANAGING_ROLES (am_role m)))
         then Inr ()
         else throw NotFoundException ''errors.notFound'')"

definition assertCanAuthorCourseContent :: "access_tables \<Rightarrow> uid \<Rightarrow> uid \<Rightarrow> uid outcome" where
  "assertCanAuthorCourseContent tb user course =
     (case map_of (tb_courses tb) course of
        None \<Rightarrow> throw NotFoundException ''errors.notFound''
      | Some academy \<Rightarrow>
          (let canManage = (case findActiveMember tb academy user of
                              None \<Rightarrow> False | Some m \<Rightarrow> List.member MANAGING_ROLES (am_role m))
           in if \<not> canManage \<and> \<not> isInstructor tb course user
              then throw NotFoundException ''errors.notFound'' else Inr academy))"

definition assertCanReviewCourse :: "access_tables \<Rightarrow> uid \<Rightarrow> uid \<Rightarrow> (uid \<times> member_role) outcome" where
  "assertCanReviewCourse tb user course =
     (case map_of (tb_courses tb) course of
        None \<Rightarrow> throw NotFoundException ''errors.notFound''
      | Some academy \<Rightarrow>
          if isInstructor tb course user then Inr (academy, role_instructor)
          else (case findActiveMember tb academy user of
                  None \<Rightarrow> throw NotFoundException ''errors.notFound''
                | Some m \<Rightarrow>
                    if am_status m = ms_active \<and> List.member MANAGING_ROLES (am_role m)
                    then Inr (academy, am_role m)
                    else throw NotFoundException ''errors.notFound''))"

subsection \<open>How the rules relate\<close>

lemma isEnrollmentActive_iff:
  "isEnrollmentActive e now \<longleftrightarrow>
     (er_enrollmentStatus e = en_enrolled \<or> er_enrollmentStatus e = en_completed)
     \<and> er_revokedAt e = None \<and> (\<forall>x. er_expiresAt e = Some x \<longrightarrow> now < x)"
  by (auto simp: isEnrollmentActive_def ACTIVE_ENROLLMENT_STATUSES_def split: option.splits)

lemma enrollment_never_reactivates:
  "isEnrollmentActive e later \<Longrightarrow> now \<le> later \<Longrightarrow> isEnrollmentActive e now"
  by (auto simp: isEnrollmentActive_iff)

lemma active_enrollment_reads:
  "assertActiveEnrollment tb user course now = Inr e \<Longrightarrow> assertCourseReadAccess tb b user course now = Inr ()"
  by (auto simp: assertActiveEnrollment_def assertCourseReadAccess_def split: option.splits if_splits)

lemma findActiveMember_active: "findActiveMember tb ac user = Some m \<Longrightarrow> am_status m = ms_active"
  by (auto simp: findActiveMember_def find_Some_iff)

text \<open>Authoring and reviewing a course are the same permission, with the same academy.\<close>

lemma author_iff_reviewer:
  "assertCanAuthorCourseContent tb user course = Inr academy \<longleftrightarrow>
     (\<exists>role. assertCanReviewCourse tb user course = Inr (academy, role))"
  by (auto simp: assertCanAuthorCourseContent_def assertCanReviewCourse_def findActiveMember_active
      split: option.splits if_splits)

lemma reviewer_reads:
  "assertCanReviewCourse tb user course = Inr c \<Longrightarrow> assertCourseReadAccess tb True user course now = Inr ()"
  by (auto simp: assertCanReviewCourse_def assertCourseReadAccess_def Let_def split: option.splits if_splits)

end
