(* ===== verification/Course_Completion.thy ===== *)
theory Course_Completion
  imports Quiz_Attempts Learning_Access
begin

text \<open>
  Course completion: the rule and its evaluation
  (\<open>learning/services/completion-rule.util.ts\<close>), the evidence and what \<open>recompute\<close> stores
  (\<open>learning/services/course-completion.service.ts\<close>), the learning state and the completion
  state shown with it (\<open>learning/utils/learning-state.util.ts\<close>,
  \<open>learning/services/progress-computation.util.ts\<close>). Titles are left out of the evidence.
\<close>

subsection \<open>The rule\<close>

datatype lessons_rule = all_lessons | no_lessons | at_least nat

record completion_rule =
  cp_lessons :: lessons_rule
  cp_requiredQuizzes :: bool
  cp_requiredAssignments :: bool
  cp_minOverallScore :: "rat option"

definition DEFAULT_COMPLETION_RULE :: completion_rule where
  "DEFAULT_COMPLETION_RULE = \<lparr>cp_lessons = all_lessons, cp_requiredQuizzes = True,
     cp_requiredAssignments = True, cp_minOverallScore = None\<rparr>"

text \<open>
  The stored JSON: a field is a string, a finite number, a boolean, or something else
  (missing, null, not finite, an object). \<open>None\<close> is a column that is no object.
\<close>

datatype js_value = JsString string | JsNumber rat | JsBool bool | JsOther

definition parseLessons :: "js_value \<Rightarrow> lessons_rule" where
  "parseLessons v =
     (case v of
        JsString s \<Rightarrow> if s = ''none'' then no_lessons else all_lessons
      | JsNumber n \<Rightarrow> if n = of_int \<lfloor>n\<rfloor> \<and> n \<ge> 0 then at_least (nat \<lfloor>n\<rfloor>) else all_lessons
      | _ \<Rightarrow> all_lessons)"

definition parseCompletionRule :: "(string \<Rightarrow> js_value) option \<Rightarrow> completion_rule" where
  "parseCompletionRule raw =
     (case raw of
        None \<Rightarrow> DEFAULT_COMPLETION_RULE
      | Some value \<Rightarrow>
          \<lparr>cp_lessons = parseLessons (value ''lessons''),
           cp_requiredQuizzes = (value ''requiredQuizzes'' \<noteq> JsBool False),
           cp_requiredAssignments = (value ''requiredAssignments'' \<noteq> JsBool False),
           cp_minOverallScore = (case value ''minOverallScore'' of
              JsNumber n \<Rightarrow> if n \<ge> 0 \<and> n \<le> 100 then Some n else None | _ \<Rightarrow> None)\<rparr>)"

text \<open>The object \<open>updateRule\<close> stores.\<close>

definition ruleJson :: "completion_rule \<Rightarrow> string \<Rightarrow> js_value" where
  "ruleJson r = (\<lambda>_. JsOther)
     (''lessons'' := (case cp_lessons r of all_lessons \<Rightarrow> JsString ''all'' | no_lessons \<Rightarrow> JsString ''none''
        | at_least n \<Rightarrow> JsNumber (of_nat n)),
      ''requiredQuizzes'' := JsBool (cp_requiredQuizzes r),
      ''requiredAssignments'' := JsBool (cp_requiredAssignments r),
      ''minOverallScore'' := (case cp_minOverallScore r of Some n \<Rightarrow> JsNumber n | None \<Rightarrow> JsOther))"

subsection \<open>Evaluation\<close>

record lesson_evidence =
  le_total :: nat
  le_completed :: nat

record quiz_evidence =
  qe_quizId :: uid
  qe_required :: bool
  qe_passed :: bool
  qe_effectiveScore :: "rat option"
  qe_pendingGrading :: bool

record assignment_evidence =
  ae_assignmentId :: uid
  ae_required :: bool
  ae_submitted :: bool
  ae_graded :: bool
  ae_score :: "rat option"

datatype missing_kind =
  missing_lessons | quiz_not_passed | quiz_pending_grading | assignment_not_submitted
  | assignment_not_graded | min_overall_score

record missing_item =
  mi_kind :: missing_kind
  mi_id :: "uid option"
  mi_detail :: "rat option"

record completion_evaluation =
  ce_completed :: bool
  ce_overallScore :: "rat option"
  ce_missing :: "missing_item list"
  ce_lessons :: lesson_evidence
  ce_requiredQuizzes :: "quiz_evidence list"
  ce_requiredAssignments :: "assignment_evidence list"

definition lessonsNeeded :: "completion_rule \<Rightarrow> lesson_evidence \<Rightarrow> nat" where
  "lessonsNeeded r l = (case cp_lessons r of all_lessons \<Rightarrow> le_total l | no_lessons \<Rightarrow> 0
     | at_least n \<Rightarrow> min n (le_total l))"

definition implicitItems :: "lesson_evidence \<Rightarrow> quiz_evidence list \<Rightarrow> assignment_evidence list \<Rightarrow> bool" where
  "implicitItems l qs as \<longleftrightarrow>
     le_total l = 0 \<and> \<not> list_ex qe_required qs \<and> \<not> list_ex ae_required as"

definition quizzesRequired ::
  "completion_rule \<Rightarrow> lesson_evidence \<Rightarrow> quiz_evidence list \<Rightarrow> assignment_evidence list \<Rightarrow> quiz_evidence list" where
  "quizzesRequired r l qs as =
     (if cp_requiredQuizzes r then filter (\<lambda>q. qe_required q \<or> implicitItems l qs as) qs else [])"

definition assignmentsRequired ::
  "completion_rule \<Rightarrow> lesson_evidence \<Rightarrow> quiz_evidence list \<Rightarrow> assignment_evidence list \<Rightarrow> assignment_evidence list"
  where
  "assignmentsRequired r l qs as =
     (if cp_requiredAssignments r then filter (\<lambda>a. ae_required a \<or> implicitItems l qs as) as else [])"

definition overallScoreOf :: "quiz_evidence list \<Rightarrow> assignment_evidence list \<Rightarrow> rat option" where
  "overallScoreOf qs as =
     (let scored = List.map_filter qe_effectiveScore qs @ List.map_filter ae_score as
      in if scored = [] then None else Some (round2 (sum_list scored / of_nat (length scored))))"

definition missingQuizzes :: "quiz_evidence list \<Rightarrow> missing_item list" where
  "missingQuizzes qs =
     map (\<lambda>q. \<lparr>mi_kind = (if qe_pendingGrading q then quiz_pending_grading else quiz_not_passed),
                mi_id = Some (qe_quizId q), mi_detail = None\<rparr>) (filter (\<lambda>q. \<not> qe_passed q) qs)"

definition missingAssignments :: "assignment_evidence list \<Rightarrow> missing_item list" where
  "missingAssignments as =
     map (\<lambda>a. \<lparr>mi_kind = (if ae_submitted a then assignment_not_graded else assignment_not_submitted),
                mi_id = Some (ae_assignmentId a), mi_detail = None\<rparr>) (filter (\<lambda>a. \<not> ae_graded a) as)"

definition missingScore :: "completion_rule \<Rightarrow> rat option \<Rightarrow> bool \<Rightarrow> missing_item list" where
  "missingScore r overall anyRequired =
     (case cp_minOverallScore r of
        None \<Rightarrow> []
      | Some m \<Rightarrow>
          (case overall of
             None \<Rightarrow> if anyRequired then [\<lparr>mi_kind = min_overall_score, mi_id = None, mi_detail = Some m\<rparr>] else []
           | Some s \<Rightarrow> if s < m
               then [\<lparr>mi_kind = min_overall_score, mi_id = None, mi_detail = Some (round2 (m - s))\<rparr>] else []))"

definition evaluateCompletion ::
  "completion_rule \<Rightarrow> lesson_evidence \<Rightarrow> quiz_evidence list \<Rightarrow> assignment_evidence list \<Rightarrow>
     completion_evaluation" where
  "evaluateCompletion r l qs as =
     (let needed = lessonsNeeded r l;
          rq = quizzesRequired r l qs as;
          ra = assignmentsRequired r l qs as;
          overall = overallScoreOf rq ra;
          missing =
            (if le_completed l < needed
             then [\<lparr>mi_kind = missing_lessons, mi_id = None, mi_detail = Some (of_nat needed - of_nat (le_completed l))\<rparr>]
             else [])
            @ missingQuizzes rq @ missingAssignments ra
            @ missingScore r overall (length rq + length ra > 0);
          hasAnything = (le_total l > 0 \<or> length rq > 0 \<or> length ra > 0)
      in \<lparr>ce_completed = (hasAnything \<and> missing = []), ce_overallScore = overall, ce_missing = missing,
          ce_lessons = l, ce_requiredQuizzes = rq, ce_requiredAssignments = ra\<rparr>)"

record item_progress =
  ip_completed :: nat
  ip_total :: nat
  ip_percentage :: rat

definition computeItemProgress ::
  "lesson_evidence \<Rightarrow> quiz_evidence list \<Rightarrow> assignment_evidence list \<Rightarrow> item_progress" where
  "computeItemProgress l qs as =
     (let total = le_total l + length qs + length as;
          completed = le_completed l + length (filter (\<lambda>q. qe_passed q \<or> qe_pendingGrading q) qs)
                      + length (filter ae_submitted as)
      in \<lparr>ip_completed = completed, ip_total = total,
          ip_percentage = (if total > 0 then (of_nat completed / of_nat total) * 100 else 0)\<rparr>)"

subsection \<open>Evidence\<close>

record course_item =
  ci_id :: uid
  ci_requiredForCompletion :: bool

text \<open>A submission: its assignment, whether it is submitted, whether it is graded, its score.\<close>

record submission =
  sb_assignmentId :: uid
  sb_submitted :: bool
  sb_graded :: bool
  sb_score :: "rat option"

record completion_sources =
  cs_rule :: "(string \<Rightarrow> js_value) option"
  cs_certificatesEnabled :: bool
  cs_certificateMinScore :: "rat option"
  cs_lessonRows :: "bool list"
  cs_quizzes :: "course_item list"
  cs_results :: "(uid \<times> aggregated_result) list"
  cs_assignments :: "course_item list"
  cs_submissions :: "submission list"

definition quizEvidence :: "completion_sources \<Rightarrow> course_item \<Rightarrow> quiz_evidence" where
  "quizEvidence src q =
     (let result = map_option snd (map_of_last fst (cs_results src) (ci_id q))
      in \<lparr>qe_quizId = ci_id q, qe_required = ci_requiredForCompletion q,
          qe_passed = (case result of Some r \<Rightarrow> ar_passed r | None \<Rightarrow> False),
          qe_effectiveScore = (case result of Some r \<Rightarrow> ar_effectiveScore r | None \<Rightarrow> None),
          qe_pendingGrading = (case result of Some r \<Rightarrow> ar_pendingGrading r | None \<Rightarrow> False)\<rparr>)"

definition assignmentEvidence :: "completion_sources \<Rightarrow> course_item \<Rightarrow> assignment_evidence" where
  "assignmentEvidence src a =
     (let submission = map_of_last sb_assignmentId (cs_submissions src) (ci_id a);
          graded = (case submission of Some s \<Rightarrow> sb_graded s | None \<Rightarrow> False)
      in \<lparr>ae_assignmentId = ci_id a, ae_required = ci_requiredForCompletion a,
          ae_submitted = ((case submission of Some s \<Rightarrow> sb_submitted s | None \<Rightarrow> False) \<or> graded),
          ae_graded = graded,
          ae_score = (case submission of Some s \<Rightarrow> if graded then sb_score s else None | None \<Rightarrow> None)\<rparr>)"

definition lessonEvidence :: "completion_sources \<Rightarrow> lesson_evidence" where
  "lessonEvidence src = \<lparr>le_total = length (cs_lessonRows src),
     le_completed = length (filter (\<lambda>b. b) (cs_lessonRows src))\<rparr>"

definition evaluate :: "completion_sources \<Rightarrow> completion_evaluation \<times> item_progress" where
  "evaluate src =
     (let qs = map (quizEvidence src) (cs_quizzes src);
          as = map (assignmentEvidence src) (cs_assignments src)
      in (evaluateCompletion (parseCompletionRule (cs_rule src)) (lessonEvidence src) qs as,
          computeItemProgress (lessonEvidence src) qs as))"

subsection \<open>What a recompute stores\<close>

datatype certificate_status = cert_unavailable | cert_eligible | cert_issued | cert_revoked
datatype completion_state = cst_incomplete | cst_in_progress | cst_completed

record course_progress =
  pg_completionState :: completion_state
  pg_completedAt :: "instant option"
  pg_overallScore :: "rat option"
  pg_certificateStatus :: certificate_status
  pg_percentage :: rat
  pg_totalItems :: nat
  pg_completedItems :: nat

text \<open>
  One enrollment: its progress row (if it exists), its status, the "course completed"
  messages emitted and the certificate checks queued so far.
\<close>

record completion_view =
  cv_progress :: "course_progress option"
  cv_enrollment :: enrollment_status
  cv_emitted :: "instant list"
  cv_queued :: nat

definition minScoreMet :: "completion_sources \<Rightarrow> completion_evaluation \<Rightarrow> bool" where
  "minScoreMet src ev =
     (case cs_certificateMinScore src of None \<Rightarrow> True
      | Some m \<Rightarrow> (case ce_overallScore ev of None \<Rightarrow> False | Some s \<Rightarrow> s \<ge> m))"

definition nextCertificateStatus ::
  "completion_sources \<Rightarrow> completion_evaluation \<Rightarrow> certificate_status \<Rightarrow> certificate_status" where
  "nextCertificateStatus src ev cur =
     (if cur = cert_unavailable \<or> cur = cert_eligible
      then (if ce_completed ev \<and> cs_certificatesEnabled src \<and> minScoreMet src ev
            then cert_eligible else cert_unavailable)
      else cur)"

definition completionStateOf :: "completion_evaluation \<Rightarrow> completion_state" where
  "completionStateOf ev =
     (if ce_completed ev then cst_completed
      else if le_completed (ce_lessons ev) > 0
           \<or> list_ex (\<lambda>q. qe_effectiveScore q \<noteq> None) (ce_requiredQuizzes ev)
           \<or> list_ex ae_submitted (ce_requiredAssignments ev) then cst_in_progress
      else cst_incomplete)"

definition setEnrollmentCompletion :: "bool \<Rightarrow> enrollment_status \<Rightarrow> enrollment_status" where
  "setEnrollmentCompletion completed s =
     (if completed \<and> s = en_enrolled then en_completed
      else if \<not> completed \<and> s = en_completed then en_enrolled else s)"

text \<open>
  \<open>read\<close> is the status on the enrollment row the caller passes, read when its transaction
  began.  A message is deduplicated by its completion date.
\<close>

definition recomputeWith ::
  "enrollment_status \<Rightarrow> completion_sources \<Rightarrow> instant \<Rightarrow> completion_view \<Rightarrow> completion_view" where
  "recomputeWith read src now v =
     (let (ev, ip) = evaluate src;
          current = (case cv_progress v of Some p \<Rightarrow> pg_certificateStatus p | None \<Rightarrow> cert_unavailable);
          storedAt = (case cv_progress v of Some p \<Rightarrow> pg_completedAt p | None \<Rightarrow> None);
          certificate = nextCertificateStatus src ev current;
          doneAt = (case storedAt of Some t \<Rightarrow> t | None \<Rightarrow> now);
          becameComplete = (ce_completed ev \<and> read = en_enrolled);
          becameEligible = (certificate = cert_eligible \<and> current \<noteq> cert_eligible)
      in v\<lparr>cv_progress := Some
             \<lparr>pg_completionState = completionStateOf ev,
              pg_completedAt = (if ce_completed ev then Some doneAt else None),
              pg_overallScore = ce_overallScore ev, pg_certificateStatus = certificate,
              pg_percentage = ip_percentage ip, pg_totalItems = ip_total ip,
              pg_completedItems = ip_completed ip\<rparr>,
           cv_enrollment := (if becameComplete \<or> \<not> ce_completed ev \<and> read = en_completed
             then setEnrollmentCompletion (ce_completed ev) (cv_enrollment v) else cv_enrollment v),
           cv_emitted := (if becameComplete then List.insert doneAt (cv_emitted v) else cv_emitted v),
           cv_queued := cv_queued v + (if becameEligible then 1 else 0)\<rparr>)"

text \<open>A recompute in a transaction of its own.\<close>

definition recompute :: "completion_sources \<Rightarrow> instant \<Rightarrow> completion_view \<Rightarrow> completion_view" where
  "recompute src now v = recomputeWith (cv_enrollment v) src now v"

subsection \<open>States derived from counts\<close>

definition deriveCompletionState :: "nat \<Rightarrow> nat \<Rightarrow> completion_state" where
  "deriveCompletionState completedLessons totalLessons =
     (if totalLessons > 0 \<and> completedLessons = totalLessons then cst_completed
      else if completedLessons > 0 then cst_in_progress else cst_incomplete)"

definition deriveCertificateStatus :: "completion_state \<Rightarrow> certificate_status" where
  "deriveCertificateStatus s = (if s = cst_completed then cert_eligible else cert_unavailable)"

datatype learning_state = ls_not_started | ls_in_progress | ls_completed

record learning_state_input =
  li_completionState :: completion_state
  li_completedItems :: "nat option"
  li_completedLessons :: "nat option"
  li_lastActivityAt :: "instant option"

definition deriveLearningState :: "learning_state_input option \<Rightarrow> learning_state" where
  "deriveLearningState progress =
     (case progress of
        None \<Rightarrow> ls_not_started
      | Some p \<Rightarrow>
          if li_completionState p = cst_completed then ls_completed
          else if li_completionState p = cst_in_progress
               \<or> (case li_completedItems p of Some n \<Rightarrow> n | None \<Rightarrow> 0) > 0
               \<or> (case li_completedLessons p of Some n \<Rightarrow> n | None \<Rightarrow> 0) > 0
               \<or> li_lastActivityAt p \<noteq> None
          then ls_in_progress else ls_not_started)"

subsection \<open>The evaluation, read as a rule\<close>

definition scoreRequirementMet :: "completion_rule \<Rightarrow> rat option \<Rightarrow> bool \<Rightarrow> bool" where
  "scoreRequirementMet r overall anyRequired \<longleftrightarrow>
     (case cp_minOverallScore r of None \<Rightarrow> True
      | Some m \<Rightarrow> (case overall of None \<Rightarrow> \<not> anyRequired | Some s \<Rightarrow> m \<le> s))"

lemma missing_quizzes_Nil [simp]: "missingQuizzes qs = [] \<longleftrightarrow> list_all qe_passed qs"
  by (simp add: missingQuizzes_def filter_empty_conv list_all_iff)

lemma missing_assignments_Nil [simp]: "missingAssignments as = [] \<longleftrightarrow> list_all ae_graded as"
  by (simp add: missingAssignments_def filter_empty_conv list_all_iff)

lemma missing_score_Nil [simp]: "missingScore r s b = [] \<longleftrightarrow> scoreRequirementMet r s b"
  by (auto simp: missingScore_def scoreRequirementMet_def split: option.splits)

lemmas evaluate_simps = evaluateCompletion_def Let_def

lemma completed_lessons_only:
  assumes "le_total l > 0" "le_completed l = le_total l" "\<not> list_ex qe_required qs"
    "\<not> list_ex ae_required as"
  shows "quizzesRequired r l qs as = [] \<and> assignmentsRequired r l qs as = []"
  using assms by (auto simp: quizzesRequired_def assignmentsRequired_def implicitItems_def
      filter_empty_conv list_ex_iff)













subsection \<open>The stored rule\<close>

definition valid_rule :: "completion_rule \<Rightarrow> bool" where
  "valid_rule r = (case cp_minOverallScore r of None \<Rightarrow> True | Some m \<Rightarrow> 0 \<le> m \<and> m \<le> 100)"

lemma parse_is_valid: "valid_rule (parseCompletionRule raw)"
  by (auto simp: valid_rule_def parseCompletionRule_def DEFAULT_COMPLETION_RULE_def
      split: option.splits js_value.splits if_splits)

lemma parse_lessons_stored:
  "parseLessons (ruleJson r ''lessons'') = cp_lessons r"
  by (cases "cp_lessons r") (simp_all add: parseLessons_def ruleJson_def)

text \<open>C17. A rule whose minimum score lies between 0 and 100 survives being stored and read back, and
  whatever JSON the column holds, reading it, storing the result and reading again gives the same
  rule: a malformed column is normalised once and for all.\<close>

theorem rule_survives_storage:
  assumes "valid_rule r"
  shows "parseCompletionRule (Some (ruleJson r)) = r
    \<and> parseCompletionRule (Some (ruleJson (parseCompletionRule raw))) = parseCompletionRule raw"
proof -
  have roundtrip: "parseCompletionRule (Some (ruleJson x)) = x" if "valid_rule x" for x
  proof -
    have "parseLessons (ruleJson x ''lessons'') = cp_lessons x" by (rule parse_lessons_stored)
    with that show ?thesis
      by (cases x) (auto simp: parseCompletionRule_def ruleJson_def valid_rule_def split: option.splits)
  qed
  show ?thesis using roundtrip[OF assms] roundtrip[OF parse_is_valid] by simp
qed

text \<open>A rule with three lessons and sixty per cent, and a column holding rubbish.\<close>

theorem rule_survives_storage_witness:
  "parseCompletionRule (Some (ruleJson \<lparr>cp_lessons = at_least 3, cp_requiredQuizzes = False,
       cp_requiredAssignments = True, cp_minOverallScore = Some 60\<rparr>))
     = \<lparr>cp_lessons = at_least 3, cp_requiredQuizzes = False, cp_requiredAssignments = True,
        cp_minOverallScore = Some 60\<rparr>
   \<and> parseCompletionRule (Some (ruleJson (parseCompletionRule
       (Some ((\<lambda>_. JsOther)(''lessons'' := JsNumber (5/2), ''minOverallScore'' := JsNumber 101))))))
     = DEFAULT_COMPLETION_RULE"
proof -
  let ?r = "\<lparr>cp_lessons = at_least 3, cp_requiredQuizzes = False, cp_requiredAssignments = True,
    cp_minOverallScore = Some (60 :: rat)\<rparr>"
  let ?c = "Some ((\<lambda>_. JsOther)(''lessons'' := JsNumber (5/2), ''minOverallScore'' := JsNumber 101))"
  have "\<lfloor>5/2 :: rat\<rfloor> = 2" by (simp add: floor_eq_iff)
  then have "parseCompletionRule ?c = DEFAULT_COMPLETION_RULE"
    by (simp add: parseCompletionRule_def parseLessons_def DEFAULT_COMPLETION_RULE_def)
  moreover have "valid_rule ?r" by (simp add: valid_rule_def)
  ultimately show ?thesis using rule_survives_storage[of ?r ?c] by simp
qed

subsection \<open>Recomputing\<close>

text \<open>
  The events that change an enrollment's completion: the sources as they are read and the time
  of the recompute.
\<close>

definition recomputeAll :: "(completion_sources \<times> instant) list \<Rightarrow> completion_view \<Rightarrow> completion_view" where
  "recomputeAll es v = fold (\<lambda>(src, now). recompute src now) es v"

definition certificateOf :: "completion_view \<Rightarrow> certificate_status" where
  "certificateOf v = (case cv_progress v of Some p \<Rightarrow> pg_certificateStatus p | None \<Rightarrow> cert_unavailable)"

lemma next_certificate_fixed:
  "nextCertificateStatus src ev (nextCertificateStatus src ev c) = nextCertificateStatus src ev c"
  by (auto simp: nextCertificateStatus_def)

lemma recompute_twice: "recompute src later (recompute src now v) = recompute src now v"
  by (simp add: recompute_def recomputeWith_def setEnrollmentCompletion_def Let_def next_certificate_fixed split: prod.splits option.splits)

lemma recompute_certificate:
  "certificateOf (recompute src now v) = nextCertificateStatus src (fst (evaluate src)) (certificateOf v)"
  by (simp add: recompute_def recomputeWith_def certificateOf_def Let_def split: prod.splits)

lemma recompute_all_Cons [simp]:
  "recomputeAll ((src, now) # es) v = recomputeAll es (recompute src now v)"
  by (simp add: recomputeAll_def)

lemma recompute_all_Nil [simp]: "recomputeAll [] v = v"
  by (simp add: recomputeAll_def)

lemma issued_stays:
  assumes "certificateOf v \<in> {cert_issued, cert_revoked}"
  shows "certificateOf (recomputeAll es v) = certificateOf v"
  using assms
proof (induction es arbitrary: v)
  case (Cons e es)
  obtain src now where e: "e = (src, now)" by fastforce
  have same: "certificateOf (recompute src now v) = certificateOf v"
    using Cons.prems by (auto simp: recompute_certificate nextCertificateStatus_def)
  show ?case using Cons.IH[of "recompute src now v"] Cons.prems same by (simp add: e)
qed simp

lemma repeats_change_nothing:
  assumes "set es \<subseteq> {src} \<times> UNIV" "es \<noteq> []"
  shows "recomputeAll es v = recompute src (snd (hd es)) v"
  using assms
proof (induction es arbitrary: v)
  case (Cons e es)
  obtain now where e: "e = (src, now)" using Cons.prems by (cases e) auto
  show ?case
  proof (cases "es = []")
    case False
    then have "recomputeAll es (recompute src now v) = recompute src (snd (hd es)) (recompute src now v)"
      using Cons by simp
    then show ?thesis by (simp add: e recompute_twice)
  qed (simp add: e)
qed simp

lemma length_insert_le: "length (List.insert x xs) \<le> Suc (length xs)"
  by (simp add: List.insert_def)

lemma recompute_effects:
  "length (cv_emitted (recompute src now v)) \<le> Suc (length (cv_emitted v))
   \<and> cv_queued (recompute src now v) \<le> Suc (cv_queued v)"
  by (simp add: recompute_def recomputeWith_def setEnrollmentCompletion_def Let_def length_insert_le split: prod.splits)

lemma queue_only_when_eligible:
  "cv_queued (recompute src now v) \<noteq> cv_queued v \<Longrightarrow>
     certificateOf v = cert_unavailable \<and> ce_completed (fst (evaluate src))
     \<and> cs_certificatesEnabled src \<and> minScoreMet src (fst (evaluate src))"
  by (auto simp: recompute_def recomputeWith_def certificateOf_def nextCertificateStatus_def Let_def
      split: prod.splits option.splits if_splits)

text \<open>C18. However often completion is recomputed from the same evidence, the result is that of the
  first time: the learner gets at most one "course completed" message, at most one certificate
  check is queued and the completion date does not move.  A certificate that was issued or revoked is left alone by any sequence
  of recomputes, whatever the evidence becomes.\<close>

theorem recompute_idempotent:
  assumes "set es \<subseteq> {src} \<times> UNIV" "es \<noteq> []"
  shows "recomputeAll es v = recompute src (snd (hd es)) v
    \<and> length (cv_emitted (recomputeAll es v)) \<le> Suc (length (cv_emitted v))
    \<and> cv_queued (recomputeAll es v) \<le> Suc (cv_queued v)
    \<and> (certificateOf v \<in> {cert_issued, cert_revoked} \<longrightarrow> certificateOf (recomputeAll fs v) = certificateOf v)"
  using repeats_change_nothing[OF assms] recompute_effects issued_stays by (metis (no_types, lifting))

definition sample_sources :: completion_sources where
  "sample_sources = \<lparr>cs_rule = None, cs_certificatesEnabled = True, cs_certificateMinScore = None,
     cs_lessonRows = [True, True], cs_quizzes = [], cs_results = [], cs_assignments = [],
     cs_submissions = []\<rparr>"

definition sample_view :: completion_view where
  "sample_view = \<lparr>cv_progress = None, cv_enrollment = en_enrolled, cv_emitted = [], cv_queued = 0\<rparr>"

lemmas completion_eval = sample_sources_def sample_view_def recompute_def recomputeWith_def setEnrollmentCompletion_def evaluate_def evaluate_simps
  lessonEvidence_def parseCompletionRule_def DEFAULT_COMPLETION_RULE_def lessonsNeeded_def
  quizzesRequired_def assignmentsRequired_def overallScoreOf_def scoreRequirementMet_def
  nextCertificateStatus_def minScoreMet_def computeItemProgress_def

text \<open>Two lessons done, recomputed at 10 and at 20: one message, dated 10.\<close>

theorem recompute_idempotent_witness:
  "cv_emitted (recomputeAll [(sample_sources, 10), (sample_sources, 20)] sample_view) = [10]
   \<and> cv_queued (recomputeAll [(sample_sources, 10), (sample_sources, 20)] sample_view) = 1
   \<and> cv_enrollment (recomputeAll [(sample_sources, 10), (sample_sources, 20)] sample_view) = en_completed"
proof -
  have "recomputeAll [(sample_sources, 10), (sample_sources, 20)] sample_view
      = recompute sample_sources 10 sample_view"
    using recompute_idempotent[of "[(sample_sources, 10), (sample_sources, 20)]" sample_sources sample_view]
    by simp
  moreover have "cv_emitted (recompute sample_sources 10 sample_view) = [10]
      \<and> cv_queued (recompute sample_sources 10 sample_view) = 1
      \<and> cv_enrollment (recompute sample_sources 10 sample_view) = en_completed"
    by (simp add: completion_eval)
  ultimately show ?thesis by simp
qed

subsection \<open>The progress shown is consistent\<close>

text \<open>A completed stored progress is shown as completed, an untouched one as not started.\<close>

lemma learning_state_completed:
  "deriveLearningState (Some p) = ls_completed \<longleftrightarrow> li_completionState p = cst_completed"
  by (simp add: deriveLearningState_def)

lemma item_progress_bounds:
  assumes "le_completed l \<le> le_total l"
  shows "ip_completed (computeItemProgress l qs as) \<le> ip_total (computeItemProgress l qs as)
    \<and> ip_percentage (computeItemProgress l qs as) \<in> {0..100}"
proof -
  have le: "ip_completed (computeItemProgress l qs as) \<le> ip_total (computeItemProgress l qs as)"
    unfolding computeItemProgress_def Let_def
    using assms length_filter_le[of "\<lambda>q. qe_passed q \<or> qe_pendingGrading q" qs]
      length_filter_le[of ae_submitted as] by (simp add: add_mono)
  then show ?thesis
    by (auto simp: computeItemProgress_def Let_def divide_simps simp flip: of_nat_add)
qed

lemma lesson_evidence_bounds: "le_completed (lessonEvidence src) \<le> le_total (lessonEvidence src)"
  by (simp add: lessonEvidence_def)

text \<open>Whatever the evidence, the stored percentage lies between 0 and 100, no more items are
  counted than the course has, and a completion date is stored exactly for a completed course.\<close>

theorem stored_progress_bounds:
  "(case cv_progress (recompute src now v) of
      None \<Rightarrow> False
    | Some p \<Rightarrow> pg_completedItems p \<le> pg_totalItems p \<and> pg_percentage p \<in> {0..100}
        \<and> ((pg_completionState p = cst_completed) = (pg_completedAt p \<noteq> None)))"
  using item_progress_bounds[OF lesson_evidence_bounds]
  by (simp add: recompute_def recomputeWith_def evaluate_def completionStateOf_def Let_def)

end
