(* ===== verification/Course_Sequence.thy ===== *)
theory Course_Sequence
  imports Quiz_Attempts Learning_Access
begin

text \<open>
  The curriculum sequence (\<open>learning/services/course-sequence.service.ts\<close>): one ordered list of
  lessons, quizzes, assignments and live sessions with the state and the lock of each. The
  same list decides what a learner may open, complete or attempt: the lesson, quiz and
  assignment handlers all refuse an item it reports as locked.
  Identifiers are compared character by character (\<open>localeCompare\<close> on UUIDs).
\<close>

subsection \<open>Rows and items\<close>

datatype item_type = lesson_item | quiz_item | assignment_item | live_session_item

datatype sequence_state =
  seq_locked | seq_available | seq_in_progress | seq_completed | seq_passed | seq_failed
  | seq_submitted | seq_graded | seq_overdue

datatype lock_reason = previousIncomplete | scheduled | notStarted | accessEnded | quizNotPassed

record raw_item =
  ri_id :: uid
  ri_type :: item_type
  ri_sectionId :: uid
  ri_order :: int
  ri_createdAt :: instant
  ri_isPreview :: bool
  ri_dueAt :: "instant option"
  ri_availableAt :: "instant option"
  ri_requiredToProgress :: bool

text \<open>One authored row of the four tables; a lesson has no due date, an assignment no opening date.\<close>

record content_row =
  cr_id :: uid
  cr_courseId :: uid
  cr_sectionId :: "uid option"
  cr_order :: int
  cr_createdAt :: instant
  cr_isDraft :: bool
  cr_isPublished :: bool
  cr_isPreview :: bool
  cr_dueAt :: "instant option"
  cr_availableAt :: "instant option"
  cr_scheduledStartAt :: "instant option"
  cr_requiredToProgress :: bool

datatype lesson_progress_status = lp_locked | lp_available | lp_in_progress | lp_completed

record learner_rows =
  lw_lessonProgress :: "(uid \<times> lesson_progress_status) list"
  lw_quizAttempts :: "(uid \<times> attempt_status) list"
  lw_quizResults :: "(uid \<times> bool) list"
  lw_submissions :: "(uid \<times> bool \<times> bool) list"

definition rawLesson :: "content_row \<Rightarrow> raw_item" where
  "rawLesson c = \<lparr>ri_id = cr_id c, ri_type = lesson_item,
     ri_sectionId = (case cr_sectionId c of Some s \<Rightarrow> s | None \<Rightarrow> []), ri_order = cr_order c,
     ri_createdAt = cr_createdAt c, ri_isPreview = cr_isPreview c, ri_dueAt = None,
     ri_availableAt = cr_availableAt c, ri_requiredToProgress = True\<rparr>"

definition rawQuiz :: "content_row \<Rightarrow> raw_item" where
  "rawQuiz c = \<lparr>ri_id = cr_id c, ri_type = quiz_item,
     ri_sectionId = (case cr_sectionId c of Some s \<Rightarrow> s | None \<Rightarrow> []), ri_order = cr_order c,
     ri_createdAt = cr_createdAt c, ri_isPreview = False, ri_dueAt = cr_dueAt c,
     ri_availableAt = cr_availableAt c, ri_requiredToProgress = cr_requiredToProgress c\<rparr>"

definition rawAssignment :: "content_row \<Rightarrow> raw_item" where
  "rawAssignment c = \<lparr>ri_id = cr_id c, ri_type = assignment_item,
     ri_sectionId = (case cr_sectionId c of Some s \<Rightarrow> s | None \<Rightarrow> []), ri_order = cr_order c,
     ri_createdAt = cr_createdAt c, ri_isPreview = False, ri_dueAt = cr_dueAt c,
     ri_availableAt = None, ri_requiredToProgress = False\<rparr>"

definition rawLiveSession :: "content_row \<Rightarrow> raw_item" where
  "rawLiveSession c = \<lparr>ri_id = cr_id c, ri_type = live_session_item,
     ri_sectionId = (case cr_sectionId c of Some s \<Rightarrow> s | None \<Rightarrow> []), ri_order = cr_order c,
     ri_createdAt = cr_createdAt c, ri_isPreview = False, ri_dueAt = cr_scheduledStartAt c,
     ri_availableAt = cr_scheduledStartAt c, ri_requiredToProgress = False\<rparr>"

record course_content =
  cc_lessons :: "content_row list"
  cc_quizzes :: "content_row list"
  cc_assignments :: "content_row list"
  cc_liveSessions :: "content_row list"

definition rawItems :: "course_content \<Rightarrow> uid \<Rightarrow> raw_item list" where
  "rawItems cc course =
     map rawLesson (filter (\<lambda>c. cr_courseId c = course \<and> cr_isPublished c) (cc_lessons cc))
   @ map rawQuiz (filter (\<lambda>c. cr_courseId c = course \<and> cr_isPublished c \<and> cr_sectionId c \<noteq> None) (cc_quizzes cc))
   @ map rawAssignment (filter (\<lambda>c. cr_courseId c = course \<and> cr_isPublished c \<and> cr_sectionId c \<noteq> None)
       (cc_assignments cc))
   @ map rawLiveSession (filter (\<lambda>c. cr_courseId c = course \<and> \<not> cr_isDraft c \<and> cr_sectionId c \<noteq> None)
       (cc_liveSessions cc))"

subsection \<open>What the learner did\<close>

definition isFinished :: "sequence_state \<Rightarrow> bool" where
  "isFinished s \<longleftrightarrow> s = seq_completed \<or> s = seq_passed \<or> s = seq_graded \<or> s = seq_submitted"

definition rank :: "sequence_state \<Rightarrow> nat" where
  "rank s = (case s of seq_passed \<Rightarrow> 4 | seq_submitted \<Rightarrow> 3 | seq_failed \<Rightarrow> 2 | seq_in_progress \<Rightarrow> 1 | _ \<Rightarrow> 0)"

definition mapQuizState :: "attempt_status \<Rightarrow> sequence_state" where
  "mapQuizState a = (case a of att_passed \<Rightarrow> seq_passed | att_failed \<Rightarrow> seq_failed | att_expired \<Rightarrow> seq_failed
     | att_invalidated \<Rightarrow> seq_available | att_submitted \<Rightarrow> seq_submitted
     | att_in_progress \<Rightarrow> seq_in_progress | att_not_started \<Rightarrow> seq_available)"

definition mapLessonState :: "lesson_progress_status option \<Rightarrow> sequence_state option" where
  "mapLessonState s = (case s of Some lp_completed \<Rightarrow> Some seq_completed
     | Some lp_in_progress \<Rightarrow> Some seq_in_progress | Some lp_available \<Rightarrow> Some seq_available
     | _ \<Rightarrow> None)"

definition bestAttempt :: "(uid \<rightharpoonup> sequence_state) \<Rightarrow> uid \<times> attempt_status \<Rightarrow> (uid \<rightharpoonup> sequence_state)" where
  "bestAttempt m = (\<lambda>(q, a).
     if (case m q of None \<Rightarrow> True | Some cur \<Rightarrow> rank (mapQuizState a) > rank cur)
     then m(q \<mapsto> mapQuizState a) else m)"

definition quizStates :: "learner_rows \<Rightarrow> uid \<rightharpoonup> sequence_state" where
  "quizStates w =
     foldl (\<lambda>m (q, passed). if passed then m(q \<mapsto> seq_passed) else m)
       (foldl bestAttempt Map.empty (lw_quizAttempts w)) (lw_quizResults w)"

text \<open>A submission row: the assignment, whether it is graded, whether it is submitted.\<close>

definition assignmentStates :: "learner_rows \<Rightarrow> uid \<rightharpoonup> sequence_state" where
  "assignmentStates w =
     map_of (rev (map (\<lambda>(a, graded, submitted).
       (a, if graded then seq_graded else if submitted then seq_submitted else seq_in_progress)) (lw_submissions w)))"

definition lessonStates :: "learner_rows \<Rightarrow> uid \<rightharpoonup> lesson_progress_status" where
  "lessonStates w = map_of (rev (lw_lessonProgress w))"

definition existingState :: "learner_rows \<Rightarrow> raw_item \<Rightarrow> sequence_state option" where
  "existingState w i =
     (case ri_type i of
        lesson_item \<Rightarrow> mapLessonState (lessonStates w (ri_id i))
      | quiz_item \<Rightarrow> quizStates w (ri_id i)
      | assignment_item \<Rightarrow> assignmentStates w (ri_id i)
      | live_session_item \<Rightarrow> None)"

subsection \<open>The state of one item\<close>

definition deriveState ::
  "learner_rows \<Rightarrow> instant \<Rightarrow> bool \<Rightarrow> bool \<Rightarrow> bool \<Rightarrow> raw_item \<Rightarrow> sequence_state \<times> lock_reason option" where
  "deriveState w now ended previousFinished blockedByQuiz i =
     (if ended \<and> \<not> ri_isPreview i then (seq_locked, Some accessEnded)
      else if (case ri_availableAt i of Some t \<Rightarrow> t > now | None \<Rightarrow> False)
      then (seq_locked, Some (if ri_type i = live_session_item then notStarted else scheduled))
      else if (case existingState w i of Some s \<Rightarrow> s \<noteq> seq_available | None \<Rightarrow> False)
      then (the (existingState w i), None)
      else if \<not> previousFinished \<and> \<not> ri_isPreview i
      then (seq_locked, Some (if blockedByQuiz then quizNotPassed else previousIncomplete))
      else if ri_type i = assignment_item \<and> (case ri_dueAt i of Some d \<Rightarrow> d < now | None \<Rightarrow> False)
      then (seq_overdue, None)
      else (seq_available, None))"

text \<open>What an item leaves for the next one: \<open>previousFinished\<close> and \<open>blockedByQuiz\<close>.\<close>

definition nextGate :: "raw_item \<Rightarrow> sequence_state \<Rightarrow> bool \<times> bool" where
  "nextGate i s =
     (if ri_type i = quiz_item
      then (if ri_requiredToProgress i then (s = seq_passed, s \<noteq> seq_passed) else (True, False))
      else (isFinished s, False))"

subsection \<open>The sequence\<close>

record sequence_item =
  si_id :: uid
  si_type :: item_type
  si_sectionId :: uid
  si_unitNumber :: nat
  si_itemNumber :: nat
  si_position :: nat
  si_state :: sequence_state
  si_lockReason :: "lock_reason option"

definition sectionItems :: "raw_item list \<Rightarrow> uid \<Rightarrow> raw_item list" where
  "sectionItems raw section =
     sort_key (\<lambda>i. (ri_order i, ri_createdAt i, ri_id i)) (filter (\<lambda>i. ri_sectionId i = section) raw)"

text \<open>The items of the course in order, each with its unit and its number in the unit.\<close>

definition orderedItems :: "raw_item list \<Rightarrow> uid list \<Rightarrow> (raw_item \<times> nat \<times> nat) list" where
  "orderedItems raw sections =
     concat (map (\<lambda>(u, section). map (\<lambda>(k, i). (i, u + 1, k + 1)) (enumerate 0 (sectionItems raw section)))
       (enumerate 0 sections))"

fun walk ::
  "learner_rows \<Rightarrow> instant \<Rightarrow> bool \<Rightarrow> bool \<times> bool \<Rightarrow> nat \<Rightarrow> (raw_item \<times> nat \<times> nat) list \<Rightarrow> sequence_item list"
  where
  "walk w now ended gate position [] = []"
| "walk w now ended gate position ((i, u, k) # is) =
     (case deriveState w now ended (fst gate) (snd gate) i of
        (s, reason) \<Rightarrow>
          \<lparr>si_id = ri_id i, si_type = ri_type i, si_sectionId = ri_sectionId i, si_unitNumber = u,
           si_itemNumber = k, si_position = position, si_state = s, si_lockReason = reason\<rparr>
          # walk w now ended (nextGate i s) (position + 1) is)"

definition sequenceItems ::
  "learner_rows \<Rightarrow> instant \<Rightarrow> bool \<Rightarrow> raw_item list \<Rightarrow> uid list \<Rightarrow> sequence_item list" where
  "sequenceItems w now ended raw sections = walk w now ended (True, False) 0 (orderedItems raw sections)"

record sequence_response =
  sp_items :: "sequence_item list"
  sp_continueItemId :: "uid option"
  sp_completedCount :: nat
  sp_totalCount :: nat

definition buildSequence ::
  "access_tables \<Rightarrow> course_content \<Rightarrow> (uid \<Rightarrow> learner_rows) \<Rightarrow> uid list \<Rightarrow> uid \<Rightarrow> uid \<Rightarrow> instant \<Rightarrow>
     sequence_response outcome" where
  "buildSequence tb cc rowsOf sections user course now =
     (case assertCourseReadAccess tb False user course now of
        Inl e \<Rightarrow> Inl e
      | Inr _ \<Rightarrow>
          if map_of (tb_courses tb) course = None then throw NotFoundException ''errors.notFound''
          else
            (let e = findEnrollment tb user course;
                 ended = (case e of None \<Rightarrow> False | Some x \<Rightarrow> \<not> isEnrollmentActive x now);
                 w = (if e = None then (rowsOf user)\<lparr>lw_lessonProgress := []\<rparr> else rowsOf user);
                 items = sequenceItems w now ended (rawItems cc course) sections
             in Inr \<lparr>sp_items = items,
                     sp_continueItemId = map_option si_id
                       (find (\<lambda>i. \<not> isFinished (si_state i) \<and> si_state i \<noteq> seq_locked) items),
                     sp_completedCount = length (filter (\<lambda>i. isFinished (si_state i)) items),
                     sp_totalCount = length items\<rparr>))"

text \<open>The handlers refuse an item exactly when the sequence lists it as locked.\<close>

definition sequenceLocked :: "sequence_item list \<Rightarrow> uid \<Rightarrow> bool" where
  "sequenceLocked items k = (case find_by si_id k items of Some i \<Rightarrow> si_state i = seq_locked | None \<Rightarrow> False)"

subsection \<open>Walking the sequence\<close>

lemma walk_length [simp]: "length (walk w now ended gate p its) = length its"
  by (induction w now ended gate p its rule: walk.induct) (simp_all split: prod.split)

definition gateBefore :: "bool \<times> bool \<Rightarrow> (raw_item \<times> nat \<times> nat) list \<Rightarrow> sequence_item list \<Rightarrow> nat \<Rightarrow> bool \<times> bool"
  where
  "gateBefore gate its items k =
     (if k = 0 then gate else nextGate (fst (its ! (k - 1))) (si_state (items ! (k - 1))))"

lemma walk_nth:
  assumes "k < length its" and "items = walk w now ended gate p its"
    and "(f, b) = gateBefore gate its items k"
  shows "si_id (items ! k) = ri_id (fst (its ! k)) \<and> si_position (items ! k) = p + k
       \<and> (si_state (items ! k), si_lockReason (items ! k)) = deriveState w now ended f b (fst (its ! k))"
  using assms
proof (induction its arbitrary: k gate p items)
  case (Cons x its)
  obtain i u n where x: "x = (i, u, n)" by (cases x) auto
  obtain s r where d: "deriveState w now ended (fst gate) (snd gate) i = (s, r)" by force
  define rest where "rest = walk w now ended (nextGate i s) (p + 1) its"
  obtain h where items: "items = h # rest" "si_state h = s" "si_lockReason h = r" "si_id h = ri_id i"
      "si_position h = p"
    using Cons.prems(2) by (simp add: x d rest_def)
  show ?case
  proof (cases k)
    case 0
    with Cons.prems(3) have "gate = (f, b)" by (simp add: gateBefore_def)
    with 0 d show ?thesis by (simp add: items x)
  next
    case (Suc j)
    then have "j < length its" using Cons.prems(1) by simp
    moreover have "(f, b) = gateBefore (nextGate i s) its rest j"
      using Cons.prems(3) by (cases j) (simp_all add: gateBefore_def Suc items(1,2) x)
    ultimately have "si_id (rest ! j) = ri_id (fst (its ! j)) \<and> si_position (rest ! j) = p + 1 + j
       \<and> (si_state (rest ! j), si_lockReason (rest ! j)) = deriveState w now ended f b (fst (its ! j))"
      using Cons.IH [of j rest "nextGate i s" "p + 1"] rest_def by blast
    then show ?thesis by (simp only: items(1) Suc nth_Cons_Suc) simp
  qed
qed simp

lemma foldl_never_locked:
  assumes "\<And>m x. m k \<noteq> Some seq_locked \<Longrightarrow> f m x k \<noteq> Some seq_locked" "m0 k \<noteq> Some seq_locked"
  shows "foldl f m0 xs k \<noteq> Some seq_locked"
  using assms(2)
proof (induction xs arbitrary: m0)
  case (Cons x xs)
  have "f m0 x k \<noteq> Some seq_locked" using assms(1) [of m0 x] Cons.prems by blast
  then have "foldl f (f m0 x) xs k \<noteq> Some seq_locked" by (rule Cons.IH [where ?m0.0 = "f m0 x"])
  then show ?case by simp
qed simp

lemma existing_not_locked: "existingState w i \<noteq> Some seq_locked"
proof -
  have l: "mapLessonState x \<noteq> Some seq_locked" for x
    by (auto simp: mapLessonState_def split: option.splits lesson_progress_status.splits)
  have b: "m k \<noteq> Some seq_locked \<Longrightarrow> bestAttempt m x k \<noteq> Some seq_locked" for m x k
    by (cases x) (auto simp: bestAttempt_def mapQuizState_def split: if_splits attempt_status.splits)
  have q: "quizStates w k \<noteq> Some seq_locked" for k
    unfolding quizStates_def
  proof (rule foldl_never_locked)
    show "foldl bestAttempt Map.empty (lw_quizAttempts w) k \<noteq> Some seq_locked"
      by (rule foldl_never_locked, rule b, assumption) simp
  qed (auto split: if_splits)
  have a: "assignmentStates w k \<noteq> Some seq_locked" for k
    by (auto simp: assignmentStates_def dest!: map_of_SomeD split: if_splits)
  show ?thesis using l q a by (simp add: existingState_def split: item_type.split)
qed

definition unstarted :: "learner_rows \<Rightarrow> raw_item \<Rightarrow> bool" where
  "unstarted w i \<longleftrightarrow> existingState w i = None \<or> existingState w i = Some seq_available"

definition notYetOpen :: "instant \<Rightarrow> raw_item \<Rightarrow> bool" where
  "notYetOpen now i = (case ri_availableAt i of Some t \<Rightarrow> t > now | None \<Rightarrow> False)"

lemma derive_locked:
  "fst (deriveState w now ended f b i) = seq_locked \<longleftrightarrow>
     ended \<and> \<not> ri_isPreview i \<or> notYetOpen now i \<or> unstarted w i \<and> \<not> f \<and> \<not> ri_isPreview i"
  using existing_not_locked [of w i]
  by (auto simp: deriveState_def notYetOpen_def unstarted_def split: option.splits)

lemma derive_reason: "snd (deriveState w now ended f b i) \<noteq> None \<longleftrightarrow> fst (deriveState w now ended f b i) = seq_locked"
  using existing_not_locked [of w i] by (auto simp: deriveState_def split: option.splits)

subsection \<open>What the sequence promises\<close>

lemma sequence_lock:
  assumes "its = orderedItems raw sections" and "items = sequenceItems w now ended raw sections"
    and "k < length its" and "i = fst (its ! k)"
  shows "length items = length its \<and> si_id (items ! k) = ri_id i \<and> si_position (items ! k) = k
       \<and> (si_state (items ! k) = seq_locked \<longleftrightarrow>
            ended \<and> \<not> ri_isPreview i
          \<or> notYetOpen now i
          \<or> unstarted w i \<and> \<not> ri_isPreview i \<and> 0 < k
            \<and> \<not> (let prev = fst (its ! (k - 1)); st = si_state (items ! (k - 1))
                  in if ri_type prev = quiz_item then ri_requiredToProgress prev \<longrightarrow> st = seq_passed
                     else isFinished st))
       \<and> (si_lockReason (items ! k) \<noteq> None \<longleftrightarrow> si_state (items ! k) = seq_locked)"
proof -
  have walk: "items = walk w now ended (True, False) 0 its"
    by (simp add: assms(1,2) sequenceItems_def)
  obtain f b where g: "(f, b) = gateBefore (True, False) its items k" by (metis surj_pair)
  note nth = walk_nth [OF assms(3) walk g, folded assms(4)]
  from nth have "(si_state (items ! k), si_lockReason (items ! k)) = deriveState w now ended f b i" by blast
  then have s: "si_state (items ! k) = fst (deriveState w now ended f b i)"
      "si_lockReason (items ! k) = snd (deriveState w now ended f b i)"
    by (metis fst_conv, metis snd_conv)
  have f: "f \<longleftrightarrow> \<not> (0 < k \<and> \<not> (let prev = fst (its ! (k - 1)); st = si_state (items ! (k - 1))
                  in if ri_type prev = quiz_item then ri_requiredToProgress prev \<longrightarrow> st = seq_passed
                     else isFinished st))"
    using g by (auto simp: gateBefore_def nextGate_def Let_def split: if_splits)
  have "si_state (items ! k) = seq_locked \<longleftrightarrow>
      ended \<and> \<not> ri_isPreview i \<or> notYetOpen now i \<or> unstarted w i \<and> \<not> f \<and> \<not> ri_isPreview i"
    by (simp only: s derive_locked)
  moreover have "si_lockReason (items ! k) \<noteq> None \<longleftrightarrow> si_state (items ! k) = seq_locked"
    by (simp only: s derive_reason)
  moreover have "length items = length its \<and> si_id (items ! k) = ri_id i \<and> si_position (items ! k) = k"
    using nth by (simp add: walk)
  ultimately show ?thesis unfolding f by blast
qed

text \<open>
  C15. When an item of the sequence is locked. The items are listed in curriculum order, numbered from 0. One
  is locked exactly when access to the course has ended (unless it is a preview), or its
  opening date has not come, or it is untouched, not a preview, and the item just before it
  does not let it through: an ordinary item does when it is finished, a quiz required to
  progress when it is passed, any other quiz always. A lock always comes with its reason, and an item the
  learner has started is never locked by what precedes it.
\<close>

theorem sequence_lock_rule:
  assumes "its = orderedItems raw sections" and "items = sequenceItems w now ended raw sections"
    and "k < length its" and "i = fst (its ! k)"
  shows "length items = length its \<and> si_id (items ! k) = ri_id i \<and> si_position (items ! k) = k
       \<and> (si_state (items ! k) = seq_locked \<longleftrightarrow>
            ended \<and> \<not> ri_isPreview i
          \<or> notYetOpen now i
          \<or> unstarted w i \<and> \<not> ri_isPreview i \<and> 0 < k
            \<and> \<not> (let prev = fst (its ! (k - 1)); st = si_state (items ! (k - 1))
                  in if ri_type prev = quiz_item then ri_requiredToProgress prev \<longrightarrow> st = seq_passed
                     else isFinished st))
       \<and> (si_lockReason (items ! k) \<noteq> None \<longleftrightarrow> si_state (items ! k) = seq_locked)"
  by (rule sequence_lock [OF assms])

definition row :: "uid \<Rightarrow> int \<Rightarrow> content_row" where
  "row k n = \<lparr>cr_id = k, cr_courseId = ''c'', cr_sectionId = Some ''u'', cr_order = n, cr_createdAt = 0,
     cr_isDraft = False, cr_isPublished = True, cr_isPreview = False, cr_dueAt = None, cr_availableAt = None,
     cr_scheduledStartAt = Some 0, cr_requiredToProgress = False\<rparr>"

definition exampleCourse :: course_content where
  "exampleCourse = \<lparr>cc_lessons = [row ''l1'' 0, row ''l2'' 2, row ''l3'' 4], cc_quizzes = [row ''q1'' 1],
     cc_assignments = [], cc_liveSessions = [row ''v'' 3]\<rparr>"

definition newLearner :: learner_rows where
  "newLearner = \<lparr>lw_lessonProgress = [], lw_quizAttempts = [], lw_quizResults = [], lw_submissions = []\<rparr>"

lemma example_order:
  "orderedItems (rawItems exampleCourse ''c'') [''u''] =
     [(rawLesson (row ''l1'' 0), 1, 1), (rawQuiz (row ''q1'' 1), 1, 2), (rawLesson (row ''l2'' 2), 1, 3),
      (rawLiveSession (row ''v'' 3), 1, 4), (rawLesson (row ''l3'' 4), 1, 5)]"
  by (simp add: orderedItems_def sectionItems_def rawItems_def exampleCourse_def rawLesson_def rawQuiz_def
      rawLiveSession_def row_def)

lemma sequence_lock_rule_witness:
  "si_state (sequenceItems newLearner 10 False (rawItems exampleCourse ''c'') [''u''] ! 1) = seq_locked"
proof -
  let ?items = "sequenceItems newLearner 10 False (rawItems exampleCourse ''c'') [''u'']"
  have "si_state (?items ! 0) = seq_available"
    by (simp add: sequenceItems_def example_order deriveState_def existingState_def lessonStates_def
        mapLessonState_def newLearner_def rawLesson_def row_def)
  then show ?thesis
    using sequence_lock_rule [OF refl refl, of 1 "rawItems exampleCourse ''c''" "[''u'']" _ newLearner 10 False]
    by (simp add: example_order Let_def isFinished_def unstarted_def existingState_def quizStates_def
        newLearner_def rawLesson_def rawQuiz_def row_def notYetOpen_def)
qed

lemma live_session_never_finished:
  assumes "ri_type i = live_session_item" "(s, r) = deriveState w now ended f b i"
  shows "\<not> isFinished s"
  using assms by (auto simp: deriveState_def existingState_def isFinished_def split: if_splits)

text \<open>
  Two gaps of the sequential unlock. What follows a live session stays locked for ever: a live session has no
  finished state, so the next untouched item never unlocks, whatever the learner does. And what follows
  a quiz that is not required to progress is never locked by order: the quiz lets through
  even when it is itself locked, so the lessons after it are open to a learner who finished nothing.
\<close>

theorem sequence_gate_gaps:
  assumes "its = orderedItems raw sections" and "items = sequenceItems w now ended raw sections"
    and "0 < k" "k < length its" and "i = fst (its ! k)" and "prev = fst (its ! (k - 1))"
    and "unstarted w i" "\<not> ri_isPreview i" "\<not> ended" "\<not> notYetOpen now i"
  shows "(ri_type prev = live_session_item \<longrightarrow> si_state (items ! k) = seq_locked)
       \<and> (ri_type prev = quiz_item \<and> \<not> ri_requiredToProgress prev \<longrightarrow> si_state (items ! k) \<noteq> seq_locked)"
proof -
  have k: "k - 1 < length its" using assms(4) by simp
  have walk: "items = walk w now ended (True, False) 0 its" by (simp add: assms(1,2) sequenceItems_def)
  obtain f b where g: "(f, b) = gateBefore (True, False) its items (k - 1)" by (metis surj_pair)
  have prev: "(si_state (items ! (k - 1)), si_lockReason (items ! (k - 1))) = deriveState w now ended f b prev"
    using walk_nth [OF k walk g] assms(6) by blast
  show ?thesis
    using sequence_lock [OF assms(1,2,4,5)] assms(3,6-10) live_session_never_finished [OF _ prev]
    by (auto simp: Let_def)
qed

lemma sequence_gate_gaps_witness:
  "si_state (sequenceItems newLearner 10 False (rawItems exampleCourse ''c'') [''u''] ! 2) \<noteq> seq_locked
   \<and> si_state (sequenceItems newLearner 10 False (rawItems exampleCourse ''c'') [''u''] ! 4) = seq_locked"
proof -
  have u: "unstarted newLearner (rawLesson (row k n))" "\<not> ri_isPreview (rawLesson (row k n))"
      "\<not> notYetOpen 10 (rawLesson (row k n))" for k n
    by (simp_all add: unstarted_def existingState_def lessonStates_def mapLessonState_def newLearner_def
        rawLesson_def row_def notYetOpen_def)
  note g = sequence_gate_gaps [OF refl refl, where raw = "rawItems exampleCourse ''c''" and sections = "[''u'']"
      and w = newLearner and now = 10 and ended = False, OF _ _ refl refl]
  show ?thesis
    using g [of 2] g [of 4] u by (simp add: example_order rawQuiz_def rawLiveSession_def row_def)
qed

subsection \<open>The sequence lists the curriculum\<close>

lemma sectionItems_mset: "mset (sectionItems raw section) = mset (filter (\<lambda>i. ri_sectionId i = section) raw)"
  by (simp add: sectionItems_def)

lemma orderedItems_items: "map fst (orderedItems raw sections) = concat (map (sectionItems raw) sections)"
proof -
  have e: "map (\<lambda>(k, i). i) (enumerate n xs) = xs" for n and xs :: "raw_item list"
    by (induction xs arbitrary: n) simp_all
  have "map fst (concat (map (\<lambda>(u, section). map (\<lambda>(k, i). (i, u + 1, k + 1)) (enumerate 0 (sectionItems raw section)))
       (enumerate n sections))) = concat (map (sectionItems raw) sections)" for n
  proof (induction sections arbitrary: n)
    case (Cons a sections)
    have "map (fst \<circ> (\<lambda>(k, i). (i, n + 1, k + 1))) (enumerate 0 (sectionItems raw a)) = sectionItems raw a"
      using e [of 0 "sectionItems raw a"] by (simp add: comp_def split_beta)
    with Cons show ?case by simp
  qed simp
  then show ?thesis by (simp add: orderedItems_def)
qed

text \<open>Every item of a listed section appears exactly once.\<close>

lemma sequence_lists_curriculum:
  "distinct sections \<Longrightarrow>
   mset (map fst (orderedItems raw sections)) = mset (filter (\<lambda>i. ri_sectionId i \<in> set sections) raw)"
proof (induction sections)
  case (Cons a sections)
  have "mset (filter (\<lambda>i. ri_sectionId i = a \<or> ri_sectionId i \<in> set sections) raw) =
      mset (filter (\<lambda>i. ri_sectionId i = a) raw) + mset (filter (\<lambda>i. ri_sectionId i \<in> set sections) raw)"
    using Cons.prems by (induction raw) auto
  with Cons show ?case by (simp add: orderedItems_items sectionItems_mset)
qed (simp add: orderedItems_items)

end
