(* ===== verification/Playback_Evidence.thy ===== *)
theory Playback_Evidence
  imports Atlas_Prelude
begin

text \<open>
  Watched time (\<open>learning/services/playback-evidence.util.ts\<close>): how a heartbeat of the player is
  credited.  Times are in milliseconds, durations and credits in whole seconds; the products are
  exact here.
\<close>

definition MAX_CREDITED_DELTA_SECONDS :: int where
  "MAX_CREDITED_DELTA_SECONDS = 120"

definition MAX_PLAYBACK_RATE :: rat where
  "MAX_PLAYBACK_RATE = 5 / 2"

definition MINIMUM_WATCHED_RATIO :: rat where
  "MINIMUM_WATCHED_RATIO = 9 / 10"

record playback_evidence =
  pe_lastPositionSeconds :: int
  pe_watchedSeconds :: int
  pe_maxWatchedRatio :: rat
  pe_lastActivityAt :: "instant option"

text \<open>A reported position: \<open>None\<close> is a number that is not finite.\<close>

record playback_heartbeat =
  hb_positionSeconds :: "rat option"
  hb_now :: instant

definition clampPosition :: "rat option \<Rightarrow> int option \<Rightarrow> int" where
  "clampPosition position duration =
     (case position of
        None \<Rightarrow> 0
      | Some p \<Rightarrow>
          if p < 0 then 0
          else (case duration of
                  Some d \<Rightarrow> if d > 0 then min \<lfloor>p\<rfloor> d else \<lfloor>p\<rfloor>
                | None \<Rightarrow> \<lfloor>p\<rfloor>))"

definition round4 :: "rat \<Rightarrow> rat" where
  "round4 v = of_int \<lfloor>v * 10000\<rfloor> / 10000"

definition creditedSeconds :: "instant option \<Rightarrow> instant \<Rightarrow> int" where
  "creditedSeconds previous now =
     (let elapsed = (case previous of Some t \<Rightarrow> of_int (now - t) / 1000 | None \<Rightarrow> (0 :: rat))
      in if elapsed > 0 then min \<lfloor>elapsed * MAX_PLAYBACK_RATE\<rfloor> MAX_CREDITED_DELTA_SECONDS else 0)"

text \<open>The updated evidence and what the beat credited.\<close>

definition applyPlaybackHeartbeat ::
  "playback_evidence \<Rightarrow> playback_heartbeat \<Rightarrow> int option \<Rightarrow> playback_evidence \<times> int" where
  "applyPlaybackHeartbeat st beat duration =
     (let credited = creditedSeconds (pe_lastActivityAt st) (hb_now beat);
          watched = pe_watchedSeconds st + credited;
          ratio = (case duration of
                     Some d \<Rightarrow> if d > 0 then min 1 (of_int watched / of_int d) else pe_maxWatchedRatio st
                   | None \<Rightarrow> pe_maxWatchedRatio st)
      in (\<lparr>pe_lastPositionSeconds = clampPosition (hb_positionSeconds beat) duration,
           pe_watchedSeconds = watched,
           pe_maxWatchedRatio = max (pe_maxWatchedRatio st) (round4 ratio),
           pe_lastActivityAt = Some (hb_now beat)\<rparr>, credited))"

subsection \<open>One beat\<close>

lemma credited_nonneg: "0 \<le> creditedSeconds p n"
  by (cases p) (auto simp: creditedSeconds_def MAX_PLAYBACK_RATE_def MAX_CREDITED_DELTA_SECONDS_def Let_def)

lemma credited_cap: "creditedSeconds p n \<le> 120"
  by (cases p) (auto simp: creditedSeconds_def MAX_CREDITED_DELTA_SECONDS_def Let_def)

lemma credited_first [simp]: "creditedSeconds None n = 0"
  by (simp add: creditedSeconds_def)

lemma credited_wall_clock:
  assumes "t \<le> n"
  shows "2000 * creditedSeconds (Some t) n \<le> 5 * (n - t)"
proof (cases "t < n")
  case True
  have "creditedSeconds (Some t) n \<le> \<lfloor>of_int (n - t) / 1000 * (5 / 2 :: rat)\<rfloor>"
    using True by (simp add: creditedSeconds_def MAX_PLAYBACK_RATE_def Let_def)
  then have "of_int (creditedSeconds (Some t) n) \<le> of_int (n - t) / 1000 * (5 / 2 :: rat)"
    by (simp add: le_floor_iff)
  then have "of_int (2000 * creditedSeconds (Some t) n) \<le> (of_int (5 * (n - t)) :: rat)" by simp
  then show ?thesis by (simp only: of_int_le_iff)
qed (use assms in \<open>simp add: creditedSeconds_def\<close>)

lemma round4_le: "round4 v \<le> v"
proof -
  have "of_int \<lfloor>v * 10000\<rfloor> \<le> v * 10000" by simp
  then show ?thesis by (simp add: round4_def divide_simps)
qed

lemma clamp_range:
  "0 \<le> clampPosition p dur \<and> (\<forall>d. dur = Some d \<and> 0 < d \<longrightarrow> clampPosition p dur \<le> d)"
  by (auto simp: clampPosition_def split: option.splits)

subsection \<open>A history of beats\<close>

definition playAll ::
  "int option \<Rightarrow> playback_heartbeat list \<Rightarrow> playback_evidence \<Rightarrow> playback_evidence" where
  "playAll duration beats st = fold (\<lambda>b s. fst (applyPlaybackHeartbeat s b duration)) beats st"

lemma playAll_simps [simp]:
  "playAll d [] st = st"
  "playAll d (b # bs) st = playAll d bs (fst (applyPlaybackHeartbeat st b d))"
  by (simp_all add: playAll_def)

definition sound_evidence :: "int \<Rightarrow> playback_evidence \<Rightarrow> bool" where
  "sound_evidence d st \<longleftrightarrow> 0 \<le> pe_watchedSeconds st \<and> 0 \<le> pe_maxWatchedRatio st \<and> pe_maxWatchedRatio st \<le> 1
     \<and> pe_maxWatchedRatio st \<le> of_int (pe_watchedSeconds st) / of_int d"

lemma beat_sound:
  assumes "0 < d" "sound_evidence d st"
  shows "sound_evidence d (fst (applyPlaybackHeartbeat st b (Some d)))"
proof -
  let ?c = "creditedSeconds (pe_lastActivityAt st) (hb_now b)"
  let ?w = "of_int (pe_watchedSeconds st + ?c) / (of_int d :: rat)"
  have "of_int (pe_watchedSeconds st) / (of_int d :: rat) \<le> ?w"
    using assms(1) credited_nonneg by (simp add: divide_right_mono)
  moreover have "round4 (min 1 ?w) \<le> ?w \<and> round4 (min 1 ?w) \<le> 1"
    using round4_le [of "min 1 ?w"] by linarith
  ultimately show ?thesis
    using assms credited_nonneg [of "pe_lastActivityAt st" "hb_now b"]
    by (auto simp: sound_evidence_def applyPlaybackHeartbeat_def Let_def)
qed

lemma play_sound:
  "0 < d \<Longrightarrow> sound_evidence d st \<Longrightarrow> sound_evidence d (playAll (Some d) bs st)"
  by (induction bs arbitrary: st) (simp_all add: beat_sound)

lemma play_monotone:
  "pe_maxWatchedRatio st \<le> pe_maxWatchedRatio (playAll dur bs st)
   \<and> pe_watchedSeconds st \<le> pe_watchedSeconds (playAll dur bs st)"
proof (induction bs arbitrary: st)
  case (Cons b bs)
  let ?s = "fst (applyPlaybackHeartbeat st b dur)"
  have "pe_maxWatchedRatio st \<le> pe_maxWatchedRatio ?s" "pe_watchedSeconds st \<le> pe_watchedSeconds ?s"
    using credited_nonneg by (simp_all add: applyPlaybackHeartbeat_def Let_def)
  with Cons [of ?s] show ?case by simp
qed simp

lemma play_wall_clock:
  assumes "sorted (t # map hb_now bs)" "pe_lastActivityAt st = Some t"
  shows "2000 * (pe_watchedSeconds (playAll dur bs st) - pe_watchedSeconds st)
    \<le> 5 * (last (t # map hb_now bs) - t)"
  using assms
proof (induction bs arbitrary: t st)
  case (Cons b bs)
  let ?s = "fst (applyPlaybackHeartbeat st b dur)"
  have at: "pe_lastActivityAt ?s = Some (hb_now b)"
    and w: "pe_watchedSeconds ?s = pe_watchedSeconds st + creditedSeconds (Some t) (hb_now b)"
    by (simp_all add: applyPlaybackHeartbeat_def Cons.prems(2) Let_def)
  have "t \<le> hb_now b" using Cons.prems(1) by simp
  note credited_wall_clock [OF this]
  moreover have "2000 * (pe_watchedSeconds (playAll dur bs ?s) - pe_watchedSeconds ?s)
      \<le> 5 * (last (hb_now b # map hb_now bs) - hb_now b)"
    using Cons.IH [OF _ at] Cons.prems(1) by simp
  ultimately show ?case by (simp add: w)
qed simp

definition fresh_evidence :: playback_evidence where
  "fresh_evidence = \<lparr>pe_lastPositionSeconds = 0, pe_watchedSeconds = 0, pe_maxWatchedRatio = 0,
     pe_lastActivityAt = None\<rparr>"

lemma fresh_wall_clock:
  assumes "sorted (map hb_now (b # bs))"
  shows "2000 * pe_watchedSeconds (playAll dur (b # bs) fresh_evidence) \<le> 5 * (hb_now (last (b # bs)) - hb_now b)"
proof -
  let ?s = "fst (applyPlaybackHeartbeat fresh_evidence b dur)"
  have "pe_lastActivityAt ?s = Some (hb_now b)" "pe_watchedSeconds ?s = 0"
    by (simp_all add: applyPlaybackHeartbeat_def fresh_evidence_def Let_def)
  with play_wall_clock [of "hb_now b" bs ?s dur] assms show ?thesis
    by (cases "bs = []") (simp_all add: last_map)
qed

lemma fresh_sound: "0 < d \<Longrightarrow> sound_evidence d (playAll (Some d) bs fresh_evidence)"
  by (rule play_sound) (simp_all add: sound_evidence_def fresh_evidence_def)

lemma watched_gate:
  assumes "sorted (map hb_now (b # bs))" "0 < d"
    and "MINIMUM_WATCHED_RATIO \<le> pe_maxWatchedRatio (playAll (Some d) (b # bs) fresh_evidence)"
  shows "1800 * d \<le> 5 * (hb_now (last (b # bs)) - hb_now b)"
proof -
  let ?st = "playAll (Some d) (b # bs) fresh_evidence"
  have "(9 / 10 :: rat) \<le> of_int (pe_watchedSeconds ?st) / of_int d"
    using assms(3) fresh_sound [OF assms(2), of "b # bs"]
    unfolding sound_evidence_def MINIMUM_WATCHED_RATIO_def by (meson order_trans)
  then have "(9 * of_int d :: rat) \<le> of_int (10 * pe_watchedSeconds ?st)"
    using assms(2) by (simp add: field_simps)
  then have "of_int (9 * d) \<le> (of_int (10 * pe_watchedSeconds ?st) :: rat)" by simp
  then have "9 * d \<le> 10 * pe_watchedSeconds ?st" by (simp only: of_int_le_iff)
  with fresh_wall_clock [OF assms(1), of "Some d"] show ?thesis by linarith
qed

text \<open>Whatever positions a player reports and however often, the watched seconds of a lesson grow
  by at most 120 per beat and in total by at most two and a half times the time on the server's
  clock since the first beat; the watched ratio stays between 0 and 1 and never decreases, the resume position stays
  inside the video, and the ratio that completion asks for cannot be reached in less than nine
  tenths of the duration divided by two and a half.\<close>

theorem playback_bounded:
  assumes "sorted (map hb_now (b # bs))" "0 < d"
    and "st = playAll (Some d) (b # bs) fresh_evidence"
  shows "2000 * pe_watchedSeconds st \<le> 5 * (hb_now (last (b # bs)) - hb_now b)
    \<and> pe_maxWatchedRatio st \<in> {0..1}
    \<and> pe_maxWatchedRatio st \<le> pe_maxWatchedRatio (playAll (Some d) later st)
    \<and> snd (applyPlaybackHeartbeat st next_beat (Some d)) \<in> {0..120}
    \<and> pe_lastPositionSeconds (fst (applyPlaybackHeartbeat st next_beat (Some d))) \<in> {0..d}
    \<and> (MINIMUM_WATCHED_RATIO \<le> pe_maxWatchedRatio st \<longrightarrow>
         1800 * d \<le> 5 * (hb_now (last (b # bs)) - hb_now b))"
proof -
  have sound: "sound_evidence d st" unfolding assms(3) by (rule fresh_sound [OF assms(2)])
  have wall: "2000 * pe_watchedSeconds st \<le> 5 * (hb_now (last (b # bs)) - hb_now b)"
    unfolding assms(3) by (rule fresh_wall_clock [OF assms(1)])
  have gate: "1800 * d \<le> 5 * (hb_now (last (b # bs)) - hb_now b)"
    if "MINIMUM_WATCHED_RATIO \<le> pe_maxWatchedRatio st"
    using watched_gate [OF assms(1,2)] that by (simp only: assms(3))
  have beat: "snd (applyPlaybackHeartbeat st next_beat (Some d)) \<in> {0..120}"
    "pe_lastPositionSeconds (fst (applyPlaybackHeartbeat st next_beat (Some d))) \<in> {0..d}"
    using credited_nonneg credited_cap clamp_range assms(2)
    by (simp_all add: applyPlaybackHeartbeat_def Let_def)
  show ?thesis
    using wall sound gate beat play_monotone by (auto simp: sound_evidence_def dest: order_trans)
qed

text \<open>Ten seconds of a hundred-second video, reported as its end: 25 seconds are credited.\<close>

theorem playback_bounded_witness:
  "pe_watchedSeconds (playAll (Some 100) [\<lparr>hb_positionSeconds = Some 0, hb_now = 0\<rparr>,
       \<lparr>hb_positionSeconds = Some 500, hb_now = 10000\<rparr>] fresh_evidence) = 25
   \<and> pe_maxWatchedRatio (playAll (Some 100) [\<lparr>hb_positionSeconds = Some 0, hb_now = 0\<rparr>,
       \<lparr>hb_positionSeconds = Some 500, hb_now = 10000\<rparr>] fresh_evidence) < MINIMUM_WATCHED_RATIO"
proof -
  let ?b = "\<lparr>hb_positionSeconds = Some 0, hb_now = 0\<rparr>"
  let ?c = "\<lparr>hb_positionSeconds = Some (500 :: rat), hb_now = 10000\<rparr>"
  have "\<not> MINIMUM_WATCHED_RATIO \<le> pe_maxWatchedRatio (playAll (Some 100) [?b, ?c] fresh_evidence)"
    using playback_bounded [of ?b "[?c]" 100] by auto
  moreover have "pe_watchedSeconds (playAll (Some 100) [?b, ?c] fresh_evidence) = 25"
    by (simp add: applyPlaybackHeartbeat_def fresh_evidence_def creditedSeconds_def Let_def
        MAX_PLAYBACK_RATE_def MAX_CREDITED_DELTA_SECONDS_def)
  ultimately show ?thesis by simp
qed

end
