(* ===== verification/Learning_Progress.thy ===== *)
theory Learning_Progress
  imports Course_Completion Course_Sequence Playback_Evidence Learning_Lease
begin

text \<open>
  A learner's progress through one course: completing a lesson and taking it back
  (\<open>learning/services/course-progress.service.ts\<close>), the ledger that orders operations which
  arrive late or twice (\<open>learning/services/learner-op-ledger.service.ts\<close>) and the player's
  heartbeat (\<open>learning/services/playback.service.ts\<close>).  One value holds the rows of one
  enrollment.  A request reads the row of its lesson, then waits for the lock of the enrollment
  and only then judges and writes: \<open>completeLessonFrom\<close> and \<open>undoCompleteLessonFrom\<close> are what
  it does under the lock, with the row it read before, on the state it finds there.  The bodies
  compose the two for a request that no other one overlaps.  The ledger in Redis is a map that may be
  unreachable (\<open>up = False\<close>) and may lose entries.
\<close>

subsection \<open>State\<close>

record course_lesson =
  cl_id :: uid
  cl_sectionId :: uid
  cl_published :: bool
  cl_watchedRatioRule :: bool
  cl_durationSeconds :: "int option"

record lesson_row =
  rw_lessonId :: uid
  rw_sectionId :: uid
  rw_status :: lesson_progress_status
  rw_completedAt :: "instant option"
  rw_evidence :: playback_evidence

datatype lesson_action = act_complete | act_undo

record lesson_op =
  lo_at :: instant
  lo_opId :: uid
  lo_action :: lesson_action

record op_ordering =
  od_opId :: "uid option"
  od_clientOpAt :: "instant option"

text \<open>
  \<open>lv_curriculum\<close> lists the lessons of the course in order, drafts included; \<open>lv_sources\<close> is what
  completion reads besides the lesson rows.
\<close>

record learner_course =
  lv_curriculum :: "course_lesson list"
  lv_rows :: "lesson_row list"
  lv_completion :: completion_view
  lv_totalLessons :: nat
  lv_completedLessons :: nat
  lv_currentLesson :: "uid option"
  lv_timeSpent :: int
  lv_lastActivityAt :: "instant option"
  lv_ledger :: "uid \<rightharpoonup> lesson_op"
  lv_sources :: completion_sources

definition lessonDone :: "lesson_row \<Rightarrow> bool" where
  "lessonDone r \<longleftrightarrow> rw_status r = lp_completed"

definition curriculumPosition :: "learner_course \<Rightarrow> uid \<Rightarrow> nat" where
  "curriculumPosition v k = length (takeWhile (\<lambda>l. cl_id l \<noteq> k) (lv_curriculum v))"

definition findLessonProgressForEnrollment :: "learner_course \<Rightarrow> lesson_row list" where
  "findLessonProgressForEnrollment v = sort_key (\<lambda>r. curriculumPosition v (rw_lessonId r)) (lv_rows v)"

definition updateLessonProgress :: "uid \<Rightarrow> (lesson_row \<Rightarrow> lesson_row) \<Rightarrow> learner_course \<Rightarrow> learner_course" where
  "updateLessonProgress k f v =
     v\<lparr>lv_rows := map (\<lambda>r. if rw_lessonId r = k then f r else r) (lv_rows v)\<rparr>"

definition sourcesOf :: "learner_course \<Rightarrow> completion_sources" where
  "sourcesOf v = (lv_sources v)\<lparr>cs_lessonRows := map lessonDone (lv_rows v)\<rparr>"

definition recomputeProgress :: "enrollment_status \<Rightarrow> instant \<Rightarrow> learner_course \<Rightarrow> learner_course" where
  "recomputeProgress read now v =
     v\<lparr>lv_completion := recomputeWith read (sourcesOf v) now (lv_completion v)\<rparr>"

subsection \<open>The ledger\<close>

definition MAX_CLIENT_CLOCK_LEAD_MS :: int where
  "MAX_CLIENT_CLOCK_LEAD_MS = 2 * 60 * 1000"

definition UNDO_CLOCK_SKEW_MS :: int where
  "UNDO_CLOCK_SKEW_MS = 5 * 60 * 1000"

datatype op_verdict = apply_op instant | superseded_by lesson_op

definition judgeOp :: "lesson_op option \<Rightarrow> uid \<Rightarrow> instant \<Rightarrow> instant \<Rightarrow> op_verdict" where
  "judgeOp latest opId clientOpAt now =
     (let stamp = min clientOpAt (now + MAX_CLIENT_CLOCK_LEAD_MS)
      in case latest of
           None \<Rightarrow> apply_op stamp
         | Some l \<Rightarrow> if lo_opId l = opId \<or> lo_at l \<le> stamp then apply_op stamp else superseded_by l)"

definition latestLessonOp :: "bool \<Rightarrow> learner_course \<Rightarrow> uid \<Rightarrow> lesson_op option" where
  "latestLessonOp up v lesson = (if up then lv_ledger v lesson else None)"

definition recordLessonOp :: "bool \<Rightarrow> uid \<Rightarrow> lesson_op \<Rightarrow> learner_course \<Rightarrow> learner_course" where
  "recordLessonOp up lesson entry v = (if up then v\<lparr>lv_ledger := (lv_ledger v)(lesson \<mapsto> entry)\<rparr> else v)"

text \<open>Whether the operation may go on, and the state with the operation remembered.\<close>

definition judgeLessonOp ::
  "bool \<Rightarrow> instant \<Rightarrow> uid \<Rightarrow> lesson_action \<Rightarrow> op_ordering \<Rightarrow> instant option \<Rightarrow> learner_course \<Rightarrow>
     bool \<times> learner_course" where
  "judgeLessonOp up now lesson action od completedAt v =
     (case (od_opId od, od_clientOpAt od) of
        (Some opId, Some clientOpAt) \<Rightarrow>
          (let latest = latestLessonOp up v lesson
           in case judgeOp latest opId clientOpAt now of
                superseded_by _ \<Rightarrow> (False, v)
              | apply_op stamp \<Rightarrow>
                  if latest = None \<and> action = act_undo
                     \<and> (case completedAt of Some c \<Rightarrow> stamp < c - UNDO_CLOCK_SKEW_MS | None \<Rightarrow> False)
                  then (False, v)
                  else (True, recordLessonOp up lesson \<lparr>lo_at = stamp, lo_opId = opId, lo_action = action\<rparr> v))
      | _ \<Rightarrow> (True, v))"

subsection \<open>Backfilling\<close>

definition lessonPercentage :: "nat \<Rightarrow> nat \<Rightarrow> rat" where
  "lessonPercentage done totalLessons = (if totalLessons > 0 then (of_nat done / of_nat totalLessons) * 100 else 0)"

fun backfillRows :: "lesson_row list \<Rightarrow> bool \<Rightarrow> course_lesson list \<Rightarrow> lesson_row list" where
  "backfillRows rows previousCompleted [] = []"
| "backfillRows rows previousCompleted (l # ls) =
     (case find_by rw_lessonId (cl_id l) rows of
        Some r \<Rightarrow> backfillRows rows (rw_status r = lp_completed) ls
      | None \<Rightarrow>
          \<lparr>rw_lessonId = cl_id l, rw_sectionId = cl_sectionId l,
           rw_status = (if previousCompleted then lp_available else lp_locked), rw_completedAt = None,
           rw_evidence = fresh_evidence\<rparr>
          # backfillRows rows False ls)"

definition emptyProgress :: course_progress where
  "emptyProgress = \<lparr>pg_completionState = cst_incomplete, pg_completedAt = None, pg_overallScore = None,
     pg_certificateStatus = cert_unavailable, pg_percentage = 0, pg_totalItems = 0, pg_completedItems = 0\<rparr>"

definition upsertCourseProgress :: "nat \<Rightarrow> nat \<Rightarrow> uid option \<Rightarrow> learner_course \<Rightarrow> learner_course" where
  "upsertCourseProgress totalLessons done openId v =
     v\<lparr>lv_totalLessons := totalLessons, lv_completedLessons := done, lv_currentLesson := openId,
       lv_completion := (lv_completion v)\<lparr>cv_progress := Some
         ((case cv_progress (lv_completion v) of Some p \<Rightarrow> p | None \<Rightarrow> emptyProgress)
            \<lparr>pg_completionState := deriveCompletionState done totalLessons,
             pg_percentage := lessonPercentage done totalLessons\<rparr>)\<rparr>\<rparr>"

definition openLesson :: "lesson_row list \<Rightarrow> uid option" where
  "openLesson rows = map_option rw_lessonId (find (\<lambda>r. \<not> lessonDone r) rows)"

definition backfillLessonProgress ::
  "enrollment_status \<Rightarrow> instant \<Rightarrow> learner_course \<Rightarrow> learner_course" where
  "backfillLessonProgress read now v =
     (let lessons = filter cl_published (lv_curriculum v);
          existing = findLessonProgressForEnrollment v
      in if list_all (\<lambda>l. find_by rw_lessonId (cl_id l) existing \<noteq> None) lessons
         then if cv_progress (lv_completion v) = None
              then recomputeProgress read now
                     (upsertCourseProgress (length lessons) (length (filter lessonDone existing)) (openLesson existing) v)
              else v
         else (let v' = v\<lparr>lv_rows := lv_rows v @ backfillRows existing True lessons\<rparr>;
                   merged = findLessonProgressForEnrollment v'
               in recomputeProgress read now
                    (upsertCourseProgress (length lessons) (length (filter lessonDone merged)) (openLesson merged) v')))"

subsection \<open>Completing and taking back\<close>

definition updateCourseProgress :: "learner_course \<Rightarrow> learner_course" where
  "updateCourseProgress v =
     (let rows = findLessonProgressForEnrollment v;
          done = length (filter lessonDone rows)
      in v\<lparr>lv_completedLessons := done, lv_currentLesson := openLesson rows,
           lv_completion := (lv_completion v)\<lparr>cv_progress :=
             map_option (\<lambda>p. p\<lparr>pg_percentage := lessonPercentage done (length rows)\<rparr>)
               (cv_progress (lv_completion v))\<rparr>\<rparr>)"

text \<open>The lesson after \<open>k\<close> in the order of the rows.\<close>

definition nextLesson :: "uid \<Rightarrow> lesson_row list \<Rightarrow> lesson_row option" where
  "nextLesson k rows =
     (case dropWhile (\<lambda>r. rw_lessonId r \<noteq> k) rows of
        r # n # _ \<Rightarrow> Some n
      | [] \<Rightarrow> (case rows of r # _ \<Rightarrow> Some r | [] \<Rightarrow> None)
      | _ \<Rightarrow> None)"

definition unlockNext :: "uid \<Rightarrow> learner_course \<Rightarrow> learner_course" where
  "unlockNext k v =
     (case nextLesson k (findLessonProgressForEnrollment v) of
        Some n \<Rightarrow> if rw_status n = lp_locked
                  then updateLessonProgress (rw_lessonId n) (\<lambda>r. r\<lparr>rw_status := lp_available\<rparr>) v else v
      | None \<Rightarrow> v)"

definition writeRows :: "instant \<Rightarrow> uid \<Rightarrow> learner_course \<Rightarrow> learner_course" where
  "writeRows now k v =
     (let v1 = updateLessonProgress k (\<lambda>r. r\<lparr>rw_status := lp_completed, rw_completedAt := Some now\<rparr>) v;
          counted = findLessonProgressForEnrollment v1;
          finished = length (filter lessonDone counted);
          v2 = unlockNext k v1
      in v2\<lparr>lv_completedLessons := finished, lv_currentLesson := openLesson counted,
             lv_completion := (lv_completion v2)\<lparr>cv_progress :=
               map_option (\<lambda>p. p\<lparr>pg_percentage := lessonPercentage finished (length counted)\<rparr>)
                 (cv_progress (lv_completion v2))\<rparr>\<rparr>)"

definition writeCompletion :: "enrollment_status \<Rightarrow> instant \<Rightarrow> uid \<Rightarrow> learner_course \<Rightarrow> learner_course" where
  "writeCompletion read now k v = recomputeProgress read now (writeRows now k v)"

text \<open>
  Under the lock.  \<open>r\<close> is the row read before waiting, \<open>read\<close> the enrollment's status read then, \<open>v\<close>
  the state now; \<open>items\<close> is the sequence read in the same transaction.  The result says whether
  the operation was applied; a refusal rolls the transaction back to \<open>v0\<close>, the entry in Redis
  stays.
\<close>

definition completeLessonFrom ::
  "bool \<Rightarrow> instant \<Rightarrow> sequence_item list \<Rightarrow> uid \<Rightarrow> op_ordering \<Rightarrow> enrollment_status \<Rightarrow> lesson_row \<Rightarrow>
     learner_course \<Rightarrow> learner_course \<Rightarrow> bool outcome \<times> learner_course" where
  "completeLessonFrom up now items k od read r v0 v =
     (case judgeLessonOp up now k act_complete od (rw_completedAt r) v of
        (False, _) \<Rightarrow> (Inr False, v)
      | (True, v1) \<Rightarrow>
          if sequenceLocked items k
          then (throw ForbiddenException ''errors.progress.lessonLocked'',
                v0\<lparr>lv_ledger := lv_ledger v1\<rparr>)
          else if (case find_by cl_id k (lv_curriculum v1) of Some l \<Rightarrow> cl_watchedRatioRule l | None \<Rightarrow> False)
               \<and> pe_maxWatchedRatio (rw_evidence r) < MINIMUM_WATCHED_RATIO
          then (throw ForbiddenException ''errors.progress.watchRequirementNotMet'',
                v0\<lparr>lv_ledger := lv_ledger v1\<rparr>)
          else if rw_status r \<noteq> lp_completed
          then (Inr True, writeCompletion read now k v1)
          else (Inr True, v1))"

definition completeLessonBody ::
  "bool \<Rightarrow> instant \<Rightarrow> sequence_item list \<Rightarrow> uid \<Rightarrow> op_ordering \<Rightarrow> learner_course \<Rightarrow>
     bool outcome \<times> learner_course" where
  "completeLessonBody up now items k od v0 =
     (let read = cv_enrollment (lv_completion v0);
          v = backfillLessonProgress read now v0
      in case find_by rw_lessonId k (lv_rows v) of
           None \<Rightarrow> (throw NotFoundException ''errors.notFound'', v0)
         | Some r \<Rightarrow> completeLessonFrom up now items k od read r v0 v)"

definition undoCompleteLessonFrom ::
  "bool \<Rightarrow> instant \<Rightarrow> uid \<Rightarrow> op_ordering \<Rightarrow> enrollment_status \<Rightarrow> lesson_row \<Rightarrow> learner_course \<Rightarrow>
     bool outcome \<times> learner_course" where
  "undoCompleteLessonFrom up now k od read r v =
     (case judgeLessonOp up now k act_undo od
             (if rw_status r = lp_completed then rw_completedAt r else None) v of
        (False, _) \<Rightarrow> (Inr False, v)
      | (True, v1) \<Rightarrow>
          if rw_status r = lp_completed
          then (Inr True, recomputeProgress read now (updateCourseProgress
                  (updateLessonProgress k (\<lambda>x. x\<lparr>
                     rw_status := (if pe_watchedSeconds (rw_evidence r) > 0 then lp_in_progress else lp_available),
                     rw_completedAt := None\<rparr>) v1)))
          else (Inr True, v1))"

definition undoCompleteLessonBody ::
  "bool \<Rightarrow> instant \<Rightarrow> uid \<Rightarrow> op_ordering \<Rightarrow> learner_course \<Rightarrow> bool outcome \<times> learner_course" where
  "undoCompleteLessonBody up now k od v0 =
     (let read = cv_enrollment (lv_completion v0);
          v = backfillLessonProgress read now v0
      in case find_by rw_lessonId k (lv_rows v) of
           None \<Rightarrow> (throw NotFoundException ''errors.notFound'', v0)
         | Some r \<Rightarrow> undoCompleteLessonFrom up now k od read r v)"

text \<open>Reading the progress page heals the rows and the rollup.\<close>

definition getCourseProgressBody :: "instant \<Rightarrow> learner_course \<Rightarrow> learner_course" where
  "getCourseProgressBody now v =
     (let read = cv_enrollment (lv_completion v)
      in recomputeProgress read now (backfillLessonProgress read now v))"

subsection \<open>The heartbeat\<close>

definition accumulateTimeSpent :: "int \<Rightarrow> instant \<Rightarrow> learner_course \<Rightarrow> learner_course" where
  "accumulateTimeSpent credited now v =
     (if credited \<le> 0 then v\<lparr>lv_lastActivityAt := Some now\<rparr>
      else v\<lparr>lv_timeSpent := lv_timeSpent v + credited, lv_lastActivityAt := Some now\<rparr>)"

text \<open>The result is the new evidence and whether the lesson may now be completed.\<close>

definition recordHeartbeatBody ::
  "playback_heartbeat \<Rightarrow> uid \<Rightarrow> learner_course \<Rightarrow> (playback_evidence \<times> bool) outcome \<times> learner_course" where
  "recordHeartbeatBody beat k v =
     (case (find_by cl_id k (lv_curriculum v), find_by rw_lessonId k (lv_rows v)) of
        (Some lesson, Some progress) \<Rightarrow>
          (case applyPlaybackHeartbeat (rw_evidence progress) beat (cl_durationSeconds lesson) of
             (e, credited) \<Rightarrow>
               (Inr (e, \<not> cl_watchedRatioRule lesson \<or> MINIMUM_WATCHED_RATIO \<le> pe_maxWatchedRatio e),
                accumulateTimeSpent credited (hb_now beat)
                  (updateLessonProgress k (\<lambda>r. r\<lparr>rw_evidence := e,
                     rw_status := (if rw_status progress = lp_available then lp_in_progress else rw_status r)\<rparr>) v)))
      | _ \<Rightarrow> (throw NotFoundException ''errors.notFound'', v))"

subsection \<open>The handlers\<close>

text \<open>
  Every handler first asks for an active enrollment; the bodies above run in its transaction.
  A heartbeat writes its evidence and then renews the lease it was sent with; the renewal is
  a program over Redis.
\<close>

definition withEnrollment ::
  "access_tables \<Rightarrow> uid \<Rightarrow> uid \<Rightarrow> instant \<Rightarrow> (enrollment \<Rightarrow> 'a outcome \<times> learner_course) \<Rightarrow> learner_course \<Rightarrow>
     'a outcome \<times> learner_course" where
  "withEnrollment tb user course now body v =
     (case assertActiveEnrollment tb user course now of Inl e \<Rightarrow> (Inl e, v) | Inr en \<Rightarrow> body en)"

definition completeLesson ::
  "access_tables \<Rightarrow> uid \<Rightarrow> uid \<Rightarrow> bool \<Rightarrow> instant \<Rightarrow> sequence_item list \<Rightarrow> uid \<Rightarrow> op_ordering \<Rightarrow> learner_course \<Rightarrow>
     bool outcome \<times> learner_course" where
  "completeLesson tb user course up now items k od v =
     withEnrollment tb user course now (\<lambda>_. completeLessonBody up now items k od v) v"

definition undoCompleteLesson ::
  "access_tables \<Rightarrow> uid \<Rightarrow> uid \<Rightarrow> bool \<Rightarrow> instant \<Rightarrow> uid \<Rightarrow> op_ordering \<Rightarrow> learner_course \<Rightarrow>
     bool outcome \<times> learner_course" where
  "undoCompleteLesson tb user course up now k od v =
     withEnrollment tb user course now (\<lambda>_. undoCompleteLessonBody up now k od v) v"

definition getCourseProgress ::
  "access_tables \<Rightarrow> uid \<Rightarrow> uid \<Rightarrow> instant \<Rightarrow> learner_course \<Rightarrow> unit outcome \<times> learner_course" where
  "getCourseProgress tb user course now v =
     withEnrollment tb user course now (\<lambda>_. (Inr (), getCourseProgressBody now v)) v"

record heartbeat_response =
  hr_lastPositionSeconds :: int
  hr_watchedSeconds :: int
  hr_maxWatchedRatio :: rat
  hr_leaseHeld :: bool
  hr_completionEligible :: bool

definition recordHeartbeat ::
  "access_tables \<Rightarrow> uid \<Rightarrow> uid \<Rightarrow> playback_heartbeat \<Rightarrow> uid \<Rightarrow> uid option \<Rightarrow> learner_course \<Rightarrow>
     heartbeat_response outcome prog \<times> learner_course" where
  "recordHeartbeat tb user course beat k leaseId v =
     (case withEnrollment tb user course (hb_now beat)
             (\<lambda>en. case recordHeartbeatBody beat k v of (Inl e, v') \<Rightarrow> (Inl e, v') | (Inr x, v') \<Rightarrow> (Inr (en, x), v')) v of
        (Inl e, v') \<Rightarrow> (Return (Inl e), v')
      | (Inr (en, e, eligible), v') \<Rightarrow>
          (let response = (\<lambda>held. Inr \<lparr>hr_lastPositionSeconds = pe_lastPositionSeconds e,
                 hr_watchedSeconds = pe_watchedSeconds e, hr_maxWatchedRatio = pe_maxWatchedRatio e,
                 hr_leaseHeld = held, hr_completionEligible = eligible\<rparr>)
           in (case leaseId of
                 None \<Rightarrow> Return (response True)
               | Some l \<Rightarrow> map_prog response (renew user (er_academyId en) l), v')))"

definition releaseLease :: "access_tables \<Rightarrow> uid \<Rightarrow> uid \<Rightarrow> uid \<Rightarrow> unit prog" where
  "releaseLease tb user course leaseId =
     (case findEnrollment tb user course of
        None \<Rightarrow> Return ()
      | Some en \<Rightarrow> release user (er_academyId en) leaseId)"

lemma accumulate_fields [simp]:
  "lv_rows (accumulateTimeSpent c n v) = lv_rows v"
  "lv_curriculum (accumulateTimeSpent c n v) = lv_curriculum v"
  by (simp_all add: accumulateTimeSpent_def)

text \<open>Without an active enrollment nothing is written; with one the body decides.\<close>

lemma handlers_guarded:
  assumes "assertActiveEnrollment tb user course now = Inl e"
  shows "completeLesson tb user course up now items k od v = (Inl e, v)"
    and "undoCompleteLesson tb user course up now k od v = (Inl e, v)"
    and "getCourseProgress tb user course now v = (Inl e, v)"
    and "hb_now beat = now \<Longrightarrow> recordHeartbeat tb user course beat k l v = (Return (Inl e), v)"
  using assms by (simp_all add: completeLesson_def undoCompleteLesson_def getCourseProgress_def
      recordHeartbeat_def withEnrollment_def)

lemma handlers_admitted:
  assumes "assertActiveEnrollment tb user course now = Inr en"
  shows "completeLesson tb user course up now items k od v = completeLessonBody up now items k od v"
    and "undoCompleteLesson tb user course up now k od v = undoCompleteLessonBody up now k od v"
    and "snd (getCourseProgress tb user course now v) = getCourseProgressBody now v"
    and "hb_now beat = now \<Longrightarrow> snd (recordHeartbeat tb user course beat k l v) = snd (recordHeartbeatBody beat k v)"
  using assms by (simp_all add: completeLesson_def undoCompleteLesson_def getCourseProgress_def
      recordHeartbeat_def withEnrollment_def case_prod_beta Let_def split: sum.split)

subsection \<open>What the steps touch\<close>

definition rowOf :: "uid \<Rightarrow> learner_course \<Rightarrow> lesson_row option" where
  "rowOf k v = find_by rw_lessonId k (lv_rows v)"

definition rowDone :: "uid \<Rightarrow> learner_course \<Rightarrow> bool" where
  "rowDone k v = (case rowOf k v of Some r \<Rightarrow> lessonDone r | None \<Rightarrow> False)"

lemma recompute_progress_fields [simp]:
  "lv_rows (recomputeProgress e n v) = lv_rows v"
  "lv_ledger (recomputeProgress e n v) = lv_ledger v"
  "lv_curriculum (recomputeProgress e n v) = lv_curriculum v"
  "lv_sources (recomputeProgress e n v) = lv_sources v"
  "lv_completion (recomputeProgress e n v) = recomputeWith e (sourcesOf v) n (lv_completion v)"
  by (simp_all add: recomputeProgress_def)

lemma upsert_fields [simp]:
  "lv_rows (upsertCourseProgress t d c v) = lv_rows v"
  "lv_ledger (upsertCourseProgress t d c v) = lv_ledger v"
  "lv_curriculum (upsertCourseProgress t d c v) = lv_curriculum v"
  "lv_sources (upsertCourseProgress t d c v) = lv_sources v"
  "cv_enrollment (lv_completion (upsertCourseProgress t d c v)) = cv_enrollment (lv_completion v)"
  "cv_emitted (lv_completion (upsertCourseProgress t d c v)) = cv_emitted (lv_completion v)"
  by (simp_all add: upsertCourseProgress_def)

lemma update_course_fields [simp]:
  "lv_rows (updateCourseProgress v) = lv_rows v"
  "lv_ledger (updateCourseProgress v) = lv_ledger v"
  "lv_curriculum (updateCourseProgress v) = lv_curriculum v"
  by (simp_all add: updateCourseProgress_def Let_def)

lemma update_lesson_fields [simp]:
  "lv_ledger (updateLessonProgress k f v) = lv_ledger v"
  "lv_curriculum (updateLessonProgress k f v) = lv_curriculum v"
  "lv_sources (updateLessonProgress k f v) = lv_sources v"
  "lv_completion (updateLessonProgress k f v) = lv_completion v"
  by (simp_all add: updateLessonProgress_def)

lemma unlock_next_fields [simp]:
  "lv_ledger (unlockNext k v) = lv_ledger v"
  "lv_curriculum (unlockNext k v) = lv_curriculum v"
  "lv_sources (unlockNext k v) = lv_sources v"
  "lv_completion (unlockNext k v) = lv_completion v"
  by (simp_all add: unlockNext_def split: option.split)

lemma backfill_fields [simp]:
  "lv_ledger (backfillLessonProgress e n v) = lv_ledger v"
  "lv_curriculum (backfillLessonProgress e n v) = lv_curriculum v"
  "lv_sources (backfillLessonProgress e n v) = lv_sources v"
  by (simp_all add: backfillLessonProgress_def Let_def)

lemma row_of_update:
  assumes "\<And>r. rw_lessonId (f r) = rw_lessonId r"
  shows "rowOf k (updateLessonProgress k' f v) =
    map_option (\<lambda>r. if rw_lessonId r = k' then f r else r) (rowOf k v)"
  using find_by_map [of rw_lessonId "\<lambda>r. if rw_lessonId r = k' then f r else r" k "lv_rows v"] assms
  by (simp add: rowOf_def updateLessonProgress_def)

lemma row_of_backfill: "rowOf k v = Some r \<Longrightarrow> rowOf k (backfillLessonProgress e n v) = Some r"
  by (simp add: rowOf_def backfillLessonProgress_def Let_def find_by_append)

lemma row_of_key: "rowOf k v = Some r \<Longrightarrow> rw_lessonId r = k"
  by (auto simp: rowOf_def dest: find_by_Some)

lemma next_lesson_member: "nextLesson k rows = Some n \<Longrightarrow> n \<in> set rows"
proof -
  assume n: "nextLesson k rows = Some n"
  have "set (dropWhile (\<lambda>r. rw_lessonId r \<noteq> k) rows) \<subseteq> set rows" by (rule set_dropWhileD [THEN subsetI])
  with n show ?thesis by (auto simp: nextLesson_def split: list.splits)
qed

lemma unlock_keeps_done:
  assumes "rowOf k v = Some r" "rw_status r = lp_completed"
    and "\<And>x. x \<in> set (lv_rows v) \<Longrightarrow> rw_lessonId x = k \<Longrightarrow> rw_status x = lp_completed"
  shows "rowOf k (unlockNext j v) = Some r"
proof (cases "nextLesson j (findLessonProgressForEnrollment v)")
  case (Some n)
  have "n \<in> set (lv_rows v)"
    using next_lesson_member [OF Some] by (simp add: findLessonProgressForEnrollment_def)
  then have "rw_status n = lp_locked \<Longrightarrow> rw_lessonId n \<noteq> k" using assms(3) by fastforce
  then show ?thesis
    using Some assms(1) row_of_key [OF assms(1)]
    by (auto simp: unlockNext_def row_of_update)
qed (simp add: unlockNext_def assms(1))

lemma write_completion_done:
  assumes "rowOf k v = Some r"
  shows "rowDone k (writeCompletion e n k v)"
proof -
  let ?f = "\<lambda>r. r\<lparr>rw_status := lp_completed, rw_completedAt := Some n\<rparr>"
  have "rowOf k (updateLessonProgress k ?f v) = Some (?f r)"
    using assms row_of_key [OF assms] by (simp add: row_of_update)
  then have "rowOf k (unlockNext k (updateLessonProgress k ?f v)) = Some (?f r)"
  proof (rule unlock_keeps_done)
    fix x
    assume "x \<in> set (lv_rows (updateLessonProgress k ?f v))" "rw_lessonId x = k"
    then show "rw_status x = lp_completed"
      unfolding updateLessonProgress_def by (simp add: image_iff) (metis lesson_row.simps(3,8) lesson_row.ext_inject lesson_row.surjective lesson_row.update_convs(3,4))
  qed simp
  then show ?thesis
    by (simp add: rowDone_def rowOf_def writeCompletion_def writeRows_def Let_def lessonDone_def)
qed

lemma write_completion_ledger [simp]: "lv_ledger (writeCompletion e n k v) = lv_ledger v"
  by (simp add: writeCompletion_def writeRows_def Let_def)

lemma write_completion_curriculum [simp]: "lv_curriculum (writeCompletion e n k v) = lv_curriculum v"
  by (simp add: writeCompletion_def writeRows_def Let_def)

end
