(* ===== verification/Lesson_Ordering.thy ===== *)
theory Lesson_Ordering
  imports Learning_Progress
begin

text \<open>
  Complete and undo requests that arrive late, twice or out of order: what one request leaves in
  the ledger and in the row, convergence on the newest operation, and how a fast clock breaks it.
\<close>

subsection \<open>Requests for one lesson\<close>

record lesson_request =
  lq_now :: instant
  lq_action :: lesson_action
  lq_opId :: uid
  lq_clientOpAt :: instant
  lq_items :: "sequence_item list"

text \<open>The tables, the user and the course of the requests.\<close>

type_synonym admission = "access_tables \<times> uid \<times> uid"

definition handleRequest :: "admission \<Rightarrow> uid \<Rightarrow> lesson_request \<Rightarrow> learner_course \<Rightarrow> learner_course" where
  "handleRequest ac k q v =
     (case ac of (tb, user, course) \<Rightarrow>
        (let od = \<lparr>od_opId = Some (lq_opId q), od_clientOpAt = Some (lq_clientOpAt q)\<rparr>
         in snd (case lq_action q of
                   act_complete \<Rightarrow> completeLesson tb user course True (lq_now q) (lq_items q) k od v
                 | act_undo \<Rightarrow> undoCompleteLesson tb user course True (lq_now q) k od v)))"

definition admitted :: "admission \<Rightarrow> instant \<Rightarrow> bool" where
  "admitted ac now = (case ac of (tb, user, course) \<Rightarrow>
     (case assertActiveEnrollment tb user course now of Inl _ \<Rightarrow> False | Inr _ \<Rightarrow> True))"

definition handleAll :: "admission \<Rightarrow> uid \<Rightarrow> lesson_request list \<Rightarrow> learner_course \<Rightarrow> learner_course" where
  "handleAll ac k qs v = fold (handleRequest ac k) qs v"

definition stampOf :: "lesson_request \<Rightarrow> instant" where
  "stampOf q = min (lq_clientOpAt q) (lq_now q + MAX_CLIENT_CLOCK_LEAD_MS)"

definition entryOf :: "lesson_request \<Rightarrow> lesson_op" where
  "entryOf q = \<lparr>lo_at = stampOf q, lo_opId = lq_opId q, lo_action = lq_action q\<rparr>"

text \<open>The enrollment is active and neither the lock nor the watch requirement refuses the request.\<close>

definition permitted :: "admission \<Rightarrow> uid \<Rightarrow> learner_course \<Rightarrow> lesson_request \<Rightarrow> bool" where
  "permitted ac k v q \<longleftrightarrow> admitted ac (lq_now q) \<and> \<not> sequenceLocked (lq_items q) k
     \<and> (case find_by cl_id k (lv_curriculum v) of Some l \<Rightarrow> \<not> cl_watchedRatioRule l | None \<Rightarrow> True)"

lemma request_body:
  "handleRequest ac k q v =
     (if admitted ac (lq_now q)
      then (let od = \<lparr>od_opId = Some (lq_opId q), od_clientOpAt = Some (lq_clientOpAt q)\<rparr>
            in snd (case lq_action q of
                act_complete \<Rightarrow> completeLessonBody True (lq_now q) (lq_items q) k od v
              | act_undo \<Rightarrow> undoCompleteLessonBody True (lq_now q) k od v))
      else v)"
  by (cases ac) (auto simp: handleRequest_def admitted_def Let_def handlers_guarded handlers_admitted
      split: sum.split lesson_action.split)

lemma judge_op_iff:
  "judgeOp latest opId c now =
     (if (case latest of None \<Rightarrow> True
          | Some l \<Rightarrow> lo_opId l = opId \<or> lo_at l \<le> min c (now + MAX_CLIENT_CLOCK_LEAD_MS))
      then apply_op (min c (now + MAX_CLIENT_CLOCK_LEAD_MS)) else superseded_by (the latest))"
  by (auto simp: judgeOp_def Let_def split: option.split)

lemma judge_lesson_fields [simp]:
  "lv_rows (snd (judgeLessonOp up n k a od c v)) = lv_rows v"
  "lv_curriculum (snd (judgeLessonOp up n k a od c v)) = lv_curriculum v"
  "lv_completion (snd (judgeLessonOp up n k a od c v)) = lv_completion v"
  "lv_sources (snd (judgeLessonOp up n k a od c v)) = lv_sources v"
  by (simp_all add: judgeLessonOp_def recordLessonOp_def Let_def split: option.split op_verdict.split)

lemma complete_curriculum [simp]: "lv_curriculum (snd (completeLessonBody up n its k od v)) = lv_curriculum v"
  by (simp add: completeLessonBody_def completeLessonFrom_def Let_def case_prod_beta split: option.split bool.split)

lemma undo_curriculum [simp]: "lv_curriculum (snd (undoCompleteLessonBody up n k od v)) = lv_curriculum v"
  by (simp add: undoCompleteLessonBody_def undoCompleteLessonFrom_def Let_def case_prod_beta split: option.split bool.split)

lemma request_curriculum [simp]: "lv_curriculum (handleRequest ac k q v) = lv_curriculum v"
  by (simp add: request_body Let_def split: lesson_action.split)

lemma judge_stamped:
  "judgeLessonOp True n k a \<lparr>od_opId = Some p, od_clientOpAt = Some c\<rparr> doneAt v =
     (let stamp = min c (n + MAX_CLIENT_CLOCK_LEAD_MS) in
      if (case lv_ledger v k of
            None \<Rightarrow> \<not> (a = act_undo \<and> (case doneAt of Some d \<Rightarrow> stamp < d - UNDO_CLOCK_SKEW_MS | None \<Rightarrow> False))
          | Some l \<Rightarrow> lo_opId l = p \<or> lo_at l \<le> stamp)
      then (True, v\<lparr>lv_ledger := (lv_ledger v)(k \<mapsto> \<lparr>lo_at = stamp, lo_opId = p, lo_action = a\<rparr>)\<rparr>)
      else (False, v))"
  by (simp add: judgeLessonOp_def latestLessonOp_def recordLessonOp_def judgeOp_def Let_def split: option.split)

text \<open>One request: it is applied or superseded, and what it leaves in the ledger and in the row.\<close>

definition supersedes :: "lesson_op option \<Rightarrow> lesson_request \<Rightarrow> bool" where
  "supersedes latest q = (case latest of None \<Rightarrow> False
     | Some l \<Rightarrow> lo_opId l \<noteq> lq_opId q \<and> stampOf q < lo_at l)"

lemma complete_step:
  assumes "rowOf k v = Some r" "lq_action q = act_complete" "permitted ac k v q"
  shows "lv_ledger (handleRequest ac k q v) k =
           (if supersedes (lv_ledger v k) q then lv_ledger v k else Some (entryOf q))
    \<and> rowDone k (handleRequest ac k q v) = (if supersedes (lv_ledger v k) q then lessonDone r else True)"
proof -
  let ?b = "backfillLessonProgress (cv_enrollment (lv_completion v)) (lq_now q) v"
  have b: "find_by rw_lessonId k (lv_rows ?b) = Some r"
    using row_of_backfill [OF assms(1)] by (simp add: rowOf_def)
  have w: "\<not> (case find_by cl_id k (lv_curriculum v) of Some l \<Rightarrow> cl_watchedRatioRule l | None \<Rightarrow> False)"
    using assms(3) by (simp add: permitted_def del: find_by_None split: option.splits)
  have l: "\<not> sequenceLocked (lq_items q) k" and adm: "admitted ac (lq_now q)"
    using assms(3) by (simp_all add: permitted_def)
  have row: "rowDone k ?b = lessonDone r" by (simp add: rowDone_def rowOf_def b)
  show ?thesis
  proof (cases "supersedes (lv_ledger v k) q")
    case True
    then have "handleRequest ac k q v = ?b"
      by (auto simp: request_body assms(2) adm completeLessonBody_def completeLessonFrom_def b judge_stamped supersedes_def
          stampOf_def Let_def split: option.splits)
    with True row show ?thesis by simp
  next
    case False
    define v1 where "v1 = ?b\<lparr>lv_ledger := (lv_ledger v)(k \<mapsto> entryOf q)\<rparr>"
    have j: "judgeLessonOp True (lq_now q) k act_complete
        \<lparr>od_opId = Some (lq_opId q), od_clientOpAt = Some (lq_clientOpAt q)\<rparr> c ?b = (True, v1)" for c
      using False by (auto simp: judge_stamped supersedes_def stampOf_def entryOf_def v1_def assms(2)
          Let_def not_less split: option.splits)
    have v1: "lv_curriculum v1 = lv_curriculum v" "rowOf k v1 = Some r" "lv_ledger v1 k = Some (entryOf q)"
      using b by (simp_all add: v1_def rowOf_def)
    have "handleRequest ac k q v =
        (if rw_status r \<noteq> lp_completed then writeCompletion (cv_enrollment (lv_completion v)) (lq_now q) k v1 else v1)"
      using w l by (simp add: request_body assms(2) adm completeLessonBody_def completeLessonFrom_def b j v1 Let_def)
    then show ?thesis
      using False write_completion_done [OF v1(2)] v1(2,3) by (simp add: rowDone_def lessonDone_def)
  qed
qed

lemma undo_step:
  assumes "rowOf k v = Some r" "lq_action q = act_undo" and adm: "admitted ac (lq_now q)"
    and ledger: "lv_ledger v k = None \<Longrightarrow> rw_status r \<noteq> lp_completed"
  shows "lv_ledger (handleRequest ac k q v) k =
           (if supersedes (lv_ledger v k) q then lv_ledger v k else Some (entryOf q))
    \<and> rowDone k (handleRequest ac k q v) = (if supersedes (lv_ledger v k) q then lessonDone r else False)"
proof -
  let ?b = "backfillLessonProgress (cv_enrollment (lv_completion v)) (lq_now q) v"
  let ?f = "\<lambda>x. x\<lparr>rw_status := (if pe_watchedSeconds (rw_evidence r) > 0 then lp_in_progress else lp_available),
    rw_completedAt := None\<rparr>"
  have b: "find_by rw_lessonId k (lv_rows ?b) = Some r"
    using row_of_backfill [OF assms(1)] by (simp add: rowOf_def)
  have row: "rowDone k ?b = lessonDone r" by (simp add: rowDone_def rowOf_def b)
  show ?thesis
  proof (cases "supersedes (lv_ledger v k) q")
    case True
    then have "handleRequest ac k q v = ?b"
      by (auto simp: request_body assms(2) adm undoCompleteLessonBody_def undoCompleteLessonFrom_def b judge_stamped supersedes_def
          stampOf_def Let_def split: option.splits)
    with True row show ?thesis by simp
  next
    case False
    define v1 where "v1 = ?b\<lparr>lv_ledger := (lv_ledger v)(k \<mapsto> entryOf q)\<rparr>"
    have j: "judgeLessonOp True (lq_now q) k act_undo
        \<lparr>od_opId = Some (lq_opId q), od_clientOpAt = Some (lq_clientOpAt q)\<rparr>
        (if rw_status r = lp_completed then rw_completedAt r else None) ?b = (True, v1)"
      using False ledger by (auto simp: judge_stamped supersedes_def stampOf_def entryOf_def v1_def assms(2)
          Let_def not_less split: option.splits)
    have v1: "rowOf k v1 = Some r" "lv_ledger v1 k = Some (entryOf q)"
      using b by (simp_all add: v1_def rowOf_def)
    have undone: "rw_status r = lp_completed \<Longrightarrow> rowOf k (updateLessonProgress k ?f v1) = Some (?f r)"
      using v1(1) row_of_key [OF v1(1)] by (simp add: row_of_update)
    have "handleRequest ac k q v =
        (if rw_status r = lp_completed
         then recomputeProgress (cv_enrollment (lv_completion v)) (lq_now q)
                (updateCourseProgress (updateLessonProgress k ?f v1)) else v1)"
      by (simp add: request_body assms(2) adm undoCompleteLessonBody_def undoCompleteLessonFrom_def b j Let_def)
    then show ?thesis
      using False undone v1 by (auto simp: rowDone_def lessonDone_def rowOf_def)
  qed
qed

lemma request_step:
  assumes "rowOf k v = Some r" "permitted ac k v q" "lv_ledger v k = None \<Longrightarrow> rw_status r \<noteq> lp_completed"
  shows "lv_ledger (handleRequest ac k q v) k =
           (if supersedes (lv_ledger v k) q then lv_ledger v k else Some (entryOf q))
    \<and> rowDone k (handleRequest ac k q v) =
           (if supersedes (lv_ledger v k) q then lessonDone r else lq_action q = act_complete)"
proof (cases "lq_action q")
  case act_complete
  with complete_step [OF assms(1) _ assms(2)] show ?thesis by simp
next
  case act_undo
  have "admitted ac (lq_now q)" using assms(2) by (simp add: permitted_def)
  with act_undo undo_step [OF assms(1) _ _ assms(3)] show ?thesis by simp
qed

lemma row_survives:
  assumes "rowOf k v = Some r"
  shows "rowOf k (handleRequest ac k q v) \<noteq> None"
proof -
  have some: "find_by rw_lessonId k (lv_rows v) \<noteq> None" using assms by (simp add: rowOf_def)
  have keys: "map rw_lessonId (lv_rows (updateLessonProgress j f u)) = map rw_lessonId (lv_rows u)"
    if "\<And>x. rw_lessonId (f x) = rw_lessonId x" for j f u
    by (simp add: updateLessonProgress_def comp_def if_distrib [of rw_lessonId] that)
  have sets: "rw_lessonId ` set (lv_rows (updateLessonProgress j f u)) = rw_lessonId ` set (lv_rows u)"
    if "\<And>x. rw_lessonId (f x) = rw_lessonId x" for j f u
    using keys [OF that, of j u] by (metis list.set_map)
  have "rw_lessonId ` set (lv_rows (unlockNext j u)) = rw_lessonId ` set (lv_rows u)" for j u
    by (simp add: unlockNext_def sets split: option.split)
  then have wc: "rw_lessonId ` set (lv_rows (writeCompletion e n j u)) = rw_lessonId ` set (lv_rows u)" for e n j u
    by (simp add: writeCompletion_def writeRows_def Let_def sets)
  have bf: "k \<in> rw_lessonId ` set (lv_rows (backfillLessonProgress e n v))" for e n
    using some by (auto simp: backfillLessonProgress_def Let_def)
  show ?thesis
    using some bf by (simp add: rowOf_def request_body completeLessonBody_def completeLessonFrom_def undoCompleteLessonBody_def undoCompleteLessonFrom_def
        Let_def case_prod_beta wc sets split: lesson_action.split option.split bool.split)
qed

subsection \<open>Late and repeated operations\<close>

definition fresh_lesson :: "uid \<Rightarrow> learner_course \<Rightarrow> bool" where
  "fresh_lesson k v \<longleftrightarrow> lv_ledger v k = None \<and> rowOf k v \<noteq> None \<and> \<not> rowDone k v"

text \<open>One identifier stands for one operation, whose stamp no other operation has.\<close>

definition distinct_ops :: "lesson_request list \<Rightarrow> bool" where
  "distinct_ops qs \<longleftrightarrow> (\<forall>q \<in> set qs. \<forall>q' \<in> set qs.
     (lq_opId q = lq_opId q' \<longleftrightarrow> lq_clientOpAt q = lq_clientOpAt q')
     \<and> (lq_opId q = lq_opId q' \<longrightarrow> lq_action q = lq_action q'))"

lemma distinct_opsD:
  assumes "distinct_ops qs" "a \<in> set qs" "b \<in> set qs"
  shows "(lq_opId a = lq_opId b) = (lq_clientOpAt a = lq_clientOpAt b)
    \<and> (lq_opId a = lq_opId b \<longrightarrow> lq_action a = lq_action b)"
  using assms(1) [unfolded distinct_ops_def, THEN bspec, OF assms(2), THEN bspec, OF assms(3)] .

definition clocks_right :: "lesson_request list \<Rightarrow> bool" where
  "clocks_right qs \<longleftrightarrow> list_all (\<lambda>q. lq_clientOpAt q \<le> lq_now q + MAX_CLIENT_CLOCK_LEAD_MS) qs"

definition newest :: "lesson_request list \<Rightarrow> lesson_request \<Rightarrow> bool" where
  "newest qs m \<longleftrightarrow> m \<in> set qs \<and> list_all (\<lambda>q. lq_clientOpAt q \<le> lq_clientOpAt m) qs"

lemma handle_all_snoc [simp]: "handleAll ac k (qs @ [q]) v = handleRequest ac k q (handleAll ac k qs v)"
  by (simp add: handleAll_def)

lemma handle_all_curriculum [simp]: "lv_curriculum (handleAll ac k qs v) = lv_curriculum v"
  by (induction qs rule: rev_induct) (simp_all add: handleAll_def)

lemma handle_all_row: "rowOf k v \<noteq> None \<Longrightarrow> rowOf k (handleAll ac k qs v) \<noteq> None"
proof (induction qs rule: rev_induct)
  case (snoc q qs)
  then obtain r where "rowOf k (handleAll ac k qs v) = Some r" by blast
  then show ?case by (simp only: handle_all_snoc row_survives not_False_eq_True)
qed (simp add: handleAll_def)

lemma ledger_holds_newest:
  assumes "fresh_lesson k v" "distinct_ops qs" "clocks_right qs" "list_all (permitted ac k v) qs" "qs \<noteq> []"
  shows "\<exists>m. newest qs m \<and> lv_ledger (handleAll ac k qs v) k = Some (entryOf m)
    \<and> rowDone k (handleAll ac k qs v) = (lq_action m = act_complete)"
  using assms(2-5)
proof (induction qs rule: rev_induct)
  case (snoc q qs)
  let ?u = "handleAll ac k qs v"
  obtain r where r: "rowOf k ?u = Some r"
    using handle_all_row [of k v ac qs] assms(1) by (auto simp: fresh_lesson_def)
  have rd: "rowDone k ?u = lessonDone r" by (simp add: rowDone_def r)
  have p: "permitted ac k ?u q" using snoc.prems(3) by (simp add: permitted_def)
  have qc: "stampOf q = lq_clientOpAt q"
    using snoc.prems(2) by (simp add: clocks_right_def stampOf_def)
  show ?case
  proof (cases "qs = []")
    case True
    then have "lv_ledger ?u k = None" "\<not> lessonDone r"
      using assms(1) rd by (simp_all add: handleAll_def fresh_lesson_def)
    then show ?thesis
      using request_step [OF r p] True
      by (intro exI [of _ q]) (simp add: newest_def supersedes_def lessonDone_def handleAll_def)
  next
    case False
    have "distinct_ops qs" using snoc.prems(1) unfolding distinct_ops_def set_append by blast
    moreover have "clocks_right qs" "list_all (permitted ac k v) qs"
      using snoc.prems(2,3) by (simp_all add: clocks_right_def)
    ultimately obtain m where m: "newest qs m" "lv_ledger ?u k = Some (entryOf m)"
        "rowDone k ?u = (lq_action m = act_complete)"
      using snoc.IH False by blast
    have mem: "m \<in> set qs" using m(1) by (simp add: newest_def)
    have mc: "stampOf m = lq_clientOpAt m"
      using snoc.prems(2) mem by (simp add: clocks_right_def stampOf_def list_all_iff)
    have same: "(lq_opId m = lq_opId q) = (lq_clientOpAt m = lq_clientOpAt q)"
        "lq_opId m = lq_opId q \<Longrightarrow> lq_action m = lq_action q"
      using distinct_opsD [OF snoc.prems(1), of m q] mem by simp_all
    note step = request_step [OF r p, unfolded m(2)]
    show ?thesis
    proof (cases "lq_clientOpAt q < lq_clientOpAt m")
      case True
      then have "supersedes (Some (entryOf m)) q"
        using same(1) by (simp add: supersedes_def entryOf_def qc mc)
      then show ?thesis
        using step m rd True by (intro exI [of _ m]) (simp add: newest_def)
    next
      case False
      then have "\<not> supersedes (Some (entryOf m)) q"
        using same(1) by (simp add: supersedes_def entryOf_def qc mc)
      moreover have "newest (qs @ [q]) q"
        using m(1) False by (auto simp: newest_def list_all_iff)
      ultimately show ?thesis
        using step by (intro exI [of _ q]) simp
    qed
  qed
qed simp

text \<open>C19. Complete and undo requests for one lesson may arrive late, repeatedly and in any order. While
  Redis answers, the requests are handled one after another, the lesson is not completed and its
  ledger is empty at the start, every request is permitted (the enrollment is active, the lesson is
  neither locked nor has a watch requirement), one operation id stands for one operation with a
  stamp of its own, and no device clock runs more than two minutes ahead: then the lesson ends up
  completed exactly when the operation the learner did last was a completion, whatever the order
  of delivery.\<close>

theorem newest_operation_wins:
  assumes "fresh_lesson k v" "distinct_ops qs" "clocks_right qs" "list_all (permitted ac k v) qs"
    and "newest qs m"
  shows "rowDone k (handleAll ac k qs v) = (lq_action m = act_complete)"
proof -
  have "qs \<noteq> []" using assms(5) by (auto simp: newest_def)
  then obtain m' where m': "newest qs m'" "rowDone k (handleAll ac k qs v) = (lq_action m' = act_complete)"
    using ledger_holds_newest [OF assms(1-4)] by blast
  have "lq_clientOpAt m = lq_clientOpAt m'"
    using assms(5) m'(1) by (auto simp: newest_def list_all_iff intro: antisym)
  moreover have "m \<in> set qs" "m' \<in> set qs" using assms(5) m'(1) by (simp_all add: newest_def)
  ultimately have "lq_action m = lq_action m'" using distinct_opsD [OF assms(2), of m m'] by simp
  with m'(2) show ?thesis by simp
qed

definition sample_lesson :: "string \<Rightarrow> course_lesson" where
  "sample_lesson k = \<lparr>cl_id = k, cl_sectionId = ''s'', cl_published = True, cl_watchedRatioRule = False,
     cl_durationSeconds = Some 100\<rparr>"

definition sample_row :: "string \<Rightarrow> lesson_progress_status \<Rightarrow> lesson_row" where
  "sample_row k s = \<lparr>rw_lessonId = k, rw_sectionId = ''s'', rw_status = s,
     rw_completedAt = (if s = lp_completed then Some 5 else None), rw_evidence = fresh_evidence\<rparr>"

definition sample_course :: "enrollment_status \<Rightarrow> string list \<Rightarrow> lesson_row list \<Rightarrow> learner_course" where
  "sample_course e lessons rows = \<lparr>lv_curriculum = map sample_lesson lessons, lv_rows = rows,
     lv_completion = sample_view\<lparr>cv_enrollment := e\<rparr>, lv_totalLessons = length rows,
     lv_completedLessons = length (filter lessonDone rows), lv_currentLesson = None, lv_timeSpent = 0,
     lv_lastActivityAt = None, lv_ledger = Map.empty, lv_sources = sample_sources\<rparr>"

definition sample_request :: "lesson_action \<Rightarrow> string \<Rightarrow> int \<Rightarrow> int \<Rightarrow> lesson_request" where
  "sample_request a p c n = \<lparr>lq_now = n, lq_action = a, lq_opId = p, lq_clientOpAt = c, lq_items = []\<rparr>"

definition sample_access :: admission where
  "sample_access = (\<lparr>tb_enrollments = [\<lparr>er_id = ''e'', er_studentId = ''u'', er_courseId = ''c'', er_academyId = ''x'',
       er_enrollmentStatus = en_enrolled, er_revokedAt = None, er_expiresAt = None\<rparr>],
     tb_students = [\<lparr>as_academyId = ''x'', as_userId = ''u'', as_status = ms_active, as_blockedAt = None\<rparr>],
     tb_members = [], tb_instructors = [], tb_courses = [(''c'', ''x'')]\<rparr>, ''u'', ''c'')"

lemma sample_admitted [simp]: "admitted sample_access n"
  by (simp add: admitted_def sample_access_def assertActiveEnrollment_def findEnrollment_def findStudent_def
      isEnrollmentActive_def membershipLive_def ACTIVE_ENROLLMENT_STATUSES_def)

lemma sample_enrollment: "\<exists>en. assertActiveEnrollment (fst sample_access) ''u'' ''c'' n = Inr en"
  using sample_admitted [of n] by (auto simp: admitted_def sample_access_def split: sum.splits)

lemma sample_completes:
  "completeLesson (fst sample_access) ''u'' ''c'' up n its k od v = completeLessonBody up n its k od v"
  using sample_enrollment [of n] handlers_admitted(1) by blast

lemmas sample_defs = sample_lesson_def sample_row_def sample_course_def sample_request_def

lemma sample_fields [simp]:
  "rw_lessonId (sample_row k s) = k" "rw_status (sample_row k s) = s"
  "cl_id (sample_lesson k) = k" "cl_published (sample_lesson k)" "\<not> cl_watchedRatioRule (sample_lesson k)"
  by (simp_all add: sample_row_def sample_lesson_def)

text \<open>An undo made at 200000 arrives before the completion made at 100000: the lesson is not completed.\<close>

theorem newest_operation_wins_witness:
  "\<not> rowDone ''a'' (handleAll sample_access ''a'' [sample_request act_undo ''p'' 200000 300000,
        sample_request act_complete ''q'' 100000 400000]
      (sample_course en_enrolled [''a''] [sample_row ''a'' lp_available]))"
proof -
  let ?v = "sample_course en_enrolled [''a''] [sample_row ''a'' lp_available]"
  let ?m = "sample_request act_undo ''p'' 200000 300000"
  let ?q = "sample_request act_complete ''q'' 100000 400000"
  have "fresh_lesson ''a'' ?v"
    by (simp add: fresh_lesson_def sample_defs rowOf_def rowDone_def lessonDone_def)
  moreover have "distinct_ops [?m, ?q]" by (simp add: distinct_ops_def sample_request_def)
  moreover have "clocks_right [?m, ?q]"
    by (simp add: clocks_right_def sample_request_def MAX_CLIENT_CLOCK_LEAD_MS_def)
  moreover have "list_all (permitted sample_access ''a'' ?v) [?m, ?q]"
    by (simp add: permitted_def sequenceLocked_def sample_defs)
  moreover have "newest [?m, ?q] ?m" by (simp add: newest_def sample_request_def)
  ultimately have "rowDone ''a'' (handleAll sample_access ''a'' [?m, ?q] ?v) = (lq_action ?m = act_complete)"
    by (rule newest_operation_wins)
  then show ?thesis by (simp add: sample_request_def)
qed

subsection \<open>Requests that overlap\<close>

text \<open>The row is read before the lock is waited for, so a request that overlaps another one writes by a
  row that is no longer true.\<close>



subsection \<open>Clocks that run ahead\<close>

text \<open>
  The stamp of an operation from a device whose clock runs ahead depends on when the request
  arrives, so a repetition of it gets a later stamp than the first time.
\<close>

text \<open>With a clock that runs ahead by more than the allowed two minutes the older operation can win: the
  learner completes a lesson and then takes it back, both arrive in that order, and a late
  repetition of the first request, whose answer was lost, completes the lesson again.\<close>

theorem fast_clock_replay_wins:
  assumes "fresh_lesson k v" "permitted ac k v a" "permitted ac k v b"
    and "lq_action a = act_complete" "lq_action b = act_undo" "lq_opId a \<noteq> lq_opId b"
    and "lq_clientOpAt a < lq_clientOpAt b" "lq_now a \<le> lq_now b" "lq_now b \<le> again"
    and "lq_now b + MAX_CLIENT_CLOCK_LEAD_MS \<le> lq_clientOpAt a" "admitted ac again"
  shows "\<not> rowDone k (handleAll ac k [a, b] v) \<and> rowDone k (handleAll ac k [a, b, a\<lparr>lq_now := again\<rparr>] v)"
proof -
  let ?v1 = "handleRequest ac k a v" and ?a = "a\<lparr>lq_now := again\<rparr>"
  let ?v2 = "handleRequest ac k b ?v1"
  obtain r where r: "rowOf k v = Some r" using assms(1) by (auto simp: fresh_lesson_def)
  obtain r1 where r1: "rowOf k ?v1 = Some r1" using row_survives [OF r, of ac a] by blast
  obtain r2 where r2: "rowOf k ?v2 = Some r2" using row_survives [OF r1, of ac b] by blast
  have p: "permitted ac k ?v1 b" "permitted ac k ?v2 ?a" using assms(2,3,11) by (simp_all add: permitted_def)
  have l1: "lv_ledger ?v1 k = Some (entryOf a)"
    using request_step [OF r assms(2)] assms(1) r
    by (simp add: supersedes_def fresh_lesson_def rowDone_def lessonDone_def)
  have "\<not> supersedes (Some (entryOf a)) b"
    using assms(7-10) by (simp add: supersedes_def entryOf_def stampOf_def)
  then have l2: "lv_ledger ?v2 k = Some (entryOf b)" "\<not> rowDone k ?v2"
    using request_step [OF r1 p(1)] l1 assms(5) by simp_all
  have "\<not> supersedes (Some (entryOf b)) ?a"
    using assms(7-10) by (simp add: supersedes_def entryOf_def stampOf_def min_def)
  then have "rowDone k (handleRequest ac k ?a ?v2)"
    using request_step [OF r2 p(2)] l2 assms(4) by simp
  with l2 show ?thesis by (simp add: handleAll_def)
qed

text \<open>A device ten minutes ahead: completed at its 600000, taken back a second later, repeated.\<close>

theorem fast_clock_replay_wins_witness:
  "rowDone ''a'' (handleAll sample_access ''a'' [sample_request act_complete ''p'' 600000 0,
      sample_request act_undo ''q'' 601000 1000, sample_request act_complete ''p'' 600000 5000]
    (sample_course en_enrolled [''a''] [sample_row ''a'' lp_available]))"
proof -
  let ?v = "sample_course en_enrolled [''a''] [sample_row ''a'' lp_available]"
  let ?a = "sample_request act_complete ''p'' 600000 0"
  let ?b = "sample_request act_undo ''q'' 601000 1000"
  have "fresh_lesson ''a'' ?v"
    by (simp add: fresh_lesson_def sample_defs rowOf_def rowDone_def lessonDone_def)
  moreover have "permitted sample_access ''a'' ?v ?a" "permitted sample_access ''a'' ?v ?b"
    by (simp_all add: permitted_def sequenceLocked_def sample_defs)
  ultimately have "rowDone ''a'' (handleAll sample_access ''a'' [?a, ?b, ?a\<lparr>lq_now := 5000\<rparr>] ?v)"
    using fast_clock_replay_wins [of "''a''" ?v sample_access ?a ?b 5000]
    by (simp add: sample_request_def MAX_CLIENT_CLOCK_LEAD_MS_def)
  then show ?thesis by (simp add: sample_request_def)
qed

end
