(* ===== verification/Lesson_Completion.thy ===== *)
theory Lesson_Completion
  imports Lesson_Ordering
begin

text \<open>
  What guards a completion (the lock and the watched time), the heartbeat that opens a locked
  lesson, and the completion status across the two recomputes of one transaction.
\<close>

subsection \<open>The gate of a completion\<close>

text \<open>An applied completion passed the access check.\<close>

lemma handler_applied:
  assumes "completeLesson tb user course up now items k od v = (Inr True, v')"
  shows "completeLessonBody up now items k od v = (Inr True, v')"
  using assms by (simp add: completeLesson_def withEnrollment_def split: sum.splits)

lemma complete_applied:
  assumes "completeLessonBody up now items k od v = (Inr True, v')" "rowOf k v = Some r"
  shows "\<not> sequenceLocked items k
    \<and> (\<forall>l. find_by cl_id k (lv_curriculum v) = Some l \<and> cl_watchedRatioRule l
         \<longrightarrow> MINIMUM_WATCHED_RATIO \<le> pe_maxWatchedRatio (rw_evidence r))"
proof -
  let ?b = "backfillLessonProgress (cv_enrollment (lv_completion v)) now v"
  let ?j = "judgeLessonOp up now k act_complete od (rw_completedAt r) ?b"
  have b: "find_by rw_lessonId k (lv_rows ?b) = Some r"
    using row_of_backfill [OF assms(2)] by (simp add: rowOf_def)
  show ?thesis
    using assms(1) by (simp add: completeLessonBody_def completeLessonFrom_def b Let_def case_prod_beta not_less split: bool.splits if_splits)
      auto
qed

lemma complete_refused:
  assumes "completeLessonBody up now items k od v = (Inl e, v')"
  shows "v' = v\<lparr>lv_ledger := lv_ledger v'\<rparr>"
  using assms by (auto simp: completeLessonBody_def completeLessonFrom_def Let_def case_prod_beta simp del: find_by_None
      split: option.splits bool.splits if_splits)

lemma heartbeat_evidence:
  assumes "rowOf k v = Some r" "find_by cl_id k (lv_curriculum v) = Some l"
  shows "rowOf k (snd (recordHeartbeatBody beat k v)) =
    Some (r\<lparr>rw_evidence := fst (applyPlaybackHeartbeat (rw_evidence r) beat (cl_durationSeconds l)),
            rw_status := (if rw_status r = lp_available then lp_in_progress else rw_status r)\<rparr>)"
proof -
  have other: "rowOf k (accumulateTimeSpent c n u) = rowOf k u" for c n u
    by (simp add: rowOf_def)
  have "find_by rw_lessonId k (lv_rows v) = Some r" using assms(1) by (simp add: rowOf_def)
  then show ?thesis
    using assms row_of_key [OF assms(1)]
    by (simp add: recordHeartbeatBody_def case_prod_beta other row_of_update)
qed

definition beatAll :: "uid \<Rightarrow> playback_heartbeat list \<Rightarrow> learner_course \<Rightarrow> learner_course" where
  "beatAll k bs v = fold (\<lambda>b u. snd (recordHeartbeatBody b k u)) bs v"

lemma heartbeat_curriculum [simp]: "lv_curriculum (snd (recordHeartbeatBody b k v)) = lv_curriculum v"
  by (simp add: recordHeartbeatBody_def case_prod_beta split: option.split)

lemma beats_evidence:
  assumes "rowOf k v = Some r" "find_by cl_id k (lv_curriculum v) = Some l"
  shows "\<exists>r'. rowOf k (beatAll k bs v) = Some r'
    \<and> rw_evidence r' = playAll (cl_durationSeconds l) bs (rw_evidence r)"
  using assms
proof (induction bs arbitrary: v r)
  case (Cons b bs)
  note row = heartbeat_evidence [OF Cons.prems, of b]
  have "find_by cl_id k (lv_curriculum (snd (recordHeartbeatBody b k v))) = Some l" using Cons.prems(2) by simp
  from Cons.IH [OF row this] show ?case by (simp add: beatAll_def)
qed (simp add: beatAll_def)

text \<open>C20. Under the watched-ratio rule a lesson cannot be completed early: if the player sent beats with any
  positions for an untouched lesson of a known duration and the completion is then applied, at
  least nine tenths of the duration, divided by the allowed rate of two and a half, have passed
  on the server's clock between the first and the last beat; and the lesson was not locked.\<close>

theorem completion_needs_watching:
  assumes "rowOf k v = Some r" "rw_evidence r = fresh_evidence"
    and "find_by cl_id k (lv_curriculum v) = Some l" "cl_watchedRatioRule l"
    and "cl_durationSeconds l = Some d" "0 < d" "sorted (map hb_now (b # bs))"
    and "completeLesson tb user course up now items k od (beatAll k (b # bs) v) = (Inr True, v')"
  shows "1800 * d \<le> 5 * (hb_now (last (b # bs)) - hb_now b) \<and> \<not> sequenceLocked items k"
proof -
  let ?u = "beatAll k (b # bs) v"
  obtain r' where r': "rowOf k ?u = Some r'" "rw_evidence r' = playAll (Some d) (b # bs) fresh_evidence"
    using beats_evidence [OF assms(1,3), of "b # bs"] assms(2,5) by auto
  have "lv_curriculum (beatAll k xs u) = lv_curriculum u" for xs u
    by (induction xs arbitrary: u) (simp_all add: beatAll_def)
  then have "MINIMUM_WATCHED_RATIO \<le> pe_maxWatchedRatio (playAll (Some d) (b # bs) fresh_evidence)"
    and lock: "\<not> sequenceLocked items k"
    using complete_applied [OF handler_applied [OF assms(8)] r'(1)] assms(3,4) r'(2) by simp_all
  with watched_gate [OF assms(7,6)] show ?thesis by simp
qed

definition watched_course :: learner_course where
  "watched_course = (sample_course en_enrolled [] [sample_row ''a'' lp_available])
     \<lparr>lv_curriculum := [(sample_lesson ''a'')\<lparr>cl_watchedRatioRule := True\<rparr>]\<rparr>"

definition beat_at :: "int \<Rightarrow> playback_heartbeat" where
  "beat_at t = \<lparr>hb_positionSeconds = Some 100, hb_now = t\<rparr>"

text \<open>Forty seconds of beats complete a lesson of a hundred seconds.\<close>

theorem completion_needs_watching_witness:
  "fst (completeLesson (fst sample_access) ''u'' ''c'' True 50000 [] ''a'' \<lparr>od_opId = None, od_clientOpAt = None\<rparr>
      (beatAll ''a'' [beat_at 0, beat_at 20000, beat_at 40000] watched_course)) = Inr True
   \<and> 1800 * 100 \<le> 5 * (40000 - 0 :: int)"
proof -
  let ?r = "sample_row ''a'' lp_available" and ?l = "(sample_lesson ''a'')\<lparr>cl_watchedRatioRule := True\<rparr>"
  let ?bs = "[beat_at 20000, beat_at 40000]"
  let ?u = "beatAll ''a'' (beat_at 0 # ?bs) watched_course"
  let ?c = "completeLesson (fst sample_access) ''u'' ''c'' True 50000 [] ''a'' \<lparr>od_opId = None, od_clientOpAt = None\<rparr> ?u"
  have row: "rowOf ''a'' watched_course = Some ?r" and les: "find_by cl_id ''a'' (lv_curriculum watched_course) = Some ?l"
    by (simp_all add: rowOf_def watched_course_def sample_defs)
  obtain r' where r': "rowOf ''a'' ?u = Some r'" "rw_evidence r' = playAll (Some 100) (beat_at 0 # ?bs) fresh_evidence"
    using beats_evidence [OF row les, of "beat_at 0 # ?bs"] by (auto simp: sample_defs)
  have ratio: "MINIMUM_WATCHED_RATIO \<le> pe_maxWatchedRatio (rw_evidence r')"
    by (simp add: r'(2) beat_at_def applyPlaybackHeartbeat_def fresh_evidence_def creditedSeconds_def Let_def
        MAX_PLAYBACK_RATE_def MAX_CREDITED_DELTA_SECONDS_def round4_def MINIMUM_WATCHED_RATIO_def)
  have "find_by rw_lessonId ''a'' (lv_rows (backfillLessonProgress e n ?u)) = Some r'" for e n
    using row_of_backfill [OF r'(1)] by (simp add: rowOf_def)
  then have applied: "fst ?c = Inr True"
    using ratio by (simp add: sample_completes completeLessonBody_def completeLessonFrom_def Let_def judgeLessonOp_def sequenceLocked_def not_less)
  then have "?c = (Inr True, snd ?c)" by (metis prod.collapse)
  from completion_needs_watching [OF row _ les _ _ _ _ this, of 100] applied
  show ?thesis by (simp add: sample_defs beat_at_def)
qed

subsection \<open>A heartbeat opens a locked lesson\<close>

text \<open>The lesson rows as the sequence reads them.\<close>

definition progressRows :: "learner_course \<Rightarrow> (uid \<times> lesson_progress_status) list" where
  "progressRows v = map (\<lambda>r. (rw_lessonId r, rw_status r)) (lv_rows v)"

lemma progress_rows_lookup:
  assumes "distinct (map rw_lessonId (lv_rows v))"
  shows "map_of (rev (progressRows v)) k = map_option rw_status (rowOf k v)"
proof -
  have "distinct (map fst (progressRows v))" using assms by (simp add: progressRows_def comp_def)
  then have "map_of (rev (progressRows v)) = map_of (progressRows v)"
    by (simp add: map_of_inject_set rev_map [symmetric])
  moreover have "map_of (map (\<lambda>r. (rw_lessonId r, rw_status r)) rs) k = map_option rw_status (find_by rw_lessonId k rs)"
    for rs by (induction rs) auto
  ultimately show ?thesis by (simp add: progressRows_def rowOf_def)
qed

lemma heartbeat_keys:
  "map rw_lessonId (lv_rows (snd (recordHeartbeatBody b k v))) = map rw_lessonId (lv_rows v)"
  by (simp add: recordHeartbeatBody_def case_prod_beta updateLessonProgress_def split: option.split)

text \<open>The heartbeat does not look at the lock: for a lesson whose stored status is available but which
  the sequence locks, because what comes before it is unfinished or a required quiz is not
  passed, one beat makes the stored status in progress, and from then on the sequence no longer
  locks the lesson, so that its content opens and it can be completed.\<close>

theorem heartbeat_opens_locked_lesson:
  assumes "its = orderedItems raw sections" and "j < length its" and "i = fst (its ! j)"
    and "ri_type i = lesson_item" "\<not> ended" "\<not> notYetOpen now i"
    and "distinct (map rw_lessonId (lv_rows v))" "rowOf (ri_id i) v = Some r" "rw_status r = lp_available"
    and "find_by cl_id (ri_id i) (lv_curriculum v) = Some l"
    and "w = w0\<lparr>lw_lessonProgress := progressRows v\<rparr>"
    and "w' = w0\<lparr>lw_lessonProgress := progressRows (snd (recordHeartbeat tb user course beat (ri_id i) lease v))\<rparr>"
    and "si_state (sequenceItems w now ended raw sections ! j) = seq_locked"
    and "assertActiveEnrollment tb user course (hb_now beat) = Inr en"
  shows "si_state (sequenceItems w' now ended raw sections ! j) = seq_in_progress"
proof -
  note body = handlers_admitted(4) [OF assms(14) refl, of "ri_id i" lease v]
  have "rowOf (ri_id i) (snd (recordHeartbeatBody beat (ri_id i) v)) = Some (r\<lparr>
      rw_evidence := fst (applyPlaybackHeartbeat (rw_evidence r) beat (cl_durationSeconds l)),
      rw_status := lp_in_progress\<rparr>)"
    using heartbeat_evidence [OF assms(8,10)] assms(9) by simp
  moreover have "distinct (map rw_lessonId (lv_rows (snd (recordHeartbeatBody beat (ri_id i) v))))"
    using assms(7) by (simp only: heartbeat_keys)
  ultimately have "lessonStates w' (ri_id i) = Some lp_in_progress"
    by (simp add: assms(12) body lessonStates_def progress_rows_lookup)
  then have started: "existingState w' i = Some seq_in_progress"
    by (simp add: existingState_def assms(4) mapLessonState_def)
  have "sequenceItems w' now ended raw sections = walk w' now ended (True, False) 0 its"
    by (simp add: assms(1) sequenceItems_def)
  then obtain f b where "(si_state (sequenceItems w' now ended raw sections ! j),
      si_lockReason (sequenceItems w' now ended raw sections ! j)) = deriveState w' now ended f b i"
    using walk_nth [OF assms(2)] assms(3) by (metis surj_pair)
  moreover have "deriveState w' now ended f b i = (seq_in_progress, None)" for f b
    using assms(5,6) started by (simp add: deriveState_def notYetOpen_def)
  ultimately show ?thesis by simp
qed

text \<open>The lesson after a live session, which the sequence never unlocks.\<close>

theorem heartbeat_opens_locked_lesson_witness:
  "si_state (sequenceItems (newLearner\<lparr>lw_lessonProgress := progressRows (snd (recordHeartbeat (fst sample_access) ''u'' ''c'' (beat_at 7) ''l3'' None
       (sample_course en_enrolled [''l3''] [sample_row ''l3'' lp_available])))\<rparr>)
     10 False (rawItems exampleCourse ''c'') [''u''] ! 4) = seq_in_progress"
proof -
  let ?v = "sample_course en_enrolled [''l3''] [sample_row ''l3'' lp_available]"
  let ?w = "newLearner\<lparr>lw_lessonProgress := progressRows ?v\<rparr>"
  have rows: "rowOf ''l3'' ?v = Some (sample_row ''l3'' lp_available)"
    "find_by cl_id ''l3'' (lv_curriculum ?v) = Some (sample_lesson ''l3'')"
    "distinct (map rw_lessonId (lv_rows ?v))"
    by (simp_all add: rowOf_def sample_defs)
  obtain en where "assertActiveEnrollment (fst sample_access) ''u'' ''c'' 7 = Inr en"
    using sample_enrollment by blast
  then have en: "assertActiveEnrollment (fst sample_access) ''u'' ''c'' (hb_now (beat_at 7)) = Inr en"
    by (simp add: beat_at_def)
  have "si_state (sequenceItems ?w 10 False (rawItems exampleCourse ''c'') [''u''] ! 4) = seq_locked"
    by (simp add: sequenceItems_def example_order deriveState_def existingState_def lessonStates_def
        mapLessonState_def newLearner_def rawLesson_def rawQuiz_def rawLiveSession_def row_def nextGate_def
        isFinished_def quizStates_def progressRows_def sample_defs)
  then show ?thesis
    using heartbeat_opens_locked_lesson [OF refl, where j = 4 and raw = "rawItems exampleCourse ''c''"
        and sections = "[''u'']" and v = ?v and ended = False and now = 10 and ?w0.0 = newLearner
        and beat = "beat_at 7", OF _ refl _ _ _ _ _ _ _ refl refl _ en]
      rows
    by (simp add: example_order rawLesson_def row_def notYetOpen_def sample_row_def)
qed

subsection \<open>Backfilling looks one lesson back\<close>

text \<open>
  A new lesson starts available when the lesson just before it is completed, even if an earlier
  one is not.
\<close>

lemma backfill_looks_one_back:
  assumes "find_by rw_lessonId (cl_id a) rows = Some ra" "rw_status ra \<noteq> lp_completed"
    and "find_by rw_lessonId (cl_id b) rows = Some rb" "rw_status rb = lp_completed"
    and "find_by rw_lessonId (cl_id c) rows = None"
  shows "map rw_status (backfillRows rows True [a, b, c]) = [lp_available]"
  using assms by (simp del: find_by_None)

subsection \<open>One transaction, one reading of the status\<close>

lemma recompute_with_state:
  "cv_progress (recomputeWith e src n v) \<noteq> None
   \<and> (pg_completionState (the (cv_progress (recomputeWith e src n v))) = cst_completed)
       = ce_completed (fst (evaluate src))"
  by (simp add: recomputeWith_def completionStateOf_def Let_def split: prod.split)

lemma recompute_with_reopens:
  "\<not> ce_completed (fst (evaluate src)) \<Longrightarrow> cv_enrollment v = en_completed \<Longrightarrow>
     cv_enrollment (recomputeWith en_completed src n v) = en_enrolled"
  by (simp add: recomputeWith_def setEnrollmentCompletion_def Let_def case_prod_beta)

lemma recompute_with_stale:
  "ce_completed (fst (evaluate src)) \<Longrightarrow>
     cv_enrollment (recomputeWith en_completed src n v) = cv_enrollment v
     \<and> cv_emitted (recomputeWith en_completed src n v) = cv_emitted v"
  by (simp add: recomputeWith_def Let_def case_prod_beta)

lemma recompute_with_completes:
  "ce_completed (fst (evaluate src)) \<Longrightarrow> cv_enrollment v = en_enrolled \<Longrightarrow>
     cv_enrollment (recomputeWith en_enrolled src n v) = en_completed"
  by (simp add: recomputeWith_def setEnrollmentCompletion_def Let_def case_prod_beta)

lemma write_rows_completion:
  "cv_enrollment (lv_completion (writeRows n k v)) = cv_enrollment (lv_completion v)"
  "cv_emitted (lv_completion (writeRows n k v)) = cv_emitted (lv_completion v)"
  by (simp_all add: writeRows_def Let_def)

lemma complete_result:
  assumes "completeLessonBody up now items k od v = (Inr True, v')"
  shows "\<exists>u. lv_completion u = lv_completion (backfillLessonProgress (cv_enrollment (lv_completion v)) now v)
    \<and> lv_rows u = lv_rows (backfillLessonProgress (cv_enrollment (lv_completion v)) now v)
    \<and> lv_sources u = lv_sources v \<and> lv_curriculum u = lv_curriculum v
    \<and> (v' = u \<or> v' = writeCompletion (cv_enrollment (lv_completion v)) now k u)"
proof -
  let ?b = "backfillLessonProgress (cv_enrollment (lv_completion v)) now v"
  obtain r where r: "find_by rw_lessonId k (lv_rows ?b) = Some r"
    using assms by (auto simp: completeLessonBody_def completeLessonFrom_def Let_def simp del: find_by_None split: option.splits)
  let ?u = "snd (judgeLessonOp up now k act_complete od (rw_completedAt r) ?b)"
  have "v' = ?u \<or> v' = writeCompletion (cv_enrollment (lv_completion v)) now k ?u"
    using assms by (simp add: completeLessonBody_def completeLessonFrom_def Let_def r case_prod_beta split: bool.splits if_splits)
  then show ?thesis by (intro exI [of _ ?u]) simp
qed

lemma sources_recompute [simp]: "sourcesOf (recomputeProgress e n v) = sourcesOf v"
  by (simp add: sourcesOf_def)

lemma sources_cong: "lv_rows u = lv_rows v \<Longrightarrow> lv_sources u = lv_sources v \<Longrightarrow> sourcesOf u = sourcesOf v"
  by (simp add: sourcesOf_def)

lemma backfill_rows_keys:
  "rw_lessonId ` set (backfillRows rows p ls) = {cl_id l | l. l \<in> set ls \<and> find_by rw_lessonId (cl_id l) rows = None}"
  by (induction rows p ls rule: backfillRows.induct) (auto simp del: find_by_None split: option.split)

lemma backfill_rows_open: "r \<in> set (backfillRows rows p ls) \<Longrightarrow> \<not> lessonDone r"
  by (induction rows p ls rule: backfillRows.induct)
    (auto simp: lessonDone_def simp del: find_by_None split: option.splits if_splits)

lemma find_by_key_set: "find_by key k rows = None \<longleftrightarrow> k \<notin> key ` set rows"
  by (induction rows) auto

lemma ordered_rows_set [simp]: "set (findLessonProgressForEnrollment v) = set (lv_rows v)"
  by (simp add: findLessonProgressForEnrollment_def)

lemma backfill_covers:
  assumes "l \<in> set (lv_curriculum v)" "cl_published l"
  shows "cl_id l \<in> rw_lessonId ` set (lv_rows (backfillLessonProgress e n v))"
proof (cases "find_by rw_lessonId (cl_id l) (findLessonProgressForEnrollment v) = None")
  case True
  then have "\<not> list_all (\<lambda>l. find_by rw_lessonId (cl_id l) (findLessonProgressForEnrollment v) \<noteq> None)
      (filter cl_published (lv_curriculum v))"
    using assms unfolding list_all_iff set_filter by blast
  moreover have "cl_id l \<in> rw_lessonId ` set (backfillRows (findLessonProgressForEnrollment v) True
      (filter cl_published (lv_curriculum v)))"
    using assms True unfolding backfill_rows_keys set_filter by blast
  ultimately show ?thesis
    by (simp only: backfillLessonProgress_def Let_def if_False recompute_progress_fields upsert_fields
        learner_course.simps set_append image_Un) (simp add: image_Un)
next
  case False
  then have "cl_id l \<in> rw_lessonId ` set (lv_rows v)" by (simp only: find_by_key_set not_not ordered_rows_set)
  then show ?thesis by (auto simp: backfillLessonProgress_def Let_def)
qed

lemma write_rows_keys: "rw_lessonId ` set (lv_rows (writeRows n k v)) = rw_lessonId ` set (lv_rows v)"
proof -
  have keys: "map rw_lessonId (lv_rows (updateLessonProgress j f u)) = map rw_lessonId (lv_rows u)"
    if "\<And>x. rw_lessonId (f x) = rw_lessonId x" for j f u
    by (simp add: updateLessonProgress_def comp_def if_distrib [of rw_lessonId] that)
  have sets: "rw_lessonId ` set (lv_rows (updateLessonProgress j f u)) = rw_lessonId ` set (lv_rows u)"
    if "\<And>x. rw_lessonId (f x) = rw_lessonId x" for j f u
    using keys [OF that, of j u] by (metis list.set_map)
  then show ?thesis by (simp add: writeRows_def Let_def unlockNext_def split: option.split)
qed

text \<open>When every lesson counts, an unfinished row means the course is not completed.\<close>

lemma open_row_incomplete:
  assumes "cp_lessons (parseCompletionRule (cs_rule src)) = all_lessons" "False \<in> set (cs_lessonRows src)"
  shows "\<not> ce_completed (fst (evaluate src))"
proof -
  have "length (filter (\<lambda>b. b) (cs_lessonRows src)) < length (cs_lessonRows src)"
    using assms(2) by (rule length_filter_less) simp
  then show ?thesis
    using assms(1) by (simp add: evaluate_def evaluateCompletion_def lessonEvidence_def lessonsNeeded_def Let_def)
qed

lemma backfill_reopens:
  assumes "l \<in> set (lv_curriculum v)" "cl_published l" "rowOf (cl_id l) v = None"
    and "cp_lessons (parseCompletionRule (cs_rule (lv_sources v))) = all_lessons"
    and "cv_enrollment (lv_completion v) = en_completed"
  shows "\<not> ce_completed (fst (evaluate (sourcesOf (backfillLessonProgress en_completed n v))))
    \<and> cv_enrollment (lv_completion (backfillLessonProgress en_completed n v)) = en_enrolled
    \<and> cv_emitted (lv_completion (backfillLessonProgress en_completed n v)) = cv_emitted (lv_completion v)"
proof -
  let ?ls = "filter cl_published (lv_curriculum v)" and ?ex = "findLessonProgressForEnrollment v"
  let ?v' = "v\<lparr>lv_rows := lv_rows v @ backfillRows ?ex True ?ls\<rparr>"
  let ?m = "findLessonProgressForEnrollment ?v'"
  let ?u = "upsertCourseProgress (length ?ls) (length (filter lessonDone ?m)) (openLesson ?m) ?v'"
  have none: "find_by rw_lessonId (cl_id l) ?ex = None"
    using assms(3) by (simp only: rowOf_def find_by_key_set ordered_rows_set not_False_eq_True)
  then have "\<not> list_all (\<lambda>l. find_by rw_lessonId (cl_id l) ?ex \<noteq> None) ?ls"
    using assms(1,2) unfolding list_all_iff set_filter by blast
  then have b: "backfillLessonProgress en_completed n v = recomputeProgress en_completed n ?u"
    by (simp only: backfillLessonProgress_def Let_def if_False)
  have "cl_id l \<in> rw_lessonId ` set (backfillRows ?ex True ?ls)"
    using assms(1,2) none unfolding backfill_rows_keys set_filter by blast
  then obtain r where "r \<in> set (backfillRows ?ex True ?ls)" by blast
  then have "False \<in> set (cs_lessonRows (sourcesOf ?u))"
    using backfill_rows_open by (force simp: sourcesOf_def)
  moreover have "cs_rule (sourcesOf ?u) = cs_rule (lv_sources v)" by (simp add: sourcesOf_def)
  ultimately have inc: "\<not> ce_completed (fst (evaluate (sourcesOf ?u)))"
    using open_row_incomplete assms(4) by metis
  then show ?thesis
    using recompute_with_reopens [OF inc] assms(5)
    by (simp add: b) (simp add: recomputeWith_def Let_def case_prod_beta)
qed

text \<open>The completion status of the enrollment is read once per transaction, and this loses an update: for a learner who had completed the
  course, completing a lesson added since then leaves the progress completed but the enrollment
  only enrolled, and no message is sent, because the backfill of the new lesson first takes the completed status
  away and the second recompute still believes it is there.  Reading the progress page repairs
  the status.\<close>

theorem completing_new_lesson_leaves_enrolled:
  assumes "l \<in> set (lv_curriculum v)" "cl_published l" "rowOf (cl_id l) v = None"
    and "cp_lessons (parseCompletionRule (cs_rule (lv_sources v))) = all_lessons"
    and "cv_enrollment (lv_completion v) = en_completed"
    and "completeLesson tb user course up now items k od v = (Inr True, v')"
    and "ce_completed (fst (evaluate (sourcesOf v')))"
  shows "pg_completionState (the (cv_progress (lv_completion v'))) = cst_completed
    \<and> cv_enrollment (lv_completion v') = en_enrolled
    \<and> cv_emitted (lv_completion v') = cv_emitted (lv_completion v)
    \<and> cv_enrollment (lv_completion (getCourseProgressBody later v')) = en_completed"
proof -
  let ?b = "backfillLessonProgress en_completed now v"
  note reopened = backfill_reopens [OF assms(1-5), of now]
  obtain u where u: "lv_completion u = lv_completion ?b" "lv_rows u = lv_rows ?b" "lv_sources u = lv_sources ?b"
      "lv_curriculum u = lv_curriculum v" "v' = u \<or> v' = writeCompletion en_completed now k u"
    using complete_result [OF handler_applied [OF assms(6)]] by (auto simp: assms(5))
  have "v' \<noteq> u"
    using reopened assms(7) sources_cong [OF u(2,3)] by auto
  with u(5) have v': "v' = recomputeProgress en_completed now (writeRows now k u)"
    by (simp add: writeCompletion_def)
  then have src: "sourcesOf v' = sourcesOf (writeRows now k u)" by simp
  have view: "lv_completion v' = recomputeWith en_completed (sourcesOf v') now (lv_completion (writeRows now k u))"
    unfolding src v' by simp
  have stale: "cv_enrollment (lv_completion v') = en_enrolled"
    "cv_emitted (lv_completion v') = cv_emitted (lv_completion v)"
    using recompute_with_stale [OF assms(7), of now "lv_completion (writeRows now k u)"] reopened
    by (simp_all add: view [symmetric] write_rows_completion u(1))
  have state: "cv_progress (lv_completion v') \<noteq> None"
    "pg_completionState (the (cv_progress (lv_completion v'))) = cst_completed"
    using recompute_with_state [of en_completed "sourcesOf v'" now "lv_completion (writeRows now k u)"] assms(7)
    by (simp_all add: view [symmetric])
  have cur: "lv_curriculum v' = lv_curriculum v"
    using u(4) by (simp add: v' writeRows_def Let_def)
  have "cl_id x \<in> rw_lessonId ` set (lv_rows v')" if "x \<in> set (filter cl_published (lv_curriculum v'))" for x
  proof -
    have "x \<in> set (lv_curriculum v)" "cl_published x" using that by (simp_all add: cur)
    from backfill_covers [OF this, of en_completed now] show ?thesis by (simp add: v' write_rows_keys u(2))
  qed
  then have "list_all (\<lambda>x. find_by rw_lessonId (cl_id x) (findLessonProgressForEnrollment v') \<noteq> None)
      (filter cl_published (lv_curriculum v'))"
    unfolding list_all_iff find_by_key_set ordered_rows_set by blast
  then have "backfillLessonProgress en_enrolled later v' = v'"
    using state(1) by (simp only: backfillLessonProgress_def Let_def if_True if_False)
  then have "lv_completion (getCourseProgressBody later v') = recomputeWith en_enrolled (sourcesOf v') later (lv_completion v')"
    by (simp add: getCourseProgressBody_def stale(1))
  then have "cv_enrollment (lv_completion (getCourseProgressBody later v')) = en_completed"
    using recompute_with_completes [OF assms(7) stale(1)] by simp
  with stale state show ?thesis by blast
qed

text \<open>Lesson a done, lesson b added and then completed.\<close>

theorem completing_new_lesson_leaves_enrolled_witness:
  "cv_enrollment (lv_completion (snd (completeLesson (fst sample_access) ''u'' ''c'' True 9 [] ''b'' \<lparr>od_opId = None, od_clientOpAt = None\<rparr>
      (sample_course en_completed [''a'', ''b''] [sample_row ''a'' lp_completed])))) = en_enrolled"
proof -
  let ?v = "sample_course en_completed [''a'', ''b''] [sample_row ''a'' lp_completed]"
  let ?c = "completeLesson (fst sample_access) ''u'' ''c'' True 9 [] ''b'' \<lparr>od_opId = None, od_clientOpAt = None\<rparr> ?v"
  have b: "lv_rows (backfillLessonProgress e 9 ?v) = [sample_row ''a'' lp_completed, sample_row ''b'' lp_available]" for e
    by (simp add: backfillLessonProgress_def sample_defs findLessonProgressForEnrollment_def Let_def)
  have cur: "lv_curriculum ?v = [sample_lesson ''a'', sample_lesson ''b'']" by (simp add: sample_course_def)
  have "fst ?c = Inr True"
    by (simp add: sample_completes completeLessonBody_def completeLessonFrom_def Let_def b cur judgeLessonOp_def sequenceLocked_def)
  then have c: "?c = (Inr True, snd ?c)" by (metis prod.collapse)
  have "map lessonDone (lv_rows (snd ?c)) = [True, True]"
    by (simp add: sample_completes completeLessonBody_def completeLessonFrom_def Let_def b cur judgeLessonOp_def sequenceLocked_def
        writeCompletion_def writeRows_def updateLessonProgress_def unlockNext_def nextLesson_def
        findLessonProgressForEnrollment_def curriculumPosition_def lessonDone_def)
  moreover have "lv_sources (snd ?c) = sample_sources"
    by (simp add: sample_completes completeLessonBody_def completeLessonFrom_def Let_def b cur judgeLessonOp_def sequenceLocked_def
        writeCompletion_def writeRows_def) (simp add: sample_course_def)
  ultimately have "ce_completed (fst (evaluate (sourcesOf (snd ?c))))"
    by (simp add: sourcesOf_def completion_eval)
  then show ?thesis
    using completing_new_lesson_leaves_enrolled [of "sample_lesson ''b''" ?v, OF _ _ _ _ _ c]
    by (simp add: cur rowOf_def) (simp add: sample_defs sample_sources_def parseCompletionRule_def
        DEFAULT_COMPLETION_RULE_def)
qed

end
