(* ===== verification/Commission.thy ===== *)
theory Commission
  imports Atlas_Prelude "HOL-Library.Signed_Division"
begin

text \<open>
  Money and commission: the conversion to minor units (\<open>billing/utils/money.util.ts\<close>), the
  rounding of a commission (\<open>billing/utils/commission-math.util.ts\<close>) and the resolution of the
  rate an organization pays (\<open>billing/utils/commission-resolution.util.ts\<close>,
  \<open>billing/services/commission.service.ts\<close>).

  A \<open>bigint\<close> is an \<open>int\<close>; its division truncates towards zero and its remainder takes the
  sign of the dividend, which are \<open>sdiv\<close> and \<open>smod\<close>.
\<close>

subsection \<open>Money\<close>

definition toMinorUnits :: "rat \<Rightarrow> int" where
  "toMinorUnits displayAmount = js_round (displayAmount * 100)"

definition BASIS_POINTS_DENOMINATOR :: int where
  "BASIS_POINTS_DENOMINATOR = 10000"

definition applyBasisPoints :: "int \<Rightarrow> int \<Rightarrow> int" where
  "applyBasisPoints amountMinorUnits basisPoints =
     (let numerator = amountMinorUnits * basisPoints;
          quotient = numerator sdiv BASIS_POINTS_DENOMINATOR;
          remainder = numerator smod BASIS_POINTS_DENOMINATOR
      in if remainder * 2 \<ge> BASIS_POINTS_DENOMINATOR then quotient + 1 else quotient)"

subsection \<open>The rate\<close>

datatype commission_mode = mode_default | mode_custom | mode_exempt
datatype commission_source = src_custom | src_exempt | src_plan | src_default
datatype commission_resolution = Resolved (basisPoints: int) commission_source | Unresolved

definition resolveEffectiveCommission ::
  "commission_mode option \<Rightarrow> int option \<Rightarrow> int option \<Rightarrow> int option \<Rightarrow> commission_resolution" where
  "resolveEffectiveCommission commissionMode custom planRate globalRate =
     (let mode = (case commissionMode of None \<Rightarrow> mode_default | Some m \<Rightarrow> m)
      in if mode = mode_exempt then Resolved 0 src_exempt
         else if mode = mode_custom
         then (case custom of None \<Rightarrow> Unresolved | Some r \<Rightarrow> Resolved r src_custom)
         else (case planRate of
                 Some r \<Rightarrow> Resolved r src_plan
               | None \<Rightarrow> (case globalRate of
                            None \<Rightarrow> Unresolved
                          | Some r \<Rightarrow> Resolved r src_default)))"

record commission_settings =
  cms_organizationId :: uid
  cms_commissionMode :: commission_mode
  cms_customPercentageBasisPoints :: "int option"

text \<open>\<open>ct_subscribedPlan\<close> is the plan of each organization that has a subscription row.\<close>

record commission_tables =
  ct_settings :: "commission_settings list"
  ct_subscribedPlan :: "uid \<rightharpoonup> uid"
  ct_planRates :: "(uid \<times> int option) list"
  ct_globalDefault :: "int option"

definition findPlanCommissionForOrganization :: "commission_tables \<Rightarrow> uid \<Rightarrow> int option" where
  "findPlanCommissionForOrganization ct org =
     (case ct_subscribedPlan ct org of
        None \<Rightarrow> None
      | Some planId \<Rightarrow> (case map_of (ct_planRates ct) planId of None \<Rightarrow> None | Some r \<Rightarrow> r))"

definition resolveEffectiveCommissionForOrganization ::
  "commission_tables \<Rightarrow> uid \<Rightarrow> commission_resolution" where
  "resolveEffectiveCommissionForOrganization ct org =
     (let settings = find_by cms_organizationId org (ct_settings ct)
      in resolveEffectiveCommission
           (map_option cms_commissionMode settings)
           (case settings of None \<Rightarrow> None | Some c \<Rightarrow> cms_customPercentageBasisPoints c)
           (findPlanCommissionForOrganization ct org)
           (ct_globalDefault ct))"

subsection \<open>Rounding\<close>

lemma sdiv_nonneg: "0 \<le> n \<Longrightarrow> n sdiv 10000 = n div (10000::int)"
  by (cases "n = 0") (simp_all add: signed_divide_int_def)

lemma smod_nonneg: "0 \<le> n \<Longrightarrow> n smod 10000 = n mod (10000::int)"
  by (cases "n = 0") (simp_all add: signed_modulo_int_def sdiv_nonneg minus_div_mult_eq_mod)

lemma half_up: "(n + 5000) div 10000 = (if n mod 10000 * 2 \<ge> 10000 then n div 10000 + 1 else n div (10000::int))"
proof -
  define q r where "q = n div 10000" and "r = n mod 10000"
  have n: "n = 10000 * q + r" and r: "0 \<le> r" "r < 10000"
    by (simp_all add: q_def r_def)
  have "(10000 * q + r + 5000) div 10000 = q + (r + 5000) div 10000" by simp
  moreover have "(r + 5000) div 10000 = (if r * 2 \<ge> 10000 then 1 else 0)"
    using r by (auto simp: int_div_pos_eq [where q = 1 and r = "r - 5000"])
  ultimately show ?thesis unfolding q_def [symmetric] r_def [symmetric] by (simp add: n)
qed

lemma applyBasisPoints_nonneg:
  assumes "0 \<le> amount" "0 \<le> bps"
  shows "applyBasisPoints amount bps = (amount * bps + 5000) div 10000"
  using assms
  by (simp add: applyBasisPoints_def BASIS_POINTS_DENOMINATOR_def Let_def sdiv_nonneg smod_nonneg half_up)

lemma applyBasisPoints_error:
  assumes "0 \<le> amount" "0 \<le> bps"
  shows "\<bar>10000 * applyBasisPoints amount bps - amount * bps\<bar> \<le> 5000"
proof -
  define n q where "n = amount * bps" and "q = (n + 5000) div 10000"
  have "10000 * q + (n + 5000) mod 10000 = n + 5000"
    unfolding q_def by (rule mult_div_mod_eq)
  moreover have "0 \<le> (n + 5000) mod 10000" "(n + 5000) mod 10000 < 10000" by simp_all
  ultimately have "\<bar>10000 * q - n\<bar> \<le> 5000" by linarith
  then show ?thesis by (simp add: applyBasisPoints_nonneg assms q_def n_def)
qed

lemma applyBasisPoints_mono:
  assumes "0 \<le> amount" "0 \<le> bps" "amount \<le> amount'" "bps \<le> bps'"
  shows "applyBasisPoints amount bps \<le> applyBasisPoints amount' bps'"
proof -
  have "amount * bps \<le> amount' * bps'" using assms by (intro mult_mono) auto
  then show ?thesis using assms by (simp add: applyBasisPoints_nonneg zdiv_mono1)
qed

lemma applyBasisPoints_full:
  assumes "0 \<le> amount"
  shows "applyBasisPoints amount 10000 = amount" "applyBasisPoints amount 0 = 0"
  using assms by (simp_all add: applyBasisPoints_nonneg)

text \<open>
  The commission on a sale at a rate between 0 and 100 percent lies between nothing and the
  whole amount and is the exact percentage rounded to the nearest minor unit, halves going up.
\<close>

theorem commission_within_sale:
  assumes "0 \<le> amount" "0 \<le> bps" "bps \<le> 10000"
  shows "0 \<le> applyBasisPoints amount bps \<and> applyBasisPoints amount bps \<le> amount
         \<and> applyBasisPoints amount bps = js_round (of_int amount * of_int bps / 10000)"
proof (intro conjI)
  show "0 \<le> applyBasisPoints amount bps"
    using assms by (simp add: applyBasisPoints_nonneg pos_imp_zdiv_nonneg_iff)
  show "applyBasisPoints amount bps \<le> amount"
    using applyBasisPoints_mono [of amount bps amount 10000] assms
    by (simp add: applyBasisPoints_full)
  have "js_round (of_int amount * of_int bps / 10000) = \<lfloor>of_int (amount * bps + 5000) / (of_int 10000 :: rat)\<rfloor>"
    unfolding js_round_def by (rule arg_cong [where f = floor]) (simp add: field_simps)
  also have "\<dots> = (amount * bps + 5000) div 10000"
    by (rule floor_divide_of_int_eq)
  finally show "applyBasisPoints amount bps = js_round (of_int amount * of_int bps / 10000)"
    using assms by (simp add: applyBasisPoints_nonneg)
qed

theorem commission_within_sale_witness:
  "applyBasisPoints 1005 1250 = 126 \<and> applyBasisPoints 1005 1250 \<le> 1005"
  using commission_within_sale [of 1005 1250] by (simp add: applyBasisPoints_nonneg)

end
