(* ===== verification/Course_Orders.thy ===== *)
theory Course_Orders
  imports Commission Learning_Progress Payment_Application
begin

text \<open>
  Buying a course (\<open>course-commerce/services/course-orders.service.ts\<close>,
  \<open>course-order-payments.service.ts\<close>): the tables of course commerce, the order a learner opens,
  the payment they start (collected by Atlas, by the organization's gateway or by the academy
  itself) and the proof they hand in.

  A row identifier the database generates is a serial number of the state, so that a new one was
  never used before. A transaction is a function to an error or to the state it commits: what it
  wrote before an error is rolled back.
\<close>

subsection \<open>Rows\<close>

type_synonym row_id = nat

datatype order_status =
  ord_draft | ord_pending_payment | ord_paid | ord_expired | ord_cancelled | ord_refunded

record course_order =
  ord_id :: row_id
  ord_studentId :: uid
  ord_courseId :: uid
  ord_academyId :: uid
  ord_organizationId :: uid
  ord_snapshotTitle :: string
  ord_snapshotAmount :: int
  ord_snapshotCurrency :: string
  ord_status :: order_status
  ord_expiresAt :: instant
  ord_idempotencyKey :: string
  ord_paidAt :: "instant option"

datatype collection_mode =
  mode_unconfigured | mode_atlas_payments | mode_organization_gateway | mode_academy_manual

datatype review_status = rv_not_required | rv_pending | rv_approved | rv_rejected

datatype next_action = awaiting_proof | awaiting_manual_review

record course_payment =
  cp_id :: row_id
  cp_courseOrderId :: "row_id option"
  cp_payerUserId :: uid
  cp_payeeAcademyId :: uid
  cp_methodKey :: string
  cp_methodType :: string
  cp_provider :: string
  cp_academyPaymentMethodId :: "uid option"
  cp_amountMinorUnits :: int
  cp_currency :: string
  cp_status :: payment_status
  cp_reviewStatus :: review_status
  cp_reviewNotes :: "string option"
  cp_nextAction :: "next_action option"
  cp_instructionsSnapshot :: "string option"
  cp_failureReason :: "string option"
  cp_collectionMode :: collection_mode
  cp_commissionRate :: "int option"
  cp_commissionAmount :: "int option"

datatype ledger_entry_type =
  le_sale | le_platform_fee | le_refund | le_commission_reversal | le_payout

record ledger_entry =
  le_id :: row_id
  le_academyId :: uid
  le_courseOrderId :: row_id
  le_paymentId :: row_id
  le_entryType :: ledger_entry_type
  le_amountMinorUnits :: int
  le_currency :: string
  le_occurredAt :: instant

text \<open>An academy's refund carries the key \<open>academy-refund:\<close> followed by the order's identifier.\<close>

datatype refund_key = ClientKey string | AcademyRefundKey row_id

record course_refund =
  rf_id :: row_id
  rf_courseOrderId :: row_id
  rf_paymentId :: row_id
  rf_amountMinorUnits :: int
  rf_currency :: string
  rf_requestedBy :: uid
  rf_idempotencyKey :: refund_key
  rf_processedAt :: instant

datatype payout_status = po_pending | po_processing | po_paid | po_failed

record academy_payout =
  po_id :: row_id
  po_academyId :: uid
  po_status :: payout_status
  po_amountMinorUnits :: int
  po_currency :: string
  po_periodStart :: instant
  po_periodEnd :: instant
  po_paidAt :: "instant option"
  po_providerReference :: "string option"

record order_enrollment = enrollment +
  oe_enrolledAt :: instant
  oe_revokeReason :: "string option"
  oe_accessSource :: string
  oe_courseOrderId :: "row_id option"

record materialized_progress =
  mp_enrollmentId :: uid
  mp_totalLessons :: nat
  mp_currentLesson :: "uid option"
  mp_progress :: course_progress
  mp_lessons :: "(uid \<times> uid \<times> lesson_progress_status) list"

text \<open>
  The tables, each in the order its rows were created. \<open>cs_emitted\<close> lists the messages asked for
  (key, recipient, entity) and \<open>cs_audit\<close> the audit entries (action, actor, target).
\<close>

record commerce_state =
  cs_nextId :: row_id
  cs_orders :: "course_order list"
  cs_payments :: "course_payment list"
  cs_attempts :: "row_id list"
  cs_proofs :: "(row_id \<times> row_id) list"
  cs_reviews :: "(row_id \<times> review_status \<times> uid) list"
  cs_refunds :: "course_refund list"
  cs_ledger :: "ledger_entry list"
  cs_payouts :: "academy_payout list"
  cs_payoutItems :: "(row_id \<times> row_id) list"
  cs_enrollments :: "order_enrollment list"
  cs_students :: "academy_student list"
  cs_progress :: "materialized_progress list"
  cs_emitted :: "(string \<times> uid \<times> row_id) list"
  cs_audit :: "(string \<times> uid \<times> row_id) list"

subsection \<open>What the services read from elsewhere\<close>

record course_offer =
  of_id :: uid
  of_academyId :: uid
  of_title :: string
  of_publishedPublic :: bool
  of_paid :: bool
  of_amountMinorUnits :: "int option"
  of_currency :: "string option"
  of_sections :: "(uid \<times> (uid \<times> bool) list) list"
  of_publishedQuizzes :: nat
  of_publishedAssignments :: nat

record academy_method =
  acm_id :: uid
  acm_type :: string
  acm_instructions :: string

record catalog_method =
  cat_key :: string
  cat_type :: string
  cat_provider :: string
  cat_enabled :: bool
  cat_supportsProof :: bool

record gateway_credential =
  gw_providerKey :: string
  gw_verified :: bool
  gw_enabled :: bool

datatype limit_verdict = within_limit | limit_reached | limit_forbidden | limit_error http_error

record academy_info =
  ai_organizationId :: uid
  ai_archived :: bool
  ai_suspended :: bool

text \<open>
  \<open>ce_withinLimit\<close> is \<open>EntitlementEnforcementService.assertWithinLimit(org, 'students', 1)\<close>,
  \<open>ce_nameClash\<close> the learner-name check of an admission and \<open>ce_enrollmentId\<close> the identifier the
  database gives a new enrollment. Everything here may differ from one request to the next.
\<close>

record commerce_env =
  ce_course :: "uid \<Rightarrow> course_offer option"
  ce_academy :: "uid \<Rightarrow> academy_info option"
  ce_academyMethods :: "uid \<Rightarrow> academy_method list"
  ce_method :: "string \<Rightarrow> catalog_method option"
  ce_collectionMode :: "uid \<Rightarrow> collection_mode"
  ce_gateway :: "uid \<Rightarrow> gateway_credential option"
  ce_commission :: commission_tables
  ce_withinLimit :: "uid \<Rightarrow> limit_verdict"
  ce_owners :: "uid \<Rightarrow> uid list"
  ce_isMember :: "uid \<Rightarrow> uid \<Rightarrow> bool"
  ce_nameClash :: "uid \<Rightarrow> uid \<Rightarrow> bool"
  ce_enrollmentId :: uid

definition COURSE_ORDER_EXPIRY_MINUTES :: int where "COURSE_ORDER_EXPIRY_MINUTES = 30"
definition REFUND_WINDOW_DAYS :: int where "REFUND_WINDOW_DAYS = 30"
definition ACADEMY_MANUAL_PAYMENT_WINDOW_HOURS :: int where
  "ACADEMY_MANUAL_PAYMENT_WINDOW_HOURS = 72"

definition ACADEMY_MANUAL_PROVIDER_KEY :: string where
  "ACADEMY_MANUAL_PROVIDER_KEY = ''academy_manual''"
definition ATLAS_MANUAL_PROVIDER_KEY :: string where
  "ATLAS_MANUAL_PROVIDER_KEY = ''atlas_manual''"

subsection \<open>Table access\<close>

definition findOrder :: "commerce_state \<Rightarrow> row_id \<Rightarrow> course_order option" where
  "findOrder s i = find_by ord_id i (cs_orders s)"

definition findByIdForStudent :: "commerce_state \<Rightarrow> uid \<Rightarrow> row_id \<Rightarrow> course_order option" where
  "findByIdForStudent s student i =
     find (\<lambda>x. ord_id x = i \<and> ord_studentId x = student) (cs_orders s)"

definition findByIdempotencyKey :: "commerce_state \<Rightarrow> uid \<Rightarrow> string \<Rightarrow> course_order option" where
  "findByIdempotencyKey s student k =
     find (\<lambda>x. ord_studentId x = student \<and> ord_idempotencyKey x = k) (cs_orders s)"

definition findActiveForStudentAndCourse :: "commerce_state \<Rightarrow> uid \<Rightarrow> uid \<Rightarrow> course_order option" where
  "findActiveForStudentAndCourse s student course =
     find (\<lambda>x. ord_studentId x = student \<and> ord_courseId x = course
              \<and> List.member [ord_draft, ord_pending_payment] (ord_status x)) (rev (cs_orders s))"

definition findPayment :: "commerce_state \<Rightarrow> row_id \<Rightarrow> course_payment option" where
  "findPayment s i = find_by cp_id i (cs_payments s)"

definition findByStudentAndCourse :: "commerce_state \<Rightarrow> uid \<Rightarrow> uid \<Rightarrow> order_enrollment option" where
  "findByStudentAndCourse s student course =
     find (\<lambda>e. er_studentId e = student \<and> er_courseId e = course) (cs_enrollments s)"

definition findForUserInAcademy :: "commerce_state \<Rightarrow> uid \<Rightarrow> uid \<Rightarrow> academy_student option" where
  "findForUserInAcademy s academy user =
     find (\<lambda>m. as_academyId m = academy \<and> as_userId m = user) (cs_students s)"

definition updateOrder :: "row_id \<Rightarrow> (course_order \<Rightarrow> course_order) \<Rightarrow> commerce_state \<Rightarrow> commerce_state" where
  "updateOrder i f s = s\<lparr>cs_orders := map (\<lambda>x. if ord_id x = i then f x else x) (cs_orders s)\<rparr>"

definition updatePayment :: "row_id \<Rightarrow> (course_payment \<Rightarrow> course_payment) \<Rightarrow> commerce_state \<Rightarrow> commerce_state" where
  "updatePayment i f s = s\<lparr>cs_payments := map (\<lambda>p. if cp_id p = i then f p else p) (cs_payments s)\<rparr>"

definition updateEnrollment ::
  "uid \<Rightarrow> uid \<Rightarrow> (order_enrollment \<Rightarrow> order_enrollment) \<Rightarrow> commerce_state \<Rightarrow> commerce_state" where
  "updateEnrollment student course f s =
     s\<lparr>cs_enrollments := map (\<lambda>e. if er_studentId e = student \<and> er_courseId e = course then f e else e)
                            (cs_enrollments s)\<rparr>"

definition emit :: "string \<Rightarrow> uid \<Rightarrow> row_id \<Rightarrow> commerce_state \<Rightarrow> commerce_state" where
  "emit key recipient entity s = s\<lparr>cs_emitted := cs_emitted s @ [(key, recipient, entity)]\<rparr>"

definition audit :: "string \<Rightarrow> uid \<Rightarrow> row_id \<Rightarrow> commerce_state \<Rightarrow> commerce_state" where
  "audit action actor target s = s\<lparr>cs_audit := cs_audit s @ [(action, actor, target)]\<rparr>"

text \<open>\<open>resolve_academy_organization\<close> answers only for an academy that is open.\<close>

definition resolveOrganizationId :: "commerce_env \<Rightarrow> uid \<Rightarrow> uid option" where
  "resolveOrganizationId env academy =
     (case ce_academy env academy of
        None \<Rightarrow> None
      | Some a \<Rightarrow> if ai_archived a \<or> ai_suspended a then None else Some (ai_organizationId a))"

definition isRejectedRegistration :: "academy_student \<Rightarrow> bool" where
  "isRejectedRegistration m \<longleftrightarrow> academy_student.as_status m = ms_inactive \<and> as_blockedAt m = None"

definition rejectedLearner :: "commerce_state \<Rightarrow> uid \<Rightarrow> uid \<Rightarrow> bool" where
  "rejectedLearner s student academy =
     (case findForUserInAcademy s academy student of
        None \<Rightarrow> False | Some m \<Rightarrow> isRejectedRegistration m)"

definition countActiveForStudentInOrganization :: "commerce_env \<Rightarrow> commerce_state \<Rightarrow> uid \<Rightarrow> uid \<Rightarrow> nat" where
  "countActiveForStudentInOrganization env s org student =
     count_rows (\<lambda>e. er_studentId e = student \<and> er_enrollmentStatus e \<noteq> en_unavailable
                   \<and> (case ce_academy env (er_academyId e) of
                        None \<Rightarrow> False
                      | Some a \<Rightarrow> ai_organizationId a = org \<and> \<not> ai_archived a)) (cs_enrollments s)"

definition assertAcceptingNewStudent :: "commerce_env \<Rightarrow> commerce_state \<Rightarrow> uid \<Rightarrow> uid \<Rightarrow> unit outcome" where
  "assertAcceptingNewStudent env s org student =
     (if countActiveForStudentInOrganization env s org student > 0 then Inr ()
      else (case ce_withinLimit env org of
              within_limit \<Rightarrow> Inr ()
            | limit_reached \<Rightarrow> throw ConflictException ''errors.courseOrder.notAcceptingEnrollments''
            | limit_forbidden \<Rightarrow> Inr ()
            | limit_error e \<Rightarrow> Inl e))"

subsection \<open>Opening an order\<close>

definition hasPrice :: "course_offer \<Rightarrow> bool" where
  "hasPrice c \<longleftrightarrow>
     (case of_amountMinorUnits c of None \<Rightarrow> False | Some a \<Rightarrow> \<not> a \<le> 0)
     \<and> (case of_currency c of None \<Rightarrow> False | Some x \<Rightarrow> x \<noteq> '''')"

definition newOrder :: "row_id \<Rightarrow> instant \<Rightarrow> uid \<Rightarrow> course_offer \<Rightarrow> uid \<Rightarrow> string \<Rightarrow> course_order" where
  "newOrder i now student c org key =
     \<lparr>ord_id = i, ord_studentId = student, ord_courseId = of_id c, ord_academyId = of_academyId c,
      ord_organizationId = org, ord_snapshotTitle = of_title c,
      ord_snapshotAmount = the (of_amountMinorUnits c), ord_snapshotCurrency = the (of_currency c),
      ord_status = ord_draft, ord_expiresAt = now + COURSE_ORDER_EXPIRY_MINUTES * 60000,
      ord_idempotencyKey = key, ord_paidAt = None\<rparr>"

definition startOrder ::
  "commerce_env \<Rightarrow> instant \<Rightarrow> uid \<Rightarrow> course_offer \<Rightarrow> string \<Rightarrow> commerce_state \<Rightarrow> (commerce_state \<times> row_id) outcome" where
  "startOrder env now student c key s =
     (case findActiveForStudentAndCourse s student (of_id c) of
        Some x \<Rightarrow> Inr (s, ord_id x)
      | None \<Rightarrow>
          (case resolveOrganizationId env (of_academyId c) of
             None \<Rightarrow> throw NotFoundException ''errors.notFound''
           | Some org \<Rightarrow>
               if ce_academyMethods env (of_academyId c) = []
                  \<and> ce_collectionMode env org = mode_unconfigured
               then throw ConflictException ''errors.courseOrder.paymentSetupIncomplete''
               else (case assertAcceptingNewStudent env s org student of
                       Inl e \<Rightarrow> Inl e
                     | Inr _ \<Rightarrow>
                         (let i = cs_nextId s
                          in Inr (emit ''course.order.created'' student i
                                    (s\<lparr>cs_orders := cs_orders s @ [newOrder i now student c org key],
                                       cs_nextId := Suc i\<rparr>), i)))))"

definition createOrder ::
  "commerce_env \<Rightarrow> instant \<Rightarrow> uid \<Rightarrow> uid \<Rightarrow> string \<Rightarrow> commerce_state \<Rightarrow> (commerce_state \<times> row_id) outcome" where
  "createOrder env now student courseId key s =
     (case findByIdempotencyKey s student key of
        Some x \<Rightarrow> Inr (s, ord_id x)
      | None \<Rightarrow>
          (case ce_course env courseId of
             None \<Rightarrow> throw NotFoundException ''errors.notFound''
           | Some c \<Rightarrow>
               if \<not> of_publishedPublic c then throw NotFoundException ''errors.notFound''
               else if rejectedLearner s student (of_academyId c)
               then throw ForbiddenException ''errors.academy.registrationRejected''
               else if \<not> of_paid c then throw ConflictException ''errors.courseOrder.courseNotPaid''
               else if \<not> hasPrice c then throw ConflictException ''errors.courseOrder.pricingUnavailable''
               else if (case findByStudentAndCourse s student (of_id c) of
                          None \<Rightarrow> False | Some e \<Rightarrow> er_enrollmentStatus e \<noteq> en_unavailable)
               then throw ConflictException ''errors.courseOrder.alreadyEnrolled''
               else startOrder env now student c key s))"

subsection \<open>Starting a payment\<close>

datatype payment_refusal = CourseOrderExpired row_id bool | Refused http_error

definition orderClosed :: "course_order \<Rightarrow> bool" where
  "orderClosed x \<longleftrightarrow> ord_status x = ord_paid \<or> ord_status x = ord_cancelled \<or> ord_status x = ord_refunded"

definition orderExpired :: "course_order \<Rightarrow> instant \<Rightarrow> bool" where
  "orderExpired x now \<longleftrightarrow> ord_status x = ord_expired \<or> ord_expiresAt x < now"

definition academyPaymentMethodKey :: "string \<Rightarrow> string" where
  "academyPaymentMethodKey t = ''academy_'' @ t"

definition tryResolve :: "string \<Rightarrow> bool" where
  "tryResolve providerKey \<longleftrightarrow> providerKey = ATLAS_MANUAL_PROVIDER_KEY"

definition initialNextAction :: "string \<Rightarrow> bool \<Rightarrow> next_action option" where
  "initialNextAction providerKey supportsProof =
     (if tryResolve providerKey \<and> supportsProof then Some awaiting_proof else None)"

text \<open>The collection decision: the provider and the frozen commission, or a refusal.\<close>

definition collectionFor ::
  "commerce_env \<Rightarrow> course_order \<Rightarrow> catalog_method \<Rightarrow> (string \<times> (int \<times> int) option) outcome" where
  "collectionFor env x m =
     (case ce_collectionMode env (ord_organizationId x) of
        mode_unconfigured \<Rightarrow> throw ConflictException ''errors.courseOrder.paymentSetupIncomplete''
      | mode_atlas_payments \<Rightarrow>
          if cat_provider m \<noteq> ATLAS_MANUAL_PROVIDER_KEY
          then throw ConflictException ''errors.payment.methodNotFound''
          else (case resolveEffectiveCommissionForOrganization (ce_commission env) (ord_organizationId x) of
                  Unresolved \<Rightarrow> throw ConflictException ''errors.courseOrder.commissionNotConfigured''
                | Resolved bps _ \<Rightarrow>
                    Inr (cat_provider m, Some (bps, applyBasisPoints (ord_snapshotAmount x) bps)))
      | _ \<Rightarrow>
          (case ce_gateway env (ord_organizationId x) of
             None \<Rightarrow> throw ConflictException ''errors.courseOrder.gatewayNotConfigured''
           | Some g \<Rightarrow>
               if \<not> gw_verified g \<or> \<not> gw_enabled g
               then throw ConflictException ''errors.courseOrder.gatewayNotConfigured''
               else if \<not> tryResolve (gw_providerKey g)
               then throw ConflictException ''errors.payment.gatewayNotConnected''
               else Inr (gw_providerKey g, None)))"

definition insertPayment :: "course_payment \<Rightarrow> commerce_state \<Rightarrow> commerce_state" where
  "insertPayment p s =
     s\<lparr>cs_payments := cs_payments s @ [p], cs_attempts := cs_attempts s @ [cp_id p],
       cs_nextId := Suc (cs_nextId s)\<rparr>"

definition newPayment :: "row_id \<Rightarrow> uid \<Rightarrow> course_order \<Rightarrow> course_payment" where
  "newPayment i student x =
     \<lparr>cp_id = i, cp_courseOrderId = Some (ord_id x), cp_payerUserId = student,
      cp_payeeAcademyId = ord_academyId x, cp_methodKey = '''', cp_methodType = '''', cp_provider = '''',
      cp_academyPaymentMethodId = None, cp_amountMinorUnits = ord_snapshotAmount x,
      cp_currency = ord_snapshotCurrency x, cp_status = pay_pending, cp_reviewStatus = rv_not_required,
      cp_reviewNotes = None, cp_nextAction = None, cp_instructionsSnapshot = None,
      cp_failureReason = None, cp_collectionMode = mode_unconfigured,
      cp_commissionRate = None, cp_commissionAmount = None\<rparr>"

definition atlasPayment ::
  "row_id \<Rightarrow> uid \<Rightarrow> course_order \<Rightarrow> catalog_method \<Rightarrow> collection_mode \<Rightarrow> string \<Rightarrow> (int \<times> int) option \<Rightarrow> course_payment" where
  "atlasPayment i student x m mode provider commission =
     (newPayment i student x)
       \<lparr>cp_methodKey := cat_key m, cp_methodType := cat_type m, cp_provider := provider,
        cp_nextAction := initialNextAction provider (cat_supportsProof m), cp_collectionMode := mode,
        cp_commissionRate := map_option fst commission,
        cp_commissionAmount := map_option snd commission\<rparr>"

definition academyPayment :: "row_id \<Rightarrow> uid \<Rightarrow> course_order \<Rightarrow> academy_method \<Rightarrow> course_payment" where
  "academyPayment i student x m =
     (newPayment i student x)
       \<lparr>cp_methodKey := academyPaymentMethodKey (acm_type m), cp_methodType := acm_type m,
        cp_provider := ACADEMY_MANUAL_PROVIDER_KEY, cp_academyPaymentMethodId := Some (acm_id m),
        cp_nextAction := Some awaiting_proof, cp_instructionsSnapshot := Some (acm_instructions m),
        cp_collectionMode := mode_academy_manual\<rparr>"

definition openPayments :: "commerce_state \<Rightarrow> row_id \<Rightarrow> course_payment list" where
  "openPayments s i =
     rev (filter (\<lambda>p. cp_courseOrderId p = Some i
                    \<and> List.member NON_TERMINAL_PAYMENT_STATUSES (cp_status p)) (cs_payments s))"

definition sameDetails :: "academy_method \<Rightarrow> course_payment \<Rightarrow> bool" where
  "sameDetails m p \<longleftrightarrow>
     cp_provider p = ACADEMY_MANUAL_PROVIDER_KEY
     \<and> cp_academyPaymentMethodId p = Some (acm_id m)
     \<and> cp_instructionsSnapshot p = Some (acm_instructions m)"

definition cancelPayments :: "row_id list \<Rightarrow> commerce_state \<Rightarrow> commerce_state" where
  "cancelPayments ids s =
     s\<lparr>cs_payments := map (\<lambda>p. if List.member ids (cp_id p)
                              then p\<lparr>cp_status := pay_cancelled, cp_nextAction := None\<rparr> else p)
                         (cs_payments s)\<rparr>"

definition extendWindow :: "instant \<Rightarrow> course_order \<Rightarrow> course_order" where
  "extendWindow windowEnd x =
     (if ord_expiresAt x < windowEnd then x\<lparr>ord_expiresAt := windowEnd\<rparr> else x)"

definition toPending :: "course_order \<Rightarrow> course_order" where
  "toPending x = (if ord_status x = ord_draft then x\<lparr>ord_status := ord_pending_payment\<rparr> else x)"

text \<open>
  The writes of the academy path: a matching open payment is reused, any other open one is
  cancelled, and the order stays payable long enough for a transfer.
\<close>

definition toCancel :: "course_payment option \<Rightarrow> course_payment list \<Rightarrow> row_id list" where
  "toCancel reusable opened =
     map cp_id (filter (\<lambda>p. map_option cp_id reusable \<noteq> Some (cp_id p)) opened)"

definition chooseAcademyMethod ::
  "instant \<Rightarrow> uid \<Rightarrow> course_order \<Rightarrow> academy_method \<Rightarrow> course_payment list \<Rightarrow> commerce_state
   \<Rightarrow> commerce_state \<times> row_id" where
  "chooseAcademyMethod now student x m opened s =
     (let reusable = find (\<lambda>p. cp_reviewStatus p = rv_not_required \<and> sameDetails m p) opened;
          windowEnd = now + ACADEMY_MANUAL_PAYMENT_WINDOW_HOURS * 3600000;
          s1 = updateOrder (ord_id x) (extendWindow windowEnd \<circ> toPending)
                 (cancelPayments (toCancel reusable opened) s)
      in case reusable of
           Some p \<Rightarrow> (s1, cp_id p)
         | None \<Rightarrow> (insertPayment (academyPayment (cs_nextId s1) student x m) s1, cs_nextId s1))"

definition createAcademyManualPayment ::
  "instant \<Rightarrow> uid \<Rightarrow> row_id \<Rightarrow> academy_method list \<Rightarrow> string \<Rightarrow> commerce_state
   \<Rightarrow> payment_refusal + commerce_state \<times> row_id" where
  "createAcademyManualPayment now student i methods methodKey s =
     (case findByIdForStudent s student i of
        None \<Rightarrow> Inl (Refused (HttpException NotFoundException ''errors.notFound''))
      | Some x \<Rightarrow>
          if orderClosed x
          then Inl (Refused (HttpException ConflictException ''errors.courseOrder.notPayable''))
          else if list_ex (\<lambda>p. cp_reviewStatus p = rv_pending) (openPayments s (ord_id x))
          then Inl (Refused (HttpException ConflictException ''errors.courseOrder.paymentUnderReview''))
          else if orderExpired x now
          then Inl (CourseOrderExpired (ord_id x) (ord_status x = ord_expired))
          else
            (case find (\<lambda>m. academyPaymentMethodKey (acm_type m) = methodKey) methods of
               None \<Rightarrow> Inl (Refused (HttpException NotFoundException ''errors.payment.methodNotFound''))
             | Some m \<Rightarrow> Inr (chooseAcademyMethod now student x m (openPayments s (ord_id x)) s)))"

definition createPaymentInTransaction ::
  "commerce_env \<Rightarrow> instant \<Rightarrow> uid \<Rightarrow> row_id \<Rightarrow> string \<Rightarrow> commerce_state
   \<Rightarrow> payment_refusal + commerce_state \<times> row_id" where
  "createPaymentInTransaction env now student i methodKey s =
     (case findByIdForStudent s student i of
        None \<Rightarrow> Inl (Refused (HttpException NotFoundException ''errors.notFound''))
      | Some x \<Rightarrow>
          if rejectedLearner s student (ord_academyId x)
          then Inl (Refused (HttpException ForbiddenException ''errors.academy.registrationRejected''))
          else if ce_academyMethods env (ord_academyId x) \<noteq> []
          then createAcademyManualPayment now student (ord_id x) (ce_academyMethods env (ord_academyId x)) methodKey s
          else if orderExpired x now
          then Inl (CourseOrderExpired (ord_id x) (ord_status x = ord_expired))
          else if orderClosed x
          then Inl (Refused (HttpException ConflictException ''errors.courseOrder.notPayable''))
          else
            (case ce_method env methodKey of
               None \<Rightarrow> Inl (Refused (HttpException NotFoundException ''errors.payment.methodNotFound''))
             | Some m \<Rightarrow>
                 if \<not> cat_enabled m
                 then Inl (Refused (HttpException NotFoundException ''errors.payment.methodNotFound''))
                 else
                   (case collectionFor env x m of
                      Inl e \<Rightarrow> Inl (Refused e)
                    | Inr (provider, commission) \<Rightarrow>
                        (let p = atlasPayment (cs_nextId s) student x m
                                   (ce_collectionMode env (ord_organizationId x)) provider commission
                         in Inr (updateOrder (ord_id x) toPending (insertPayment p s), cp_id p)))))"

definition finishExpiry :: "uid \<Rightarrow> row_id \<Rightarrow> bool \<Rightarrow> commerce_state \<Rightarrow> commerce_state" where
  "finishExpiry student i alreadyExpired s =
     (if alreadyExpired then s
      else (let (t, flipped) = updateMany
                   (\<lambda>x. ord_id x = i \<and> \<not> List.member [ord_expired, ord_paid, ord_refunded] (ord_status x))
                   (\<lambda>x. x\<lparr>ord_status := ord_expired\<rparr>) (cs_orders s)
            in if flipped = 0 then s
               else emit ''course.order.expired'' student i (s\<lparr>cs_orders := t\<rparr>)))"

text \<open>The expiry commits in a transaction of its own, before the refusal is answered.\<close>

definition createPayment ::
  "commerce_env \<Rightarrow> instant \<Rightarrow> uid \<Rightarrow> row_id \<Rightarrow> string \<Rightarrow> commerce_state \<Rightarrow> commerce_state \<times> row_id outcome" where
  "createPayment env now student i methodKey s =
     (case createPaymentInTransaction env now student i methodKey s of
        Inr (s', p) \<Rightarrow> (s', Inr p)
      | Inl (CourseOrderExpired k already) \<Rightarrow>
          (finishExpiry student k already s, throw ConflictException ''errors.courseOrder.expired'')
      | Inl (Refused e) \<Rightarrow> (s, Inl e))"

subsection \<open>Handing in a proof\<close>

definition ALLOWED_PAYMENT_PROOF_MIME_TYPES :: "string list" where
  "ALLOWED_PAYMENT_PROOF_MIME_TYPES = [''image/png'', ''image/jpeg'', ''application/pdf'']"

definition notifyOwners :: "uid list \<Rightarrow> row_id \<Rightarrow> commerce_state \<Rightarrow> commerce_state" where
  "notifyOwners owners proofId s = fold (\<lambda>r. emit ''academy.payment.submitted'' r proofId) owners s"

text \<open>\<open>kind\<close> is what \<open>detectFileKind\<close> recognised in the uploaded bytes.\<close>

definition submitProof ::
  "commerce_env \<Rightarrow> uid \<Rightarrow> row_id \<Rightarrow> row_id \<Rightarrow> string option \<Rightarrow> commerce_state \<Rightarrow> (commerce_state \<times> row_id) outcome" where
  "submitProof env student i paymentId kind s =
     (if (case kind of None \<Rightarrow> True | Some m \<Rightarrow> \<not> List.member ALLOWED_PAYMENT_PROOF_MIME_TYPES m)
      then throw ConflictException ''errors.payment.unsupportedProofFileType''
      else
       (case findByIdForStudent s student i of
          None \<Rightarrow> throw NotFoundException ''errors.notFound''
        | Some x \<Rightarrow>
            if rejectedLearner s student (ord_academyId x)
            then throw ForbiddenException ''errors.academy.registrationRejected''
            else
             (case findPayment s paymentId of
                None \<Rightarrow> throw NotFoundException ''errors.notFound''
              | Some p \<Rightarrow>
                  if cp_courseOrderId p \<noteq> Some (ord_id x) \<or> cp_payerUserId p \<noteq> student
                  then throw NotFoundException ''errors.notFound''
                  else if \<not> List.member NON_TERMINAL_PAYMENT_STATUSES (cp_status p)
                  then throw ConflictException ''errors.payment.notEditable''
                  else if cp_provider p = ACADEMY_MANUAL_PROVIDER_KEY \<and> cp_reviewStatus p = rv_pending
                  then throw ConflictException ''errors.payment.alreadyUnderReview''
                  else if cp_provider p \<noteq> ACADEMY_MANUAL_PROVIDER_KEY
                          \<and> \<not> (case ce_method env (cp_methodKey p) of
                                 None \<Rightarrow> False | Some m \<Rightarrow> cat_supportsProof m)
                  then throw ConflictException ''errors.payment.proofNotSupported''
                  else
                    (let proofId = cs_nextId s;
                         s1 = s\<lparr>cs_proofs := cs_proofs s @ [(proofId, paymentId)], cs_nextId := Suc proofId\<rparr>;
                         s2 = updatePayment paymentId
                                (\<lambda>q. q\<lparr>cp_reviewStatus := rv_pending,
                                       cp_nextAction := Some awaiting_manual_review\<rparr>) s1;
                         s3 = emit ''course.order.proof_submitted'' student proofId s2
                     in Inr (if cp_provider p = ACADEMY_MANUAL_PROVIDER_KEY
                             then notifyOwners (ce_owners env (ord_academyId x)) proofId
                                    (audit ''academy.course_payment.proof_submitted'' student paymentId s3)
                             else s3, paymentId)))))"

end
