(* ===== verification/Order_Reviews.thy ===== *)
theory Order_Reviews
  imports Course_Orders
begin

text \<open>
  What happens to a started payment: the effect of a successful one
  (\<open>course-order-payment-application.service.ts\<close> with the enrollment of
  \<open>enrollments.service.ts\<close>), its review by Atlas (\<open>platform-course-order-payments.service.ts\<close>)
  or by the academy (\<open>academy-course-payments.service.ts\<close>), and the refund of a paid order
  (\<open>course-order-refunds.service.ts\<close> and the academy's own record of one).
\<close>

subsection \<open>Granting the course\<close>

definition publishedLessons :: "course_offer \<Rightarrow> (uid \<times> uid) list" where
  "publishedLessons c =
     concat (map (\<lambda>(sec, lessons). map (\<lambda>(l, _). (l, sec)) (filter snd lessons)) (of_sections c))"

definition materializeProgress :: "uid \<Rightarrow> course_offer \<Rightarrow> materialized_progress" where
  "materializeProgress enrollmentId c =
     (let lessons = publishedLessons c
      in \<lparr>mp_enrollmentId = enrollmentId,
          mp_totalLessons = length lessons,
          mp_currentLesson = (case lessons of [] \<Rightarrow> None | (l, _) # _ \<Rightarrow> Some l),
          mp_progress =
            \<lparr>pg_completionState = deriveCompletionState 0 (length lessons), pg_completedAt = None,
             pg_overallScore = None, pg_certificateStatus = cert_unavailable, pg_percentage = 0,
             pg_totalItems = length lessons + of_publishedQuizzes c + of_publishedAssignments c,
             pg_completedItems = 0\<rparr>,
          mp_lessons = map (\<lambda>(i, l, sec). (l, sec, if i = 0 then lp_available else lp_locked))
                         (List.enumerate 0 lessons)\<rparr>)"

definition admitPurchaser :: "commerce_env \<Rightarrow> uid \<Rightarrow> uid \<Rightarrow> row_id \<Rightarrow> commerce_state \<Rightarrow> commerce_state" where
  "admitPurchaser env student academy orderId s =
     (case findForUserInAcademy s academy student of
        Some _ \<Rightarrow> s
      | None \<Rightarrow>
          (let s1 = s\<lparr>cs_students := cs_students s @
                        [\<lparr>as_academyId = academy, as_userId = student, as_status = ms_active,
                          as_blockedAt = None\<rparr>]\<rparr>
           in if ce_nameClash env academy student
              then audit ''academy.student.name_clash_exempted'' student orderId s1 else s1))"

definition createEnrollmentInTransaction ::
  "commerce_env \<Rightarrow> instant \<Rightarrow> uid \<Rightarrow> course_offer \<Rightarrow> row_id \<Rightarrow> commerce_state \<Rightarrow> commerce_state" where
  "createEnrollmentInTransaction env now student c orderId s =
     (let s1 = admitPurchaser env student (of_academyId c) orderId s;
          e = \<lparr>er_id = ce_enrollmentId env, er_studentId = student, er_courseId = of_id c,
               er_academyId = of_academyId c, er_enrollmentStatus = en_enrolled, er_revokedAt = None,
               er_expiresAt = None, oe_enrolledAt = now, oe_revokeReason = None,
               oe_accessSource = ''order'', oe_courseOrderId = Some orderId\<rparr>
      in s1\<lparr>cs_enrollments := cs_enrollments s1 @ [e],
            cs_progress := cs_progress s1 @ [materializeProgress (er_id e) c]\<rparr>)"

definition regrant :: "instant \<Rightarrow> row_id \<Rightarrow> order_enrollment \<Rightarrow> order_enrollment" where
  "regrant now orderId e =
     e\<lparr>er_enrollmentStatus := en_enrolled, oe_enrolledAt := now, er_revokedAt := None,
       oe_revokeReason := None, oe_accessSource := ''order'', oe_courseOrderId := Some orderId\<rparr>"

definition grantCourse :: "commerce_env \<Rightarrow> instant \<Rightarrow> course_order \<Rightarrow> commerce_state \<Rightarrow> commerce_state" where
  "grantCourse env now x s =
     (case ce_course env (ord_courseId x) of
        None \<Rightarrow> s
      | Some c \<Rightarrow>
          (case findByStudentAndCourse s (ord_studentId x) (of_id c) of
             Some e \<Rightarrow>
               if er_enrollmentStatus e \<noteq> en_enrolled \<or> er_revokedAt e \<noteq> None
               then updateEnrollment (ord_studentId x) (of_id c) (regrant now (ord_id x)) s else s
           | None \<Rightarrow> createEnrollmentInTransaction env now (ord_studentId x) c (ord_id x) s))"

subsection \<open>The ledger\<close>

definition addEntry ::
  "uid \<Rightarrow> row_id \<Rightarrow> row_id \<Rightarrow> ledger_entry_type \<Rightarrow> int \<Rightarrow> string \<Rightarrow> instant \<Rightarrow> commerce_state \<Rightarrow> commerce_state" where
  "addEntry academy orderId paymentId t amount currency occurredAt s =
     s\<lparr>cs_ledger := cs_ledger s @
         [\<lparr>le_id = cs_nextId s, le_academyId = academy, le_courseOrderId = orderId,
           le_paymentId = paymentId, le_entryType = t, le_amountMinorUnits = amount,
           le_currency = currency, le_occurredAt = occurredAt\<rparr>],
       cs_nextId := Suc (cs_nextId s)\<rparr>"

definition chargedCommission :: "course_payment \<Rightarrow> int" where
  "chargedCommission p =
     (case cp_commissionAmount p of None \<Rightarrow> 0 | Some c \<Rightarrow> if c > 0 then c else 0)"

definition insertSaleLedgerEntries ::
  "instant \<Rightarrow> course_payment \<Rightarrow> course_order \<Rightarrow> commerce_state \<Rightarrow> commerce_state" where
  "insertSaleLedgerEntries now p x s =
     (let s1 = addEntry (ord_academyId x) (ord_id x) (cp_id p) le_sale (cp_amountMinorUnits p) (cp_currency p) now s
      in if chargedCommission p > 0
         then addEntry (ord_academyId x) (ord_id x) (cp_id p) le_platform_fee
                (- chargedCommission p) (cp_currency p) now s1
         else s1)"

definition insertRefundLedgerEntries ::
  "instant \<Rightarrow> course_payment \<Rightarrow> course_order \<Rightarrow> commerce_state \<Rightarrow> commerce_state" where
  "insertRefundLedgerEntries now p x s =
     (let s1 = addEntry (ord_academyId x) (ord_id x) (cp_id p) le_refund (- ord_snapshotAmount x)
                 (ord_snapshotCurrency x) now s
      in if chargedCommission p > 0
         then addEntry (ord_academyId x) (ord_id x) (cp_id p) le_commission_reversal
                (chargedCommission p) (ord_snapshotCurrency x) now s1
         else s1)"

subsection \<open>The effect of a payment\<close>

definition applySuccessfulCoursePayment ::
  "commerce_env \<Rightarrow> instant \<Rightarrow> course_payment \<Rightarrow> course_order \<Rightarrow> commerce_state \<Rightarrow> commerce_state" where
  "applySuccessfulCoursePayment env now p x s =
     (let s1 = updatePayment (cp_id p)
                 (\<lambda>q. q\<lparr>cp_status := pay_succeeded, cp_failureReason := None, cp_nextAction := None\<rparr>) s;
          s2 = updateOrder (ord_id x) (\<lambda>y. y\<lparr>ord_status := ord_paid, ord_paidAt := Some now\<rparr>) s1;
          s3 = grantCourse env now x s2
      in if cp_collectionMode p = mode_atlas_payments then insertSaleLedgerEntries now p x s3 else s3)"

definition applyFailedCoursePayment :: "course_payment \<Rightarrow> string \<Rightarrow> commerce_state \<Rightarrow> commerce_state" where
  "applyFailedCoursePayment p failureReasonKey s =
     updatePayment (cp_id p)
       (\<lambda>q. q\<lparr>cp_status := pay_failed, cp_failureReason := Some failureReasonKey, cp_nextAction := None\<rparr>) s"

definition recordReview :: "row_id \<Rightarrow> review_status \<Rightarrow> uid \<Rightarrow> commerce_state \<Rightarrow> commerce_state" where
  "recordReview paymentId decision reviewer s =
     s\<lparr>cs_reviews := cs_reviews s @ [(paymentId, decision, reviewer)]\<rparr>"

definition decide :: "review_status \<Rightarrow> string option \<Rightarrow> course_payment \<Rightarrow> course_payment" where
  "decide d notes p = p\<lparr>cp_reviewStatus := d, cp_reviewNotes := notes\<rparr>"

subsection \<open>Review by Atlas\<close>

definition loadReviewablePaymentAndOrder ::
  "commerce_env \<Rightarrow> uid \<Rightarrow> row_id \<Rightarrow> commerce_state \<Rightarrow> course_order outcome" where
  "loadReviewablePaymentAndOrder env reviewer paymentId s =
     (case findPayment s paymentId of
        None \<Rightarrow> throw NotFoundException ''errors.notFound''
      | Some p \<Rightarrow>
          (case cp_courseOrderId p of
             None \<Rightarrow> throw NotFoundException ''errors.notFound''
           | Some i \<Rightarrow>
               if cp_provider p = ACADEMY_MANUAL_PROVIDER_KEY
               then throw NotFoundException ''errors.notFound''
               else (case findOrder s i of
                       None \<Rightarrow> throw NotFoundException ''errors.notFound''
                     | Some x \<Rightarrow>
                         if cp_reviewStatus p \<noteq> rv_pending
                         then throw ConflictException ''errors.payment.notPendingReview''
                         else if ce_isMember env (ord_organizationId x) reviewer
                         then throw ForbiddenException ''errors.payment.cannotReviewOwnOrganization''
                         else Inr x)))"

definition approvePayment ::
  "commerce_env \<Rightarrow> instant \<Rightarrow> uid \<Rightarrow> row_id \<Rightarrow> string option \<Rightarrow> commerce_state \<Rightarrow> (commerce_state \<times> row_id) outcome" where
  "approvePayment env now reviewer paymentId notes s =
     (case loadReviewablePaymentAndOrder env reviewer paymentId s of
        Inl e \<Rightarrow> Inl e
      | Inr courseOrder \<Rightarrow>
          (case findPayment s paymentId of
             None \<Rightarrow> throw NotFoundException ''errors.notFound''
           | Some fresh \<Rightarrow>
               if cp_reviewStatus fresh \<noteq> rv_pending
               then throw ConflictException ''errors.payment.notPendingReview''
               else
                 (let s1 = updatePayment paymentId (decide rv_approved notes)
                             (recordReview paymentId rv_approved reviewer s)
                  in case (findOrder s1 (ord_id courseOrder), findPayment s1 paymentId) of
                       (Some x, Some p) \<Rightarrow>
                         Inr (emit ''course.order.paid'' (ord_studentId courseOrder) paymentId
                                (audit ''course_order_payment.approved'' reviewer paymentId
                                  (applySuccessfulCoursePayment env now p x s1)), paymentId)
                     | _ \<Rightarrow> throw NotFoundException ''errors.notFound'')))"

definition rejectPayment ::
  "commerce_env \<Rightarrow> uid \<Rightarrow> row_id \<Rightarrow> string option \<Rightarrow> commerce_state \<Rightarrow> (commerce_state \<times> row_id) outcome" where
  "rejectPayment env reviewer paymentId notes s =
     (case loadReviewablePaymentAndOrder env reviewer paymentId s of
        Inl e \<Rightarrow> Inl e
      | Inr courseOrder \<Rightarrow>
          (case findPayment s paymentId of
             None \<Rightarrow> throw NotFoundException ''errors.notFound''
           | Some fresh \<Rightarrow>
               if cp_reviewStatus fresh \<noteq> rv_pending
               then throw ConflictException ''errors.payment.notPendingReview''
               else
                 (let s1 = updatePayment paymentId (decide rv_rejected notes)
                             (recordReview paymentId rv_rejected reviewer s)
                  in Inr (emit ''course.order.payment_failed'' (ord_studentId courseOrder) paymentId
                            (audit ''course_order_payment.rejected'' reviewer paymentId
                              (applyFailedCoursePayment fresh ''errors.payment.rejectedByReviewer'' s1)),
                          paymentId))))"

subsection \<open>Review by the academy\<close>

text \<open>The caller as the academy guard resolved it: the organization and whether they own it.\<close>

record academy_context =
  ax_organizationId :: uid
  ax_isOwner :: bool

definition assertCanViewAcademyFinance :: "academy_context \<Rightarrow> uid outcome" where
  "assertCanViewAcademyFinance ctx =
     (if \<not> ax_isOwner ctx then throw ForbiddenException ''errors.tenancy.notAMember''
      else Inr (ax_organizationId ctx))"

definition loadReviewable :: "uid \<Rightarrow> row_id \<Rightarrow> commerce_state \<Rightarrow> (course_payment \<times> row_id) outcome" where
  "loadReviewable academy paymentId s =
     (case findPayment s paymentId of
        None \<Rightarrow> throw NotFoundException ''errors.notFound''
      | Some p \<Rightarrow>
          if cp_payeeAcademyId p \<noteq> academy \<or> cp_provider p \<noteq> ACADEMY_MANUAL_PROVIDER_KEY
          then throw NotFoundException ''errors.notFound''
          else (case cp_courseOrderId p of
                  None \<Rightarrow> throw NotFoundException ''errors.notFound''
                | Some i \<Rightarrow>
                    if cp_reviewStatus p \<noteq> rv_pending
                    then throw ConflictException ''errors.payment.notPendingReview''
                    else Inr (p, i)))"

definition findAcademyOrder :: "uid \<Rightarrow> row_id \<Rightarrow> commerce_state \<Rightarrow> course_order outcome" where
  "findAcademyOrder academy i s =
     (case findOrder s i of
        None \<Rightarrow> throw NotFoundException ''errors.notFound''
      | Some x \<Rightarrow> if ord_academyId x \<noteq> academy then throw NotFoundException ''errors.notFound'' else Inr x)"

definition claimPendingReview ::
  "row_id \<Rightarrow> review_status \<Rightarrow> string option \<Rightarrow> commerce_state \<Rightarrow> commerce_state \<times> bool" where
  "claimPendingReview i d notes s =
     (let (t, won) = guarded cp_id (\<lambda>p. cp_reviewStatus p = rv_pending) (decide d notes) i (cs_payments s)
      in (s\<lparr>cs_payments := t\<rparr>, won))"

definition academyApprove ::
  "commerce_env \<Rightarrow> instant \<Rightarrow> academy_context \<Rightarrow> uid \<Rightarrow> uid \<Rightarrow> row_id \<Rightarrow> string option \<Rightarrow> commerce_state
   \<Rightarrow> (commerce_state \<times> row_id) outcome" where
  "academyApprove env now ctx reviewer academy paymentId notes s =
     (case assertCanViewAcademyFinance ctx of
        Inl e \<Rightarrow> Inl e
      | Inr _ \<Rightarrow>
          (case loadReviewable academy paymentId s of
             Inl e \<Rightarrow> Inl e
           | Inr (payment, i) \<Rightarrow>
               (case findAcademyOrder academy i s of
                  Inl e \<Rightarrow> Inl e
                | Inr x \<Rightarrow>
                    if orderClosed x then throw ConflictException ''errors.courseOrder.notPayable''
                    else
                      (let (s1, claimed) = claimPendingReview paymentId rv_approved notes s
                       in if \<not> claimed then throw ConflictException ''errors.payment.notPendingReview''
                          else
                            (let s2 = recordReview paymentId rv_approved reviewer s1
                             in case findPayment s2 paymentId of
                                  None \<Rightarrow> throw NotFoundException ''errors.notFound''
                                | Some p \<Rightarrow>
                                    Inr (emit ''course.payment.approved'' (ord_studentId x) paymentId
                                           (audit ''academy.course_payment.approved'' reviewer paymentId
                                             (applySuccessfulCoursePayment env now p x s2)), paymentId))))))"

definition academyReject ::
  "instant \<Rightarrow> academy_context \<Rightarrow> uid \<Rightarrow> uid \<Rightarrow> row_id \<Rightarrow> string option \<Rightarrow> commerce_state
   \<Rightarrow> (commerce_state \<times> row_id) outcome" where
  "academyReject now ctx reviewer academy paymentId notes s =
     (case assertCanViewAcademyFinance ctx of
        Inl e \<Rightarrow> Inl e
      | Inr _ \<Rightarrow>
          (case loadReviewable academy paymentId s of
             Inl e \<Rightarrow> Inl e
           | Inr (payment, i) \<Rightarrow>
               (case findAcademyOrder academy i s of
                  Inl e \<Rightarrow> Inl e
                | Inr x \<Rightarrow>
                    (let (s1, claimed) = claimPendingReview paymentId rv_rejected notes s
                     in if \<not> claimed then throw ConflictException ''errors.payment.notPendingReview''
                        else
                          (let s2 = applyFailedCoursePayment payment ''errors.payment.rejectedByAcademy''
                                      (recordReview paymentId rv_rejected reviewer s1);
                               s3 = (if ord_status x = ord_draft \<or> ord_status x = ord_pending_payment
                                     then updateOrder (ord_id x)
                                            (extendWindow (now + ACADEMY_MANUAL_PAYMENT_WINDOW_HOURS * 3600000)) s2
                                     else s2)
                           in Inr (emit ''course.payment.rejected'' (ord_studentId x) paymentId
                                     (audit ''academy.course_payment.rejected'' reviewer paymentId s3),
                                   paymentId))))))"

subsection \<open>Refunds\<close>

definition findByCourseOrderId :: "commerce_state \<Rightarrow> row_id \<Rightarrow> course_refund option" where
  "findByCourseOrderId s i = find_by rf_courseOrderId i (cs_refunds s)"

definition findSucceededForCourseOrder :: "commerce_state \<Rightarrow> row_id \<Rightarrow> course_payment option" where
  "findSucceededForCourseOrder s i =
     find (\<lambda>p. cp_courseOrderId p = Some i \<and> cp_status p = pay_succeeded) (rev (cs_payments s))"

definition insertRefund ::
  "row_id \<Rightarrow> row_id \<Rightarrow> int \<Rightarrow> string \<Rightarrow> uid \<Rightarrow> refund_key \<Rightarrow> instant \<Rightarrow> commerce_state \<Rightarrow> commerce_state" where
  "insertRefund i p amount currency requester key now s =
     s\<lparr>cs_refunds := cs_refunds s @
         [\<lparr>rf_id = cs_nextId s, rf_courseOrderId = i, rf_paymentId = p, rf_amountMinorUnits = amount,
           rf_currency = currency, rf_requestedBy = requester, rf_idempotencyKey = key,
           rf_processedAt = now\<rparr>],
       cs_nextId := Suc (cs_nextId s)\<rparr>"

definition revokeForRefund :: "instant \<Rightarrow> order_enrollment \<Rightarrow> order_enrollment" where
  "revokeForRefund now e =
     e\<lparr>er_enrollmentStatus := en_unavailable, er_revokedAt := Some now, oe_revokeReason := Some ''refund''\<rparr>"

definition requestRefund ::
  "instant \<Rightarrow> uid \<Rightarrow> row_id \<Rightarrow> string \<Rightarrow> commerce_state \<Rightarrow> (commerce_state \<times> row_id) outcome" where
  "requestRefund now student i key s =
     (case findByIdForStudent s student i of
        None \<Rightarrow> throw NotFoundException ''errors.notFound''
      | Some x \<Rightarrow>
          (case findByCourseOrderId s (ord_id x) of
             Some r \<Rightarrow> Inr (s, rf_id r)
           | None \<Rightarrow>
               if ord_status x \<noteq> ord_paid
               then throw ConflictException ''errors.courseOrder.refundNotEligible''
               else
                 (case ord_paidAt x of
                    None \<Rightarrow> throw ConflictException ''errors.courseOrder.refundNotEligible''
                  | Some paidAt \<Rightarrow>
                      if now > paidAt + REFUND_WINDOW_DAYS * 24 * 60 * 60 * 1000
                      then throw ForbiddenException ''errors.courseOrder.refundWindowElapsed''
                      else
                        (case findSucceededForCourseOrder s (ord_id x) of
                           None \<Rightarrow> throw ConflictException ''errors.courseOrder.refundNotEligible''
                         | Some p \<Rightarrow>
                             if cp_provider p = ACADEMY_MANUAL_PROVIDER_KEY
                             then throw ConflictException ''errors.courseOrder.refundContactAcademy''
                             else
                               (let r = cs_nextId s;
                                    s1 = insertRefund (ord_id x) (cp_id p) (ord_snapshotAmount x)
                                           (ord_snapshotCurrency x) student (ClientKey key) now s;
                                    s2 = updateOrder (ord_id x) (\<lambda>y. y\<lparr>ord_status := ord_refunded\<rparr>) s1;
                                    s3 = updateEnrollment student (ord_courseId x) (revokeForRefund now) s2;
                                    s4 = (if cp_collectionMode p = mode_atlas_payments
                                          then insertRefundLedgerEntries now p x s3 else s3)
                                in Inr (audit ''course_order.refund_recorded'' student (ord_id x)
                                          (emit ''course.order.refunded'' student (ord_id x) s4), r))))))"

definition recordRefund ::
  "instant \<Rightarrow> academy_context \<Rightarrow> uid \<Rightarrow> uid \<Rightarrow> row_id \<Rightarrow> commerce_state \<Rightarrow> (commerce_state \<times> row_id) outcome" where
  "recordRefund now ctx owner academy paymentId s =
     (case assertCanViewAcademyFinance ctx of
        Inl e \<Rightarrow> Inl e
      | Inr _ \<Rightarrow>
          (case findPayment s paymentId of
             None \<Rightarrow> throw NotFoundException ''errors.notFound''
           | Some p \<Rightarrow>
               if cp_payeeAcademyId p \<noteq> academy \<or> cp_provider p \<noteq> ACADEMY_MANUAL_PROVIDER_KEY
               then throw NotFoundException ''errors.notFound''
               else
                 (case cp_courseOrderId p of
                    None \<Rightarrow> throw NotFoundException ''errors.notFound''
                  | Some i \<Rightarrow>
                      (case findAcademyOrder academy i s of
                         Inl e \<Rightarrow> Inl e
                       | Inr x \<Rightarrow>
                           if findByCourseOrderId s (ord_id x) \<noteq> None \<or> ord_status x = ord_refunded
                           then throw ConflictException ''errors.courseOrder.alreadyRefunded''
                           else if ord_status x \<noteq> ord_paid \<or> cp_status p \<noteq> pay_succeeded
                                   \<or> cp_reviewStatus p \<noteq> rv_approved
                           then throw ConflictException ''errors.courseOrder.refundNotEligible''
                           else
                             (let s1 = insertRefund (ord_id x) (cp_id p) (cp_amountMinorUnits p) (cp_currency p)
                                         owner (AcademyRefundKey (ord_id x)) now s;
                                  s2 = updateOrder (ord_id x) (\<lambda>y. y\<lparr>ord_status := ord_refunded\<rparr>) s1;
                                  s3 = (case findByStudentAndCourse s2 (ord_studentId x) (ord_courseId x) of
                                          None \<Rightarrow> s2
                                        | Some e \<Rightarrow>
                                            if er_revokedAt e = None
                                            then updateEnrollment (ord_studentId x) (ord_courseId x)
                                                   (revokeForRefund now) s2
                                            else s2)
                              in Inr (emit ''course.payment.refunded'' (ord_studentId x) paymentId
                                        (audit ''academy.course_payment.refunded'' owner paymentId s3),
                                      paymentId))))))"

end
