(* ===== verification/Academy_Payouts.thy ===== *)
theory Academy_Payouts
  imports Order_Reviews
begin

text \<open>
  Paying an academy what Atlas collected for it (\<open>platform-academy-payouts.service.ts\<close>): the
  unsettled ledger entries of a period, one payout per currency, and the requests of course
  commerce as one history.
\<close>

subsection \<open>Payouts\<close>

definition findUnsettledForAcademy :: "commerce_state \<Rightarrow> uid \<Rightarrow> instant \<Rightarrow> ledger_entry list" where
  "findUnsettledForAcademy s academy asOf =
     sort_key le_occurredAt
       (filter (\<lambda>e. le_academyId e = academy \<and> le_occurredAt e \<le> asOf
                  \<and> \<not> List.member (map snd (cs_payoutItems s)) (le_id e)) (cs_ledger s))"

definition currenciesOf :: "ledger_entry list \<Rightarrow> string list" where
  "currenciesOf es = rev (remdups (rev (map le_currency es)))"

definition sumAmounts :: "ledger_entry list \<Rightarrow> int" where
  "sumAmounts es = sum_list (map le_amountMinorUnits es)"

definition settleCurrency ::
  "uid \<Rightarrow> uid \<Rightarrow> instant \<Rightarrow> instant \<Rightarrow> ledger_entry list \<Rightarrow> string
   \<Rightarrow> commerce_state \<times> row_id list \<Rightarrow> commerce_state \<times> row_id list" where
  "settleCurrency actor academy periodStart periodEnd eligible currency acc =
     (let (s, settled) = acc;
          entries = filter (\<lambda>e. le_currency e = currency) eligible;
          amount = sumAmounts entries
      in if amount \<le> 0 then (s, settled)
         else
           (let i = cs_nextId s;
                po = \<lparr>po_id = i, po_academyId = academy, po_status = po_pending, po_amountMinorUnits = amount,
                      po_currency = currency, po_periodStart = periodStart, po_periodEnd = periodEnd,
                      po_paidAt = None, po_providerReference = None\<rparr>
            in (audit ''payout.created'' actor i
                  (s\<lparr>cs_payouts := cs_payouts s @ [po],
                     cs_payoutItems := cs_payoutItems s @ map (\<lambda>e. (i, le_id e)) entries,
                     cs_nextId := Suc i\<rparr>), settled @ [i])))"

text \<open>
  \<open>period\<close> is what parsing the two dates of the request gave: \<open>None\<close> for an invalid one.
\<close>

definition createPayout ::
  "commerce_env \<Rightarrow> uid \<Rightarrow> uid \<Rightarrow> instant option \<Rightarrow> instant option \<Rightarrow> commerce_state
   \<Rightarrow> (commerce_state \<times> row_id list) outcome" where
  "createPayout env actor academy startDate endDate s =
     (case (startDate, endDate) of
        (Some periodStart, Some periodEnd) \<Rightarrow>
          if periodEnd \<le> periodStart
          then throw ConflictException ''errors.academyPayout.invalidPeriod''
          else
            (case resolveOrganizationId env academy of
               None \<Rightarrow> throw NotFoundException ''errors.notFound''
             | Some _ \<Rightarrow>
                 (let unsettled = findUnsettledForAcademy s academy periodEnd;
                      eligible = filter (\<lambda>e. le_occurredAt e \<ge> periodStart) unsettled
                  in Inr (fold (settleCurrency actor academy periodStart periodEnd eligible)
                            (currenciesOf eligible) (s, []))))
      | _ \<Rightarrow> throw ConflictException ''errors.academyPayout.invalidPeriod'')"

definition findPayout :: "commerce_state \<Rightarrow> row_id \<Rightarrow> academy_payout option" where
  "findPayout s i = find_by po_id i (cs_payouts s)"

definition markPaid ::
  "instant \<Rightarrow> uid \<Rightarrow> row_id \<Rightarrow> string option \<Rightarrow> commerce_state \<Rightarrow> (commerce_state \<times> row_id) outcome" where
  "markPaid now actor i providerReference s =
     (case findPayout s i of
        None \<Rightarrow> throw NotFoundException ''errors.notFound''
      | Some po \<Rightarrow>
          if po_status po = po_paid then Inr (s, i)
          else if po_status po = po_failed
          then throw ConflictException ''errors.academyPayout.notPending''
          else
            Inr (audit ''payout.marked_paid'' actor i
                   (s\<lparr>cs_payouts := map (\<lambda>q. if po_id q = i
                        then q\<lparr>po_status := po_paid, po_paidAt := Some now,
                               po_providerReference :=
                                 (if providerReference = None then po_providerReference q else providerReference)\<rparr>
                        else q) (cs_payouts s)\<rparr>), i))"

subsection \<open>Histories\<close>

text \<open>\<open>OtherWrites\<close> is whatever the rest of the program makes of enrollments and memberships.\<close>

datatype commerce_request =
    CreateOrder uid uid string
  | CreatePayment uid row_id string
  | SubmitProof uid row_id row_id "string option"
  | PlatformApprove uid row_id "string option"
  | PlatformReject uid row_id "string option"
  | AcademyApprove academy_context uid uid row_id "string option"
  | AcademyReject academy_context uid uid row_id "string option"
  | RequestRefund uid row_id string
  | RecordRefund academy_context uid uid row_id
  | CreatePayout uid uid "instant option" "instant option"
  | MarkPaid uid row_id "string option"
  | OtherWrites "order_enrollment list" "academy_student list"

definition committed :: "commerce_state \<Rightarrow> (commerce_state \<times> 'a) outcome \<Rightarrow> commerce_state" where
  "committed s r = (case r of Inl _ \<Rightarrow> s | Inr (s', _) \<Rightarrow> s')"

fun handle :: "commerce_env \<Rightarrow> instant \<Rightarrow> commerce_request \<Rightarrow> commerce_state \<Rightarrow> commerce_state" where
  "handle env now (CreateOrder u c k) s = committed s (createOrder env now u c k s)"
| "handle env now (CreatePayment u i m) s = fst (createPayment env now u i m s)"
| "handle env now (SubmitProof u i p k) s = committed s (submitProof env u i p k s)"
| "handle env now (PlatformApprove r p n) s = committed s (approvePayment env now r p n s)"
| "handle env now (PlatformReject r p n) s = committed s (rejectPayment env r p n s)"
| "handle env now (AcademyApprove x r a p n) s = committed s (academyApprove env now x r a p n s)"
| "handle env now (AcademyReject x r a p n) s = committed s (academyReject now x r a p n s)"
| "handle env now (RequestRefund u i k) s = committed s (requestRefund now u i k s)"
| "handle env now (RecordRefund x r a p) s = committed s (recordRefund now x r a p s)"
| "handle env now (CreatePayout r a b e) s = committed s (createPayout env r a b e s)"
| "handle env now (MarkPaid r i n) s = committed s (markPaid now r i n s)"
| "handle env now (OtherWrites es ms) s = s\<lparr>cs_enrollments := es, cs_students := ms\<rparr>"

definition emptyCommerce :: commerce_state where
  "emptyCommerce =
     \<lparr>cs_nextId = 0, cs_orders = [], cs_payments = [], cs_attempts = [], cs_proofs = [], cs_reviews = [],
      cs_refunds = [], cs_ledger = [], cs_payouts = [], cs_payoutItems = [], cs_enrollments = [],
      cs_students = [], cs_progress = [], cs_emitted = [], cs_audit = []\<rparr>"

definition commerceHistory :: "(commerce_env \<times> instant \<times> commerce_request) list \<Rightarrow> commerce_state" where
  "commerceHistory rs = fold (\<lambda>(env, now, r). handle env now r) rs emptyCommerce"

end
