(* ===== verification/Commerce_Ledger.thy ===== *)
theory Commerce_Ledger
  imports Academy_Payouts
begin

text \<open>
  The money of course commerce over any history of requests: an academy is paid an order at most
  once by its own review, and the ledger of an order is what its Atlas-collected payments earned
  less what was refunded.
\<close>

subsection \<open>What is counted\<close>

definition succeeded :: "course_payment \<Rightarrow> bool" where
  "succeeded p \<longleftrightarrow> cp_status p = pay_succeeded"

definition nonTerminal :: "course_payment \<Rightarrow> bool" where
  "nonTerminal p \<longleftrightarrow> List.member NON_TERMINAL_PAYMENT_STATUSES (cp_status p)"

definition settled :: "course_order \<Rightarrow> bool" where
  "settled x \<longleftrightarrow> ord_status x = ord_paid \<or> ord_status x = ord_refunded"

definition academyPaid :: "commerce_state \<Rightarrow> row_id \<Rightarrow> course_payment list" where
  "academyPaid s i =
     filter (\<lambda>p. cp_courseOrderId p = Some i \<and> succeeded p \<and> cp_provider p = ACADEMY_MANUAL_PROVIDER_KEY)
       (cs_payments s)"

definition netOf :: "course_payment \<Rightarrow> int" where
  "netOf p = (if cp_collectionMode p = mode_atlas_payments
              then cp_amountMinorUnits p - chargedCommission p else 0)"

definition paidNet :: "commerce_state \<Rightarrow> row_id \<Rightarrow> int" where
  "paidNet s i =
     sum_list (map netOf (filter (\<lambda>p. cp_courseOrderId p = Some i \<and> succeeded p) (cs_payments s)))"

definition refundedNet :: "commerce_state \<Rightarrow> row_id \<Rightarrow> int" where
  "refundedNet s i =
     (case findByCourseOrderId s i of
        None \<Rightarrow> 0
      | Some r \<Rightarrow> (case findPayment s (rf_paymentId r) of None \<Rightarrow> 0 | Some p \<Rightarrow> netOf p))"

definition ledgerBalance :: "commerce_state \<Rightarrow> row_id \<Rightarrow> int" where
  "ledgerBalance s i = sumAmounts (filter (\<lambda>e. le_courseOrderId e = i) (cs_ledger s))"

subsection \<open>The invariant\<close>

definition orderIds :: "commerce_state \<Rightarrow> row_id list" where
  "orderIds s = map ord_id (cs_orders s)"

definition paymentIds :: "commerce_state \<Rightarrow> row_id list" where
  "paymentIds s = map cp_id (cs_payments s)"

definition keys_ok :: "commerce_state \<Rightarrow> bool" where
  "keys_ok s \<longleftrightarrow>
     distinct (orderIds s) \<and> (\<forall>i\<in>set (orderIds s). i < cs_nextId s)
     \<and> distinct (paymentIds s) \<and> (\<forall>i\<in>set (paymentIds s). i < cs_nextId s)
     \<and> (\<forall>r\<in>set (cs_refunds s). rf_paymentId r \<in> set (paymentIds s))"

definition payments_ok :: "commerce_state \<Rightarrow> bool" where
  "payments_ok s \<longleftrightarrow>
     (\<forall>p\<in>set (cs_payments s).
        (cp_reviewStatus p = rv_pending \<longrightarrow> nonTerminal p)
        \<and> (cp_provider p = ACADEMY_MANUAL_PROVIDER_KEY \<longrightarrow> cp_collectionMode p \<noteq> mode_atlas_payments)
        \<and> (\<forall>i. cp_courseOrderId p = Some i \<longrightarrow>
              (\<exists>x\<in>set (cs_orders s). ord_id x = i \<and> ord_snapshotAmount x = cp_amountMinorUnits p)))"

definition paid_once_ok :: "commerce_state \<Rightarrow> bool" where
  "paid_once_ok s \<longleftrightarrow>
     (\<forall>i. length (academyPaid s i) \<le> 1
        \<and> (academyPaid s i \<noteq> [] \<longrightarrow> (\<exists>x\<in>set (cs_orders s). ord_id x = i \<and> settled x)))"

definition ledger_ok :: "commerce_state \<Rightarrow> bool" where
  "ledger_ok s \<longleftrightarrow> (\<forall>i. ledgerBalance s i = paidNet s i - refundedNet s i)"

definition commerce_ok :: "commerce_state \<Rightarrow> bool" where
  "commerce_ok s \<longleftrightarrow> keys_ok s \<and> payments_ok s \<and> paid_once_ok s \<and> ledger_ok s"

lemmas commerce_ok_defs = commerce_ok_def keys_ok_def payments_ok_def paid_once_ok_def ledger_ok_def
lemmas money_defs = academyPaid_def paidNet_def refundedNet_def ledgerBalance_def
  findByCourseOrderId_def findPayment_def

subsection \<open>Steps that leave the money alone\<close>

definition same_money :: "commerce_state \<Rightarrow> commerce_state \<Rightarrow> bool" where
  "same_money s s' \<longleftrightarrow>
     cs_orders s' = cs_orders s \<and> cs_payments s' = cs_payments s \<and> cs_ledger s' = cs_ledger s
     \<and> cs_refunds s' = cs_refunds s \<and> cs_nextId s \<le> cs_nextId s'"

lemma same_money_counts:
  assumes "same_money s s'"
  shows "academyPaid s' i = academyPaid s i" "paidNet s' i = paidNet s i"
    "refundedNet s' i = refundedNet s i" "ledgerBalance s' i = ledgerBalance s i"
  using assms by (simp_all add: same_money_def money_defs cong: option.case_cong)

lemma same_money_ok:
  assumes m: "same_money s s'" and ok: "commerce_ok s"
  shows "commerce_ok s'"
proof -
  have "keys_ok s'" "payments_ok s'"
    using m ok by (auto simp: same_money_def commerce_ok_def keys_ok_def payments_ok_def orderIds_def
        paymentIds_def less_le_trans)
  moreover have "paid_once_ok s'" "ledger_ok s'"
    using m ok same_money_counts [OF m]
    by (simp_all add: same_money_def commerce_ok_def paid_once_ok_def ledger_ok_def)
  ultimately show ?thesis by (simp add: commerce_ok_def)
qed

lemma same_money_refl [simp]: "same_money s s"
  by (simp add: same_money_def)

lemma same_money_trans: "same_money s t \<Longrightarrow> same_money t u \<Longrightarrow> same_money s u"
  by (simp add: same_money_def)

lemma same_money_emit [simp]: "same_money s (emit k r e s)"
  and same_money_audit [simp]: "same_money s (audit a u i s)"
  and same_money_review [simp]: "same_money s (recordReview p d u s)"
  by (simp_all add: same_money_def emit_def audit_def recordReview_def)

lemma ok_emit [simp]: "commerce_ok s \<Longrightarrow> commerce_ok (emit k r e s)"
  and ok_audit [simp]: "commerce_ok s \<Longrightarrow> commerce_ok (audit a u i s)"
  and ok_review [simp]: "commerce_ok s \<Longrightarrow> commerce_ok (recordReview p d u s)"
  by (erule same_money_ok [rotated], simp)+

lemma same_money_notify: "same_money s (notifyOwners owners i s)"
  unfolding notifyOwners_def
  by (induction owners arbitrary: s) (auto intro: same_money_trans same_money_emit)

lemma same_money_grant: "same_money s (grantCourse env now x s)"
  by (auto simp: grantCourse_def createEnrollmentInTransaction_def admitPurchaser_def Let_def
      updateEnrollment_def audit_def same_money_def split: option.splits)

lemma same_money_updateEnrollment [simp]: "same_money s (updateEnrollment u c f s)"
  by (simp add: same_money_def updateEnrollment_def)

subsection \<open>Steps on orders and payments\<close>

lemma ok_orders:
  assumes ok: "commerce_ok s"
    and f: "\<And>x. ord_id (f x) = ord_id x \<and> ord_snapshotAmount (f x) = ord_snapshotAmount x"
    and st: "\<And>x. settled x \<Longrightarrow> settled (f x)"
  shows "commerce_ok (updateOrder i f s)"
proof -
  let ?g = "\<lambda>x. if ord_id x = i then f x else x"
  let ?s = "updateOrder i f s"
  have g: "ord_id (?g x) = ord_id x" "ord_snapshotAmount (?g x) = ord_snapshotAmount x"
    "settled x \<Longrightarrow> settled (?g x)" for x
    using f st by auto
  have counts: "academyPaid ?s j = academyPaid s j" "paidNet ?s j = paidNet s j"
    "refundedNet ?s j = refundedNet s j" "ledgerBalance ?s j = ledgerBalance s j" for j
    by (simp_all add: money_defs updateOrder_def cong: option.case_cong)
  have orders: "cs_orders ?s = map ?g (cs_orders s)"
    and same: "cs_payments ?s = cs_payments s" "cs_refunds ?s = cs_refunds s" "cs_nextId ?s = cs_nextId s"
    by (simp_all add: updateOrder_def)
  have "orderIds ?s = orderIds s" "paymentIds ?s = paymentIds s"
    using g by (simp_all add: orderIds_def paymentIds_def orders same)
  then have "keys_ok ?s"
    using ok by (simp add: commerce_ok_def keys_ok_def same)
  moreover have "payments_ok ?s"
    using ok unfolding commerce_ok_def payments_ok_def same orders by (metis (no_types, lifting) g(1,2) image_eqI set_map)
  moreover have "paid_once_ok ?s"
    using ok unfolding commerce_ok_def paid_once_ok_def counts orders by (metis (no_types, lifting) g(1,3) image_eqI set_map)
  moreover have "ledger_ok ?s"
    using ok unfolding commerce_ok_def ledger_ok_def counts by blast
  ultimately show ?thesis by (simp add: commerce_ok_def)
qed

definition quiet_rows :: "(course_payment \<Rightarrow> course_payment) \<Rightarrow> course_payment list \<Rightarrow> bool" where
  "quiet_rows g ps \<longleftrightarrow>
     (\<forall>p\<in>set ps. cp_id (g p) = cp_id p \<and> cp_courseOrderId (g p) = cp_courseOrderId p
        \<and> cp_provider (g p) = cp_provider p \<and> cp_collectionMode (g p) = cp_collectionMode p
        \<and> cp_amountMinorUnits (g p) = cp_amountMinorUnits p
        \<and> netOf (g p) = netOf p \<and> succeeded (g p) = succeeded p
        \<and> (cp_reviewStatus (g p) = rv_pending \<longrightarrow> nonTerminal (g p)))"

lemma quiet_filter:
  assumes "\<forall>p\<in>set ps. P (g p) = P p"
  shows "filter P (map g ps) = map g (filter P ps)"
  using assms by (induction ps) auto

lemma find_by_map_set:
  assumes "\<forall>r\<in>set t. key (g r) = key r"
  shows "find_by key k (map g t) = map_option g (find_by key k t)"
  using assms by (induction t) auto

lemma refundedNet_map:
  assumes "cs_payments s' = map g (cs_payments s)" "cs_refunds s' = cs_refunds s"
    and "\<forall>p\<in>set (cs_payments s). cp_id (g p) = cp_id p \<and> netOf (g p) = netOf p"
  shows "refundedNet s' i = refundedNet s i"
proof -
  have "findPayment s' j = map_option g (findPayment s j)" for j
    using assms by (simp add: findPayment_def find_by_map_set)
  moreover have "netOf (g p) = netOf p" if "findPayment s j = Some p" for j p
    using that assms(3) by (auto simp: findPayment_def dest: find_by_Some)
  ultimately show ?thesis
    by (auto simp: refundedNet_def findByCourseOrderId_def assms(2) simp del: find_by_None split: option.split)
qed

lemma ok_payments:
  assumes ok: "commerce_ok s" and q: "quiet_rows g (cs_payments s)"
  shows "commerce_ok (s\<lparr>cs_payments := map g (cs_payments s)\<rparr>)"
proof -
  let ?s = "s\<lparr>cs_payments := map g (cs_payments s)\<rparr>"
  have keys: "orderIds ?s = orderIds s" "paymentIds ?s = paymentIds s"
    using q by (auto simp: quiet_rows_def orderIds_def paymentIds_def)
  have acad: "academyPaid ?s i = map g (academyPaid s i)" for i
    using q unfolding academyPaid_def by (simp add: quiet_rows_def quiet_filter)
  have "paidNet ?s i = paidNet s i" for i
    using q unfolding paidNet_def
    by (simp add: quiet_rows_def quiet_filter comp_def) (rule arg_cong [where f = sum_list], auto)
  moreover have "refundedNet ?s i = refundedNet s i" for i
    by (rule refundedNet_map [of _ g]) (use q in \<open>auto simp: quiet_rows_def\<close>)
  moreover have "ledgerBalance ?s i = ledgerBalance s i" for i
    by (simp add: ledgerBalance_def)
  ultimately have "ledger_ok ?s" using ok by (simp add: commerce_ok_def ledger_ok_def)
  moreover have "keys_ok ?s"
    using ok keys by (simp add: commerce_ok_def keys_ok_def)
  moreover have "payments_ok ?s"
    using ok q by (auto simp: commerce_ok_def payments_ok_def quiet_rows_def)
  moreover have "paid_once_ok ?s"
    using ok acad by (auto simp: commerce_ok_def paid_once_ok_def)
  ultimately show ?thesis by (simp add: commerce_ok_def)
qed

lemma ok_new_payment:
  assumes ok: "commerce_ok s" and x: "x \<in> set (cs_orders s)"
    and p: "cp_id p = cs_nextId s" "cp_courseOrderId p = Some (ord_id x)"
      "cp_amountMinorUnits p = ord_snapshotAmount x" "\<not> succeeded p" "cp_reviewStatus p = rv_not_required"
      "cp_provider p = ACADEMY_MANUAL_PROVIDER_KEY \<Longrightarrow> cp_collectionMode p \<noteq> mode_atlas_payments"
  shows "commerce_ok (insertPayment p s)"
proof -
  let ?s = "insertPayment p s"
  have fresh: "cp_id p \<notin> set (paymentIds s)"
    using ok p(1) by (auto simp: commerce_ok_def keys_ok_def)
  have find: "findPayment ?s j = findPayment s j" if "j \<in> set (paymentIds s)" for j
    using that by (cases "find_by cp_id j (cs_payments s)")
      (simp_all add: findPayment_def insertPayment_def find_by_append paymentIds_def)
  have "rf_paymentId r \<in> set (paymentIds s)" if "find_by rf_courseOrderId i (cs_refunds s) = Some r" for i r
    using ok find_by_Some [OF that] by (simp add: commerce_ok_def keys_ok_def)
  then have "refundedNet ?s i = refundedNet s i" for i
    using find by (simp add: refundedNet_def findByCourseOrderId_def insertPayment_def del: find_by_None
        split: option.split)
  moreover have "paidNet ?s i = paidNet s i" "academyPaid ?s i = academyPaid s i"
    "ledgerBalance ?s i = ledgerBalance s i" for i
    using p by (simp_all add: paidNet_def academyPaid_def ledgerBalance_def insertPayment_def)
  ultimately have "ledger_ok ?s" "paid_once_ok ?s"
    using ok by (simp_all add: commerce_ok_def ledger_ok_def paid_once_ok_def insertPayment_def)
  moreover have "keys_ok ?s"
    using ok fresh p(1)
    by (auto simp: commerce_ok_def keys_ok_def insertPayment_def orderIds_def paymentIds_def less_SucI)
  moreover have "payments_ok ?s"
    using ok x p by (auto simp: commerce_ok_def payments_ok_def insertPayment_def)
  ultimately show ?thesis by (simp add: commerce_ok_def)
qed

lemma ok_new_order:
  assumes ok: "commerce_ok s" and x: "ord_id x = cs_nextId s"
  shows "commerce_ok (s\<lparr>cs_orders := cs_orders s @ [x], cs_nextId := Suc (cs_nextId s)\<rparr>)"
    (is "commerce_ok ?s")
proof -
  have counts: "academyPaid ?s j = academyPaid s j" "paidNet ?s j = paidNet s j"
    "refundedNet ?s j = refundedNet s j" "ledgerBalance ?s j = ledgerBalance s j" for j
    by (simp_all add: money_defs cong: option.case_cong)
  have "keys_ok ?s"
    using ok x by (auto simp: commerce_ok_def keys_ok_def orderIds_def paymentIds_def less_SucI)
  moreover have "payments_ok ?s"
    using ok by (simp add: commerce_ok_def payments_ok_def)
  moreover have "paid_once_ok ?s"
    using ok unfolding commerce_ok_def paid_once_ok_def counts by auto
  moreover have "ledger_ok ?s"
    using ok by (simp add: commerce_ok_def ledger_ok_def counts)
  ultimately show ?thesis by (simp add: commerce_ok_def)
qed

subsection \<open>The ledger entries\<close>

lemma sumAmounts_append: "sumAmounts (xs @ ys) = sumAmounts xs + sumAmounts ys"
  by (simp add: sumAmounts_def)

lemma balance_addEntry:
  "ledgerBalance (addEntry a k p t n c w s) i = ledgerBalance s i + (if k = i then n else 0)"
  by (simp add: ledgerBalance_def addEntry_def sumAmounts_def)

lemma charged_nonneg: "0 \<le> chargedCommission p"
  by (simp add: chargedCommission_def split: option.split)

lemma balance_sale:
  "ledgerBalance (insertSaleLedgerEntries now p x s) i =
     ledgerBalance s i + (if ord_id x = i then cp_amountMinorUnits p - chargedCommission p else 0)"
  using charged_nonneg [of p] by (simp add: insertSaleLedgerEntries_def balance_addEntry Let_def)

lemma balance_refund:
  "ledgerBalance (insertRefundLedgerEntries now p x s) i =
     ledgerBalance s i - (if ord_id x = i then ord_snapshotAmount x - chargedCommission p else 0)"
  using charged_nonneg [of p] by (simp add: insertRefundLedgerEntries_def balance_addEntry Let_def)

definition same_rows :: "commerce_state \<Rightarrow> commerce_state \<Rightarrow> bool" where
  "same_rows s s' \<longleftrightarrow>
     cs_orders s' = cs_orders s \<and> cs_payments s' = cs_payments s
     \<and> cs_refunds s' = cs_refunds s \<and> cs_nextId s \<le> cs_nextId s'"

lemma same_rows_entry: "same_rows s (addEntry a k p t n c w s)"
  by (simp add: same_rows_def addEntry_def)

lemma same_rows_trans: "same_rows s t \<Longrightarrow> same_rows t u \<Longrightarrow> same_rows s u"
  by (simp add: same_rows_def)

lemma same_rows_sale: "same_rows s (insertSaleLedgerEntries now p x s)"
  and same_rows_refund: "same_rows s (insertRefundLedgerEntries now p x s)"
  by (auto simp: insertSaleLedgerEntries_def insertRefundLedgerEntries_def Let_def
      intro: same_rows_trans same_rows_entry)

lemma same_rows_money: "same_money s s' \<Longrightarrow> same_rows s s'"
  by (simp add: same_rows_def same_money_def)

text \<open>Entries that move a balance by what they should move it by keep the invariant.\<close>

lemma ok_from_rows:
  assumes "keys_ok s" "payments_ok s" "paid_once_ok s" "same_rows s s'"
    and "\<And>i. ledgerBalance s' i = paidNet s i - refundedNet s i"
  shows "commerce_ok s'"
proof -
  have "academyPaid s' i = academyPaid s i" "paidNet s' i = paidNet s i" "refundedNet s' i = refundedNet s i" for i
    using assms(4) by (simp_all add: same_rows_def money_defs cong: option.case_cong)
  moreover have "keys_ok s'" "payments_ok s'"
    using assms by (auto simp: same_rows_def keys_ok_def payments_ok_def orderIds_def paymentIds_def less_le_trans)
  ultimately show ?thesis
    using assms by (simp add: commerce_ok_def paid_once_ok_def ledger_ok_def same_rows_def)
qed

end
