(* ===== verification/Commerce_Histories.thy ===== *)
theory Commerce_Histories
  imports Commerce_Ledger
begin

text \<open>
  The invariant of \<open>Commerce_Ledger\<close> kept by every request: first the two steps that move money
  (a payment succeeds, an order is refunded), then each handler, then all histories.
\<close>

subsection \<open>A payment succeeds\<close>

lemma map_row:
  "distinct (map key (ys @ p # zs)) \<Longrightarrow>
     map (\<lambda>q. if key q = key p then f q else q) (ys @ p # zs) = ys @ f p # zs"
  by (auto intro!: map_idI) (metis imageI)+

lemma findPayment_row:
  assumes "commerce_ok s" "findPayment s i = Some p"
  obtains ys zs where "cs_payments s = ys @ p # zs" "distinct (map cp_id (ys @ p # zs))" "cp_id p = i"
proof -
  have "p \<in> set (cs_payments s)" "cp_id p = i"
    using assms(2) by (auto simp: findPayment_def dest: find_by_Some)
  moreover have "distinct (map cp_id (cs_payments s))"
    using assms(1) by (simp add: commerce_ok_def keys_ok_def paymentIds_def)
  ultimately show thesis using that by (metis split_list)
qed

lemma findOrder_row:
  assumes "commerce_ok s" "findOrder s i = Some x"
  shows "x \<in> set (cs_orders s)" "ord_id x = i"
    and "\<And>y. y \<in> set (cs_orders s) \<Longrightarrow> ord_id y = i \<Longrightarrow> y = x"
proof -
  show x: "x \<in> set (cs_orders s)" "ord_id x = i"
    using assms(2) by (auto simp: findOrder_def dest: find_by_Some)
  show "y = x" if "y \<in> set (cs_orders s)" "ord_id y = i" for y
    using assms(1) x that by (auto simp: commerce_ok_def keys_ok_def orderIds_def intro: distinct_keys_unique)
qed

lemma payment_amount:
  assumes "commerce_ok s" "findPayment s i = Some p" "cp_courseOrderId p = Some (ord_id x)" "x \<in> set (cs_orders s)"
  shows "cp_amountMinorUnits p = ord_snapshotAmount x"
proof -
  have "p \<in> set (cs_payments s)"
    using assms(2) by (auto simp: findPayment_def dest: find_by_Some)
  then obtain y where "y \<in> set (cs_orders s)" "ord_id y = ord_id x" "ord_snapshotAmount y = cp_amountMinorUnits p"
    using assms(1,3) by (auto simp: commerce_ok_def payments_ok_def)
  moreover have "distinct (map ord_id (cs_orders s))"
    using assms(1) by (simp add: commerce_ok_def keys_ok_def orderIds_def)
  ultimately show ?thesis using assms(4) by (metis distinct_keys_unique)
qed

definition markSucceeded :: "instant \<Rightarrow> course_payment \<Rightarrow> course_order \<Rightarrow> commerce_state \<Rightarrow> commerce_state" where
  "markSucceeded now p x s =
     updateOrder (ord_id x) (\<lambda>y. y\<lparr>ord_status := ord_paid, ord_paidAt := Some now\<rparr>)
       (updatePayment (cp_id p)
          (\<lambda>q. q\<lparr>cp_status := pay_succeeded, cp_failureReason := None, cp_nextAction := None\<rparr>) s)"

lemma applySuccessful_alt:
  "applySuccessfulCoursePayment env now p x s =
     (let t = grantCourse env now x (markSucceeded now p x s)
      in if cp_collectionMode p = mode_atlas_payments then insertSaleLedgerEntries now p x t else t)"
  by (simp add: applySuccessfulCoursePayment_def markSucceeded_def Let_def)

lemma markSucceeded_rows:
  assumes ok: "commerce_ok s" and p: "findPayment s i = Some p" "\<not> succeeded p" "cp_reviewStatus p \<noteq> rv_pending"
    and x: "findOrder s k = Some x" "cp_courseOrderId p = Some (ord_id x)"
    and once: "cp_provider p = ACADEMY_MANUAL_PROVIDER_KEY \<Longrightarrow> \<not> settled x"
  shows "keys_ok (markSucceeded now p x s) \<and> payments_ok (markSucceeded now p x s)
         \<and> paid_once_ok (markSucceeded now p x s)
         \<and> (\<forall>j. paidNet (markSucceeded now p x s) j = paidNet s j + (if j = ord_id x then netOf p else 0)
               \<and> refundedNet (markSucceeded now p x s) j = refundedNet s j
               \<and> ledgerBalance (markSucceeded now p x s) j = ledgerBalance s j)"
proof -
  let ?f = "\<lambda>q. q\<lparr>cp_status := pay_succeeded, cp_failureReason := None, cp_nextAction := None\<rparr>"
  let ?g = "\<lambda>y. if ord_id y = ord_id x then y\<lparr>ord_status := ord_paid, ord_paidAt := Some now\<rparr> else y"
  let ?s = "markSucceeded now p x s"
  obtain ys zs where row: "cs_payments s = ys @ p # zs" and dist: "distinct (map cp_id (ys @ p # zs))"
    using findPayment_row [OF ok p(1)] by metis
  have pays: "cs_payments ?s = ys @ ?f p # zs"
    using map_row [OF dist, of ?f] row by (simp add: markSucceeded_def updateOrder_def updatePayment_def)
  have orders: "cs_orders ?s = map ?g (cs_orders s)"
    and rest: "cs_refunds ?s = cs_refunds s" "cs_nextId ?s = cs_nextId s" "cs_ledger ?s = cs_ledger s"
    by (simp_all add: markSucceeded_def updateOrder_def updatePayment_def)
  have fp: "netOf (?f p) = netOf p" "succeeded (?f p)"
    by (simp_all add: netOf_def chargedCommission_def succeeded_def)
  have gx: "ord_id (?g y) = ord_id y" "ord_snapshotAmount (?g y) = ord_snapshotAmount y"
    "settled y \<Longrightarrow> settled (?g y)" for y
    by (auto simp: settled_def)
  have ids: "orderIds ?s = orderIds s" "paymentIds ?s = paymentIds s"
    using gx(1) by (simp_all add: orderIds_def paymentIds_def orders pays row)
  have "keys_ok ?s"
    using ok by (simp add: commerce_ok_def keys_ok_def ids rest)
  moreover have "payments_ok ?s"
  proof -
    have in_orders: "\<exists>y\<in>set (cs_orders ?s). ord_id y = j \<and> ord_snapshotAmount y = n"
      if "\<exists>y\<in>set (cs_orders s). ord_id y = j \<and> ord_snapshotAmount y = n" for j n
      using that gx(1,2) unfolding orders by (metis (no_types, lifting) image_eqI set_map)
    have old: "payments_ok s" using ok by (simp add: commerce_ok_def)
    show ?thesis
      unfolding payments_ok_def pays
    proof (intro ballI)
      fix q assume "q \<in> set (ys @ ?f p # zs)"
      then consider "q = ?f p" | "q \<in> set (cs_payments s)" by (auto simp: row)
      then show "(cp_reviewStatus q = rv_pending \<longrightarrow> nonTerminal q)
          \<and> (cp_provider q = ACADEMY_MANUAL_PROVIDER_KEY \<longrightarrow> cp_collectionMode q \<noteq> mode_atlas_payments)
          \<and> (\<forall>i. cp_courseOrderId q = Some i \<longrightarrow>
                (\<exists>y\<in>set (cs_orders ?s). ord_id y = i \<and> ord_snapshotAmount y = cp_amountMinorUnits q))"
      proof cases
        case 1
        have "p \<in> set (cs_payments s)" by (simp add: row)
        then show ?thesis using old p(3) in_orders unfolding 1 payments_ok_def by simp
      next
        case 2
        then show ?thesis using old in_orders unfolding payments_ok_def by blast
      qed
    qed
  qed
  moreover have "paid_once_ok ?s"
    unfolding paid_once_ok_def
  proof (intro allI)
    fix j
    let ?P = "\<lambda>q. cp_courseOrderId q = Some j \<and> succeeded q \<and> cp_provider q = ACADEMY_MANUAL_PROVIDER_KEY"
    have old: "length (academyPaid s j) \<le> 1"
      "academyPaid s j \<noteq> [] \<Longrightarrow> \<exists>y\<in>set (cs_orders s). ord_id y = j \<and> settled y"
      using ok by (auto simp: commerce_ok_def paid_once_ok_def)
    have kept: "\<exists>y\<in>set (cs_orders ?s). ord_id y = j \<and> settled y"
      if "\<exists>y\<in>set (cs_orders s). ord_id y = j \<and> settled y"
      using that gx(1,3) unfolding orders by (metis (no_types, lifting) image_eqI set_map)
    show "length (academyPaid ?s j) \<le> 1
        \<and> (academyPaid ?s j \<noteq> [] \<longrightarrow> (\<exists>y\<in>set (cs_orders ?s). ord_id y = j \<and> settled y))"
    proof (cases "?P (?f p)")
      case False
      then have "academyPaid ?s j = academyPaid s j"
        using p(2) by (auto simp: academyPaid_def pays row)
      then show ?thesis using old kept by auto
    next
      case True
      then have j: "j = ord_id x" and ac: "cp_provider p = ACADEMY_MANUAL_PROVIDER_KEY"
        using x(2) by simp_all
      have "academyPaid s j = []"
        using old(2) findOrder_row [OF ok x(1)] once [OF ac] j by metis
      then have "academyPaid ?s j = [?f p]"
        using True p(2) by (simp add: academyPaid_def pays row)
      moreover have "\<exists>y\<in>set (cs_orders ?s). ord_id y = j \<and> settled y"
      proof (rule bexI [of _ "?g x"])
        show "?g x \<in> set (cs_orders ?s)"
          unfolding orders set_map using findOrder_row(1) [OF ok x(1)] by (rule imageI)
        show "ord_id (?g x) = j \<and> settled (?g x)"
          by (simp add: j settled_def)
      qed
      ultimately show ?thesis by auto
    qed
  qed
  moreover have "paidNet ?s j = paidNet s j + (if j = ord_id x then netOf p else 0)" for j
    using p(2) x(2) fp by (simp add: paidNet_def pays row)
  moreover have "refundedNet ?s j = refundedNet s j" for j
  proof (rule refundedNet_map [where g = "\<lambda>q. if cp_id q = cp_id p then ?f q else q"])
    show "cs_payments ?s = map (\<lambda>q. if cp_id q = cp_id p then ?f q else q) (cs_payments s)"
      by (simp add: markSucceeded_def updateOrder_def updatePayment_def)
    show "\<forall>q\<in>set (cs_payments s). cp_id (if cp_id q = cp_id p then ?f q else q) = cp_id q
        \<and> netOf (if cp_id q = cp_id p then ?f q else q) = netOf q"
      by (simp add: netOf_def chargedCommission_def)
  qed (rule rest)
  moreover have "ledgerBalance ?s j = ledgerBalance s j" for j
    by (simp add: ledgerBalance_def rest)
  ultimately show ?thesis by blast
qed

lemma ok_success:
  assumes ok: "commerce_ok s" and p: "findPayment s i = Some p" "\<not> succeeded p" "cp_reviewStatus p \<noteq> rv_pending"
    and x: "findOrder s k = Some x" "cp_courseOrderId p = Some (ord_id x)"
    and once: "cp_provider p = ACADEMY_MANUAL_PROVIDER_KEY \<Longrightarrow> \<not> settled x"
  shows "commerce_ok (applySuccessfulCoursePayment env now p x s)"
proof -
  let ?m = "markSucceeded now p x s"
  let ?t = "grantCourse env now x ?m"
  note m = markSucceeded_rows [OF ok p x once, of now]
  have g: "same_money ?m ?t" by (rule same_money_grant)
  have bal: "ledgerBalance ?t j = paidNet s j - refundedNet s j" for j
    using m ok same_money_counts(4) [OF g] by (simp add: commerce_ok_def ledger_ok_def)
  have net: "netOf p = (if cp_collectionMode p = mode_atlas_payments
       then cp_amountMinorUnits p - chargedCommission p else 0)"
    by (simp add: netOf_def)
  show ?thesis
  proof (cases "cp_collectionMode p = mode_atlas_payments")
    case True
    have "commerce_ok (insertSaleLedgerEntries now p x ?t)"
      by (rule ok_from_rows [of ?m]) (use m same_rows_trans [OF same_rows_money [OF g] same_rows_sale] in
          \<open>auto simp: balance_sale bal net True\<close>)
    then show ?thesis using True by (simp add: applySuccessful_alt)
  next
    case False
    have "commerce_ok ?t"
      by (rule ok_from_rows [of ?m]) (use m same_rows_money [OF g] in \<open>auto simp: bal net False\<close>)
    then show ?thesis using False by (simp add: applySuccessful_alt)
  qed
qed

subsection \<open>An order is refunded\<close>

definition markRefunded :: "row_id \<Rightarrow> row_id \<Rightarrow> int \<Rightarrow> string \<Rightarrow> uid \<Rightarrow> refund_key \<Rightarrow> instant \<Rightarrow> commerce_state \<Rightarrow> commerce_state" where
  "markRefunded k pid amount currency requester key now s =
     updateOrder k (\<lambda>y. y\<lparr>ord_status := ord_refunded\<rparr>)
       (insertRefund k pid amount currency requester key now s)"

lemma markRefunded_rows:
  assumes ok: "commerce_ok s" and p: "findPayment s (cp_id p) = Some p"
    and no_refund: "findByCourseOrderId s k = None"
  shows "keys_ok (markRefunded k (cp_id p) n c u key now s)
         \<and> payments_ok (markRefunded k (cp_id p) n c u key now s)
         \<and> paid_once_ok (markRefunded k (cp_id p) n c u key now s)
         \<and> (\<forall>j. paidNet (markRefunded k (cp_id p) n c u key now s) j = paidNet s j
               \<and> refundedNet (markRefunded k (cp_id p) n c u key now s) j
                   = refundedNet s j + (if j = k then netOf p else 0)
               \<and> ledgerBalance (markRefunded k (cp_id p) n c u key now s) j = ledgerBalance s j)"
proof -
  let ?i = "insertRefund k (cp_id p) n c u key now s"
  let ?s = "markRefunded k (cp_id p) n c u key now s"
  let ?g = "\<lambda>y. if ord_id y = k then y\<lparr>ord_status := ord_refunded\<rparr> else y"
  have orders: "cs_orders ?s = map ?g (cs_orders s)"
    and rest: "cs_payments ?s = cs_payments s" "cs_ledger ?s = cs_ledger s" "cs_nextId ?s = Suc (cs_nextId s)"
    and refunds: "cs_refunds ?s = cs_refunds ?i"
    by (simp_all add: markRefunded_def updateOrder_def insertRefund_def)
  have gx: "ord_id (?g y) = ord_id y" "ord_snapshotAmount (?g y) = ord_snapshotAmount y"
    "settled y \<Longrightarrow> settled (?g y)" for y
    by (auto simp: settled_def)
  have ids: "orderIds ?s = orderIds s" "paymentIds ?s = paymentIds s"
    using gx(1) by (simp_all add: orderIds_def paymentIds_def orders rest)
  have "cp_id p \<in> set (paymentIds s)"
    using p by (auto simp: findPayment_def paymentIds_def dest: find_by_Some)
  then have "keys_ok ?s"
    using ok by (auto simp: commerce_ok_def keys_ok_def ids rest refunds insertRefund_def less_SucI)
  moreover have "payments_ok ?s"
    using ok unfolding commerce_ok_def payments_ok_def rest orders
    by (metis (no_types, lifting) gx(1,2) image_eqI set_map)
  moreover have same: "academyPaid ?s j = academyPaid s j" "paidNet ?s j = paidNet s j"
    "ledgerBalance ?s j = ledgerBalance s j" for j
    by (simp_all add: academyPaid_def paidNet_def ledgerBalance_def rest)
  moreover have "paid_once_ok ?s"
    using ok unfolding commerce_ok_def paid_once_ok_def same orders
    by (metis (no_types, lifting) gx(1,3) image_eqI set_map)
  moreover have "refundedNet ?s j = refundedNet s j + (if j = k then netOf p else 0)" for j
  proof -
    have fp: "findPayment ?s = findPayment s" by (simp add: findPayment_def rest fun_eq_iff)
    show ?thesis
    proof (cases "j = k")
      case True
      then show ?thesis
        using no_refund p by (simp add: refundedNet_def findByCourseOrderId_def refunds insertRefund_def
            find_by_append fp del: find_by_None)
    next
      case False
      then show ?thesis
        by (cases "find_by rf_courseOrderId j (cs_refunds s)")
          (simp_all add: refundedNet_def findByCourseOrderId_def refunds insertRefund_def find_by_append fp
            del: find_by_None)
    qed
  qed
  ultimately show ?thesis by blast
qed

lemma ok_refund:
  assumes ok: "commerce_ok s" and p: "findPayment s (cp_id p) = Some p"
    and no_refund: "findByCourseOrderId s (ord_id x) = None"
    and amount: "cp_amountMinorUnits p = ord_snapshotAmount x"
    and rows: "same_money (markRefunded (ord_id x) (cp_id p) n c u key now s) t"
  shows "commerce_ok (if cp_collectionMode p = mode_atlas_payments
                      then insertRefundLedgerEntries now p x t else t)"
proof -
  let ?m = "markRefunded (ord_id x) (cp_id p) n c u key now s"
  note m = markRefunded_rows [OF ok p no_refund, of n c u key now]
  have bal: "ledgerBalance t j = paidNet s j - refundedNet s j" for j
    using m ok same_money_counts(4) [OF rows] by (simp add: commerce_ok_def ledger_ok_def)
  show ?thesis
  proof (cases "cp_collectionMode p = mode_atlas_payments")
    case True
    have "commerce_ok (insertRefundLedgerEntries now p x t)"
      by (rule ok_from_rows [of ?m])
        (use m same_rows_trans [OF same_rows_money [OF rows] same_rows_refund] in
          \<open>auto simp: balance_refund bal netOf_def True amount\<close>)
    then show ?thesis using True by simp
  next
    case False
    have "commerce_ok t"
      by (rule ok_from_rows [of ?m]) (use m same_rows_money [OF rows] in \<open>auto simp: bal netOf_def False\<close>)
    then show ?thesis using False by simp
  qed
qed

subsection \<open>The handlers\<close>

lemma ok_updatePayment:
  assumes "commerce_ok s"
    and "\<And>p. p \<in> set (cs_payments s) \<Longrightarrow> cp_id p = i \<Longrightarrow> quiet_rows f [p]"
  shows "commerce_ok (updatePayment i f s)"
  unfolding updatePayment_def
proof (rule ok_payments [OF assms(1)])
  have "cp_reviewStatus p = rv_pending \<longrightarrow> nonTerminal p" if "p \<in> set (cs_payments s)" for p
    using assms(1) that by (simp add: commerce_ok_def payments_ok_def)
  then show "quiet_rows (\<lambda>p. if cp_id p = i then f p else p) (cs_payments s)"
    using assms(2) by (auto simp: quiet_rows_def)
qed

lemma found_payment:
  "findPayment s i = Some p \<Longrightarrow> p \<in> set (cs_payments s) \<and> cp_id p = i"
  by (auto simp: findPayment_def dest: find_by_Some)

lemma unique_payment:
  "commerce_ok s \<Longrightarrow> findPayment s i = Some p \<Longrightarrow> q \<in> set (cs_payments s) \<Longrightarrow> cp_id q = i \<Longrightarrow> q = p"
  by (auto simp: commerce_ok_def keys_ok_def paymentIds_def findPayment_def dest!: find_by_Some
      intro: distinct_keys_unique)

lemma pending_nonTerminal:
  assumes "commerce_ok s" "findPayment s i = Some p" "cp_reviewStatus p = rv_pending"
  shows "nonTerminal p"
  using assms found_payment [OF assms(2)] by (simp add: commerce_ok_def payments_ok_def)

lemma nonTerminal_open: "nonTerminal p \<Longrightarrow> \<not> succeeded p"
  by (auto simp: nonTerminal_def succeeded_def NON_TERMINAL_PAYMENT_STATUSES_def)

lemma student_order:
  "findByIdForStudent s u i = Some x \<Longrightarrow> x \<in> set (cs_orders s) \<and> ord_id x = i \<and> ord_studentId x = u"
  by (auto simp: findByIdForStudent_def find_Some_iff in_set_conv_nth)

lemma quiet_decide:
  "d \<noteq> rv_pending \<Longrightarrow> quiet_rows (decide d notes) [p]"
  by (simp add: quiet_rows_def decide_def netOf_def chargedCommission_def succeeded_def)

lemma ok_failed:
  assumes "commerce_ok s" "findPayment s i = Some q" "cp_id p = i" "\<not> succeeded q" "cp_reviewStatus q \<noteq> rv_pending"
  shows "commerce_ok (applyFailedCoursePayment p m s)"
  unfolding applyFailedCoursePayment_def
proof (rule ok_updatePayment [OF assms(1)])
  fix r assume "r \<in> set (cs_payments s)" "cp_id r = cp_id p"
  then have "r = q" using unique_payment [OF assms(1,2)] assms(3) by simp
  then show "quiet_rows (\<lambda>q. q\<lparr>cp_status := pay_failed, cp_failureReason := Some m, cp_nextAction := None\<rparr>) [r]"
    using assms(4,5) by (simp add: quiet_rows_def netOf_def chargedCommission_def succeeded_def)
qed

lemma ok_createOrder: "commerce_ok s \<Longrightarrow> commerce_ok (committed s (createOrder env now u c k s))"
  by (auto simp: createOrder_def startOrder_def committed_def Let_def ok_new_order newOrder_def
      split: option.split sum.split)

lemma ok_cancel:
  assumes ok: "commerce_ok s"
    and o: "\<And>p. p \<in> set ps \<Longrightarrow> p \<in> set (openPayments s k) \<and> cp_reviewStatus p \<noteq> rv_pending"
  shows "commerce_ok (cancelPayments (map cp_id ps) s)"
  unfolding cancelPayments_def
proof (rule ok_payments [OF ok])
  have pend: "cp_reviewStatus p = rv_pending \<longrightarrow> nonTerminal p" if "p \<in> set (cs_payments s)" for p
    using ok that by (simp add: commerce_ok_def payments_ok_def)
  have quiet: "\<not> succeeded p \<and> cp_reviewStatus p \<noteq> rv_pending"
    if p: "p \<in> set (cs_payments s)" and listed: "cp_id p \<in> cp_id ` set ps" for p
  proof -
    from listed obtain q where q: "q \<in> set ps" "cp_id q = cp_id p" by auto
    then have "q \<in> set (cs_payments s)" "nonTerminal q" "cp_reviewStatus q \<noteq> rv_pending"
      using o [OF q(1)] by (auto simp: openPayments_def nonTerminal_def)
    moreover from this have "q = p"
      using ok p q by (auto simp: commerce_ok_def keys_ok_def paymentIds_def intro: distinct_keys_unique)
    ultimately show ?thesis by (simp add: nonTerminal_open)
  qed
  show "quiet_rows (\<lambda>p. if List.member (map cp_id ps) (cp_id p)
      then p\<lparr>cp_status := pay_cancelled, cp_nextAction := None\<rparr> else p) (cs_payments s)"
    using pend quiet
    by (auto simp: quiet_rows_def netOf_def chargedCommission_def succeeded_def)
qed

lemma settled_window [simp]: "settled (extendWindow w x) = settled x"
  and settled_pending: "settled x \<Longrightarrow> settled (toPending x)"
  by (auto simp: settled_def extendWindow_def toPending_def)

lemma kept_window [simp]:
  "ord_id (extendWindow w x) = ord_id x" "ord_snapshotAmount (extendWindow w x) = ord_snapshotAmount x"
  "ord_id (toPending x) = ord_id x" "ord_snapshotAmount (toPending x) = ord_snapshotAmount x"
  by (simp_all add: extendWindow_def toPending_def)

lemma ok_chooseAcademyMethod:
  assumes ok: "commerce_ok s" and x: "x \<in> set (cs_orders s)"
    and no_review: "\<not> list_ex (\<lambda>p. cp_reviewStatus p = rv_pending) (openPayments s (ord_id x))"
  shows "commerce_ok (fst (chooseAcademyMethod now u x m (openPayments s (ord_id x)) s))"
proof -
  define reusable where "reusable = find (\<lambda>p. cp_reviewStatus p = rv_not_required \<and> sameDetails m p)
      (openPayments s (ord_id x))"
  define s1 where "s1 = updateOrder (ord_id x)
      (extendWindow (now + ACADEMY_MANUAL_PAYMENT_WINDOW_HOURS * 3600000) \<circ> toPending)
      (cancelPayments (toCancel reusable (openPayments s (ord_id x))) s)"
  have "commerce_ok (cancelPayments (toCancel reusable (openPayments s (ord_id x))) s)"
    unfolding toCancel_def
    using no_review by (intro ok_cancel [OF ok, of _ "ord_id x"]) (auto simp: list_ex_iff)
  then have s1: "commerce_ok s1"
    unfolding s1_def by (rule ok_orders) (auto simp: settled_pending)
  have "cs_orders s1 = map (\<lambda>y. if ord_id y = ord_id x
      then (extendWindow (now + ACADEMY_MANUAL_PAYMENT_WINDOW_HOURS * 3600000) \<circ> toPending) y else y) (cs_orders s)"
    by (simp add: s1_def updateOrder_def cancelPayments_def)
  then have "extendWindow (now + ACADEMY_MANUAL_PAYMENT_WINDOW_HOURS * 3600000) (toPending x) \<in> set (cs_orders s1)"
    using x by (auto simp: image_iff intro!: bexI [of _ x])
  then have "commerce_ok (insertPayment (academyPayment (cs_nextId s1) u x m) s1)"
    by (rule ok_new_payment [OF s1]) (simp_all add: academyPayment_def newPayment_def succeeded_def)
  moreover have "chooseAcademyMethod now u x m (openPayments s (ord_id x)) s =
      (case reusable of Some p \<Rightarrow> (s1, cp_id p)
       | None \<Rightarrow> (insertPayment (academyPayment (cs_nextId s1) u x m) s1, cs_nextId s1))"
    by (simp only: chooseAcademyMethod_def Let_def reusable_def s1_def)
  ultimately show ?thesis using s1 by (simp split: option.split)
qed

lemma ok_createAcademyManualPayment:
  assumes ok: "commerce_ok s" and run: "createAcademyManualPayment now u i ms k s = Inr (s', r)"
  shows "commerce_ok s'"
proof -
  from run obtain x m where x: "findByIdForStudent s u i = Some x"
    and "\<not> list_ex (\<lambda>p. cp_reviewStatus p = rv_pending) (openPayments s (ord_id x))"
    and "chooseAcademyMethod now u x m (openPayments s (ord_id x)) s = (s', r)"
    by (auto simp: createAcademyManualPayment_def split: option.splits if_splits)
  then show ?thesis
    using ok_chooseAcademyMethod [OF ok] student_order [OF x] by (metis fst_conv)
qed

lemma ok_createPaymentInTransaction:
  assumes ok: "commerce_ok s" and run: "createPaymentInTransaction env now u i k s = Inr (s', r)"
  shows "commerce_ok s'"
proof -
  from run obtain x where x: "findByIdForStudent s u i = Some x"
    by (auto simp: createPaymentInTransaction_def split: option.splits)
  then have xo: "x \<in> set (cs_orders s)" by (simp add: student_order)
  show ?thesis
  proof (cases "ce_academyMethods env (ord_academyId x) = []")
    case False
    then have "createAcademyManualPayment now u (ord_id x) (ce_academyMethods env (ord_academyId x)) k s = Inr (s', r)"
      using run x by (auto simp: createPaymentInTransaction_def split: if_splits)
    then show ?thesis by (rule ok_createAcademyManualPayment [OF ok])
  next
    case True
    then obtain m prov com where c: "collectionFor env x m = Inr (prov, com)"
      and s': "s' = updateOrder (ord_id x) toPending (insertPayment
            (atlasPayment (cs_nextId s) u x m (ce_collectionMode env (ord_organizationId x)) prov com) s)"
      using run x by (auto simp: createPaymentInTransaction_def Let_def split: option.splits if_splits sum.splits)
    have prov: "prov = ATLAS_MANUAL_PROVIDER_KEY"
      using c by (auto simp: collectionFor_def tryResolve_def split: collection_mode.splits if_splits
          commission_resolution.splits option.splits)
    have "commerce_ok (insertPayment
            (atlasPayment (cs_nextId s) u x m (ce_collectionMode env (ord_organizationId x)) prov com) s)"
      by (rule ok_new_payment [OF ok xo])
        (simp_all add: atlasPayment_def newPayment_def succeeded_def prov ATLAS_MANUAL_PROVIDER_KEY_def
          ACADEMY_MANUAL_PROVIDER_KEY_def)
    then show ?thesis unfolding s' by (rule ok_orders) (auto simp: settled_pending)
  qed
qed

lemma ok_finishExpiry: "commerce_ok s \<Longrightarrow> commerce_ok (finishExpiry u i b s)"
proof -
  assume ok: "commerce_ok s"
  have "commerce_ok (updateOrder i (\<lambda>x. if List.member [ord_expired, ord_paid, ord_refunded] (ord_status x)
      then x else x\<lparr>ord_status := ord_expired\<rparr>) s)"
    by (rule ok_orders [OF ok]) (auto simp: settled_def)
  moreover have "s\<lparr>cs_orders := fst (updateMany
        (\<lambda>x. ord_id x = i \<and> \<not> List.member [ord_expired, ord_paid, ord_refunded] (ord_status x))
        (\<lambda>x. x\<lparr>ord_status := ord_expired\<rparr>) (cs_orders s))\<rparr>
      = updateOrder i (\<lambda>x. if List.member [ord_expired, ord_paid, ord_refunded] (ord_status x)
      then x else x\<lparr>ord_status := ord_expired\<rparr>) s"
    by (simp add: updateMany_def updateOrder_def)
  ultimately show ?thesis using ok by (simp add: finishExpiry_def case_prod_beta)
qed

lemma ok_createPayment: "commerce_ok s \<Longrightarrow> commerce_ok (fst (createPayment env now u i k s))"
  by (auto simp: createPayment_def ok_finishExpiry ok_createPaymentInTransaction
      split: sum.split payment_refusal.split)

lemma ok_submitProof: "commerce_ok s \<Longrightarrow> commerce_ok (committed s (submitProof env u i pid kind s))"
proof -
  assume ok: "commerce_ok s"
  let ?s1 = "s\<lparr>cs_proofs := cs_proofs s @ [(cs_nextId s, pid)], cs_nextId := Suc (cs_nextId s)\<rparr>"
  let ?f = "\<lambda>q. q\<lparr>cp_reviewStatus := rv_pending, cp_nextAction := Some awaiting_manual_review\<rparr>"
  have s1: "commerce_ok ?s1" by (rule same_money_ok [OF _ ok]) (simp add: same_money_def)
  have "commerce_ok (updatePayment pid ?f ?s1)" if p: "findPayment s pid = Some p" "nonTerminal p" for p
  proof (rule ok_updatePayment [OF s1])
    fix q assume "q \<in> set (cs_payments ?s1)" "cp_id q = pid"
    then have "q = p" using unique_payment [OF ok p(1)] by simp
    then show "quiet_rows ?f [q]"
      using p(2) by (simp add: quiet_rows_def netOf_def chargedCommission_def succeeded_def nonTerminal_def)
  qed
  then have "commerce_ok (notifyOwners os (cs_nextId s) (audit a w pid (emit k v n (updatePayment pid ?f ?s1))))
      \<and> commerce_ok (emit k v n (updatePayment pid ?f ?s1))"
    if "findPayment s pid = Some p" "nonTerminal p" for p os a w k v n
    using that by (auto intro: same_money_ok [OF same_money_notify])
  with ok show ?thesis
    by (auto simp: submitProof_def committed_def Let_def nonTerminal_def split: option.split)
qed

lemma ok_decide_review:
  "commerce_ok s \<Longrightarrow> d \<noteq> rv_pending \<Longrightarrow>
     commerce_ok (updatePayment i (decide d notes) (recordReview i d r s))"
  by (intro ok_updatePayment) (auto simp: quiet_decide)

lemma find_decided:
  "findPayment (updatePayment i (decide d notes) s) i = map_option (decide d notes) (findPayment s i)"
proof -
  have "find_by cp_id i (map (\<lambda>p. if cp_id p = i then decide d notes p else p) t)
      = map_option (decide d notes) (find_by cp_id i t)" for t
    by (induction t) (auto simp: decide_def)
  then show ?thesis by (simp add: findPayment_def updatePayment_def)
qed

lemma find_order_frames [simp]:
  "findOrder (updatePayment i f s) k = findOrder s k" "findOrder (recordReview p d r s) k = findOrder s k"
  "findPayment (recordReview p d r s) k = findPayment s k"
  by (simp_all add: findOrder_def updatePayment_def recordReview_def findPayment_def)

lemma decide_simps [simp]:
  "cp_id (decide d n p) = cp_id p" "cp_courseOrderId (decide d n p) = cp_courseOrderId p"
  "cp_provider (decide d n p) = cp_provider p" "cp_reviewStatus (decide d n p) = d"
  "succeeded (decide d n p) = succeeded p" "cp_status (decide d n p) = cp_status p"
  by (simp_all add: decide_def succeeded_def)

lemma reviewable:
  assumes "loadReviewablePaymentAndOrder env r pid s = Inr x"
  obtains p where "findPayment s pid = Some p" "cp_courseOrderId p = Some (ord_id x)"
    "cp_provider p \<noteq> ACADEMY_MANUAL_PROVIDER_KEY" "findOrder s (ord_id x) = Some x"
    "cp_reviewStatus p = rv_pending"
proof -
  from assms obtain p i where "findPayment s pid = Some p" "cp_courseOrderId p = Some i"
    "cp_provider p \<noteq> ACADEMY_MANUAL_PROVIDER_KEY" "findOrder s i = Some x" "cp_reviewStatus p = rv_pending"
    by (auto simp: loadReviewablePaymentAndOrder_def split: option.splits if_splits)
  moreover from this have "ord_id x = i" by (auto simp: findOrder_def dest: find_by_Some)
  ultimately show thesis using that by blast
qed

lemma ok_approvePayment: "commerce_ok s \<Longrightarrow> commerce_ok (committed s (approvePayment env now r pid n s))"
proof (cases "loadReviewablePaymentAndOrder env r pid s")
  case (Inr x)
  assume ok: "commerce_ok s"
  from Inr obtain p where p: "findPayment s pid = Some p" "cp_courseOrderId p = Some (ord_id x)"
    "cp_provider p \<noteq> ACADEMY_MANUAL_PROVIDER_KEY" "findOrder s (ord_id x) = Some x"
    "cp_reviewStatus p = rv_pending" by (rule reviewable)
  let ?s1 = "updatePayment pid (decide rv_approved n) (recordReview pid rv_approved r s)"
  have "commerce_ok (applySuccessfulCoursePayment env now (decide rv_approved n p) x ?s1)"
    by (rule ok_success [where i = pid and k = "ord_id x"])
      (use ok p pending_nonTerminal [OF ok p(1)] in \<open>auto simp: ok_decide_review find_decided nonTerminal_open\<close>)
  then show ?thesis
    using ok p Inr by (simp add: approvePayment_def committed_def Let_def find_decided)
qed (simp add: approvePayment_def committed_def)

lemma ok_rejectPayment: "commerce_ok s \<Longrightarrow> commerce_ok (committed s (rejectPayment env r pid n s))"
proof (cases "loadReviewablePaymentAndOrder env r pid s")
  case (Inr x)
  assume ok: "commerce_ok s"
  from Inr obtain p where p: "findPayment s pid = Some p" "cp_reviewStatus p = rv_pending" by (rule reviewable)
  let ?s1 = "updatePayment pid (decide rv_rejected n) (recordReview pid rv_rejected r s)"
  have "commerce_ok (applyFailedCoursePayment p m ?s1)" for m
    by (rule ok_failed [where i = pid and q = "decide rv_rejected n p"])
      (use ok p pending_nonTerminal [OF ok p(1)] found_payment [OF p(1)] in
        \<open>auto simp: ok_decide_review find_decided nonTerminal_open\<close>)
  then show ?thesis
    using ok p Inr by (simp add: rejectPayment_def committed_def Let_def)
qed (simp add: rejectPayment_def committed_def)

interpretation claim_approved: guarded_write cp_id "\<lambda>p. cp_reviewStatus p = rv_pending" "decide rv_approved nts"
  for nts by unfold_locales simp_all

interpretation claim_rejected: guarded_write cp_id "\<lambda>p. cp_reviewStatus p = rv_pending" "decide rv_rejected nts"
  for nts by unfold_locales simp_all

lemma claim_wins:
  assumes "commerce_ok s" "findPayment s i = Some p" "cp_reviewStatus p = rv_pending"
  shows "claimPendingReview i rv_approved n s = (updatePayment i (decide rv_approved n) s, True)"
    and "claimPendingReview i rv_rejected n s = (updatePayment i (decide rv_rejected n) s, True)"
proof -
  have "distinct (map cp_id (cs_payments s))" "p \<in> set (cs_payments s)" "cp_id p = i"
    using assms found_payment by (auto simp: commerce_ok_def keys_ok_def paymentIds_def)
  then show "claimPendingReview i rv_approved n s = (updatePayment i (decide rv_approved n) s, True)"
    and "claimPendingReview i rv_rejected n s = (updatePayment i (decide rv_rejected n) s, True)"
    using assms(3) claim_approved.write_row [of "cs_payments s" p n] claim_rejected.write_row [of "cs_payments s" p n]
    by (simp_all add: claimPendingReview_def updatePayment_def)
qed

lemma academy_reviewable:
  assumes "loadReviewable a pid s = Inr (p, i)" "findAcademyOrder a i s = Inr x"
  shows "findPayment s pid = Some p" "cp_provider p = ACADEMY_MANUAL_PROVIDER_KEY"
    "cp_courseOrderId p = Some (ord_id x)" "cp_reviewStatus p = rv_pending" "findOrder s (ord_id x) = Some x"
  using assms
  by (auto simp: loadReviewable_def findAcademyOrder_def findOrder_def split: option.splits if_splits
      dest: find_by_Some)

lemma recordReview_update: "recordReview i d r (updatePayment j f s) = updatePayment j f (recordReview i d r s)"
  by (simp add: recordReview_def updatePayment_def)

lemma ok_academyApprove: "commerce_ok s \<Longrightarrow> commerce_ok (committed s (academyApprove env now cx r a pid n s))"
proof (cases "loadReviewable a pid s")
  case (Inr b)
  assume ok: "commerce_ok s"
  obtain p i where b: "b = (p, i)" by (cases b)
  show ?thesis
  proof (cases "findAcademyOrder a i s")
    case (Inr x)
    note p = academy_reviewable [OF \<open>loadReviewable a pid s = Inr b\<close> [unfolded b] Inr]
    let ?s1 = "updatePayment pid (decide rv_approved n) (recordReview pid rv_approved r s)"
    have "commerce_ok (applySuccessfulCoursePayment env now (decide rv_approved n p) x ?s1)" if "\<not> orderClosed x"
      by (rule ok_success [where i = pid and k = "ord_id x"])
        (use ok p that pending_nonTerminal [OF ok p(1)] in
          \<open>auto simp: ok_decide_review find_decided nonTerminal_open settled_def orderClosed_def\<close>)
    then show ?thesis
      using ok p b Inr \<open>loadReviewable a pid s = Inr b\<close> claim_wins(1) [OF ok p(1,4)]
      by (simp add: academyApprove_def committed_def Let_def assertCanViewAcademyFinance_def
          recordReview_update find_decided)
  qed (use ok b \<open>loadReviewable a pid s = Inr b\<close> in \<open>simp add: academyApprove_def committed_def
      assertCanViewAcademyFinance_def\<close>)
qed (simp add: academyApprove_def committed_def assertCanViewAcademyFinance_def)

lemma ok_academyReject: "commerce_ok s \<Longrightarrow> commerce_ok (committed s (academyReject now cx r a pid n s))"
proof (cases "loadReviewable a pid s")
  case (Inr b)
  assume ok: "commerce_ok s"
  obtain p i where b: "b = (p, i)" by (cases b)
  show ?thesis
  proof (cases "findAcademyOrder a i s")
    case (Inr x)
    note p = academy_reviewable [OF \<open>loadReviewable a pid s = Inr b\<close> [unfolded b] Inr]
    let ?s1 = "updatePayment pid (decide rv_rejected n) (recordReview pid rv_rejected r s)"
    have f: "commerce_ok (applyFailedCoursePayment p m ?s1)" for m
      by (rule ok_failed [where i = pid and q = "decide rv_rejected n p"])
        (use ok p pending_nonTerminal [OF ok p(1)] found_payment [OF p(1)] in
          \<open>auto simp: ok_decide_review find_decided nonTerminal_open\<close>)
    then have "commerce_ok (updateOrder (ord_id x) (extendWindow w) (applyFailedCoursePayment p m ?s1))" for w m
      by (rule ok_orders) simp_all
    with f show ?thesis
      using ok p b Inr \<open>loadReviewable a pid s = Inr b\<close> claim_wins(2) [OF ok p(1,4)]
      by (simp add: academyReject_def committed_def Let_def assertCanViewAcademyFinance_def recordReview_update)
  qed (use ok b \<open>loadReviewable a pid s = Inr b\<close> in \<open>simp add: academyReject_def committed_def
      assertCanViewAcademyFinance_def\<close>)
qed (simp add: academyReject_def committed_def assertCanViewAcademyFinance_def)

lemma find_found: "find P xs = Some p \<Longrightarrow> p \<in> set xs \<and> P p"
  by (induction xs) (auto split: if_splits)

lemma succeeded_of_order:
  assumes "findSucceededForCourseOrder s k = Some p"
  shows "p \<in> set (cs_payments s)" "cp_courseOrderId p = Some k" "succeeded p"
  using find_found [OF assms [unfolded findSucceededForCourseOrder_def]] by (simp_all add: succeeded_def)

lemma findPayment_self:
  "commerce_ok s \<Longrightarrow> p \<in> set (cs_payments s) \<Longrightarrow> findPayment s (cp_id p) = Some p"
  by (simp add: findPayment_def commerce_ok_def keys_ok_def paymentIds_def find_by_distinct)

lemma ok_requestRefund: "commerce_ok s \<Longrightarrow> commerce_ok (committed s (requestRefund now u i key s))"
proof (cases "requestRefund now u i key s")
  case (Inr b)
  assume ok: "commerce_ok s"
  obtain s' r where b: "b = (s', r)" by (cases b)
  from Inr b consider "s' = s"
    | x p where "findByIdForStudent s u i = Some x" "findByCourseOrderId s (ord_id x) = None"
      "findSucceededForCourseOrder s (ord_id x) = Some p"
      "s' = audit ''course_order.refund_recorded'' u (ord_id x) (emit ''course.order.refunded'' u (ord_id x)
         (if cp_collectionMode p = mode_atlas_payments
          then insertRefundLedgerEntries now p x (updateEnrollment u (ord_courseId x) (revokeForRefund now)
             (markRefunded (ord_id x) (cp_id p) (ord_snapshotAmount x) (ord_snapshotCurrency x) u (ClientKey key) now s))
          else updateEnrollment u (ord_courseId x) (revokeForRefund now)
             (markRefunded (ord_id x) (cp_id p) (ord_snapshotAmount x) (ord_snapshotCurrency x) u (ClientKey key) now s)))"
    by (auto simp: requestRefund_def Let_def markRefunded_def simp del: find_by_None
        split: option.splits if_splits)
  then have "commerce_ok s'"
  proof cases
    case 1
    then show ?thesis using ok by simp
  next
    case 2
    note p = succeeded_of_order [OF 2(3)]
    have fp: "findPayment s (cp_id p) = Some p" by (rule findPayment_self [OF ok p(1)])
    have "cp_amountMinorUnits p = ord_snapshotAmount x"
      using payment_amount [OF ok fp p(2)] student_order [OF 2(1)] by simp
    from ok_refund [OF ok fp 2(2) this same_money_updateEnrollment] show ?thesis
      unfolding 2(4) by (intro ok_audit ok_emit)
  qed
  then show ?thesis using Inr b by (simp add: committed_def)
qed (simp add: committed_def)

lemma ok_recordRefund: "commerce_ok s \<Longrightarrow> commerce_ok (committed s (recordRefund now cx w a pid s))"
proof (cases "recordRefund now cx w a pid s")
  case (Inr b)
  assume ok: "commerce_ok s"
  obtain s' r where b: "b = (s', r)" by (cases b)
  from Inr b obtain p x k t where p: "findPayment s pid = Some p" "cp_courseOrderId p = Some k"
    "cp_provider p = ACADEMY_MANUAL_PROVIDER_KEY" "findAcademyOrder a k s = Inr x"
    "findByCourseOrderId s (ord_id x) = None"
    and t: "t = markRefunded (ord_id x) (cp_id p) (cp_amountMinorUnits p) (cp_currency p) w (AcademyRefundKey (ord_id x)) now s"
    and s': "same_money t s'"
    by (auto simp: recordRefund_def Let_def markRefunded_def simp del: find_by_None
        split: option.splits if_splits sum.splits
        intro!: same_money_trans [OF same_money_audit same_money_emit]
          same_money_trans [OF same_money_updateEnrollment same_money_trans [OF same_money_audit same_money_emit]])
  have x: "x \<in> set (cs_orders s)" "ord_id x = k"
    using p(4) findOrder_row [OF ok] by (auto simp: findAcademyOrder_def split: option.splits if_splits)
  have fp: "findPayment s (cp_id p) = Some p" using p(1) found_payment [OF p(1)] by simp
  have manual: "cp_collectionMode p \<noteq> mode_atlas_payments"
    using ok p(1,3) found_payment [OF p(1)] by (simp add: commerce_ok_def payments_ok_def)
  have "cp_amountMinorUnits p = ord_snapshotAmount x"
    using payment_amount [OF ok p(1)] p(2) x by simp
  from ok_refund [OF ok fp p(5) this, of "cp_amountMinorUnits p" "cp_currency p" w "AcademyRefundKey (ord_id x)" now s']
  have "commerce_ok s'" using s' manual by (simp add: t)
  then show ?thesis using Inr b by (simp add: committed_def)
qed (simp add: committed_def)

lemma same_money_settle: "same_money (fst acc) (fst (settleCurrency u a b e es c acc))"
  by (simp add: settleCurrency_def case_prod_beta Let_def same_money_def audit_def)

lemma same_money_settleAll: "same_money (fst acc) (fst (fold (settleCurrency u a b e es) cs acc))"
proof (induction cs arbitrary: acc)
  case (Cons c cs)
  show ?case using same_money_trans [OF same_money_settle Cons.IH] by simp
qed simp

lemma ok_settleAll: "commerce_ok s \<Longrightarrow> commerce_ok (fst (fold (settleCurrency u a b e es) cs (s, r)))"
  by (rule same_money_ok [OF same_money_settleAll [of "(s, r)", simplified]])

lemma ok_createPayout: "commerce_ok s \<Longrightarrow> commerce_ok (committed s (createPayout env u a b e s))"
  by (simp add: createPayout_def committed_def Let_def case_prod_beta ok_settleAll split: option.split)

lemma same_money_markPaid: "same_money s (committed s (markPaid now u i ref s))"
  by (simp add: markPaid_def committed_def same_money_def audit_def split: option.split)

lemma ok_otherWrites: "commerce_ok s \<Longrightarrow> commerce_ok (s\<lparr>cs_enrollments := es, cs_students := ms\<rparr>)"
  by (erule same_money_ok [rotated]) (simp add: same_money_def)

lemma ok_handle: "commerce_ok s \<Longrightarrow> commerce_ok (handle env now r s)"
  by (cases r)
    (simp_all add: ok_createOrder ok_createPayment ok_submitProof ok_approvePayment ok_rejectPayment
      ok_academyApprove ok_academyReject ok_requestRefund ok_recordRefund ok_createPayout ok_otherWrites
      same_money_ok [OF same_money_markPaid])

lemma ok_empty: "commerce_ok emptyCommerce"
  by (simp add: emptyCommerce_def commerce_ok_defs orderIds_def paymentIds_def money_defs sumAmounts_def)

lemma ok_history: "commerce_ok (commerceHistory rs)"
proof -
  have "commerce_ok (fold (\<lambda>(env, now, r). handle env now r) rs s)" if "commerce_ok s" for s
    using that by (induction rs arbitrary: s) (auto simp: ok_handle)
  then show ?thesis by (simp add: commerceHistory_def ok_empty)
qed

subsection \<open>Properties\<close>

text \<open>
  C21. Whatever requests are made, in whatever order, an order is never paid twice through the
  academy's own review: at most one of its academy payments succeeds.
\<close>

theorem academy_order_paid_once: "length (academyPaid (commerceHistory rs) i) \<le> 1"
  using ok_history [of rs] by (simp add: commerce_ok_def paid_once_ok_def)

text \<open>
  C22. After any history of requests, the ledger entries of an order add up to what its successful
  Atlas-collected payments brought, commission deducted, less the same for the payment refunded.
\<close>

theorem ledger_follows_payments:
  "ledgerBalance (commerceHistory rs) i = paidNet (commerceHistory rs) i - refundedNet (commerceHistory rs) i"
  using ok_history [of rs] by (simp add: commerce_ok_def ledger_ok_def)

end
