(* ===== verification/Payout_Settlement.thy ===== *)
theory Payout_Settlement
  imports Commerce_Histories "HOL-Library.Multiset"
begin

text \<open>
  Payouts over any history: every ledger entry is settled by at most one payout, and a payout pays
  exactly what its entries add up to.
\<close>

subsection \<open>The invariant\<close>

definition payoutTotal :: "commerce_state \<Rightarrow> row_id \<Rightarrow> int" where
  "payoutTotal s i = sumAmounts (filter (\<lambda>e. List.member (cs_payoutItems s) (i, le_id e)) (cs_ledger s))"

definition entryIds :: "commerce_state \<Rightarrow> row_id list" where
  "entryIds s = map le_id (cs_ledger s)"

definition payoutIds :: "commerce_state \<Rightarrow> row_id list" where
  "payoutIds s = map po_id (cs_payouts s)"

definition payouts_ok :: "commerce_state \<Rightarrow> bool" where
  "payouts_ok s \<longleftrightarrow>
     distinct (entryIds s) \<and> (\<forall>i\<in>set (entryIds s). i < cs_nextId s)
     \<and> distinct (payoutIds s) \<and> (\<forall>i\<in>set (payoutIds s). i < cs_nextId s)
     \<and> distinct (map snd (cs_payoutItems s))
     \<and> fst ` set (cs_payoutItems s) \<subseteq> set (payoutIds s)
     \<and> snd ` set (cs_payoutItems s) \<subseteq> set (entryIds s)
     \<and> (\<forall>q\<in>set (cs_payouts s). 0 < po_amountMinorUnits q \<and> po_amountMinorUnits q = payoutTotal s (po_id q))"

lemma payouts_empty: "payouts_ok emptyCommerce"
  by (simp add: payouts_ok_def emptyCommerce_def entryIds_def payoutIds_def)

subsection \<open>Steps that only add entries\<close>

definition appends :: "commerce_state \<Rightarrow> commerce_state \<Rightarrow> bool" where
  "appends s s' \<longleftrightarrow>
     cs_payouts s' = cs_payouts s \<and> cs_payoutItems s' = cs_payoutItems s \<and> cs_nextId s \<le> cs_nextId s'
     \<and> (\<exists>new. cs_ledger s' = cs_ledger s @ new \<and> distinct (map le_id new)
            \<and> (\<forall>e\<in>set new. cs_nextId s \<le> le_id e \<and> le_id e < cs_nextId s'))"

lemma appends_still:
  assumes "cs_payouts s' = cs_payouts s" "cs_payoutItems s' = cs_payoutItems s"
    "cs_ledger s' = cs_ledger s" "cs_nextId s \<le> cs_nextId s'"
  shows "appends s s'"
  using assms by (simp add: appends_def)

lemma appends_refl [simp]: "appends s s"
  by (rule appends_still) simp_all

lemma appends_trans:
  assumes "appends s t" "appends t u"
  shows "appends s u"
proof -
  from assms obtain xs ys where
    xs: "cs_ledger t = cs_ledger s @ xs" "distinct (map le_id xs)"
      "\<forall>e\<in>set xs. cs_nextId s \<le> le_id e \<and> le_id e < cs_nextId t" and
    ys: "cs_ledger u = cs_ledger t @ ys" "distinct (map le_id ys)"
      "\<forall>e\<in>set ys. cs_nextId t \<le> le_id e \<and> le_id e < cs_nextId u"
    unfolding appends_def by blast
  have le: "cs_nextId s \<le> cs_nextId t" "cs_nextId t \<le> cs_nextId u"
    using assms by (simp_all add: appends_def)
  have "cs_ledger u = cs_ledger s @ (xs @ ys)" using xs(1) ys(1) by simp
  moreover have "distinct (map le_id (xs @ ys))"
    using xs ys by (auto simp: disjoint_iff) (metis not_less)
  moreover have "\<forall>e\<in>set (xs @ ys). cs_nextId s \<le> le_id e \<and> le_id e < cs_nextId u"
    using xs(3) ys(3) le by fastforce
  ultimately show ?thesis using assms unfolding appends_def by (metis le_trans)
qed

lemma appends_ok:
  assumes a: "appends s s'" and ok: "payouts_ok s"
  shows "payouts_ok s'"
proof -
  obtain new where new: "cs_ledger s' = cs_ledger s @ new" "distinct (map le_id new)"
    "\<forall>e\<in>set new. cs_nextId s \<le> le_id e \<and> le_id e < cs_nextId s'"
    using a unfolding appends_def by blast
  have same: "cs_payouts s' = cs_payouts s" "cs_payoutItems s' = cs_payoutItems s" "cs_nextId s \<le> cs_nextId s'"
    using a by (simp_all add: appends_def)
  have fresh: "le_id e \<notin> set (entryIds s)" if "e \<in> set new" for e
    using that new(3) ok by (force simp: payouts_ok_def not_less [symmetric])
  have ids: "entryIds s' = entryIds s @ map le_id new" "payoutIds s' = payoutIds s"
    by (simp_all add: entryIds_def payoutIds_def new same)
  have "(i, le_id e) \<notin> set (cs_payoutItems s)" if "e \<in> set new" for i e
    using fresh [OF that] ok by (force simp: payouts_ok_def)
  then have "payoutTotal s' i = payoutTotal s i" for i
    by (simp add: payoutTotal_def new same filter_empty_conv)
  then show ?thesis
    using ok fresh new(2,3) same(3)
    by (auto simp: payouts_ok_def ids same(1,2) less_le_trans)
qed

named_theorems append_steps \<open>operations that only add ledger entries\<close>

lemma appends_simple [append_steps]:
  "appends t (emit key r e t)" "appends t (audit a u i t)" "appends t (recordReview i d u t)"
  "appends t (updateOrder k f t)" "appends t (updatePayment k g t)" "appends t (updateEnrollment u c h t)"
  "appends t (insertPayment p t)" "appends t (cancelPayments ids t)" "appends t (insertRefund k pid n cur u rkey now t)"
  "appends t (applyFailedCoursePayment p m t)"
  by (rule appends_still; simp add: emit_def audit_def recordReview_def updateOrder_def updatePayment_def
      updateEnrollment_def insertPayment_def cancelPayments_def insertRefund_def applyFailedCoursePayment_def)+

lemma appends_entry [append_steps]: "appends t (addEntry a k p ty n c w t)"
  by (simp add: appends_def addEntry_def)

lemma appends_sale [append_steps]: "appends t (insertSaleLedgerEntries now p x t)"
  and appends_refund [append_steps]: "appends t (insertRefundLedgerEntries now p x t)"
  by (auto simp: insertSaleLedgerEntries_def insertRefundLedgerEntries_def Let_def
      intro: appends_entry appends_trans [OF appends_entry appends_entry])

lemma appends_grant [append_steps]: "appends t (grantCourse env now x t)"
  by (rule appends_still)
    (auto simp: grantCourse_def createEnrollmentInTransaction_def admitPurchaser_def Let_def
      updateEnrollment_def audit_def split: option.splits)

lemma appends_notify [append_steps]: "appends t (notifyOwners os i t)"
  unfolding notifyOwners_def
proof (induction os arbitrary: t)
  case (Cons r os)
  show ?case using appends_trans [OF appends_simple(1) Cons.IH] by simp
qed simp

lemma appends_claim [append_steps]: "appends t (fst (claimPendingReview i d n t))"
  by (rule appends_still) (simp_all add: claimPendingReview_def case_prod_beta)

lemmas appends_after = append_steps [THEN appends_trans [rotated]]

lemma appends_apply [append_steps]: "appends t (applySuccessfulCoursePayment env now p x t)"
  by (auto simp: applySuccessfulCoursePayment_def Let_def intro!: appends_after)

lemma appends_newOrder [append_steps]:
  "appends t (t\<lparr>cs_orders := os, cs_nextId := Suc (cs_nextId t)\<rparr>)"
  and appends_proof [append_steps]:
  "appends t (t\<lparr>cs_proofs := ps, cs_nextId := Suc (cs_nextId t)\<rparr>)"
  and appends_orders [append_steps]: "appends t (t\<lparr>cs_orders := os\<rparr>)"
  and appends_others [append_steps]: "appends t (t\<lparr>cs_enrollments := es, cs_students := ms\<rparr>)"
  by (rule appends_still; simp)+

lemma appends_createOrder: "appends s (committed s (createOrder env now u c k s))"
  by (auto simp: createOrder_def startOrder_def committed_def Let_def
      intro!: append_steps appends_after split: option.split sum.split)

lemma appends_chooseAcademyMethod [append_steps]: "appends s (fst (chooseAcademyMethod now u x m os s))"
  by (auto simp: chooseAcademyMethod_def Let_def
      intro!: append_steps appends_after split: option.split)

lemma appends_createPayment: "appends s (fst (createPayment env now u i k s))"
proof -
  have "appends s s'" if "createPaymentInTransaction env now u i k s = Inr (s', r)" for s' r
    using that appends_chooseAcademyMethod
    by (auto simp: createPaymentInTransaction_def createAcademyManualPayment_def Let_def
        intro!: append_steps appends_after split: option.splits if_splits sum.splits)
      (metis fst_conv)+
  moreover have "appends s (finishExpiry u j b s)" for j b
    by (auto simp: finishExpiry_def case_prod_beta intro!: append_steps appends_after)
  ultimately show ?thesis
    by (auto simp: createPayment_def split: sum.split payment_refusal.split)
qed

lemma appends_submitProof: "appends s (committed s (submitProof env u i p k s))"
  by (auto simp: submitProof_def committed_def Let_def intro!: append_steps appends_after
      split: option.split)

lemmas appends_applied = appends_apply [THEN appends_trans [rotated]]

lemma appends_approvePayment: "appends s (committed s (approvePayment env now r p n s))"
  by (auto simp: approvePayment_def committed_def Let_def intro!: append_steps appends_after appends_applied
      split: option.split sum.split)

lemma appends_rejectPayment: "appends s (committed s (rejectPayment env r p n s))"
  by (auto simp: rejectPayment_def committed_def Let_def intro!: append_steps appends_after
      split: option.split sum.split)

lemma appends_academyApprove: "appends s (committed s (academyApprove env now x r a p n s))"
  by (auto simp: academyApprove_def committed_def Let_def case_prod_beta intro!: append_steps appends_after appends_applied
      split: option.split sum.split)

lemma appends_academyReject: "appends s (committed s (academyReject now x r a p n s))"
  by (auto simp: academyReject_def committed_def Let_def case_prod_beta intro!: append_steps appends_after
      split: option.split sum.split)

lemma appends_requestRefund: "appends s (committed s (requestRefund now u i k s))"
  by (auto simp: requestRefund_def committed_def Let_def intro!: append_steps appends_after
      simp del: find_by_None split: option.split)

lemma appends_recordRefund: "appends s (committed s (recordRefund now x w a p s))"
  by (auto simp: recordRefund_def committed_def Let_def intro!: append_steps appends_after
      simp del: find_by_None split: option.split sum.split)

subsection \<open>Settling\<close>

lemma distinct_currencies: "distinct (currenciesOf es)"
  by (simp add: currenciesOf_def)

lemma mset_sumAmounts: "mset xs = mset ys \<Longrightarrow> sumAmounts xs = sumAmounts ys"
  unfolding sumAmounts_def by (metis mset_map sum_mset_sum_list)

text \<open>The entries a run may settle: distinct, from the ledger, and not settled before.\<close>

definition settleable :: "commerce_state \<Rightarrow> ledger_entry list \<Rightarrow> bool" where
  "settleable s es \<longleftrightarrow>
     distinct (map le_id es) \<and> set es \<subseteq> set (cs_ledger s)
     \<and> (\<forall>e\<in>set es. le_id e \<notin> snd ` set (cs_payoutItems s))"

lemma settleable_total:
  assumes ok: "payouts_ok s" and es: "settleable s es"
  shows "sumAmounts (filter (\<lambda>e. le_id e \<in> le_id ` set es) (cs_ledger s)) = sumAmounts es"
proof (rule mset_sumAmounts)
  have dl: "distinct (map le_id (cs_ledger s))"
    using ok by (simp add: payouts_ok_def entryIds_def)
  have "set (filter (\<lambda>e. le_id e \<in> le_id ` set es) (cs_ledger s)) = set es"
    using es dl by (auto simp: settleable_def dest: distinct_keys_unique)
  moreover have "distinct (filter (\<lambda>e. le_id e \<in> le_id ` set es) (cs_ledger s))" "distinct es"
    using dl es by (auto simp: settleable_def distinct_map)
  ultimately show "mset (filter (\<lambda>e. le_id e \<in> le_id ` set es) (cs_ledger s)) = mset es"
    by (metis set_eq_iff_mset_eq_distinct)
qed

lemma settle_ok:
  assumes ok: "payouts_ok s" and es: "settleable s (filter (\<lambda>e. le_currency e = c) es)"
  shows "payouts_ok (fst (settleCurrency u a b e es c (s, r)))"
proof -
  define xs where "xs = filter (\<lambda>e. le_currency e = c) es"
  note es = es [folded xs_def]
  let ?s = "fst (settleCurrency u a b e es c (s, r))"
  show ?thesis
  proof (cases "sumAmounts xs \<le> 0")
    case True
    then show ?thesis using ok by (simp add: settleCurrency_def flip: xs_def)
  next
    case False
    let ?i = "cs_nextId s"
    have items: "cs_payoutItems ?s = cs_payoutItems s @ map (\<lambda>e. (?i, le_id e)) xs"
      and rest: "cs_ledger ?s = cs_ledger s" "cs_nextId ?s = Suc ?i"
      and pays: "\<exists>po. cs_payouts ?s = cs_payouts s @ [po] \<and> po_id po = ?i \<and> po_amountMinorUnits po = sumAmounts xs"
      using False by (simp_all add: settleCurrency_def Let_def audit_def flip: xs_def)
    then obtain po where po: "cs_payouts ?s = cs_payouts s @ [po]" "po_id po = ?i" "po_amountMinorUnits po = sumAmounts xs"
      by blast
    have ids: "payoutIds ?s = payoutIds s @ [?i]" "entryIds ?s = entryIds s"
      by (simp_all add: payoutIds_def entryIds_def po rest)
    have fresh: "?i \<notin> set (payoutIds s)" using ok by (auto simp: payouts_ok_def)
    then have no_item: "(?i, x) \<notin> set (cs_payoutItems s)" for x
      using ok by (force simp: payouts_ok_def)
    have "payoutTotal ?s j = payoutTotal s j" if "j \<noteq> ?i" for j
      using that by (auto simp: payoutTotal_def items rest intro!: arg_cong [where f = sumAmounts] filter_cong)
    moreover have "payoutTotal ?s ?i = sumAmounts xs"
    proof -
      have "payoutTotal ?s ?i = sumAmounts (filter (\<lambda>e. le_id e \<in> le_id ` set xs) (cs_ledger s))"
        using no_item by (auto simp: payoutTotal_def items rest intro!: arg_cong [where f = sumAmounts] filter_cong)
      then show ?thesis using settleable_total [OF ok es] by simp
    qed
    moreover have "distinct (map snd (cs_payoutItems ?s))"
      using ok es by (auto simp: items payouts_ok_def settleable_def comp_def) (metis image_eqI snd_conv)
    moreover have "snd ` set (cs_payoutItems ?s) = snd ` set (cs_payoutItems s) \<union> le_id ` set xs"
      by (simp add: items image_Un image_image)
    then have "snd ` set (cs_payoutItems ?s) \<subseteq> set (entryIds ?s)"
      using ok es by (simp add: ids payouts_ok_def settleable_def entryIds_def image_mono rest)
    moreover have "fst ` set (cs_payoutItems ?s) \<subseteq> set (payoutIds ?s)"
      using ok by (auto simp: items ids payouts_ok_def)
    moreover have "j < Suc ?i" if "j \<in> set (payoutIds s) \<union> set (entryIds s)" for j
      using that ok by (auto simp: payouts_ok_def less_SucI)
    moreover have "distinct (payoutIds ?s)" "distinct (entryIds ?s)"
      using ok fresh by (auto simp: ids payouts_ok_def)
    moreover have "0 < payoutTotal s (po_id q) \<and> po_amountMinorUnits q = payoutTotal s (po_id q) \<and> po_id q \<noteq> ?i"
      if "q \<in> set (cs_payouts s)" for q
      using that ok fresh unfolding payouts_ok_def payoutIds_def by fastforce
    ultimately show ?thesis
      unfolding payouts_ok_def ids po rest using False po(2,3) by auto
  qed
qed

lemma settle_items:
  "cs_ledger (fst (settleCurrency u a b e es c (s, r))) = cs_ledger s"
  "set (cs_payoutItems (fst (settleCurrency u a b e es c (s, r))))
     \<subseteq> set (cs_payoutItems s) \<union> Pair (cs_nextId s) ` le_id ` set (filter (\<lambda>e. le_currency e = c) es)"
  by (auto simp: settleCurrency_def Let_def audit_def)

lemma settle_keeps:
  assumes ok: "payouts_ok s" and c: "c \<noteq> c'"
    and es: "settleable s (filter (\<lambda>e. le_currency e = c) es)" "settleable s (filter (\<lambda>e. le_currency e = c') es)"
  shows "settleable (fst (settleCurrency u a b e es c (s, r))) (filter (\<lambda>e. le_currency e = c') es)"
proof -
  have dl: "distinct (map le_id (cs_ledger s))"
    using ok by (simp add: payouts_ok_def entryIds_def)
  have "le_id x \<noteq> le_id y" if "x \<in> set es" "le_currency x = c'" "y \<in> set es" "le_currency y = c" for x y
  proof
    assume "le_id x = le_id y"
    moreover have "x \<in> set (cs_ledger s)" "y \<in> set (cs_ledger s)"
      using es that by (auto simp: settleable_def)
    ultimately have "x = y" using dl by (auto dest: distinct_keys_unique)
    then show False using that c by simp
  qed
  then have apart: "le_id ` set (filter (\<lambda>e. le_currency e = c') es) \<inter> le_id ` set (filter (\<lambda>e. le_currency e = c) es) = {}"
    by (auto simp: disjoint_iff)
  have "snd ` set (cs_payoutItems (fst (settleCurrency u a b e es c (s, r))))
      \<subseteq> snd ` (set (cs_payoutItems s) \<union> Pair (cs_nextId s) ` le_id ` set (filter (\<lambda>e. le_currency e = c) es))"
    by (rule image_mono [OF settle_items(2)])
  also have "\<dots> = snd ` set (cs_payoutItems s) \<union> le_id ` set (filter (\<lambda>e. le_currency e = c) es)"
    by (simp add: image_Un image_image)
  finally have "\<forall>x\<in>set (filter (\<lambda>e. le_currency e = c') es).
      le_id x \<notin> snd ` set (cs_payoutItems (fst (settleCurrency u a b e es c (s, r))))"
    using apart es(2) unfolding settleable_def by blast
  then show ?thesis using es(2) unfolding settleable_def settle_items(1) by blast
qed

lemma settleAll_ok:
  assumes "payouts_ok s" "distinct cs" "\<And>c. c \<in> set cs \<Longrightarrow> settleable s (filter (\<lambda>e. le_currency e = c) es)"
  shows "payouts_ok (fst (fold (settleCurrency u a b e es) cs (s, r)))"
  using assms
proof (induction cs arbitrary: s r)
  case (Cons c cs)
  obtain t q where t: "settleCurrency u a b e es c (s, r) = (t, q)" by fastforce
  have "payouts_ok t"
    using settle_ok [OF Cons.prems(1,3), of c u a b e r] t by simp
  moreover have "settleable t (filter (\<lambda>e. le_currency e = c') es)" if "c' \<in> set cs" for c'
    using settle_keeps [OF Cons.prems(1) _ Cons.prems(3) Cons.prems(3), of c c' u a b e r] that Cons.prems(2) t
    by auto
  ultimately show ?case using Cons.IH [of t q] Cons.prems(2) t by simp
qed simp

lemma eligible_settleable:
  assumes "payouts_ok s"
  shows "settleable s (filter (\<lambda>e. P e) (findUnsettledForAcademy s a w))"
proof -
  have "distinct (map le_id (cs_ledger s))"
    using assms by (simp add: payouts_ok_def entryIds_def)
  then have "distinct (map le_id (filter Q (cs_ledger s)))" for Q
    by (rule distinct_concat_filter)
  then have "distinct (map le_id (findUnsettledForAcademy s a w))"
    unfolding findUnsettledForAcademy_def by (simp add: distinct_map)
  then show ?thesis
    by (auto simp: settleable_def distinct_concat_filter findUnsettledForAcademy_def)
qed

lemma payouts_createPayout:
  assumes "payouts_ok s"
  shows "payouts_ok (committed s (createPayout env u a b e s))"
proof -
  have "payouts_ok (fst (fold (settleCurrency u a x y es) (currenciesOf es) (s, r)))"
    if "es = filter P (findUnsettledForAcademy s a w)" for x y es P w r
    unfolding that
    by (rule settleAll_ok [OF assms distinct_currencies]) (simp add: eligible_settleable [OF assms])
  then show ?thesis
    using assms by (simp add: createPayout_def committed_def Let_def case_prod_beta split: option.split)
qed

lemma payouts_markPaid:
  assumes "payouts_ok s"
  shows "payouts_ok (committed s (markPaid now u i ref s))"
proof -
  have "payouts_ok (audit w u i (s\<lparr>cs_payouts := map f (cs_payouts s)\<rparr>))"
    if "\<And>q. po_id (f q) = po_id q \<and> po_amountMinorUnits (f q) = po_amountMinorUnits q" for f w
  proof -
    have "payoutIds (audit w u i (s\<lparr>cs_payouts := map f (cs_payouts s)\<rparr>)) = payoutIds s"
      using that by (simp add: payoutIds_def audit_def)
    then show ?thesis
      using assms that by (auto simp: payouts_ok_def payoutTotal_def entryIds_def audit_def)
  qed
  then show ?thesis
    using assms by (simp add: markPaid_def committed_def split: option.split)
qed

lemma payouts_handle: "payouts_ok s \<Longrightarrow> payouts_ok (handle env now r s)"
  by (cases r)
    (simp_all add: payouts_createPayout payouts_markPaid appends_ok [OF appends_createOrder]
      appends_ok [OF appends_createPayment] appends_ok [OF appends_submitProof]
      appends_ok [OF appends_approvePayment] appends_ok [OF appends_rejectPayment]
      appends_ok [OF appends_academyApprove] appends_ok [OF appends_academyReject]
      appends_ok [OF appends_requestRefund] appends_ok [OF appends_recordRefund]
      appends_ok [OF appends_others])

lemma payouts_history: "payouts_ok (commerceHistory rs)"
proof -
  have "payouts_ok (fold (\<lambda>(env, now, r). handle env now r) rs s)" if "payouts_ok s" for s
    using that by (induction rs arbitrary: s) (auto simp: payouts_handle)
  then show ?thesis by (simp add: commerceHistory_def payouts_empty)
qed

subsection \<open>Properties\<close>

text \<open>
  C23. After any history of requests no ledger entry is in two payouts, and every payout pays a
  positive amount that is exactly the sum of its entries.
\<close>

theorem payouts_settle_entries_once:
  "distinct (map snd (cs_payoutItems (commerceHistory rs)))
   \<and> map po_amountMinorUnits (cs_payouts (commerceHistory rs))
       = map (\<lambda>q. payoutTotal (commerceHistory rs) (po_id q)) (cs_payouts (commerceHistory rs))
   \<and> list_all (\<lambda>q. 0 < po_amountMinorUnits q) (cs_payouts (commerceHistory rs))"
  using payouts_history [of rs] by (auto simp: payouts_ok_def list_all_iff)

end
