(* ===== verification/Course_Purchase.thy ===== *)
theory Course_Purchase
  imports Payout_Settlement
begin

text \<open>
  What a learner and an academy get from a purchase: the one open payment of the academy's path,
  the refund, and the cases where money and access part ways.
\<close>

subsection \<open>An example shop\<close>

definition exampleCourse :: "uid \<Rightarrow> course_offer" where
  "exampleCourse i =
     \<lparr>of_id = i, of_academyId = ''academy'', of_title = ''Course'', of_publishedPublic = True, of_paid = True,
      of_amountMinorUnits = Some 10000, of_currency = Some ''EGP'',
      of_sections = [(''unit'', [(''lesson'', True)])], of_publishedQuizzes = 0, of_publishedAssignments = 0\<rparr>"

definition exampleMethod :: catalog_method where
  "exampleMethod = \<lparr>cat_key = ''bank'', cat_type = ''manual_bank_transfer'', cat_provider = ATLAS_MANUAL_PROVIDER_KEY,
      cat_enabled = True, cat_supportsProof = True\<rparr>"

definition exampleShop :: "academy_method list \<Rightarrow> uid \<Rightarrow> commerce_env" where
  "exampleShop methods newEnrollment =
     \<lparr>ce_course = (\<lambda>i. Some (exampleCourse i)),
      ce_academy = (\<lambda>_. Some \<lparr>ai_organizationId = ''org'', ai_archived = False, ai_suspended = False\<rparr>),
      ce_academyMethods = (\<lambda>_. methods),
      ce_method = (\<lambda>k. if k = ''bank'' then Some exampleMethod else None),
      ce_collectionMode = (\<lambda>_. mode_atlas_payments), ce_gateway = (\<lambda>_. None),
      ce_commission = \<lparr>ct_settings = [], ct_subscribedPlan = Map.empty, ct_planRates = [],
                       ct_globalDefault = Some 1000\<rparr>,
      ce_withinLimit = (\<lambda>_. within_limit), ce_owners = (\<lambda>_. [''owner'']),
      ce_isMember = (\<lambda>_ _. False), ce_nameClash = (\<lambda>_ _. False), ce_enrollmentId = newEnrollment\<rparr>"

definition atlasShop :: commerce_env where
  "atlasShop = exampleShop [] ''enrollment''"

definition twoPayments :: "(commerce_env \<times> instant \<times> commerce_request) list" where
  "twoPayments =
     [(atlasShop, 1, CreateOrder ''learner'' ''course'' ''key''),
      (atlasShop, 2, CreatePayment ''learner'' 0 ''bank''),
      (atlasShop, 3, CreatePayment ''learner'' 0 ''bank''),
      (atlasShop, 4, SubmitProof ''learner'' 0 1 (Some ''image/png'')),
      (atlasShop, 5, SubmitProof ''learner'' 0 2 (Some ''image/png'')),
      (atlasShop, 6, PlatformApprove ''staff'' 1 None),
      (atlasShop, 7, PlatformApprove ''staff'' 2 None)]"

lemmas shop_defs = exampleShop_def exampleCourse_def exampleMethod_def atlasShop_def

subsection \<open>One open payment at the academy\<close>

definition isOpen :: "row_id \<Rightarrow> course_payment \<Rightarrow> bool" where
  "isOpen i p \<longleftrightarrow> cp_courseOrderId p = Some i \<and> nonTerminal p"

lemma openPayments_alt: "openPayments s i = rev (filter (isOpen i) (cs_payments s))"
  by (simp add: openPayments_def isOpen_def [abs_def] nonTerminal_def)

lemma open_after_cancel:
  "openPayments (cancelPayments ids s) i = filter (\<lambda>p. cp_id p \<notin> set ids) (openPayments s i)"
proof -
  have "filter (isOpen i) (map (\<lambda>p. if List.member ids (cp_id p)
            then p\<lparr>cp_status := pay_cancelled, cp_nextAction := None\<rparr> else p) ps)
      = filter (\<lambda>p. cp_id p \<notin> set ids) (filter (isOpen i) ps)" for ps
    by (induction ps) (auto simp: isOpen_def nonTerminal_def NON_TERMINAL_PAYMENT_STATUSES_def)
  then show ?thesis by (simp add: openPayments_alt cancelPayments_def rev_filter)
qed

lemma filter_key_single:
  "distinct (map key ps) \<Longrightarrow> p \<in> set ps \<Longrightarrow> filter (\<lambda>q. key q = key p) ps = [p]"
proof (induction ps)
  case (Cons q ps)
  then have "key q = key p \<Longrightarrow> filter (\<lambda>q. key q = key p) ps = []"
    by (auto simp: filter_empty_conv) (metis imageI)
  with Cons show ?case by auto
qed simp

lemma open_insert:
  "isOpen i p \<Longrightarrow> openPayments (insertPayment p s) i = p # openPayments s i"
  by (simp add: openPayments_alt insertPayment_def)

lemma open_frames [simp]:
  "openPayments (updateOrder k f s) i = openPayments s i"
  by (simp add: openPayments_def updateOrder_def)

text \<open>
  Choosing one of the academy's methods leaves exactly one open payment on the order, the one
  answered to the learner, whatever was open before; every other one is cancelled.
\<close>

theorem academy_method_leaves_one_open:
  assumes "createAcademyManualPayment now u i methods k (commerceHistory rs) = Inr (s', r)"
  shows "map cp_id (openPayments s' i) = [r]"
proof -
  let ?s = "commerceHistory rs"
  from assms obtain x m where x: "findByIdForStudent ?s u i = Some x"
    and run: "chooseAcademyMethod now u x m (openPayments ?s (ord_id x)) ?s = (s', r)"
    by (auto simp: createAcademyManualPayment_def split: option.splits if_splits)
  have i: "ord_id x = i" using student_order [OF x] by simp
  define opened where "opened = openPayments ?s i"
  define reusable where "reusable = find (\<lambda>p. cp_reviewStatus p = rv_not_required \<and> sameDetails m p) opened"
  define c where "c = cancelPayments (toCancel reusable opened) ?s"
  have left: "openPayments c i = filter (\<lambda>p. cp_id p \<notin> set (toCancel reusable opened)) opened"
    by (simp add: c_def open_after_cancel opened_def)
  note run = run [unfolded chooseAcademyMethod_def Let_def i, folded opened_def, folded reusable_def, folded c_def]
  show ?thesis
  proof (cases reusable)
    case None
    then have "openPayments c i = []" by (auto simp: left toCancel_def filter_empty_conv)
    moreover have "isOpen i (academyPayment n u x m)" "cp_id (academyPayment n u x m) = n" for n
      by (simp_all add: i isOpen_def nonTerminal_def academyPayment_def newPayment_def NON_TERMINAL_PAYMENT_STATUSES_def)
    ultimately show ?thesis
      using run None by (auto simp: Let_def open_insert)
  next
    case (Some p)
    have p: "p \<in> set opened" using find_found [OF Some [unfolded reusable_def]] by simp
    have "distinct (map cp_id opened)"
      using ok_history [of rs]
      by (simp add: opened_def openPayments_alt commerce_ok_def keys_ok_def paymentIds_def
          distinct_concat_filter flip: rev_map)
    then have "filter (\<lambda>q. cp_id q = cp_id p) opened = [p]" using p by (rule filter_key_single)
    moreover have "openPayments c i = filter (\<lambda>q. cp_id q = cp_id p) opened"
      unfolding left by (rule filter_cong) (auto simp: toCancel_def Some)
    ultimately show ?thesis using run Some by (auto simp: Let_def)
  qed
qed

definition academyShop :: commerce_env where
  "academyShop = exampleShop [\<lparr>acm_id = ''method'', acm_type = ''manual_instapay'', acm_instructions = ''pay to 1''\<rparr>]
                   ''enrollment''"

definition manualStart :: "(commerce_env \<times> instant \<times> commerce_request) list" where
  "manualStart =
     [(academyShop, 1, CreateOrder ''learner'' ''course'' ''key''),
      (atlasShop, 2, CreatePayment ''learner'' 0 ''bank'')]"

definition chosen :: "(payment_refusal + commerce_state \<times> row_id)" where
  "chosen = createAcademyManualPayment 3 ''learner'' 0 (ce_academyMethods academyShop ''academy'')
              ''academy_manual_instapay'' (commerceHistory manualStart)"

theorem academy_method_leaves_one_open_witness:
  "map cp_id (openPayments (commerceHistory manualStart) 0) = [1]
   \<and> map cp_id (openPayments (fst (projr chosen)) 0) = [2]"
proof
  show "map cp_id (openPayments (commerceHistory manualStart) 0) = [1]" by code_simp
  have "(case chosen of Inl _ \<Rightarrow> None | Inr b \<Rightarrow> Some (snd b)) = Some 2" by code_simp
  then obtain s' where c: "chosen = Inr (s', 2)" by (auto split: sum.splits)
  from academy_method_leaves_one_open [OF c [unfolded chosen_def]] c
  show "map cp_id (openPayments (fst (projr chosen)) 0) = [2]" unfolding c sum.sel fst_conv by -
qed

subsection \<open>A refund\<close>

lemma find_filter: "filter P xs = y # ys \<Longrightarrow> find P xs = Some y"
  by (induction xs) (auto split: if_splits)

lemma entry_frames [simp]:
  "cs_payments (insertRefundLedgerEntries now p x t) = cs_payments t"
  "cs_refunds (insertRefundLedgerEntries now p x t) = cs_refunds t"
  "cs_orders (insertRefundLedgerEntries now p x t) = cs_orders t"
  "cs_enrollments (insertRefundLedgerEntries now p x t) = cs_enrollments t"
  by (simp_all add: insertRefundLedgerEntries_def addEntry_def Let_def)

lemma revoked_inactive: "\<not> isEnrollmentActive (enrollment.truncate (revokeForRefund now e)) w"
  by (simp add: isEnrollmentActive_def revokeForRefund_def enrollment.truncate_def ACTIVE_ENROLLMENT_STATUSES_def)

text \<open>
  C24. After any history, a learner's refund of an order that is paid and not refunded yet, asked for
  within thirty days of the payment, when exactly one payment of the order succeeded and Atlas
  collected it, is granted; it ends the learner's access, closes the order and brings the order's
  ledger to zero.
\<close>

theorem refund_undoes_purchase:
  assumes x: "findByIdForStudent (commerceHistory rs) u i = Some x" "ord_status x = ord_paid"
    "ord_paidAt x = Some paidAt" "now \<le> paidAt + 30 * day_ms"
    and none: "findByCourseOrderId (commerceHistory rs) i = None"
    and one: "filter (\<lambda>p. cp_courseOrderId p = Some i \<and> succeeded p) (cs_payments (commerceHistory rs)) = [p]"
    and atlas: "cp_provider p = ATLAS_MANUAL_PROVIDER_KEY"
  shows "\<exists>s' r. requestRefund now u i key (commerceHistory rs) = Inr (s', r)
         \<and> ledgerBalance s' i = 0 \<and> map ord_status (filter (\<lambda>y. ord_id y = i) (cs_orders s')) = [ord_refunded]
         \<and> list_all (\<lambda>e. er_studentId e = u \<and> er_courseId e = ord_courseId x
                       \<longrightarrow> \<not> isEnrollmentActive (enrollment.truncate e) w) (cs_enrollments s')"
proof -
  let ?s = "commerceHistory rs"
  have ok: "commerce_ok ?s" by (rule ok_history)
  have xi: "ord_id x = i" "x \<in> set (cs_orders ?s)" using student_order [OF x(1)] by simp_all
  have "p \<in> set (filter (\<lambda>p. cp_courseOrderId p = Some i \<and> succeeded p) (cs_payments ?s))"
    unfolding one by simp
  then have p: "p \<in> set (cs_payments ?s)" "cp_courseOrderId p = Some i" "succeeded p" by simp_all
  have "findSucceededForCourseOrder ?s i = Some p"
  proof -
    have "filter (\<lambda>p. cp_courseOrderId p = Some i \<and> cp_status p = pay_succeeded) (rev (cs_payments ?s)) = [p]"
      using one by (simp add: succeeded_def rev_filter [symmetric])
    then show ?thesis
      unfolding findSucceededForCourseOrder_def by (rule find_filter)
  qed
  then obtain s' r where run: "requestRefund now u i key ?s = Inr (s', r)"
    and pays: "cs_payments s' = cs_payments ?s"
    and refunds: "\<exists>rf. cs_refunds s' = cs_refunds ?s @ [rf] \<and> rf_courseOrderId rf = i \<and> rf_paymentId rf = cp_id p"
    and orders: "cs_orders s' = map (\<lambda>y. if ord_id y = i then y\<lparr>ord_status := ord_refunded\<rparr> else y) (cs_orders ?s)"
    and enrs: "cs_enrollments s' = map (\<lambda>e. if er_studentId e = u \<and> er_courseId e = ord_courseId x
                 then revokeForRefund now e else e) (cs_enrollments ?s)"
    using x none xi(1) atlas
    by (simp add: requestRefund_def Let_def day_ms_eq REFUND_WINDOW_DAYS_def ATLAS_MANUAL_PROVIDER_KEY_def
        ACADEMY_MANUAL_PROVIDER_KEY_def emit_def audit_def updateEnrollment_def updateOrder_def insertRefund_def
        del: find_by_None)
  have "commerce_ok s'"
    using ok_requestRefund [OF ok, of now u i key] run by (simp add: committed_def)
  then have "ledgerBalance s' i = paidNet s' i - refundedNet s' i"
    by (simp add: commerce_ok_def ledger_ok_def)
  moreover have "paidNet s' i = netOf p"
    by (simp add: paidNet_def pays one)
  moreover have "refundedNet s' i = netOf p"
    using refunds none findPayment_self [OF ok p(1)]
    by (auto simp: refundedNet_def findByCourseOrderId_def find_by_append findPayment_def pays simp del: find_by_None)
  moreover have "map ord_status (filter (\<lambda>y. ord_id y = i) (cs_orders s')) = [ord_refunded]"
  proof -
    have closed: "filter (\<lambda>y. ord_id y = i) (map (\<lambda>y. if ord_id y = i then y\<lparr>ord_status := ord_refunded\<rparr> else y) os)
        = map (\<lambda>y. y\<lparr>ord_status := ord_refunded\<rparr>) (filter (\<lambda>y. ord_id y = i) os)" for os
      by (induction os) auto
    have only: "filter (\<lambda>y. ord_id y = i) (cs_orders ?s) = [x]"
      using filter_key_single [of ord_id "cs_orders ?s" x] ok xi
      by (simp add: commerce_ok_def keys_ok_def orderIds_def)
    show ?thesis unfolding orders closed only by simp
  qed
  moreover have "list_all (\<lambda>e. er_studentId e = u \<and> er_courseId e = ord_courseId x
      \<longrightarrow> \<not> isEnrollmentActive (enrollment.truncate e) w) (cs_enrollments s')"
    by (auto simp: enrs list_all_iff revoked_inactive)
  ultimately show ?thesis using run by auto
qed

definition onePayment :: "(commerce_env \<times> instant \<times> commerce_request) list" where
  "onePayment =
     [(atlasShop, 1, CreateOrder ''learner'' ''course'' ''key''),
      (atlasShop, 2, CreatePayment ''learner'' 0 ''bank''),
      (atlasShop, 4, SubmitProof ''learner'' 0 1 (Some ''image/png'')),
      (atlasShop, 6, PlatformApprove ''staff'' 1 None)]"

theorem refund_undoes_purchase_witness:
  "ledgerBalance (commerceHistory onePayment) 0 = 9000
   \<and> (\<exists>s' r. requestRefund 8 ''learner'' 0 ''refund'' (commerceHistory onePayment) = Inr (s', r)
         \<and> ledgerBalance s' 0 = 0)"
proof
  show "ledgerBalance (commerceHistory onePayment) 0 = 9000" by code_simp
  define x where "x = hd (cs_orders (commerceHistory onePayment))"
  define p where "p = hd (cs_payments (commerceHistory onePayment))"
  have "findByIdForStudent (commerceHistory onePayment) ''learner'' 0 = Some x"
    "ord_status x = ord_paid" "ord_paidAt x = Some 6" "8 \<le> 6 + 30 * day_ms"
    "findByCourseOrderId (commerceHistory onePayment) 0 = None"
    "filter (\<lambda>p. cp_courseOrderId p = Some 0 \<and> succeeded p) (cs_payments (commerceHistory onePayment)) = [p]"
    "cp_provider p = ATLAS_MANUAL_PROVIDER_KEY"
    unfolding x_def p_def by code_simp+
  from refund_undoes_purchase [OF this]
  show "\<exists>s' r. requestRefund 8 ''learner'' 0 ''refund'' (commerceHistory onePayment) = Inr (s', r)
         \<and> ledgerBalance s' 0 = 0" by blast
qed

subsection \<open>Where money and access part\<close>

text \<open>
  An example. On the Atlas path an order can be paid twice: two payments started one after the other and
  both handed in are both approved, the academy is credited for both sales, and the refund of the
  order gives back only one of them, for good.
\<close>

theorem atlas_order_paid_twice:
  "map cp_status (cs_payments (commerceHistory twoPayments)) = [pay_succeeded, pay_succeeded]
   \<and> ledgerBalance (commerceHistory twoPayments) 0 = 18000
   \<and> (let refunded = twoPayments @ [(atlasShop, 8, RequestRefund ''learner'' 0 ''a''),
                                     (atlasShop, 9, RequestRefund ''learner'' 0 ''b'')]
      in map ord_status (cs_orders (commerceHistory refunded)) = [ord_refunded]
         \<and> ledgerBalance (commerceHistory refunded) 0 = 9000
         \<and> length (cs_refunds (commerceHistory refunded)) = 1)"
proof (intro conjI)
  show "map cp_status (cs_payments (commerceHistory twoPayments)) = [pay_succeeded, pay_succeeded]" by code_simp
  show "ledgerBalance (commerceHistory twoPayments) 0 = 18000" by code_simp
  show "let refunded = twoPayments @ [(atlasShop, 8, RequestRefund ''learner'' 0 ''a''),
                                     (atlasShop, 9, RequestRefund ''learner'' 0 ''b'')]
      in map ord_status (cs_orders (commerceHistory refunded)) = [ord_refunded]
         \<and> ledgerBalance (commerceHistory refunded) 0 = 9000
         \<and> length (cs_refunds (commerceHistory refunded)) = 1" by code_simp
qed

definition secondShop :: commerce_env where
  "secondShop = exampleShop [] ''second''"

text \<open>The first sale is settled by a payout, refunded, and followed by a sale to someone else.\<close>

definition refundAfterPayout :: "(commerce_env \<times> instant \<times> commerce_request) list" where
  "refundAfterPayout = onePayment @
     [(atlasShop, 11, CreatePayout ''staff'' ''academy'' (Some 0) (Some 10)),
      (atlasShop, 15, RequestRefund ''learner'' 0 ''refund''),
      (atlasShop, 21, CreatePayout ''staff'' ''academy'' (Some 10) (Some 20)),
      (secondShop, 22, CreateOrder ''other'' ''course'' ''key''),
      (secondShop, 23, CreatePayment ''other'' 9 ''bank''),
      (secondShop, 24, SubmitProof ''other'' 9 10 (Some ''application/pdf'')),
      (secondShop, 25, PlatformApprove ''staff'' 10 None),
      (secondShop, 31, CreatePayout ''staff'' ''academy'' (Some 20) (Some 30))]"

text \<open>
  A payout only looks at its own period and skips a currency whose total is not positive, so
  what an academy owes after a refund of a settled sale is never recovered by the next periods: the
  example pays out 18000 for a ledger whose entries add up to 9000.
\<close>

theorem payout_forgets_refund:
  "map po_amountMinorUnits (cs_payouts (commerceHistory refundAfterPayout)) = [9000, 9000]
   \<and> sumAmounts (cs_ledger (commerceHistory refundAfterPayout)) = 9000
   \<and> map ord_status (cs_orders (commerceHistory refundAfterPayout)) = [ord_refunded, ord_paid]"
proof (intro conjI)
  show "map po_amountMinorUnits (cs_payouts (commerceHistory refundAfterPayout)) = [9000, 9000]" by code_simp
  show "sumAmounts (cs_ledger (commerceHistory refundAfterPayout)) = 9000" by code_simp
  show "map ord_status (cs_orders (commerceHistory refundAfterPayout)) = [ord_refunded, ord_paid]" by code_simp
qed

lemma inactive_regrant:
  "er_expiresAt e = Some t \<Longrightarrow> t \<le> w \<Longrightarrow> \<not> isEnrollmentActive (enrollment.truncate (regrant now k e)) w"
  "er_expiresAt e = Some t \<Longrightarrow> t \<le> w \<Longrightarrow> \<not> isEnrollmentActive (enrollment.truncate e) w"
  by (simp_all add: isEnrollmentActive_def regrant_def enrollment.truncate_def)

lemma enrollments_after_payment [simp]:
  "cs_enrollments (updateOrder k f s) = cs_enrollments s" "cs_enrollments (updatePayment k g s) = cs_enrollments s"
  "cs_enrollments (insertSaleLedgerEntries now p x s) = cs_enrollments s"
  by (simp_all add: updateOrder_def updatePayment_def insertSaleLedgerEntries_def addEntry_def Let_def)

text \<open>
  Money cannot buy back access that ended by date. While the enrollment still counts as
  enrolled the order is refused as already enrolled; and once staff revoked it, a purchase re-opens
  the row with its old end date, so the learner has paid and still has no access.
\<close>

theorem expired_access_not_bought_back:
  assumes e: "findByStudentAndCourse s u c = Some e" "er_expiresAt e = Some t" "t \<le> now"
    and course: "ce_course env c = Some offer" "of_id offer = c" "of_publishedPublic offer" "of_paid offer" "hasPrice offer"
    and admitted: "\<not> rejectedLearner s u (of_academyId offer)" "findByIdempotencyKey s u key = None"
    and x: "ord_studentId x = u" "ord_courseId x = c"
  shows "(er_enrollmentStatus e \<noteq> en_unavailable \<longrightarrow>
            createOrder env now u c key s = throw ConflictException ''errors.courseOrder.alreadyEnrolled'')
         \<and> \<not> isEnrollmentActive (enrollment.truncate e) now
         \<and> (\<exists>e'. findByStudentAndCourse (applySuccessfulCoursePayment env now p x s) u c = Some e'
               \<and> \<not> isEnrollmentActive (enrollment.truncate e') now)"
proof (intro conjI impI)
  show "createOrder env now u c key s = throw ConflictException ''errors.courseOrder.alreadyEnrolled''"
    if "er_enrollmentStatus e \<noteq> en_unavailable"
    using that e course admitted by (simp add: createOrder_def)
  show "\<not> isEnrollmentActive (enrollment.truncate e) now"
    using e(2,3) by (rule inactive_regrant)
  define r where "r = (if er_enrollmentStatus e \<noteq> en_enrolled \<or> er_revokedAt e \<noteq> None
      then regrant now (ord_id x) e else e)"
  have keys: "er_studentId (regrant now k y) = er_studentId y" "er_courseId (regrant now k y) = er_courseId y" for k y
    by (simp_all add: regrant_def)
  have "find (\<lambda>y. er_studentId y = u \<and> er_courseId y = c)
      (map (\<lambda>y. if er_studentId y = u \<and> er_courseId y = c then regrant now k y else y) es)
      = map_option (regrant now k) (find (\<lambda>y. er_studentId y = u \<and> er_courseId y = c) es)" for k es
    by (induction es) (auto simp: keys)
  then have "findByStudentAndCourse (grantCourse env now x t) u c = Some r"
    if "cs_enrollments t = cs_enrollments s" for t
    using e(1) course(1,2) x that
    by (simp add: grantCourse_def findByStudentAndCourse_def updateEnrollment_def r_def)
  then have "findByStudentAndCourse (applySuccessfulCoursePayment env now p x s) u c = Some r"
    by (simp add: applySuccessfulCoursePayment_def Let_def findByStudentAndCourse_def)
  moreover have "\<not> isEnrollmentActive (enrollment.truncate r) now"
    using inactive_regrant [OF e(2,3)] by (simp add: r_def)
  ultimately show "\<exists>e'. findByStudentAndCourse (applySuccessfulCoursePayment env now p x s) u c = Some e'
               \<and> \<not> isEnrollmentActive (enrollment.truncate e') now" by blast
qed

definition endedEnrollment :: order_enrollment where
  "endedEnrollment =
     \<lparr>er_id = ''enrollment'', er_studentId = ''learner'', er_courseId = ''course'', er_academyId = ''academy'',
      er_enrollmentStatus = en_unavailable, er_revokedAt = Some 4, er_expiresAt = Some 5,
      oe_enrolledAt = 1, oe_revokeReason = Some ''manual'', oe_accessSource = ''manual'', oe_courseOrderId = None\<rparr>"

definition rebought :: "(commerce_env \<times> instant \<times> commerce_request) list" where
  "rebought = (atlasShop, 0, OtherWrites [endedEnrollment] []) # onePayment"

theorem expired_access_not_bought_back_witness:
  "\<exists>e'. findByStudentAndCourse
          (applySuccessfulCoursePayment atlasShop 6 (hd (cs_payments (commerceHistory (take 4 rebought))))
             (hd (cs_orders (commerceHistory (take 4 rebought)))) (commerceHistory (take 4 rebought)))
          ''learner'' ''course'' = Some e' \<and> \<not> isEnrollmentActive (enrollment.truncate e') 6"
proof -
  let ?s = "commerceHistory (take 4 rebought)"
  have "findByStudentAndCourse ?s ''learner'' ''course'' = Some endedEnrollment"
    "er_expiresAt endedEnrollment = Some 5" "5 \<le> (6::instant)"
    "ce_course atlasShop ''course'' = Some (exampleCourse ''course'')" "of_id (exampleCourse ''course'') = ''course''"
    "of_publishedPublic (exampleCourse ''course'')" "of_paid (exampleCourse ''course'')"
    "hasPrice (exampleCourse ''course'')"
    "\<not> rejectedLearner ?s ''learner'' (of_academyId (exampleCourse ''course''))"
    "findByIdempotencyKey ?s ''learner'' ''other'' = None"
    "ord_studentId (hd (cs_orders ?s)) = ''learner''" "ord_courseId (hd (cs_orders ?s)) = ''course''"
    by code_simp+
  from expired_access_not_bought_back [OF this] show ?thesis by blast
qed

end
