(* ===== verification/Comm_Outbox.thy ===== *)
theory Comm_Outbox
  imports Atlas_Prelude
begin

text \<open>
  The transactional outbox of communications: the catalogue entry as far as delivery reads it,
  the rows, a person's preferences, and the writers of the outbox
  (\<open>communications/services/communication.service.ts\<close>,
  \<open>communication-preferences.util.ts\<close>).  The catalogue itself is an argument, the map from
  event keys to entries; wording, language, branding and links of a message are not modelled.
  A JSON object of interpolation values is an association list from keys to their text.
\<close>

subsection \<open>The catalogue entry\<close>

datatype comm_category = cat_security | cat_transactional | cat_lifecycle | cat_engagement | cat_operational

datatype comm_audience = aud_learner | aud_staff | aud_platform

datatype email_policy = em_always | em_preference | em_digest | em_never

type_synonym json_values = "(string \<times> string) list"
type_synonym entity_ref = "string \<times> uid"

record catalog_entry =
  ce_category :: comm_category
  ce_audience :: comm_audience
  ce_inApp :: bool
  ce_email :: email_policy
  ce_extendedRetention :: bool
  ce_dedupe :: "entity_ref \<Rightarrow> json_values \<Rightarrow> string option"
  ce_cooldownSeconds :: int
  ce_emailStaleAfterSeconds :: "int option"
  ce_requiresLiveAcademy :: bool
  ce_credentialValues :: "string list"
  ce_personalValues :: "string list"
  ce_addressRecipient :: bool

type_synonym catalog = "string \<Rightarrow> catalog_entry option"

definition settleScrubKeys :: "catalog_entry \<Rightarrow> string list" where
  "settleScrubKeys e = ce_credentialValues e @ ce_personalValues e"

definition withoutKeys :: "string list \<Rightarrow> json_values \<Rightarrow> json_values" where
  "withoutKeys ks v = filter (\<lambda>(k, _). \<not> List.member ks k) v"

definition withoutPersonalValues :: "catalog_entry \<Rightarrow> json_values \<Rightarrow> json_values" where
  "withoutPersonalValues e v =
     (if ce_personalValues e = [] then v else withoutKeys (ce_personalValues e) v)"

text \<open>\<open>None\<close> leaves the column as it is.\<close>

definition withoutCredentials :: "catalog_entry \<Rightarrow> json_values option \<Rightarrow> json_values option" where
  "withoutCredentials e values =
     (case values of
        None \<Rightarrow> None
      | Some v \<Rightarrow>
          if settleScrubKeys e = [] then None
          else if \<not> list_ex (\<lambda>k. List.member (map fst v) k) (settleScrubKeys e) then None
          else Some (withoutKeys (settleScrubKeys e) v))"

subsection \<open>Rows\<close>

datatype outbox_state = ob_pending | ob_dispatched | ob_deferred | ob_suppressed | ob_failed

record outbox_row =
  ob_id :: nat
  ob_key :: string
  ob_category :: comm_category
  ob_recipientUserId :: "uid option"
  ob_recipientEmail :: "string option"
  ob_academyId :: "uid option"
  ob_entity :: entity_ref
  ob_dedupeKey :: "string option"
  ob_values :: "json_values option"
  ob_chInApp :: bool
  ob_chEmail :: email_policy
  ob_state :: outbox_state
  ob_availableAt :: instant
  ob_attempts :: nat
  ob_lastError :: "string option"
  ob_digestId :: "nat option"
  ob_createdAt :: instant
  ob_dispatchedAt :: "instant option"
  ob_campaignId :: "uid option"

datatype comm_channel = ch_email | ch_in_app

datatype delivery_status = dv_sent | dv_failed | dv_suppressed

record delivery_row =
  dl_outboxId :: nat
  dl_channel :: comm_channel
  dl_status :: delivery_status
  dl_errorCode :: "string option"
  dl_attempts :: nat
  dl_createdAt :: instant

datatype digest_state = dg_open | dg_sent | dg_empty

record digest_row =
  dg_id :: nat
  dg_recipientUserId :: uid
  dg_kind :: string
  dg_windowStart :: instant
  dg_windowEnd :: instant
  dg_itemCount :: nat
  dg_state :: digest_state
  dg_sentAt :: "instant option"
  dg_createdAt :: instant

record notification_row =
  nt_userId :: uid
  nt_dedupeKey :: "string option"
  nt_values :: json_values
  nt_extended :: bool
  nt_createdAt :: instant

text \<open>
  \<open>cm_cooldowns\<close> and \<open>cm_sentToday\<close> are the keys in Redis: when a cooldown ends, and how
  many emails a person was sent on a UTC day.
\<close>

record comm_state =
  cm_nextId :: nat
  cm_outbox :: "outbox_row list"
  cm_deliveries :: "delivery_row list"
  cm_digests :: "digest_row list"
  cm_notifications :: "notification_row list"
  cm_cooldowns :: "uid \<times> string \<Rightarrow> instant option"
  cm_sentToday :: "uid \<times> int \<Rightarrow> nat"

definition findOutbox :: "comm_state \<Rightarrow> nat \<Rightarrow> outbox_row option" where
  "findOutbox s i = find_by ob_id i (cm_outbox s)"

definition setOutbox :: "nat \<Rightarrow> (outbox_row \<Rightarrow> outbox_row) \<Rightarrow> comm_state \<Rightarrow> comm_state" where
  "setOutbox i f s = s\<lparr>cm_outbox := map (\<lambda>r. if ob_id r = i then f r else r) (cm_outbox s)\<rparr>"

definition addDeliveries :: "delivery_row list \<Rightarrow> comm_state \<Rightarrow> comm_state" where
  "addDeliveries ds s = s\<lparr>cm_deliveries := cm_deliveries s @ ds\<rparr>"

subsection \<open>Preferences\<close>

text \<open>
  What the stored JSON holds under \<open>notifications\<close>, each setting a boolean or absent. The
  DTO that writes them admits nothing else; the code narrows most settings by a \<open>typeof\<close> test
  again and takes \<open>lifecycle.reminders\<close> and \<open>operational.email\<close> as stored.
\<close>

datatype digest_mode = immediately | daily | digest_off

record stored_preferences =
  sp_legacyEmail :: "bool option"
  sp_reminders :: "bool option"
  sp_engagementEmail :: "bool option"
  sp_engagementDigest :: "digest_mode option"
  sp_operationalEmail :: "bool option"
  sp_operationalDigest :: "digest_mode option"

record comm_preferences =
  pf_reminders :: bool
  pf_engagementEmail :: bool
  pf_engagementDigest :: digest_mode
  pf_operational :: "(bool \<times> digest_mode) option"

definition isStaffDigestMode :: "digest_mode \<Rightarrow> bool" where
  "isStaffDigestMode m \<longleftrightarrow> m = immediately \<or> m = daily"

definition orElse :: "'a option \<Rightarrow> 'a \<Rightarrow> 'a" where
  "orElse x d = (case x of None \<Rightarrow> d | Some v \<Rightarrow> v)"

definition resolveCommunicationPreferences :: "stored_preferences \<Rightarrow> bool \<Rightarrow> comm_preferences" where
  "resolveCommunicationPreferences p isStaff =
     (let legacyEmailOff = (sp_legacyEmail p = Some False)
      in \<lparr>pf_reminders = orElse (sp_reminders p) True,
          pf_engagementEmail = orElse (sp_engagementEmail p) (\<not> legacyEmailOff),
          pf_engagementDigest = orElse (sp_engagementDigest p) immediately,
          pf_operational =
            (if isStaff then
               Some (orElse (sp_operationalEmail p) True,
                     (case sp_operationalDigest p of
                        None \<Rightarrow> immediately
                      | Some m \<Rightarrow> if isStaffDigestMode m then m else immediately))
             else None)\<rparr>)"

subsection \<open>Emitting\<close>

record emit_input =
  ei_key :: string
  ei_recipientUserId :: uid
  ei_academyId :: "uid option"
  ei_entity :: entity_ref
  ei_values :: json_values
  ei_notBefore :: "instant option"

definition notificationExists :: "comm_state \<Rightarrow> uid \<Rightarrow> string option \<Rightarrow> bool" where
  "notificationExists s u k \<longleftrightarrow>
     k \<noteq> None \<and> list_ex (\<lambda>n. nt_userId n = u \<and> nt_dedupeKey n = k) (cm_notifications s)"

definition outboxExists :: "comm_state \<Rightarrow> uid option \<Rightarrow> string option \<Rightarrow> string option \<Rightarrow> bool" where
  "outboxExists s u a k \<longleftrightarrow>
     k \<noteq> None \<and>
     list_ex (\<lambda>r. ob_dedupeKey r = k \<and>
                (u \<noteq> None \<and> ob_recipientUserId r = u \<or> a \<noteq> None \<and> ob_recipientEmail r = a))
       (cm_outbox s)"

definition cooldownAdjustedAvailability ::
  "bool \<Rightarrow> instant \<Rightarrow> uid \<Rightarrow> string \<Rightarrow> catalog_entry \<Rightarrow> comm_state \<Rightarrow> instant" where
  "cooldownAdjustedAvailability redisUp now u k e s =
     (if ce_cooldownSeconds e \<le> 0 \<or> \<not> redisUp then now
      else case cm_cooldowns s (u, k) of None \<Rightarrow> now | Some x \<Rightarrow> if now < x then x else now)"

definition insertOutbox :: "outbox_row \<Rightarrow> comm_state \<Rightarrow> comm_state" where
  "insertOutbox r s =
     s\<lparr>cm_outbox := cm_outbox s @ [r\<lparr>ob_id := cm_nextId s\<rparr>], cm_nextId := Suc (cm_nextId s)\<rparr>"

definition pendingRow :: "instant \<Rightarrow> string \<Rightarrow> catalog_entry \<Rightarrow> entity_ref \<Rightarrow> json_values \<Rightarrow> outbox_row" where
  "pendingRow now k e entity v =
     \<lparr>ob_id = 0, ob_key = k, ob_category = ce_category e, ob_recipientUserId = None,
      ob_recipientEmail = None, ob_academyId = None, ob_entity = entity, ob_dedupeKey = ce_dedupe e entity v,
      ob_values = Some v, ob_chInApp = False, ob_chEmail = em_always, ob_state = ob_pending,
      ob_availableAt = now, ob_attempts = 0, ob_lastError = None, ob_digestId = None,
      ob_createdAt = now, ob_dispatchedAt = None, ob_campaignId = None\<rparr>"

text \<open>The result is the id of the row written, \<open>None\<close> for an event that was emitted before.\<close>

definition emitEvent ::
  "catalog \<Rightarrow> bool \<Rightarrow> instant \<Rightarrow> emit_input \<Rightarrow> comm_state \<Rightarrow> comm_state \<times> nat option" where
  "emitEvent cat redisUp now inp s =
     (case cat (ei_key inp) of
        None \<Rightarrow> (s, None)
      | Some e \<Rightarrow>
          (let u = ei_recipientUserId inp;
               dedupeKey = ce_dedupe e (ei_entity inp) (ei_values inp)
           in if ce_inApp e \<and> notificationExists s u dedupeKey then (s, None)
              else
                (let s1 = (if ce_inApp e
                           then s\<lparr>cm_notifications := cm_notifications s @
                                    [\<lparr>nt_userId = u, nt_dedupeKey = dedupeKey,
                                      nt_values = withoutPersonalValues e (ei_values inp),
                                      nt_extended = ce_extendedRetention e, nt_createdAt = now\<rparr>]\<rparr>
                           else s);
                     cooldownAvailableAt = cooldownAdjustedAvailability redisUp now u (ei_key inp) e s1;
                     availableAt = (case ei_notBefore inp of
                                      None \<Rightarrow> cooldownAvailableAt
                                    | Some t \<Rightarrow> if cooldownAvailableAt < t then t else cooldownAvailableAt)
                 in if outboxExists s1 (Some u) None dedupeKey then (s1, None)
                    else (insertOutbox
                            ((pendingRow now (ei_key inp) e (ei_entity inp) (ei_values inp))
                               \<lparr>ob_recipientUserId := Some u, ob_academyId := ei_academyId inp,
                                ob_chInApp := ce_inApp e, ob_chEmail := ce_email e,
                                ob_availableAt := availableAt\<rparr>) s1,
                          Some (cm_nextId s1)))))"

text \<open>\<open>email\<close> is the address trimmed and in lower case.\<close>

definition emitToAddress ::
  "catalog \<Rightarrow> instant \<Rightarrow> string \<Rightarrow> string \<Rightarrow> entity_ref \<Rightarrow> json_values \<Rightarrow> comm_state
   \<Rightarrow> (comm_state \<times> nat option) option" where
  "emitToAddress cat now k email entity v s =
     (case cat k of
        None \<Rightarrow> None
      | Some e \<Rightarrow>
          if \<not> ce_addressRecipient e then None
          else if outboxExists s None (Some email) (ce_dedupe e entity v) then Some (s, None)
          else Some (insertOutbox ((pendingRow now k e entity v)\<lparr>ob_recipientEmail := Some email\<rparr>) s,
                     Some (cm_nextId s)))"

definition waiting :: "outbox_row \<Rightarrow> bool" where
  "waiting r \<longleftrightarrow> ob_state r = ob_pending \<or> ob_state r = ob_deferred"

definition forgetEntity :: "catalog \<Rightarrow> uid \<Rightarrow> string \<Rightarrow> entity_ref \<Rightarrow> comm_state \<Rightarrow> comm_state" where
  "forgetEntity cat actor k entity s =
     (case cat k of
        None \<Rightarrow> s
      | Some e \<Rightarrow>
          (let keys = settleScrubKeys e;
               dedupeKey = ce_dedupe e entity []
           in s\<lparr>cm_outbox := map (\<lambda>r.
                  if ob_key r = k \<and> ob_entity r = entity
                  then r\<lparr>ob_values := map_option (withoutKeys keys) (ob_values r),
                         ob_state := (if waiting r then ob_suppressed else ob_state r),
                         ob_lastError := (if waiting r then Some ''source_deleted'' else ob_lastError r)\<rparr>
                  else r) (cm_outbox s),
                cm_notifications := (if dedupeKey \<noteq> None \<and> keys \<noteq> []
                  then map (\<lambda>n. if nt_userId n = actor \<and> nt_dedupeKey n = dedupeKey
                               then n\<lparr>nt_values := withoutKeys keys (nt_values n)\<rparr> else n)
                         (cm_notifications s)
                  else cm_notifications s)\<rparr>))"

end
