(* ===== verification/Comm_Dispatch.thy ===== *)
theory Comm_Dispatch
  imports Comm_Outbox
begin

text \<open>
  Draining the outbox (\<open>communications/services/communication-dispatch.service.ts\<close>): the
  conditional claim, everything that is decided before a send, and the three ways a send ends.
  What the dispatcher reads from other tables and from the time-zone database is the record
  \<open>dispatch_env\<close> of one transaction; the email provider is outside.
\<close>

subsection \<open>Constants and reads\<close>

definition COMMUNICATION_CLAIM_LEASE_MS :: int where "COMMUNICATION_CLAIM_LEASE_MS = 10 * 60 * 1000"
definition COMMUNICATION_DISPATCH_ATTEMPTS :: nat where "COMMUNICATION_DISPATCH_ATTEMPTS = 6"
definition COMMUNICATION_RETENTION_DAYS :: int where "COMMUNICATION_RETENTION_DAYS = 90"
definition DAILY_EMAIL_CAP_LEARNER :: nat where "DAILY_EMAIL_CAP_LEARNER = 5"
definition DAILY_EMAIL_CAP_STAFF :: nat where "DAILY_EMAIL_CAP_STAFF = 10"
definition DIGEST_LOCAL_HOUR :: int where "DIGEST_LOCAL_HOUR = 8"

declare COMMUNICATION_CLAIM_LEASE_MS_def [ms_simps]

record comm_user =
  cu_email :: string
  cu_deleted :: bool
  cu_preferences :: stored_preferences

text \<open>
  \<open>ev_campaign\<close> is the status of a campaign as \<open>campaignContent\<close> returns it;
  \<open>ev_localSeconds\<close> is the wall clock of an academy's time zone, to the second, read as if
  it were UTC.
\<close>

record dispatch_env =
  ev_platformOwner :: bool
  ev_user :: "uid \<Rightarrow> comm_user option"
  ev_isStaff :: "uid \<Rightarrow> bool"
  ev_campaign :: "uid \<Rightarrow> string option"
  ev_liveAcademy :: "uid \<Rightarrow> bool"
  ev_suppressed :: "string \<Rightarrow> bool"
  ev_localSeconds :: "uid option \<Rightarrow> instant \<Rightarrow> int"
  ev_redisUp :: bool

definition lowerChar :: "char \<Rightarrow> char" where
  "lowerChar c = (if CHR ''A'' \<le> c \<and> c \<le> CHR ''Z'' then char_of (of_char c + 32 :: nat) else c)"

definition endsWith :: "string \<Rightarrow> string \<Rightarrow> bool" where
  "endsWith x suffix \<longleftrightarrow> length suffix \<le> length x \<and> drop (length x - length suffix) x = suffix"

record recipient_state =
  rs_email :: string
  rs_preferences :: stored_preferences
  rs_isStaff :: bool

definition loadRecipient :: "dispatch_env \<Rightarrow> uid \<Rightarrow> recipient_state option" where
  "loadRecipient env u =
     (case ev_user env u of
        None \<Rightarrow> None
      | Some user \<Rightarrow>
          if cu_deleted user then None
          else if endsWith (map lowerChar (cu_email user)) ''@account.invalid'' then None
          else Some \<lparr>rs_email = cu_email user, rs_preferences = cu_preferences user,
                     rs_isStaff = ev_isStaff env u\<rparr>)"

definition academyIsLive :: "dispatch_env \<Rightarrow> uid option \<Rightarrow> bool" where
  "academyIsLive env a = (case a of None \<Rightarrow> True | Some i \<Rightarrow> ev_liveAcademy env i)"

subsection \<open>Digest windows\<close>

definition nextLocalHour :: "(instant \<Rightarrow> int) \<Rightarrow> instant \<Rightarrow> int \<Rightarrow> instant" where
  "nextLocalHour localSeconds now hour =
     (let asUtc = localSeconds now;
          offsetMs = asUtc - (now - now mod 1000);
          candidate = (asUtc - asUtc mod day_ms) + hour * hour_ms - offsetMs
      in if candidate \<le> now then candidate + 24 * 60 * 60 * 1000 else candidate)"

fun digestKind :: "comm_audience \<Rightarrow> string" where
  "digestKind aud_learner = ''learner_engagement_daily''"
| "digestKind aud_staff = ''staff_daily''"
| "digestKind aud_platform = ''platform_ops_daily''"

definition findOpenDigest :: "comm_state \<Rightarrow> uid \<Rightarrow> string \<Rightarrow> instant \<Rightarrow> digest_row option" where
  "findOpenDigest s u kind now =
     (case sort_key dg_windowEnd
             (filter (\<lambda>d. dg_recipientUserId d = u \<and> dg_kind d = kind \<and> dg_state d = dg_open
                        \<and> now \<le> dg_windowEnd d) (cm_digests s)) of
        [] \<Rightarrow> None | d # _ \<Rightarrow> Some d)"

text \<open>The create, or the row that already holds the window when the unique index refuses it.\<close>

definition createDigest ::
  "instant \<Rightarrow> uid \<Rightarrow> string \<Rightarrow> instant \<Rightarrow> instant \<Rightarrow> comm_state \<Rightarrow> comm_state \<times> digest_row" where
  "createDigest now u kind windowStart windowEnd s =
     (case find (\<lambda>d. dg_recipientUserId d = u \<and> dg_kind d = kind \<and> dg_windowStart d = windowStart)
             (cm_digests s) of
        Some d \<Rightarrow> (s, d)
      | None \<Rightarrow>
          (let d = \<lparr>dg_id = cm_nextId s, dg_recipientUserId = u, dg_kind = kind,
                    dg_windowStart = windowStart, dg_windowEnd = windowEnd, dg_itemCount = 0,
                    dg_state = dg_open, dg_sentAt = None, dg_createdAt = now\<rparr>
           in (s\<lparr>cm_digests := cm_digests s @ [d], cm_nextId := Suc (cm_nextId s)\<rparr>, d)))"

definition attachToDigest ::
  "dispatch_env \<Rightarrow> instant \<Rightarrow> outbox_row \<Rightarrow> uid \<Rightarrow> comm_audience \<Rightarrow> comm_state \<Rightarrow> comm_state" where
  "attachToDigest env now row u aud s =
     (let kind = digestKind aud;
          windowEnd = nextLocalHour (ev_localSeconds env (ob_academyId row)) now DIGEST_LOCAL_HOUR;
          windowStart = windowEnd - 24 * 60 * 60 * 1000;
          (s1, d) = (case findOpenDigest s u kind now of
                       Some d \<Rightarrow> (s, d)
                     | None \<Rightarrow> createDigest now u kind windowStart windowEnd s);
          s2 = setOutbox (ob_id row)
                 (\<lambda>r. r\<lparr>ob_state := ob_deferred, ob_digestId := Some (dg_id d),
                       ob_availableAt := dg_windowEnd d\<rparr>) s1
      in s2\<lparr>cm_digests := map (\<lambda>x. if dg_id x = dg_id d then x\<lparr>dg_itemCount := dg_itemCount x + 1\<rparr> else x)
              (cm_digests s2)\<rparr>)"

subsection \<open>Cooldown and daily cap\<close>

definition cooldownRemaining ::
  "bool \<Rightarrow> instant \<Rightarrow> uid \<Rightarrow> string \<Rightarrow> catalog_entry \<Rightarrow> comm_state \<Rightarrow> comm_state \<times> int" where
  "cooldownRemaining redisUp now u k e s =
     (if ce_cooldownSeconds e \<le> 0 \<or> \<not> redisUp then (s, 0)
      else
        (let acquired = (s\<lparr>cm_cooldowns := (cm_cooldowns s)((u, k) \<mapsto> now + ce_cooldownSeconds e * 1000)\<rparr>, 0)
         in case cm_cooldowns s (u, k) of
              None \<Rightarrow> acquired
            | Some x \<Rightarrow> if now < x then (s, x - now) else acquired))"

definition sentTodayCount :: "bool \<Rightarrow> instant \<Rightarrow> uid \<Rightarrow> comm_state \<Rightarrow> nat" where
  "sentTodayCount redisUp now u s = (if redisUp then cm_sentToday s (u, now div day_ms) else 0)"

definition countTowardsDailyCap :: "bool \<Rightarrow> instant \<Rightarrow> uid \<Rightarrow> comm_state \<Rightarrow> comm_state" where
  "countTowardsDailyCap redisUp now u s =
     (if redisUp
      then s\<lparr>cm_sentToday := (cm_sentToday s)((u, now div day_ms) := Suc (cm_sentToday s (u, now div day_ms)))\<rparr>
      else s)"

definition capExempt :: "comm_category \<Rightarrow> bool" where
  "capExempt c \<longleftrightarrow> c = cat_security \<or> c = cat_transactional"

subsection \<open>The claim\<close>

definition claimable :: "instant \<Rightarrow> outbox_row \<Rightarrow> bool" where
  "claimable now r \<longleftrightarrow> waiting r \<and> ob_digestId r = None \<and> ob_availableAt r \<le> now"

definition claimedRow :: "instant \<Rightarrow> outbox_row \<Rightarrow> outbox_row" where
  "claimedRow now r =
     r\<lparr>ob_attempts := ob_attempts r + 1, ob_availableAt := now + COMMUNICATION_CLAIM_LEASE_MS\<rparr>"

definition claimOutbox :: "instant \<Rightarrow> nat \<Rightarrow> outbox_row list \<Rightarrow> outbox_row list \<times> bool" where
  "claimOutbox now i t = guarded ob_id (claimable now) (claimedRow now) i t"

interpretation outbox_claim: guarded_write ob_id "claimable now" "claimedRow now" for now
  by unfold_locales (simp_all add: claimable_def claimedRow_def ms_simps)

subsection \<open>Settling\<close>

datatype dispatch_outcome =
  out_skipped | out_sent | out_in_app_only | out_suppressed | out_deferred | out_digested | out_failed

definition channelDelivery ::
  "nat \<Rightarrow> comm_channel \<Rightarrow> delivery_status \<Rightarrow> string option \<Rightarrow> nat \<Rightarrow> instant \<Rightarrow> delivery_row" where
  "channelDelivery i c st code n now =
     \<lparr>dl_outboxId = i, dl_channel = c, dl_status = st, dl_errorCode = code, dl_attempts = n, dl_createdAt = now\<rparr>"

definition scrubRow :: "catalog \<Rightarrow> outbox_row \<Rightarrow> outbox_row" where
  "scrubRow cat r =
     (case cat (ob_key r) of
        None \<Rightarrow> r
      | Some e \<Rightarrow> (case withoutCredentials e (ob_values r) of
                     None \<Rightarrow> r
                   | Some v \<Rightarrow> r\<lparr>ob_values := Some v\<rparr>))"

text \<open>
  \<open>emailStatus\<close> is what \<open>options.emailStatus\<close> or the written state gives: the status of the
  email's delivery row, \<open>None\<close> for no such row.
\<close>

definition settle ::
  "catalog \<Rightarrow> instant \<Rightarrow> nat \<Rightarrow> outbox_state \<Rightarrow> string option \<Rightarrow> bool \<Rightarrow> delivery_status option \<Rightarrow> comm_state
   \<Rightarrow> comm_state" where
  "settle cat now i state reason inApp emailStatus s =
     (let s1 = setOutbox i
                 (\<lambda>r. scrubRow cat
                   (r\<lparr>ob_state := state,
                      ob_dispatchedAt := (if state = ob_dispatched then Some now else ob_dispatchedAt r),
                      ob_lastError := reason\<rparr>)) s;
          s2 = (if inApp then addDeliveries [channelDelivery i ch_in_app dv_sent None 0 now] s1 else s1);
          status = (case emailStatus of
                      Some x \<Rightarrow> Some x
                    | None \<Rightarrow> if state = ob_suppressed then Some dv_suppressed
                              else if state = ob_failed then Some dv_failed else None)
      in (case status of
            None \<Rightarrow> s2
          | Some x \<Rightarrow> addDeliveries [channelDelivery i ch_email x reason 0 now] s2))"

subsection \<open>The decision\<close>

record send_plan =
  pl_row :: outbox_row
  pl_entry :: catalog_entry
  pl_to :: string

datatype dispatch_plan = PlanSettled dispatch_outcome | PlanSend send_plan

text \<open>
  The preference question: \<open>None\<close> settles the email as switched off, \<open>Some b\<close> goes on, with
  \<open>b\<close> for a recipient who wants it in the daily digest.
\<close>

definition preferenceGate :: "comm_category \<Rightarrow> email_policy \<Rightarrow> comm_preferences \<Rightarrow> bool option" where
  "preferenceGate c policy pf =
     (if policy = em_preference then
        (if c = cat_engagement then
           (if \<not> pf_engagementEmail pf then None else Some (pf_engagementDigest pf = daily))
         else if c = cat_lifecycle then
           (if \<not> pf_reminders pf then None else Some False)
         else if c = cat_operational then
           (case pf_operational pf of
              None \<Rightarrow> Some False
            | Some (email, digest) \<Rightarrow> if \<not> email then None else Some (digest = daily))
         else Some False)
      else Some (policy = em_digest))"

datatype cap_verdict = cap_below | cap_to_digest | cap_drop

definition capGate :: "dispatch_env \<Rightarrow> instant \<Rightarrow> uid \<Rightarrow> recipient_state \<Rightarrow> catalog_entry \<Rightarrow> comm_preferences
   \<Rightarrow> bool \<Rightarrow> comm_state \<Rightarrow> cap_verdict" where
  "capGate env now u rs e pf wantsDigest s =
     (if \<not> capExempt (ce_category e) \<and> \<not> wantsDigest then
        (let cap = (if rs_isStaff rs then DAILY_EMAIL_CAP_STAFF else DAILY_EMAIL_CAP_LEARNER)
         in if cap \<le> sentTodayCount (ev_redisUp env) now u s
            then (if ce_category e = cat_engagement \<and> pf_engagementDigest pf = digest_off
                  then cap_drop else cap_to_digest)
            else cap_below)
      else if wantsDigest then cap_to_digest else cap_below)"

definition isStale :: "instant \<Rightarrow> outbox_row \<Rightarrow> catalog_entry \<Rightarrow> bool" where
  "isStale now row e =
     (case ce_emailStaleAfterSeconds e of None \<Rightarrow> False | Some n \<Rightarrow> n * 1000 < now - ob_createdAt row)"

definition campaignCancelled :: "dispatch_env \<Rightarrow> outbox_row \<Rightarrow> bool" where
  "campaignCancelled env row =
     (case ob_campaignId row of
        None \<Rightarrow> False
      | Some c \<Rightarrow> (case ev_campaign env c of None \<Rightarrow> True | Some st \<Rightarrow> st = ''cancelled''))"

text \<open>A settled row and what the dispatcher answers.\<close>

definition settled ::
  "catalog \<Rightarrow> instant \<Rightarrow> nat \<Rightarrow> outbox_state \<Rightarrow> string option \<Rightarrow> bool \<Rightarrow> delivery_status option
   \<Rightarrow> dispatch_outcome \<Rightarrow> comm_state \<Rightarrow> comm_state \<times> dispatch_plan" where
  "settled cat now i state reason inApp emailStatus outcome s =
     (settle cat now i state reason inApp emailStatus s, PlanSettled outcome)"

definition decideDelivery ::
  "catalog \<Rightarrow> dispatch_env \<Rightarrow> instant \<Rightarrow> outbox_row \<Rightarrow> catalog_entry \<Rightarrow> uid \<Rightarrow> recipient_state \<Rightarrow> comm_preferences
   \<Rightarrow> bool \<Rightarrow> comm_state \<Rightarrow> comm_state \<times> dispatch_plan" where
  "decideDelivery cat env now row e u rs pf wantsDigest s =
     (if ev_suppressed env (rs_email rs)
      then settled cat now (ob_id row) ob_suppressed (Some ''address_suppressed'') (ob_chInApp row) None
             out_suppressed s
      else
        (let (s1, cooldownRemainingMs) = cooldownRemaining (ev_redisUp env) now u (ob_key row) e s
         in if 0 < cooldownRemainingMs
            then (setOutbox (ob_id row)
                    (\<lambda>r. r\<lparr>ob_state := ob_deferred, ob_availableAt := now + cooldownRemainingMs\<rparr>) s1,
                  PlanSettled out_deferred)
            else
              (case capGate env now u rs e pf wantsDigest s1 of
                 cap_drop \<Rightarrow>
                   settled cat now (ob_id row) ob_dispatched (Some ''daily_cap'') (ob_chInApp row)
                     (Some dv_suppressed) out_in_app_only s1
               | cap_to_digest \<Rightarrow>
                   (attachToDigest env now row u (ce_audience e) s1, PlanSettled out_digested)
               | cap_below \<Rightarrow>
                   (s1, PlanSend \<lparr>pl_row = row, pl_entry = e, pl_to = rs_email rs\<rparr>))))"

definition decideForUser ::
  "catalog \<Rightarrow> dispatch_env \<Rightarrow> instant \<Rightarrow> outbox_row \<Rightarrow> catalog_entry \<Rightarrow> uid \<Rightarrow> comm_state \<Rightarrow> comm_state \<times> dispatch_plan"
  where
  "decideForUser cat env now row e u s =
     (let i = ob_id row; inApp = ob_chInApp row
      in case loadRecipient env u of
           None \<Rightarrow> settled cat now i ob_suppressed (Some ''recipient_unavailable'') inApp None out_suppressed s
         | Some rs \<Rightarrow>
             if campaignCancelled env row
             then settled cat now i ob_suppressed (Some ''campaign_cancelled'') inApp None out_suppressed s
             else if ce_requiresLiveAcademy e \<and> \<not> academyIsLive env (ob_academyId row)
             then settled cat now i ob_suppressed (Some ''academy_archived'') inApp None out_suppressed s
             else if ob_chEmail row = em_never
             then settled cat now i ob_dispatched None inApp None out_in_app_only s
             else if isStale now row e
             then settled cat now i ob_dispatched (Some ''stale'') inApp (Some dv_suppressed) out_in_app_only s
             else
               (let pf = resolveCommunicationPreferences (rs_preferences rs) (rs_isStaff rs)
                in case preferenceGate (ce_category e) (ob_chEmail row) pf of
                     None \<Rightarrow> settled cat now i ob_dispatched (Some ''preference_off'') inApp
                               (Some dv_suppressed) out_in_app_only s
                   | Some wantsDigest \<Rightarrow> decideDelivery cat env now row e u rs pf wantsDigest s))"

definition decideForAddress ::
  "catalog \<Rightarrow> dispatch_env \<Rightarrow> instant \<Rightarrow> outbox_row \<Rightarrow> catalog_entry \<Rightarrow> string \<Rightarrow> comm_state \<Rightarrow> comm_state \<times> dispatch_plan"
  where
  "decideForAddress cat env now row e email s =
     (if \<not> ce_addressRecipient e
      then settled cat now (ob_id row) ob_failed (Some ''address_recipient_not_allowed'') False None out_failed s
      else if ev_suppressed env email
      then settled cat now (ob_id row) ob_suppressed (Some ''address_suppressed'') False None out_suppressed s
      else (s, PlanSend \<lparr>pl_row = row, pl_entry = e, pl_to = email\<rparr>))"

text \<open>
  \<open>decide\<close> of the dispatcher.  An unknown key is reported as \<open>unknown_key:\<close> and the key.
\<close>

definition decideRow :: "catalog \<Rightarrow> dispatch_env \<Rightarrow> instant \<Rightarrow> outbox_row \<Rightarrow> comm_state \<Rightarrow> comm_state \<times> dispatch_plan"
  where
  "decideRow cat env now row s =
     (if ob_recipientUserId row = None \<and> ob_recipientEmail row = None
      then settled cat now (ob_id row) ob_suppressed (Some ''no_recipient'') False None out_suppressed s
      else
        (case cat (ob_key row) of
           None \<Rightarrow> settled cat now (ob_id row) ob_failed (Some (''unknown_key:'' @ ob_key row)) False None
                     out_failed s
         | Some e \<Rightarrow>
             (case ob_recipientUserId row of
                None \<Rightarrow> decideForAddress cat env now row e (orElse (ob_recipientEmail row) []) s
              | Some u \<Rightarrow> decideForUser cat env now row e u s)))"

definition decideDispatch ::
  "catalog \<Rightarrow> dispatch_env \<Rightarrow> instant \<Rightarrow> nat \<Rightarrow> comm_state \<Rightarrow> comm_state \<times> dispatch_plan" where
  "decideDispatch cat env now i s =
     (case claimOutbox now i (cm_outbox s) of
        (_, False) \<Rightarrow> (s, PlanSettled out_skipped)
      | (t, True) \<Rightarrow>
          (let s1 = s\<lparr>cm_outbox := t\<rparr>
           in case findOutbox s1 i of
                None \<Rightarrow> settled cat now i ob_suppressed (Some ''no_recipient'') False None out_suppressed s1
              | Some row \<Rightarrow> decideRow cat env now row s1))"

subsection \<open>How a send ends\<close>

record dispatch_attempt =
  da_made :: nat
  da_max :: nat

datatype send_result =
    SendAccepted
  | SendQuotaExhausted instant string
  | SendError string

definition recordSent ::
  "bool \<Rightarrow> instant \<Rightarrow> dispatch_attempt \<Rightarrow> send_plan \<Rightarrow> comm_state \<Rightarrow> comm_state" where
  "recordSent redisUp now a p s =
     (let i = ob_id (pl_row p);
          s1 = addDeliveries [channelDelivery i ch_email dv_sent None (da_made a + 1) now] s;
          s2 = setOutbox i
                 (\<lambda>r. r\<lparr>ob_state := ob_dispatched, ob_dispatchedAt := Some now, ob_lastError := None,
                       ob_values := (case withoutCredentials (pl_entry p) (ob_values (pl_row p)) of
                                       None \<Rightarrow> ob_values r | Some v \<Rightarrow> Some v)\<rparr>) s1
      in (case ob_recipientUserId (pl_row p) of
            None \<Rightarrow> s2
          | Some u \<Rightarrow> countTowardsDailyCap redisUp now u s2))"

definition deferForProviderQuota :: "instant \<Rightarrow> string \<Rightarrow> send_plan \<Rightarrow> comm_state \<Rightarrow> comm_state" where
  "deferForProviderQuota retryAt reason p s =
     setOutbox (ob_id (pl_row p))
       (\<lambda>r. r\<lparr>ob_state := ob_deferred, ob_availableAt := retryAt, ob_attempts := ob_attempts r - 1,
             ob_lastError := Some (''provider_quota_exhausted:'' @ reason)\<rparr>) s"

definition handleSendFailure ::
  "instant \<Rightarrow> dispatch_attempt \<Rightarrow> string \<Rightarrow> send_plan \<Rightarrow> comm_state \<Rightarrow> comm_state" where
  "handleSendFailure now a message p s =
     (let i = ob_id (pl_row p);
          s1 = addDeliveries [channelDelivery i ch_email dv_failed (Some (take 200 message)) (da_made a + 1) now] s
      in if da_made a + 1 \<ge> da_max a
         then setOutbox i
                (\<lambda>r. r\<lparr>ob_state := ob_failed, ob_lastError := Some (take 1000 message),
                      ob_values := (case withoutCredentials (pl_entry p) (ob_values (pl_row p)) of
                                      None \<Rightarrow> ob_values r | Some v \<Rightarrow> Some v)\<rparr>) s1
         else setOutbox i
                (\<lambda>r. r\<lparr>ob_state := ob_pending, ob_availableAt := now,
                      ob_lastError := Some (take 1000 message)\<rparr>) s1)"

text \<open>What follows the call of the provider; \<open>True\<close> when the job's promise is rejected.\<close>

definition finishSend ::
  "bool \<Rightarrow> instant \<Rightarrow> dispatch_attempt \<Rightarrow> send_plan \<Rightarrow> send_result \<Rightarrow> comm_state \<Rightarrow> comm_state \<times> bool" where
  "finishSend redisUp now a p result s =
     (case result of
        SendAccepted \<Rightarrow> (recordSent redisUp now a p s, False)
      | SendQuotaExhausted retryAt reason \<Rightarrow>
          if ob_category (pl_row p) \<noteq> cat_security
          then (deferForProviderQuota retryAt reason p s, False)
          else (handleSendFailure now a ''No email provider had quota available for this category.'' p s, True)
      | SendError message \<Rightarrow> (handleSendFailure now a message p s, True))"

end
