(* ===== verification/Comm_Digests.thy ===== *)
theory Comm_Digests
  imports Comm_Dispatch
begin

text \<open>
  The periodic jobs of communications (\<open>communication-dispatch.service.ts\<close>): sending the digest
  windows that are due, handing due rows to the queue again, retention, and the safety net that
  removes left-over credentials; and the requests of the component as one history.
\<close>

subsection \<open>Claiming a window\<close>

definition digestClaimable :: "instant \<Rightarrow> digest_row \<Rightarrow> bool" where
  "digestClaimable now d \<longleftrightarrow>
     dg_state d = dg_open
     \<and> (case dg_sentAt d of None \<Rightarrow> True | Some t \<Rightarrow> t \<le> now - COMMUNICATION_CLAIM_LEASE_MS)"

definition claimDigest :: "instant \<Rightarrow> nat \<Rightarrow> digest_row list \<Rightarrow> digest_row list \<times> bool" where
  "claimDigest now d t = guarded dg_id (digestClaimable now) (\<lambda>x. x\<lparr>dg_sentAt := Some now\<rparr>) d t"

interpretation digest_claim: guarded_write dg_id "digestClaimable now" "\<lambda>x. x\<lparr>dg_sentAt := Some now\<rparr>" for now
  by unfold_locales (simp_all add: digestClaimable_def ms_simps)

definition setDigest :: "nat \<Rightarrow> (digest_row \<Rightarrow> digest_row) \<Rightarrow> comm_state \<Rightarrow> comm_state" where
  "setDigest d f s = s\<lparr>cm_digests := map (\<lambda>x. if dg_id x = d then f x else x) (cm_digests s)\<rparr>"

definition releaseDigestClaim :: "nat \<Rightarrow> comm_state \<Rightarrow> comm_state" where
  "releaseDigestClaim d s = setDigest d (\<lambda>x. if dg_state x = dg_open then x\<lparr>dg_sentAt := None\<rparr> else x) s"

definition closeEmptyDigest :: "nat \<Rightarrow> comm_state \<Rightarrow> comm_state" where
  "closeEmptyDigest d s = setDigest d (\<lambda>x. x\<lparr>dg_state := dg_empty, dg_sentAt := None, dg_itemCount := 0\<rparr>) s"

definition allowedByPreference :: "comm_category \<Rightarrow> comm_preferences \<Rightarrow> bool" where
  "allowedByPreference c pf =
     (if c = cat_engagement then pf_engagementEmail pf
      else if c = cat_operational then (case pf_operational pf of None \<Rightarrow> True | Some (email, _) \<Rightarrow> email)
      else True)"

definition updateRows :: "nat list \<Rightarrow> (outbox_row \<Rightarrow> outbox_row) \<Rightarrow> comm_state \<Rightarrow> comm_state" where
  "updateRows is f s = s\<lparr>cm_outbox := map (\<lambda>r. if List.member is (ob_id r) then f r else r) (cm_outbox s)\<rparr>"

text \<open>\<open>values\<close> is written from the row that was read, as the code does.\<close>

definition scrubSettledRows :: "catalog \<Rightarrow> outbox_row list \<Rightarrow> comm_state \<Rightarrow> comm_state" where
  "scrubSettledRows cat rows s =
     fold (\<lambda>row s.
       (case cat (ob_key row) of
          None \<Rightarrow> s
        | Some e \<Rightarrow> (case withoutCredentials e (ob_values row) of
                       None \<Rightarrow> s
                     | Some v \<Rightarrow> setOutbox (ob_id row) (\<lambda>r. r\<lparr>ob_values := Some v\<rparr>) s))) rows s"

definition settleAsInAppOnly :: "instant \<Rightarrow> nat list \<Rightarrow> string \<Rightarrow> comm_state \<Rightarrow> comm_state" where
  "settleAsInAppOnly now is reason s =
     addDeliveries (map (\<lambda>i. channelDelivery i ch_email dv_suppressed (Some reason) 0 now) is)
       (updateRows is (\<lambda>r. r\<lparr>ob_state := ob_dispatched, ob_dispatchedAt := Some now,
                             ob_lastError := Some reason\<rparr>) s)"

record digest_plan =
  dp_digestId :: nat
  dp_to :: string
  dp_recipientUserId :: uid
  dp_items :: "outbox_row list"

definition digestItems :: "comm_state \<Rightarrow> nat \<Rightarrow> outbox_row list" where
  "digestItems s d =
     sort_key ob_createdAt (filter (\<lambda>r. ob_digestId r = Some d \<and> ob_state r = ob_deferred) (cm_outbox s))"

definition knownKey :: "catalog \<Rightarrow> outbox_row \<Rightarrow> bool" where
  "knownKey cat r \<longleftrightarrow> cat (ob_key r) \<noteq> None"

text \<open>The transaction of \<open>sendDigest\<close> that comes before the send.\<close>

definition planDigestFor ::
  "catalog \<Rightarrow> dispatch_env \<Rightarrow> instant \<Rightarrow> nat \<Rightarrow> digest_row \<Rightarrow> comm_state \<Rightarrow> comm_state \<times> digest_plan option" where
  "planDigestFor cat env now d digest s =
     (let items = digestItems s d
      in if items = [] then (closeEmptyDigest d s, None)
         else
           (case loadRecipient env (dg_recipientUserId digest) of
              None \<Rightarrow>
                (closeEmptyDigest d (scrubSettledRows cat items
                   (updateRows (map ob_id items)
                      (\<lambda>r. r\<lparr>ob_state := ob_suppressed, ob_lastError := Some ''recipient_unavailable''\<rparr>) s)), None)
            | Some rs \<Rightarrow>
                if ev_suppressed env (rs_email rs)
                then (closeEmptyDigest d (scrubSettledRows cat items
                   (updateRows (map ob_id items)
                      (\<lambda>r. r\<lparr>ob_state := ob_suppressed, ob_lastError := Some ''recipient_unavailable''\<rparr>) s)), None)
                else
                  (let unknown = filter (\<lambda>r. \<not> knownKey cat r) items;
                       s1 = updateRows (map ob_id unknown)
                              (\<lambda>r. r\<lparr>ob_state := ob_failed, ob_lastError := Some ''unknown_key''\<rparr>) s;
                       known = filter (knownKey cat) items;
                       pf = resolveCommunicationPreferences (rs_preferences rs) (rs_isStaff rs);
                       silenced = filter (\<lambda>r. \<not> allowedByPreference (ob_category r) pf) known;
                       s2 = (if silenced = [] then s1
                             else scrubSettledRows cat silenced
                                    (settleAsInAppOnly now (map ob_id silenced) ''preference_off'' s1));
                       included = filter (\<lambda>r. allowedByPreference (ob_category r) pf) known
                   in if included = [] then (closeEmptyDigest d s2, None)
                      else (s2, Some \<lparr>dp_digestId = d, dp_to = rs_email rs,
                                      dp_recipientUserId = dg_recipientUserId digest, dp_items = included\<rparr>))))"

definition planDigest ::
  "catalog \<Rightarrow> dispatch_env \<Rightarrow> instant \<Rightarrow> nat \<Rightarrow> comm_state \<Rightarrow> comm_state \<times> digest_plan option" where
  "planDigest cat env now d s =
     (case claimDigest now d (cm_digests s) of
        (_, False) \<Rightarrow> (s, None)
      | (t, True) \<Rightarrow>
          (let s1 = s\<lparr>cm_digests := t\<rparr>
           in case find_by dg_id d (cm_digests s1) of
                None \<Rightarrow> (s1, None)
              | Some digest \<Rightarrow> planDigestFor cat env now d digest s1))"

text \<open>The transaction after an accepted send, and the release after a failed one.\<close>

definition finishDigest ::
  "catalog \<Rightarrow> bool \<Rightarrow> instant \<Rightarrow> digest_plan \<Rightarrow> bool \<Rightarrow> comm_state \<Rightarrow> comm_state" where
  "finishDigest cat redisUp now p accepted s =
     (if \<not> accepted then releaseDigestClaim (dp_digestId p) s
      else
        (let is = map ob_id (dp_items p);
             s1 = addDeliveries (map (\<lambda>i. channelDelivery i ch_email dv_sent None 1 now) is) s;
             s2 = updateRows is (\<lambda>r. r\<lparr>ob_state := ob_dispatched, ob_dispatchedAt := Some now\<rparr>) s1;
             s3 = scrubSettledRows cat (dp_items p) s2;
             s4 = setDigest (dp_digestId p)
                    (\<lambda>x. x\<lparr>dg_state := dg_sent, dg_sentAt := Some now, dg_itemCount := length is\<rparr>) s3
         in countTowardsDailyCap redisUp now (dp_recipientUserId p) s4))"

definition dueDigests :: "instant \<Rightarrow> comm_state \<Rightarrow> nat list" where
  "dueDigests now s =
     map dg_id (take 100 (sort_key dg_windowEnd
       (filter (\<lambda>d. dg_state d = dg_open \<and> dg_windowEnd d \<le> now) (cm_digests s))))"

text \<open>One run of the hourly job; \<open>accepted\<close> is what the provider answers for each window.\<close>

definition sendDigest ::
  "catalog \<Rightarrow> dispatch_env \<Rightarrow> instant \<Rightarrow> nat \<Rightarrow> bool \<Rightarrow> comm_state \<Rightarrow> comm_state \<times> bool" where
  "sendDigest cat env now d accepted s =
     (case planDigest cat env now d s of
        (s1, None) \<Rightarrow> (s1, False)
      | (s1, Some p) \<Rightarrow> (finishDigest cat (ev_redisUp env) now p accepted s1, accepted))"

definition sendDueDigests ::
  "catalog \<Rightarrow> dispatch_env \<Rightarrow> instant \<Rightarrow> (nat \<Rightarrow> bool) \<Rightarrow> comm_state \<Rightarrow> comm_state \<times> nat" where
  "sendDueDigests cat env now accepted s =
     (if \<not> ev_platformOwner env then (s, 0)
      else fold (\<lambda>d (s, sent). case sendDigest cat env now d (accepted d) s of
                                 (s', ok) \<Rightarrow> (s', if ok then sent + 1 else sent))
             (dueDigests now s) (s, 0))"

subsection \<open>The queue and the sweep\<close>

text \<open>
  A job on the queue: the outbox row, the attempts count that makes its id, and how often BullMQ
  has run it.  A job whose id is taken is not added again.
\<close>

record dispatch_job =
  jb_outboxId :: nat
  jb_tag :: nat
  jb_made :: nat
  jb_failed :: bool

definition enqueueDispatch :: "nat \<Rightarrow> nat \<Rightarrow> dispatch_job list \<Rightarrow> dispatch_job list" where
  "enqueueDispatch i n q =
     (if list_ex (\<lambda>j. jb_outboxId j = i \<and> jb_tag j = n) q then q
      else q @ [\<lparr>jb_outboxId = i, jb_tag = n, jb_made = 0, jb_failed = False\<rparr>])"

text \<open>\<open>dispatch\<close> of one row, the provider's answer given.\<close>

definition dispatch ::
  "catalog \<Rightarrow> dispatch_env \<Rightarrow> instant \<Rightarrow> nat \<Rightarrow> dispatch_attempt \<Rightarrow> send_result \<Rightarrow> comm_state \<Rightarrow> comm_state \<times> bool" where
  "dispatch cat env now i a result s =
     (if \<not> ev_platformOwner env then (s, False)
      else (case decideDispatch cat env now i s of
              (s1, PlanSettled _) \<Rightarrow> (s1, False)
            | (s1, PlanSend p) \<Rightarrow> finishSend (ev_redisUp env) now a p result s1))"

text \<open>
  One run of a job: a rejected promise leaves the job on the queue, as failed when its attempts
  are used up, and a kept promise removes it.
\<close>

definition runJob ::
  "catalog \<Rightarrow> dispatch_env \<Rightarrow> instant \<Rightarrow> nat \<Rightarrow> nat \<Rightarrow> send_result \<Rightarrow> comm_state \<times> dispatch_job list
   \<Rightarrow> comm_state \<times> dispatch_job list" where
  "runJob cat env now i tag result sq =
     (let (s, q) = sq
      in case find (\<lambda>j. jb_outboxId j = i \<and> jb_tag j = tag \<and> \<not> jb_failed j) q of
           None \<Rightarrow> (s, q)
         | Some j \<Rightarrow>
             (case dispatch cat env now i \<lparr>da_made = jb_made j, da_max = COMMUNICATION_DISPATCH_ATTEMPTS\<rparr> result s of
                (s', True) \<Rightarrow>
                  (s', map (\<lambda>x. if jb_outboxId x = i \<and> jb_tag x = tag
                               then x\<lparr>jb_made := jb_made x + 1,
                                      jb_failed := (COMMUNICATION_DISPATCH_ATTEMPTS \<le> jb_made x + 1)\<rparr>
                               else x) q)
              | (s', False) \<Rightarrow> (s', filter (\<lambda>x. \<not> (jb_outboxId x = i \<and> jb_tag x = tag)) q)))"

definition dueRows :: "instant \<Rightarrow> comm_state \<Rightarrow> outbox_row list" where
  "dueRows now s = take 500 (sort_key ob_availableAt (filter (claimable now) (cm_outbox s)))"

definition sweepOutbox :: "bool \<Rightarrow> instant \<Rightarrow> comm_state \<Rightarrow> dispatch_job list \<Rightarrow> dispatch_job list" where
  "sweepOutbox platformOwner now s q =
     (if platformOwner then fold (\<lambda>r. enqueueDispatch (ob_id r) (ob_attempts r)) (dueRows now s) q else q)"

subsection \<open>Retention\<close>

definition SHORT_LIVED_CODE_SCRUB_AFTER_MS :: int where "SHORT_LIVED_CODE_SCRUB_AFTER_MS = 60 * 60 * 1000"

definition SHORT_LIVED_CODE_KEYS :: "string list" where
  "SHORT_LIVED_CODE_KEYS = [''auth.email.otp'', ''auth.account.deletion_code'']"

definition isSettled :: "outbox_row \<Rightarrow> bool" where
  "isSettled r \<longleftrightarrow> ob_state r = ob_dispatched \<or> ob_state r = ob_suppressed \<or> ob_state r = ob_failed"

definition scrubLeftoverCredentials :: "catalog \<Rightarrow> instant \<Rightarrow> comm_state \<Rightarrow> comm_state" where
  "scrubLeftoverCredentials cat now s =
     s\<lparr>cm_outbox := map (\<lambda>r.
         (let r1 = (case cat (ob_key r) of
                      None \<Rightarrow> r
                    | Some e \<Rightarrow>
                        if isSettled r
                        then r\<lparr>ob_values := map_option (withoutKeys (ce_credentialValues e)) (ob_values r)\<rparr>
                        else r)
          in if List.member SHORT_LIVED_CODE_KEYS (ob_key r)
                \<and> ob_createdAt r < now - SHORT_LIVED_CODE_SCRUB_AFTER_MS
             then r1\<lparr>ob_values := map_option (withoutKeys [''code'']) (ob_values r1)\<rparr>
             else r1)) (cm_outbox s)\<rparr>"

definition notificationExpired :: "instant \<Rightarrow> notification_row \<Rightarrow> bool" where
  "notificationExpired now n \<longleftrightarrow> nt_createdAt n < now - (if nt_extended n then 365 else 180) * day_ms"

text \<open>A delivery goes with its outbox row, an item of a digest that goes loses its digest.\<close>

definition pruneRows :: "instant \<Rightarrow> comm_state \<Rightarrow> comm_state" where
  "pruneRows now s =
     (let cutoff = now - COMMUNICATION_RETENTION_DAYS * 24 * 60 * 60 * 1000;
          oldRows = map ob_id (filter (\<lambda>r. ob_createdAt r < cutoff) (cm_outbox s));
          oldDigests = map dg_id (filter (\<lambda>d. dg_createdAt d < cutoff) (cm_digests s))
      in s\<lparr>cm_deliveries := filter (\<lambda>d. \<not> dl_createdAt d < cutoff \<and> \<not> List.member oldRows (dl_outboxId d))
                              (cm_deliveries s),
           cm_outbox := map (\<lambda>r. if (case ob_digestId r of None \<Rightarrow> False | Some d \<Rightarrow> List.member oldDigests d)
                                 then r\<lparr>ob_digestId := None\<rparr> else r)
                          (filter (\<lambda>r. \<not> ob_createdAt r < cutoff) (cm_outbox s)),
           cm_digests := filter (\<lambda>d. \<not> dg_createdAt d < cutoff) (cm_digests s),
           cm_notifications := filter (\<lambda>n. \<not> notificationExpired now n) (cm_notifications s)\<rparr>)"

definition prune :: "catalog \<Rightarrow> instant \<Rightarrow> comm_state \<Rightarrow> comm_state" where
  "prune cat now s = scrubLeftoverCredentials cat now (pruneRows now s)"

end
