(* ===== verification/Comm_Histories.thy ===== *)
theory Comm_Histories
  imports Comm_Digests
begin

text \<open>
  Communications over any history: workers claim rows, hold their plans while the provider
  answers, and write the outcome later, in any order; a worker may also die in between.  Every
  transaction of the code is one step.
\<close>

subsection \<open>The world and its steps\<close>

record comm_world =
  cw_state :: comm_state
  cw_sends :: "send_plan list"
  cw_digestSends :: "digest_plan list"

datatype comm_step =
    Emit bool instant emit_input
  | EmitToAddress instant string string entity_ref json_values
  | Forget uid string entity_ref
  | Begin dispatch_env instant nat
  | Finish bool instant dispatch_attempt nat send_result
  | Crash nat
  | BeginDigest dispatch_env instant nat
  | FinishDigest bool instant nat bool
  | CrashDigest nat
  | Prune instant

definition removeNth :: "nat \<Rightarrow> 'a list \<Rightarrow> 'a list" where
  "removeNth n xs = take n xs @ drop (Suc n) xs"

definition beginDispatch :: "catalog \<Rightarrow> dispatch_env \<Rightarrow> instant \<Rightarrow> nat \<Rightarrow> comm_state \<Rightarrow> comm_state \<times> dispatch_plan"
  where
  "beginDispatch cat env now i s =
     (if ev_platformOwner env then decideDispatch cat env now i s else (s, PlanSettled out_skipped))"

fun commStep :: "catalog \<Rightarrow> comm_step \<Rightarrow> comm_world \<Rightarrow> comm_world" where
  "commStep cat (Emit up now inp) w = w\<lparr>cw_state := fst (emitEvent cat up now inp (cw_state w))\<rparr>"
| "commStep cat (EmitToAddress now k a x v) w =
     (case emitToAddress cat now k a x v (cw_state w) of None \<Rightarrow> w | Some (s, _) \<Rightarrow> w\<lparr>cw_state := s\<rparr>)"
| "commStep cat (Forget u k x) w = w\<lparr>cw_state := forgetEntity cat u k x (cw_state w)\<rparr>"
| "commStep cat (Begin env now i) w =
     (case beginDispatch cat env now i (cw_state w) of
        (s, PlanSettled _) \<Rightarrow> w\<lparr>cw_state := s\<rparr>
      | (s, PlanSend p) \<Rightarrow> w\<lparr>cw_state := s, cw_sends := cw_sends w @ [p]\<rparr>)"
| "commStep cat (Finish up now a n result) w =
     (if n < length (cw_sends w)
      then w\<lparr>cw_state := fst (finishSend up now a (cw_sends w ! n) result (cw_state w)),
             cw_sends := removeNth n (cw_sends w)\<rparr>
      else w)"
| "commStep cat (Crash n) w = w\<lparr>cw_sends := removeNth n (cw_sends w)\<rparr>"
| "commStep cat (BeginDigest env now d) w =
     (if ev_platformOwner env then
        (case planDigest cat env now d (cw_state w) of
           (s, None) \<Rightarrow> w\<lparr>cw_state := s\<rparr>
         | (s, Some p) \<Rightarrow> w\<lparr>cw_state := s, cw_digestSends := cw_digestSends w @ [p]\<rparr>)
      else w)"
| "commStep cat (FinishDigest up now n accepted) w =
     (if n < length (cw_digestSends w)
      then w\<lparr>cw_state := finishDigest cat up now (cw_digestSends w ! n) accepted (cw_state w),
             cw_digestSends := removeNth n (cw_digestSends w)\<rparr>
      else w)"
| "commStep cat (CrashDigest n) w = w\<lparr>cw_digestSends := removeNth n (cw_digestSends w)\<rparr>"
| "commStep cat (Prune now) w = w\<lparr>cw_state := prune cat now (cw_state w)\<rparr>"

definition emptyComm :: comm_world where
  "emptyComm =
     \<lparr>cw_state = \<lparr>cm_nextId = 0, cm_outbox = [], cm_deliveries = [], cm_digests = [], cm_notifications = [],
                  cm_cooldowns = (\<lambda>_. None), cm_sentToday = (\<lambda>_. 0)\<rparr>,
      cw_sends = [], cw_digestSends = []\<rparr>"

definition commHistory :: "catalog \<Rightarrow> comm_step list \<Rightarrow> comm_world" where
  "commHistory cat ss = fold (commStep cat) ss emptyComm"

lemma set_removeNth: "set (removeNth n xs) \<subseteq> set xs"
  by (auto simp: removeNth_def dest: in_set_takeD in_set_dropD)

subsection \<open>What a row may become\<close>

definition scrubKeysOf :: "catalog \<Rightarrow> outbox_row \<Rightarrow> string set" where
  "scrubKeysOf cat r =
     (case (cat (ob_key r), ob_values r) of
        (Some e, Some v) \<Rightarrow> set (settleScrubKeys e) \<inter> fst ` set v
      | _ \<Rightarrow> {})"

definition descends :: "catalog \<Rightarrow> outbox_row \<Rightarrow> outbox_row \<Rightarrow> bool" where
  "descends cat r' r \<longleftrightarrow>
     ob_id r' = ob_id r \<and> ob_key r' = ob_key r \<and> ob_recipientUserId r' = ob_recipientUserId r
     \<and> ob_recipientEmail r' = ob_recipientEmail r \<and> ob_dedupeKey r' = ob_dedupeKey r
     \<and> scrubKeysOf cat r' \<subseteq> scrubKeysOf cat r"

lemma descends_refl [simp]: "descends cat r r"
  by (simp add: descends_def)

lemma descends_trans: "descends cat r t \<Longrightarrow> descends cat t u \<Longrightarrow> descends cat r u"
  by (auto simp: descends_def)

lemma descends_same_values:
  "ob_id r' = ob_id r \<Longrightarrow> ob_key r' = ob_key r \<Longrightarrow> ob_recipientUserId r' = ob_recipientUserId r
   \<Longrightarrow> ob_recipientEmail r' = ob_recipientEmail r \<Longrightarrow> ob_dedupeKey r' = ob_dedupeKey r
   \<Longrightarrow> ob_values r' = ob_values r \<Longrightarrow> descends cat r' r"
  by (simp add: descends_def scrubKeysOf_def)

lemma keys_withoutKeys: "fst ` set (withoutKeys ks v) = fst ` set v - set ks"
  by (force simp: withoutKeys_def)

lemma without_scrubs:
  assumes "cat (ob_key r) = Some e" "withoutCredentials e (ob_values r) = Some v"
  shows "scrubKeysOf cat (r\<lparr>ob_values := Some v\<rparr>) = {}"
proof -
  obtain u where "v = withoutKeys (settleScrubKeys e) u"
    using assms(2) by (auto simp: withoutCredentials_def split: option.splits if_splits)
  then have "fst ` set v \<inter> set (settleScrubKeys e) = {}" by (auto simp: keys_withoutKeys)
  then show ?thesis using assms(1) by (auto simp: scrubKeysOf_def)
qed

lemma without_nothing:
  assumes "cat (ob_key r) = Some e" "withoutCredentials e (ob_values r) = None"
  shows "scrubKeysOf cat r = {}"
  using assms
  by (auto simp: withoutCredentials_def scrubKeysOf_def list_ex_iff split: option.splits if_splits)

lemma scrubRow_clean: "scrubKeysOf cat (scrubRow cat r) = {}"
proof (cases "cat (ob_key r)")
  case None
  then show ?thesis by (simp add: scrubRow_def scrubKeysOf_def)
next
  case (Some e)
  then show ?thesis
    by (cases "withoutCredentials e (ob_values r)")
      (simp_all add: scrubRow_def without_nothing without_scrubs)
qed

lemma scrubRow_fields [simp]:
  "ob_id (scrubRow cat r) = ob_id r" "ob_key (scrubRow cat r) = ob_key r"
  "ob_recipientUserId (scrubRow cat r) = ob_recipientUserId r"
  "ob_recipientEmail (scrubRow cat r) = ob_recipientEmail r"
  "ob_dedupeKey (scrubRow cat r) = ob_dedupeKey r"
  "ob_state (scrubRow cat r) = ob_state r"
  "ob_availableAt (scrubRow cat r) = ob_availableAt r"
  "ob_attempts (scrubRow cat r) = ob_attempts r"
  by (simp_all add: scrubRow_def split: option.split)

definition settled_clean :: "catalog \<Rightarrow> outbox_row \<Rightarrow> bool" where
  "settled_clean cat r \<longleftrightarrow> (isSettled r \<longrightarrow> scrubKeysOf cat r = {})"

subsection \<open>Operations that only rewrite or delete rows\<close>

definition evolves :: "catalog \<Rightarrow> comm_state \<Rightarrow> comm_state \<Rightarrow> bool" where
  "evolves cat s s' \<longleftrightarrow>
     cm_nextId s \<le> cm_nextId s'
     \<and> (\<exists>f p. cm_outbox s' = map f (filter p (cm_outbox s))
            \<and> (\<forall>r\<in>set (cm_outbox s). p r \<longrightarrow> descends cat (f r) r))"

lemma evolves_map:
  "cm_outbox s' = map f (cm_outbox s) \<Longrightarrow> cm_nextId s \<le> cm_nextId s'
   \<Longrightarrow> (\<And>r. r \<in> set (cm_outbox s) \<Longrightarrow> descends cat (f r) r) \<Longrightarrow> evolves cat s s'"
  unfolding evolves_def by (intro conjI exI [of _ f] exI [of _ "\<lambda>_. True"]) simp_all

lemma evolves_same:
  "cm_outbox s' = cm_outbox s \<Longrightarrow> cm_nextId s \<le> cm_nextId s' \<Longrightarrow> evolves cat s s'"
  by (rule evolves_map [of _ id]) simp_all

lemma evolves_refl [simp]: "evolves cat s s"
  by (rule evolves_same) simp_all

lemma evolves_trans:
  assumes "evolves cat s t" "evolves cat t u"
  shows "evolves cat s u"
proof -
  obtain f p where t: "cm_outbox t = map f (filter p (cm_outbox s))"
    "\<And>r. r \<in> set (cm_outbox s) \<Longrightarrow> p r \<Longrightarrow> descends cat (f r) r"
    using assms(1) by (auto simp: evolves_def)
  obtain g q where u: "cm_outbox u = map g (filter q (cm_outbox t))"
    "\<And>r. r \<in> set (cm_outbox t) \<Longrightarrow> q r \<Longrightarrow> descends cat (g r) r"
    using assms(2) by (auto simp: evolves_def)
  have "cm_outbox u = map (g \<circ> f) (filter (\<lambda>r. p r \<and> q (f r)) (cm_outbox s))"
    by (simp add: t(1) u(1) filter_map o_def conj_commute)
  moreover have "descends cat ((g \<circ> f) r) r" if "r \<in> set (cm_outbox s)" "p r \<and> q (f r)" for r
  proof -
    have "f r \<in> set (cm_outbox t)" using that by (simp add: t(1))
    then show ?thesis using t(2) u(2) that descends_trans by (metis comp_apply)
  qed
  moreover have "cm_nextId s \<le> cm_nextId u" using assms by (simp add: evolves_def)
  ultimately show ?thesis unfolding evolves_def by blast
qed

lemma evolves_source:
  assumes "evolves cat s s'" "r' \<in> set (cm_outbox s')"
  obtains r where "r \<in> set (cm_outbox s)" "descends cat r' r"
proof -
  from assms(1) obtain f p where
    f: "cm_outbox s' = map f (filter p (cm_outbox s))"
       "\<forall>r\<in>set (cm_outbox s). p r \<longrightarrow> descends cat (f r) r"
    unfolding evolves_def by blast
  from f(1) assms(2) obtain r where "r \<in> set (cm_outbox s)" "p r" "r' = f r" by auto
  with f(2) that show thesis by blast
qed

lemma evolves_ids:
  assumes "evolves cat s s'" "distinct (map ob_id (cm_outbox s))"
  shows "distinct (map ob_id (cm_outbox s'))"
proof -
  obtain f p where f: "cm_outbox s' = map f (filter p (cm_outbox s))"
      "\<forall>r\<in>set (cm_outbox s). p r \<longrightarrow> descends cat (f r) r"
    using assms(1) by (auto simp: evolves_def)
  then have "map ob_id (cm_outbox s') = map ob_id (filter p (cm_outbox s))"
    by (simp add: descends_def)
  with assms(2) show ?thesis by (simp add: distinct_concat_filter)
qed

text \<open>\<open>safe\<close>: rows evolve, and whatever is settled afterwards holds nothing it should not.\<close>

definition all_clean :: "catalog \<Rightarrow> comm_state \<Rightarrow> bool" where
  "all_clean cat s \<longleftrightarrow> (\<forall>r\<in>set (cm_outbox s). settled_clean cat r)"

definition safe :: "catalog \<Rightarrow> comm_state \<Rightarrow> comm_state \<Rightarrow> bool" where
  "safe cat s s' \<longleftrightarrow> evolves cat s s' \<and> (all_clean cat s \<longrightarrow> all_clean cat s')"

lemma safe_same:
  "cm_outbox s' = cm_outbox s \<Longrightarrow> cm_nextId s \<le> cm_nextId s' \<Longrightarrow> safe cat s s'"
  by (simp add: safe_def evolves_same all_clean_def)

lemma safe_refl [simp]: "safe cat s s"
  by (simp add: safe_def)

lemma safe_trans: "safe cat s t \<Longrightarrow> safe cat t u \<Longrightarrow> safe cat s u"
  using evolves_trans by (auto simp: safe_def)

lemma safe_map:
  assumes "cm_outbox s' = map f (cm_outbox s)" "cm_nextId s \<le> cm_nextId s'"
    and "\<And>r. r \<in> set (cm_outbox s) \<Longrightarrow> descends cat (f r) r"
    and "\<And>r. r \<in> set (cm_outbox s) \<Longrightarrow> settled_clean cat r \<Longrightarrow> settled_clean cat (f r)"
  shows "safe cat s s'"
  using assms by (auto simp: safe_def all_clean_def intro: evolves_map)

lemma safe_setOutbox:
  assumes "\<And>r. r \<in> set (cm_outbox s) \<Longrightarrow> ob_id r = i \<Longrightarrow> descends cat (f r) r"
    and "\<And>r. r \<in> set (cm_outbox s) \<Longrightarrow> ob_id r = i \<Longrightarrow> settled_clean cat r \<Longrightarrow> settled_clean cat (f r)"
  shows "safe cat s (setOutbox i f s)"
  by (rule safe_map [of _ "\<lambda>r. if ob_id r = i then f r else r"]) (use assms in \<open>auto simp: setOutbox_def\<close>)

lemma safe_addDeliveries [simp]: "safe cat s (addDeliveries ds s)"
  by (rule safe_same) (simp_all add: addDeliveries_def)

lemma safe_then_deliveries [intro]: "safe cat s t \<Longrightarrow> safe cat s (addDeliveries ds t)"
  using safe_trans safe_addDeliveries by blast

lemma scrubRow_descends:
  assumes "descends cat r0 r"
  shows "descends cat (scrubRow cat r0) r"
  using assms by (auto simp: descends_def scrubRow_clean)

definition settledRow :: "catalog \<Rightarrow> instant \<Rightarrow> outbox_state \<Rightarrow> string option \<Rightarrow> outbox_row \<Rightarrow> outbox_row" where
  "settledRow cat now st reason r =
     scrubRow cat (r\<lparr>ob_state := st,
       ob_dispatchedAt := (if st = ob_dispatched then Some now else ob_dispatchedAt r), ob_lastError := reason\<rparr>)"

lemma settle_outbox [simp]:
  "cm_outbox (settle cat now i st reason inApp em s) =
     map (\<lambda>r. if ob_id r = i then settledRow cat now st reason r else r) (cm_outbox s)"
  "cm_nextId (settle cat now i st reason inApp em s) = cm_nextId s"
  by (simp_all add: settle_def Let_def addDeliveries_def setOutbox_def settledRow_def split: option.split)

lemma safe_settle: "safe cat s (settle cat now i st reason inApp em s)"
  by (rule safe_map [OF settle_outbox(1)])
    (auto simp: settledRow_def settled_clean_def scrubRow_clean intro!: scrubRow_descends descends_same_values)

lemma safe_claim:
  assumes "claimOutbox now i (cm_outbox s) = (t, won)"
  shows "safe cat s (s\<lparr>cm_outbox := t\<rparr>)"
proof (rule safe_map [of _ "\<lambda>r. if ob_id r = i \<and> claimable now r then claimedRow now r else r"])
  show "cm_outbox (s\<lparr>cm_outbox := t\<rparr>) =
      map (\<lambda>r. if ob_id r = i \<and> claimable now r then claimedRow now r else r) (cm_outbox s)"
    using assms by (simp add: claimOutbox_def guarded_alt)
qed (auto simp: claimedRow_def settled_clean_def isSettled_def claimable_def waiting_def
       intro: descends_same_values)

lemma setDigest_safe [simp]: "safe cat s (setDigest d f s)"
  by (rule safe_same) (simp_all add: setDigest_def)

lemma attachToDigest_safe: "safe cat s (attachToDigest env now row u aud s)"
proof -
  obtain s1 d where *: "(case findOpenDigest s u (digestKind aud) now of Some d \<Rightarrow> (s, d)
      | None \<Rightarrow> createDigest now u (digestKind aud)
          (nextLocalHour (ev_localSeconds env (ob_academyId row)) now DIGEST_LOCAL_HOUR - 24 * 60 * 60 * 1000)
          (nextLocalHour (ev_localSeconds env (ob_academyId row)) now DIGEST_LOCAL_HOUR) s) = (s1, d)"
    by (meson surj_pair)
  then have "safe cat s s1"
    by (intro safe_same)
      (auto simp: createDigest_def Let_def split: option.splits)
  moreover have "safe cat s1 (setOutbox (ob_id row)
      (\<lambda>r. r\<lparr>ob_state := ob_deferred, ob_digestId := Some (dg_id d), ob_availableAt := dg_windowEnd d\<rparr>) s1)"
    by (rule safe_setOutbox) (auto simp: settled_clean_def isSettled_def intro: descends_same_values)
  ultimately show ?thesis
    using * unfolding attachToDigest_def Let_def
    by (simp add: setDigest_def [symmetric]) (meson safe_trans setDigest_safe)
qed

lemma cooldown_safe: "cooldownRemaining up now u k e s = (s', n) \<Longrightarrow> safe cat s s'"
  by (rule safe_same) (auto simp: cooldownRemaining_def Let_def split: option.splits if_splits)

subsection \<open>The decision is safe and its plan is the row\<close>

lemma safe_decideDelivery: "safe cat s (fst (decideDelivery cat env now row e u rs pf wd s))"
proof -
  obtain s1 n where c: "cooldownRemaining (ev_redisUp env) now u (ob_key row) e s = (s1, n)"
    by (meson surj_pair)
  have put_off: "safe cat s1 (setOutbox (ob_id row)
      (\<lambda>r. r\<lparr>ob_state := ob_deferred, ob_availableAt := now + n\<rparr>) s1)"
    by (rule safe_setOutbox) (auto simp: settled_clean_def isSettled_def intro: descends_same_values)
  show ?thesis
    using safe_settle attachToDigest_safe safe_trans [OF cooldown_safe [OF c]] put_off
    by (simp add: decideDelivery_def settled_def c split: cap_verdict.split)
qed

lemma safe_decideForUser: "safe cat s (fst (decideForUser cat env now row e u s))"
  by (auto simp: decideForUser_def settled_def Let_def safe_settle safe_decideDelivery split: option.split)

lemma safe_decideRow: "safe cat s (fst (decideRow cat env now row s))"
  by (auto simp: decideRow_def decideForAddress_def settled_def safe_settle safe_decideForUser split: option.split)

lemma safe_decide: "safe cat s (fst (decideDispatch cat env now i s))"
proof -
  obtain t won where c: "claimOutbox now i (cm_outbox s) = (t, won)" by (meson surj_pair)
  show ?thesis
    by (auto simp: decideDispatch_def c settled_def Let_def
          intro: safe_trans [OF safe_claim [OF c]] safe_settle safe_decideRow split: bool.split option.split)
qed

lemma plan_decideRow:
  assumes "snd (decideRow cat env now row s) = PlanSend p"
  shows "pl_row p = row \<and> cat (ob_key row) = Some (pl_entry p)"
  using assms
  by (auto simp: decideRow_def decideForAddress_def decideForUser_def decideDelivery_def settled_def Let_def
        split: option.splits if_splits prod.splits cap_verdict.splits)

end
