(* ===== verification/Comm_Safety.thy ===== *)
theory Comm_Safety
  imports Comm_Histories
begin

text \<open>
  The invariant of the outbox over any history, kept by workers that write the outcome of what
  they read long before.
\<close>

subsection \<open>Rows held in memory\<close>

definition tracks :: "catalog \<Rightarrow> comm_state \<Rightarrow> outbox_row \<Rightarrow> bool" where
  "tracks cat s row \<longleftrightarrow>
     ob_id row < cm_nextId s \<and> (\<forall>r\<in>set (cm_outbox s). ob_id r = ob_id row \<longrightarrow> descends cat r row)"

lemma tracks_evolves: "evolves cat s s' \<Longrightarrow> tracks cat s row \<Longrightarrow> tracks cat s' row"
proof -
  assume e: "evolves cat s s'" and t: "tracks cat s row"
  have "descends cat r' row" if "r' \<in> set (cm_outbox s')" "ob_id r' = ob_id row" for r'
    using evolves_source [OF e that(1)] t that(2) descends_trans
    by (metis descends_def tracks_def)
  moreover have "cm_nextId s \<le> cm_nextId s'" using e by (simp add: evolves_def)
  ultimately show ?thesis using t by (simp add: tracks_def)
qed

text \<open>The values a worker writes back from the row it read: nothing to scrub is left.\<close>

lemma written_back:
  assumes t: "tracks cat s row" and r: "r \<in> set (cm_outbox s)" "ob_id r = ob_id row"
    and e: "cat (ob_key row) = Some e"
  shows "scrubKeysOf cat (r\<lparr>ob_values := (case withoutCredentials e (ob_values row) of
           None \<Rightarrow> ob_values r | Some v \<Rightarrow> Some v)\<rparr>) = {}"
proof -
  have d: "descends cat r row" using t r by (simp add: tracks_def)
  then have k: "cat (ob_key r) = Some e" using e by (simp add: descends_def)
  show ?thesis
  proof (cases "withoutCredentials e (ob_values row)")
    case None
    then have "scrubKeysOf cat row = {}" using e by (rule without_nothing [rotated])
    then show ?thesis using d None by (simp add: descends_def)
  next
    case (Some v)
    then have "scrubKeysOf cat (row\<lparr>ob_values := Some v\<rparr>) = {}" using e by (simp add: without_scrubs)
    then show ?thesis using Some d by (simp add: scrubKeysOf_def descends_def)
  qed
qed

lemma scrubKeys_fields [simp]:
  "scrubKeysOf cat (r\<lparr>ob_state := a\<rparr>) = scrubKeysOf cat r"
  "scrubKeysOf cat (r\<lparr>ob_dispatchedAt := b\<rparr>) = scrubKeysOf cat r"
  "scrubKeysOf cat (r\<lparr>ob_lastError := c\<rparr>) = scrubKeysOf cat r"
  "scrubKeysOf cat (r\<lparr>ob_availableAt := d\<rparr>) = scrubKeysOf cat r"
  "scrubKeysOf cat (r\<lparr>ob_attempts := n\<rparr>) = scrubKeysOf cat r"
  "scrubKeysOf cat (r\<lparr>ob_digestId := g\<rparr>) = scrubKeysOf cat r"
  by (simp_all add: scrubKeysOf_def)

lemma safe_count [simp]: "safe cat s t \<Longrightarrow> safe cat s (countTowardsDailyCap up now u t)"
  using safe_trans [of cat s t "countTowardsDailyCap up now u t"]
  by (simp add: countTowardsDailyCap_def safe_same)

definition plan_ok :: "catalog \<Rightarrow> comm_state \<Rightarrow> send_plan \<Rightarrow> bool" where
  "plan_ok cat s p \<longleftrightarrow> cat (ob_key (pl_row p)) = Some (pl_entry p) \<and> tracks cat s (pl_row p)"

definition writeBack :: "send_plan \<Rightarrow> outbox_row \<Rightarrow> outbox_row" where
  "writeBack p r = r\<lparr>ob_values := (case withoutCredentials (pl_entry p) (ob_values (pl_row p)) of
                                    None \<Rightarrow> ob_values r | Some v \<Rightarrow> Some v)\<rparr>"

lemma safe_closing:
  assumes ok: "plan_ok cat t p"
    and f: "\<And>r. f r = g (writeBack p r)"
    and g: "\<And>x. descends cat (g x) x"
  shows "safe cat t (setOutbox (ob_id (pl_row p)) f t)"
proof -
  have clean: "scrubKeysOf cat (writeBack p r) = {}"
    if "r \<in> set (cm_outbox t)" "ob_id r = ob_id (pl_row p)" for r
    using written_back [OF _ that] ok by (simp add: plan_ok_def writeBack_def)
  have d: "descends cat (writeBack p r) r"
    if "r \<in> set (cm_outbox t)" "ob_id r = ob_id (pl_row p)" for r
    using clean [OF that] by (simp add: descends_def writeBack_def)
  have "scrubKeysOf cat (f r) = {}"
    if "r \<in> set (cm_outbox t)" "ob_id r = ob_id (pl_row p)" for r
    using g [of "writeBack p r"] clean [OF that] by (simp add: f descends_def)
  then show ?thesis
    using descends_trans [OF g d] by (intro safe_setOutbox) (auto simp: f settled_clean_def)
qed

lemma safe_reopening:
  assumes "\<And>r. descends cat (f r) r" "\<And>r. \<not> isSettled (f r)"
  shows "safe cat t (setOutbox i f t)"
  by (rule safe_setOutbox) (use assms in \<open>auto simp: settled_clean_def\<close>)

lemma safe_finish:
  assumes ok: "plan_ok cat s p"
  shows "safe cat s (fst (finishSend up now a p result s))"
proof -
  have t: "plan_ok cat (addDeliveries ds s) p" for ds
    using ok by (auto simp: plan_ok_def tracks_def addDeliveries_def)
  have sent: "safe cat s (recordSent up now a p s)"
  proof -
    have "safe cat (addDeliveries ds s) (setOutbox (ob_id (pl_row p))
            (\<lambda>r. r\<lparr>ob_state := ob_dispatched, ob_dispatchedAt := Some now, ob_lastError := None,
                  ob_values := (case withoutCredentials (pl_entry p) (ob_values (pl_row p)) of
                                  None \<Rightarrow> ob_values r | Some v \<Rightarrow> Some v)\<rparr>) (addDeliveries ds s))" for ds
      by (rule safe_closing [OF t, where g = "\<lambda>x. x\<lparr>ob_state := ob_dispatched,
              ob_dispatchedAt := Some now, ob_lastError := None\<rparr>"])
        (auto simp: writeBack_def intro: descends_same_values)
    then show ?thesis
      unfolding recordSent_def Let_def
      by (auto split: option.split intro!: safe_count intro: safe_trans [OF safe_addDeliveries])
  qed
  have failed: "safe cat s (handleSendFailure now a m p s)" for m
  proof -
    have "safe cat (addDeliveries ds s) (setOutbox (ob_id (pl_row p))
            (\<lambda>r. r\<lparr>ob_state := ob_failed, ob_lastError := Some (take 1000 m),
                  ob_values := (case withoutCredentials (pl_entry p) (ob_values (pl_row p)) of
                                  None \<Rightarrow> ob_values r | Some v \<Rightarrow> Some v)\<rparr>) (addDeliveries ds s))" for ds
      by (rule safe_closing [OF t, where g = "\<lambda>x. x\<lparr>ob_state := ob_failed,
              ob_lastError := Some (take 1000 m)\<rparr>"])
        (auto simp: writeBack_def intro: descends_same_values)
    moreover have "safe cat t (setOutbox i
        (\<lambda>r. r\<lparr>ob_state := ob_pending, ob_availableAt := now, ob_lastError := Some (take 1000 m)\<rparr>) t)" for t i
      by (rule safe_reopening) (auto simp: isSettled_def intro: descends_same_values)
    ultimately show ?thesis
      unfolding handleSendFailure_def Let_def by (auto intro: safe_trans [OF safe_addDeliveries])
  qed
  have deferred: "safe cat s (deferForProviderQuota x m p s)" for x m
    unfolding deferForProviderQuota_def
    by (rule safe_reopening) (auto simp: isSettled_def intro: descends_same_values)
  show ?thesis
    by (auto simp: finishSend_def sent failed deferred split: send_result.split)
qed

subsection \<open>The digest job\<close>

lemma scrub_settled_rows:
  assumes "\<forall>row\<in>set rows. tracks cat s row"
  shows "evolves cat s (scrubSettledRows cat rows s)
    \<and> (\<forall>r'\<in>set (cm_outbox (scrubSettledRows cat rows s)).
         \<exists>r\<in>set (cm_outbox s). descends cat r' r \<and> ob_state r' = ob_state r
           \<and> (ob_id r \<in> ob_id ` set rows \<longrightarrow> scrubKeysOf cat r' = {}))"
  using assms
proof (induction rows arbitrary: s)
  case Nil
  then show ?case by (force simp: scrubSettledRows_def)
next
  case (Cons row rows)
  define s1 where "s1 = (case cat (ob_key row) of None \<Rightarrow> s
      | Some e \<Rightarrow> (case withoutCredentials e (ob_values row) of None \<Rightarrow> s
          | Some v \<Rightarrow> setOutbox (ob_id row) (\<lambda>r. r\<lparr>ob_values := Some v\<rparr>) s))"
  have "\<exists>f. cm_outbox s1 = map f (cm_outbox s) \<and> cm_nextId s1 = cm_nextId s
          \<and> (\<forall>r\<in>set (cm_outbox s). descends cat (f r) r \<and> ob_state (f r) = ob_state r
               \<and> (ob_id r = ob_id row \<longrightarrow> scrubKeysOf cat (f r) = {}))"
  proof -
    define f :: "outbox_row \<Rightarrow> outbox_row" where "f r = (if ob_id r = ob_id row then
        (case cat (ob_key row) of None \<Rightarrow> r | Some e \<Rightarrow>
          (case withoutCredentials e (ob_values row) of None \<Rightarrow> r | Some v \<Rightarrow> r\<lparr>ob_values := Some v\<rparr>))
        else r)" for r
    have "cm_outbox s1 = map f (cm_outbox s)" "cm_nextId s1 = cm_nextId s"
      by (auto simp: s1_def f_def setOutbox_def split: option.split intro!: map_idI [symmetric])
    moreover have "ob_state (f r) = ob_state r" for r by (simp add: f_def split: option.split)
    moreover have "scrubKeysOf cat (f r) = {}" if "r \<in> set (cm_outbox s)" "ob_id r = ob_id row" for r
    proof (cases "cat (ob_key row)")
      case None
      then have "cat (ob_key r) = None" using Cons.prems that by (auto simp: tracks_def descends_def)
      then show ?thesis using None that by (simp add: f_def scrubKeysOf_def)
    next
      case (Some e)
      have "tracks cat s row" using Cons.prems by simp
      from written_back [of cat s row r e, OF this that Some] show ?thesis
        using Some that by (auto simp: f_def split: option.splits)
    qed
    moreover have "descends cat (f r) r" if "r \<in> set (cm_outbox s)" for r
      using calculation(4) [OF that] by (auto simp: f_def descends_def split: option.splits)
    ultimately show ?thesis by blast
  qed
  then obtain f where f: "cm_outbox s1 = map f (cm_outbox s)" "cm_nextId s1 = cm_nextId s"
    and fr: "\<And>r. r \<in> set (cm_outbox s) \<Longrightarrow> descends cat (f r) r \<and> ob_state (f r) = ob_state r
               \<and> (ob_id r = ob_id row \<longrightarrow> scrubKeysOf cat (f r) = {})" by blast
  have e1: "evolves cat s s1" using f fr by (intro evolves_map) auto
  have IH: "evolves cat s1 (scrubSettledRows cat rows s1)
    \<and> (\<forall>r'\<in>set (cm_outbox (scrubSettledRows cat rows s1)).
         \<exists>r\<in>set (cm_outbox s1). descends cat r' r \<and> ob_state r' = ob_state r
           \<and> (ob_id r \<in> ob_id ` set rows \<longrightarrow> scrubKeysOf cat r' = {}))"
    using Cons.prems tracks_evolves [OF e1] by (intro Cons.IH) auto
  have eq: "scrubSettledRows cat (row # rows) s = scrubSettledRows cat rows s1"
    by (simp add: scrubSettledRows_def s1_def)
  have "\<exists>r\<in>set (cm_outbox s). descends cat r' r \<and> ob_state r' = ob_state r
           \<and> (ob_id r \<in> ob_id ` set (row # rows) \<longrightarrow> scrubKeysOf cat r' = {})"
    if r': "r' \<in> set (cm_outbox (scrubSettledRows cat rows s1))" for r'
  proof -
    obtain r where r: "r \<in> set (cm_outbox s)" "descends cat r' (f r)" "ob_state r' = ob_state (f r)"
        "ob_id (f r) \<in> ob_id ` set rows \<longrightarrow> scrubKeysOf cat r' = {}"
      using IH r' f(1) by auto
    have "scrubKeysOf cat r' = {}" if "ob_id r = ob_id row"
      using fr [OF r(1)] that r(2) by (simp add: descends_def)
    then show ?thesis
      using r fr [OF r(1)] descends_trans [OF r(2)] by (intro bexI [OF _ r(1)]) (auto simp: descends_def)
  qed
  with IH e1 eq show ?case using evolves_trans by metis
qed

text \<open>The bulk settles of the digest job: rows set to a final state, then scrubbed.\<close>

lemma updateRows_outbox [simp]:
  "cm_outbox (updateRows is f s) = map (\<lambda>r. if ob_id r \<in> set is then f r else r) (cm_outbox s)"
  "cm_nextId (updateRows is f s) = cm_nextId s"
  by (simp_all add: updateRows_def)

lemma evolves_updateRows:
  "(\<And>r. descends cat (f r) r) \<Longrightarrow> evolves cat s (updateRows is f s)"
  by (rule evolves_map [OF updateRows_outbox(1)]) auto

lemma evolves_addDeliveries [simp]: "evolves cat s (addDeliveries ds s)"
  using safe_addDeliveries by (simp add: safe_def)

lemma safe_bulk_settle:
  assumes t: "\<forall>row\<in>set rows. tracks cat s row"
    and f: "\<And>r. descends cat (f r) r"
    and u: "evolves cat s u" "cm_outbox u = cm_outbox (updateRows (map ob_id rows) f s)"
  shows "safe cat s (scrubSettledRows cat rows u)"
proof -
  have tu: "\<forall>row\<in>set rows. tracks cat u row" using t tracks_evolves [OF u(1)] by blast
  note sc = scrub_settled_rows [OF tu]
  have "settled_clean cat r'" if ac: "all_clean cat s" and r': "r' \<in> set (cm_outbox (scrubSettledRows cat rows u))" for r'
  proof -
    obtain r where r: "r \<in> set (cm_outbox u)" "descends cat r' r" "ob_state r' = ob_state r"
      "ob_id r \<in> ob_id ` set rows \<longrightarrow> scrubKeysOf cat r' = {}" using sc r' by blast
    from r(1) u(2) obtain r0 where r0: "r0 \<in> set (cm_outbox s)"
      "r = (if ob_id r0 \<in> ob_id ` set rows then f r0 else r0)" by auto
    show ?thesis
    proof (cases "ob_id r0 \<in> ob_id ` set rows")
      case True
      then have "ob_id r \<in> ob_id ` set rows" using r0 f [of r0] by (simp add: descends_def)
      then show ?thesis using r by (simp add: settled_clean_def)
    next
      case False
      then have "settled_clean cat r" using r0 ac by (simp add: all_clean_def)
      then show ?thesis using r by (auto simp: settled_clean_def isSettled_def descends_def)
    qed
  qed
  then show ?thesis using sc evolves_trans [OF u(1)] by (simp add: safe_def all_clean_def)
qed

lemma safe_claimDigest: "safe cat s (s\<lparr>cm_digests := t\<rparr>)"
  by (rule safe_same) simp_all

lemma safe_closeEmpty: "safe cat s t \<Longrightarrow> safe cat s (closeEmptyDigest d t)"
  unfolding closeEmptyDigest_def by (erule safe_trans) (rule setDigest_safe)

lemma tracks_own:
  "distinct (map ob_id (cm_outbox s)) \<Longrightarrow> \<forall>r\<in>set (cm_outbox s). ob_id r < cm_nextId s
   \<Longrightarrow> r \<in> set (cm_outbox s) \<Longrightarrow> tracks cat s r"
  unfolding tracks_def by (metis descends_refl distinct_keys_unique)

lemma digestItems_rows: "r \<in> set (digestItems s d) \<Longrightarrow> r \<in> set (cm_outbox s)"
  by (auto simp: digestItems_def)

lemma safe_unknown:
  assumes "\<forall>row\<in>set rows. tracks cat s row \<and> cat (ob_key row) = None"
    and f: "\<And>r. descends cat (f r) r"
  shows "safe cat s (updateRows (map ob_id rows) f s)"
proof -
  have "scrubKeysOf cat (f r) = {}" if "r \<in> set (cm_outbox s)" "ob_id r \<in> ob_id ` set rows" for r
  proof -
    from that(2) obtain row where "ob_id r = ob_id row" "row \<in> set rows" by (rule imageE)
    then have "cat (ob_key r) = None" using assms(1) that(1) by (auto simp: descends_def tracks_def)
    then show ?thesis using f [of r] by (simp add: descends_def scrubKeysOf_def)
  qed
  then show ?thesis using f
    by (intro safe_map [OF updateRows_outbox(1)]) (auto simp: settled_clean_def)
qed

lemma safe_planDigestFor:
  assumes own: "\<forall>r\<in>set (cm_outbox s). tracks cat s r"
  shows "safe cat s (fst (planDigestFor cat env now d digest s))"
proof -
  let ?items = "digestItems s d"
  have items: "\<forall>r\<in>set ?items. tracks cat s r" using own digestItems_rows by blast
  have gone: "safe cat s (scrubSettledRows cat ?items (updateRows (map ob_id ?items)
      (\<lambda>r. r\<lparr>ob_state := ob_suppressed, ob_lastError := Some ''recipient_unavailable''\<rparr>) s))"
    by (rule safe_bulk_settle [OF items _ evolves_updateRows refl]) (auto intro: descends_same_values)
  let ?unknown = "filter (\<lambda>r. \<not> knownKey cat r) ?items"
  define s1 where "s1 = updateRows (map ob_id ?unknown)
      (\<lambda>r. r\<lparr>ob_state := ob_failed, ob_lastError := Some ''unknown_key''\<rparr>) s"
  have u: "safe cat s s1"
    unfolding s1_def using items
    by (intro safe_unknown) (auto simp: knownKey_def intro: descends_same_values)
  have quiet: "safe cat s (scrubSettledRows cat rows (settleAsInAppOnly now (map ob_id rows) m s1))"
    if "set rows \<subseteq> set ?items" for rows m
  proof (rule safe_trans [OF u])
    let ?g = "\<lambda>r. r\<lparr>ob_state := ob_dispatched, ob_dispatchedAt := Some now, ob_lastError := Some m\<rparr>"
    have "\<forall>r\<in>set rows. tracks cat s1 r"
      using that items tracks_evolves u unfolding safe_def by blast
    moreover have "evolves cat s1 (settleAsInAppOnly now (map ob_id rows) m s1)"
      unfolding settleAsInAppOnly_def
      by (rule evolves_trans [OF evolves_updateRows evolves_addDeliveries]) (auto intro: descends_same_values)
    ultimately show "safe cat s1 (scrubSettledRows cat rows (settleAsInAppOnly now (map ob_id rows) m s1))"
      by (intro safe_bulk_settle [where f = ?g])
        (auto simp: settleAsInAppOnly_def addDeliveries_def intro: descends_same_values)
  qed
  show ?thesis
    using gone u quiet
    by (auto simp: planDigestFor_def Let_def s1_def [symmetric] safe_closeEmpty split: option.split)
qed

lemma safe_planDigest:
  assumes "distinct (map ob_id (cm_outbox s))" "\<forall>r\<in>set (cm_outbox s). ob_id r < cm_nextId s"
  shows "safe cat s (fst (planDigest cat env now d s))"
proof -
  obtain t won where c: "claimDigest now d (cm_digests s) = (t, won)" by (meson surj_pair)
  have "\<forall>r\<in>set (cm_outbox (s\<lparr>cm_digests := t\<rparr>)). tracks cat (s\<lparr>cm_digests := t\<rparr>) r"
    using assms by (auto intro!: tracks_own)
  then show ?thesis
    by (auto simp: planDigest_def c safe_claimDigest Let_def
          intro: safe_trans [OF safe_claimDigest safe_planDigestFor] split: bool.split option.split)
qed

lemma safe_finishDigest:
  assumes "\<forall>row\<in>set (dp_items p). tracks cat s row"
  shows "safe cat s (finishDigest cat up now p accepted s)"
proof -
  let ?f = "\<lambda>r. r\<lparr>ob_state := ob_dispatched, ob_dispatchedAt := Some now\<rparr>"
  have "safe cat s (scrubSettledRows cat (dp_items p) (updateRows (map ob_id (dp_items p)) ?f (addDeliveries ds s)))" for ds
  proof (rule safe_bulk_settle [OF assms, where f = ?f])
    show "evolves cat s (updateRows (map ob_id (dp_items p)) ?f (addDeliveries ds s))"
      by (rule evolves_trans [OF evolves_addDeliveries evolves_updateRows]) (auto intro: descends_same_values)
  qed (auto simp: addDeliveries_def intro: descends_same_values)
  then have "safe cat s (setDigest d g (scrubSettledRows cat (dp_items p)
      (updateRows (map ob_id (dp_items p)) ?f (addDeliveries ds s))))" for d g ds
    using safe_trans setDigest_safe by blast
  then show ?thesis
    by (auto simp: finishDigest_def Let_def releaseDigestClaim_def)
qed

subsection \<open>Forgetting and retention\<close>

lemma safe_forget: "safe cat s (forgetEntity cat actor k entity s)"
proof (cases "cat k")
  case (Some e)
  define f where "f r = (if ob_key r = k \<and> ob_entity r = entity
      then r\<lparr>ob_values := map_option (withoutKeys (settleScrubKeys e)) (ob_values r),
             ob_state := (if waiting r then ob_suppressed else ob_state r),
             ob_lastError := (if waiting r then Some ''source_deleted'' else ob_lastError r)\<rparr>
      else r)" for r :: outbox_row
  have "cm_outbox (forgetEntity cat actor k entity s) = map f (cm_outbox s)"
    by (simp add: forgetEntity_def Some Let_def f_def)
  moreover have "scrubKeysOf cat (f r) = {}" if "ob_key r = k \<and> ob_entity r = entity" for r
    using that Some by (auto simp: f_def scrubKeysOf_def keys_withoutKeys split: option.split)
  moreover have "descends cat (f r) r" for r
    using calculation(2) [of r] by (auto simp: f_def descends_def)
  moreover have "settled_clean cat r \<Longrightarrow> settled_clean cat (f r)" for r
    using calculation(2) [of r] by (auto simp: f_def settled_clean_def)
  ultimately show ?thesis
    by (intro safe_map [of _ f]) (simp_all add: forgetEntity_def Some Let_def)
qed (simp add: forgetEntity_def)

lemma descends_fewer_keys:
  "descends cat (r\<lparr>ob_values := map_option (withoutKeys ks) (ob_values r)\<rparr>) r"
  by (auto simp: descends_def scrubKeysOf_def keys_withoutKeys split: option.splits)

lemma isSettled_values [simp]: "isSettled (r\<lparr>ob_values := v\<rparr>) = isSettled r"
  by (simp add: isSettled_def)

lemma settled_clean_fewer:
  "settled_clean cat r \<Longrightarrow> settled_clean cat (r\<lparr>ob_values := map_option (withoutKeys ks) (ob_values r)\<rparr>)"
  using descends_fewer_keys [of cat ks r] by (auto simp: settled_clean_def descends_def)

lemma safe_leftover: "safe cat s (scrubLeftoverCredentials cat now s)"
proof -
  define f1 where "f1 r = (case cat (ob_key r) of None \<Rightarrow> r
      | Some e \<Rightarrow> if isSettled r
                  then r\<lparr>ob_values := map_option (withoutKeys (ce_credentialValues e)) (ob_values r)\<rparr>
                  else r)" for r :: outbox_row
  define f2 where "f2 r0 r = (if List.member SHORT_LIVED_CODE_KEYS (ob_key r0)
        \<and> ob_createdAt r0 < now - SHORT_LIVED_CODE_SCRUB_AFTER_MS
      then r\<lparr>ob_values := map_option (withoutKeys [''code'']) (ob_values r)\<rparr> else r)"
    for r0 r :: outbox_row
  have 1: "descends cat (f1 r) r" "settled_clean cat r \<Longrightarrow> settled_clean cat (f1 r)" for r
    by (auto simp: f1_def descends_fewer_keys settled_clean_fewer split: option.split)
  have 2: "descends cat (f2 r0 r) r" "settled_clean cat r \<Longrightarrow> settled_clean cat (f2 r0 r)" for r0 r
    by (auto simp: f2_def descends_fewer_keys settled_clean_fewer)
  show ?thesis
  proof (rule safe_map [of _ "\<lambda>r. f2 r (f1 r)"])
    show "cm_outbox (scrubLeftoverCredentials cat now s) = map (\<lambda>r. f2 r (f1 r)) (cm_outbox s)"
      by (simp add: scrubLeftoverCredentials_def Let_def f1_def f2_def cong: map_cong)
  qed (auto simp: scrubLeftoverCredentials_def 1 2 intro: descends_trans [OF 2(1) 1(1)])
qed

lemma safe_pruneRows: "safe cat s (pruneRows now s)"
proof -
  define cutoff where "cutoff = now - COMMUNICATION_RETENTION_DAYS * 24 * 60 * 60 * 1000"
  define lost where "lost = map dg_id (filter (\<lambda>d. dg_createdAt d < cutoff) (cm_digests s))"
  define f where "f r = (if (case ob_digestId r of None \<Rightarrow> False | Some d \<Rightarrow> List.member lost d)
      then r\<lparr>ob_digestId := None\<rparr> else r)" for r :: outbox_row
  define p where "p r \<longleftrightarrow> \<not> ob_createdAt r < cutoff" for r :: outbox_row
  have f: "cm_outbox (pruneRows now s) = map f (filter p (cm_outbox s))"
    unfolding pruneRows_def cutoff_def [symmetric] Let_def lost_def [symmetric] f_def p_def by simp
  have fr: "descends cat (f r) r" "settled_clean cat r \<Longrightarrow> settled_clean cat (f r)" for r
    by (auto simp: f_def settled_clean_def isSettled_def intro: descends_same_values)
  have "evolves cat s (pruneRows now s)"
    unfolding evolves_def
  proof (intro conjI exI)
    show "cm_outbox (pruneRows now s) = map f (filter p (cm_outbox s))" by (rule f)
  qed (simp_all add: fr pruneRows_def Let_def)
  then show ?thesis using f fr by (auto simp: safe_def all_clean_def)
qed

lemma safe_prune: "safe cat s (prune cat now s)"
  unfolding prune_def by (rule safe_trans [OF safe_pruneRows safe_leftover])

subsection \<open>Emitting\<close>

definition same_event :: "outbox_row \<Rightarrow> outbox_row \<Rightarrow> bool" where
  "same_event r r' \<longleftrightarrow>
     ob_dedupeKey r \<noteq> None \<and> ob_dedupeKey r = ob_dedupeKey r'
     \<and> (ob_recipientUserId r \<noteq> None \<and> ob_recipientUserId r = ob_recipientUserId r'
        \<or> ob_recipientEmail r \<noteq> None \<and> ob_recipientEmail r = ob_recipientEmail r')"

definition unique_events :: "comm_state \<Rightarrow> bool" where
  "unique_events s \<longleftrightarrow>
     (\<forall>r\<in>set (cm_outbox s). \<forall>r'\<in>set (cm_outbox s). same_event r r' \<longrightarrow> ob_id r = ob_id r')"

definition rows_ok :: "catalog \<Rightarrow> comm_state \<Rightarrow> bool" where
  "rows_ok cat s \<longleftrightarrow>
     distinct (map ob_id (cm_outbox s)) \<and> (\<forall>r\<in>set (cm_outbox s). ob_id r < cm_nextId s)
     \<and> all_clean cat s \<and> unique_events s"

lemma safe_rows_ok:
  assumes "safe cat s s'" "rows_ok cat s"
  shows "rows_ok cat s'"
proof -
  have e: "evolves cat s s'" and c: "all_clean cat s'"
    using assms by (simp_all add: safe_def rows_ok_def)
  have "ob_id r' < cm_nextId s'" if r': "r' \<in> set (cm_outbox s')" for r'
  proof -
    obtain r where "r \<in> set (cm_outbox s)" "descends cat r' r" by (rule evolves_source [OF e r'])
    moreover have "cm_nextId s \<le> cm_nextId s'" using e by (simp add: evolves_def)
    ultimately show ?thesis using assms(2) by (auto simp: rows_ok_def descends_def)
  qed
  moreover have "ob_id r1' = ob_id r2'"
    if r': "r1' \<in> set (cm_outbox s')" "r2' \<in> set (cm_outbox s')" and ev: "same_event r1' r2'" for r1' r2'
  proof -
    obtain r1 where r1: "r1 \<in> set (cm_outbox s)" "descends cat r1' r1" by (rule evolves_source [OF e r'(1)])
    obtain r2 where r2: "r2 \<in> set (cm_outbox s)" "descends cat r2' r2" by (rule evolves_source [OF e r'(2)])
    have "same_event r1 r2" using ev r1(2) r2(2) unfolding same_event_def descends_def by metis
    then have "ob_id r1 = ob_id r2" using assms(2) r1(1) r2(1) by (simp add: rows_ok_def unique_events_def)
    then show ?thesis using r1(2) r2(2) by (simp add: descends_def)
  qed
  ultimately show ?thesis
    using evolves_ids [OF e] assms(2) c by (simp add: rows_ok_def unique_events_def)
qed

text \<open>An operation that adds at most one fresh pending row.\<close>

definition inserts :: "comm_state \<Rightarrow> comm_state \<Rightarrow> bool" where
  "inserts s s' \<longleftrightarrow>
     cm_outbox s' = cm_outbox s \<and> cm_nextId s' = cm_nextId s
     \<or> (\<exists>r. cm_outbox s' = cm_outbox s @ [r] \<and> cm_nextId s' = Suc (cm_nextId s) \<and> ob_id r = cm_nextId s
           \<and> \<not> isSettled r \<and> (\<forall>x\<in>set (cm_outbox s). \<not> same_event r x \<and> \<not> same_event x r))"

lemma inserts_rows_ok:
  assumes "inserts s s'" "rows_ok cat s"
  shows "rows_ok cat s'"
proof (cases "cm_outbox s' = cm_outbox s \<and> cm_nextId s' = cm_nextId s")
  case True
  with assms(2) show ?thesis by (simp add: rows_ok_def all_clean_def unique_events_def)
next
  case False
  then obtain r where r: "cm_outbox s' = cm_outbox s @ [r]" "cm_nextId s' = Suc (cm_nextId s)"
      "ob_id r = cm_nextId s" "\<not> isSettled r" "\<forall>x\<in>set (cm_outbox s). \<not> same_event r x \<and> \<not> same_event x r"
    using assms(1) by (auto simp: inserts_def)
  have "cm_nextId s \<notin> set (map ob_id (cm_outbox s))"
    using assms(2) by (auto simp: rows_ok_def)
  then show ?thesis
    using assms(2) r
    by (auto simp: rows_ok_def all_clean_def unique_events_def settled_clean_def less_Suc_eq)
qed

lemma inserts_tracks: "inserts s s' \<Longrightarrow> tracks cat s row \<Longrightarrow> tracks cat s' row"
  by (auto simp: inserts_def tracks_def)

lemma inserts_emit: "inserts s (fst (emitEvent cat up now inp s))"
  by (auto simp: emitEvent_def inserts_def Let_def insertOutbox_def pendingRow_def isSettled_def
        outboxExists_def list_ex_iff same_event_def split: option.split)

lemma inserts_emit_address:
  "emitToAddress cat now k a x v s = Some (s', i) \<Longrightarrow> inserts s s'"
  by (auto simp: emitToAddress_def inserts_def insertOutbox_def pendingRow_def isSettled_def
        outboxExists_def list_ex_iff same_event_def split: option.splits if_splits)

end
