(* ===== verification/Comm_Guarantees.thy ===== *)
theory Comm_Guarantees
  imports Comm_Safety
begin

text \<open>
  What communications promise over any history: no settled row keeps a credential or somebody
  else's personal data, one event writes one row, and a claim keeps every other worker away for
  the length of its lease.
\<close>

subsection \<open>The invariant of the world\<close>

definition comm_ok :: "catalog \<Rightarrow> comm_world \<Rightarrow> bool" where
  "comm_ok cat w \<longleftrightarrow>
     rows_ok cat (cw_state w)
     \<and> (\<forall>p\<in>set (cw_sends w). plan_ok cat (cw_state w) p)
     \<and> (\<forall>p\<in>set (cw_digestSends w). \<forall>row\<in>set (dp_items p). tracks cat (cw_state w) row)"

lemma comm_ok_safe:
  assumes ok: "comm_ok cat w" and s: "safe cat (cw_state w) s'"
    and p: "set ps \<subseteq> set (cw_sends w) \<union> {p. plan_ok cat s' p}"
    and d: "set ds \<subseteq> set (cw_digestSends w) \<union> {p. \<forall>row\<in>set (dp_items p). tracks cat s' row}"
  shows "comm_ok cat (w\<lparr>cw_state := s', cw_sends := ps, cw_digestSends := ds\<rparr>)"
proof -
  have "evolves cat (cw_state w) s'" using s by (simp add: safe_def)
  note t = tracks_evolves [OF this]
  have "plan_ok cat s' p" if "p \<in> set ps" for p
    using that p ok t by (auto simp: comm_ok_def plan_ok_def)
  moreover have "\<forall>row\<in>set (dp_items p). tracks cat s' row" if "p \<in> set ds" for p
    using that d ok t by (auto simp: comm_ok_def)
  ultimately show ?thesis
    using ok safe_rows_ok [OF s] by (simp add: comm_ok_def)
qed

lemma comm_ok_inserts:
  assumes "comm_ok cat w" "inserts (cw_state w) s'"
  shows "comm_ok cat (w\<lparr>cw_state := s'\<rparr>)"
  using assms inserts_rows_ok inserts_tracks by (auto simp: comm_ok_def plan_ok_def)

lemma row_in_claimed:
  assumes "findOutbox s i = Some row"
  shows "row \<in> set (cm_outbox s)" "ob_id row = i"
  using assms by (auto simp: findOutbox_def dest: find_by_Some)

lemma plan_of_decide:
  assumes ok: "rows_ok cat s" and d: "decideDispatch cat env now i s = (s', PlanSend p)"
  shows "plan_ok cat s' p"
proof -
  obtain t won where c: "claimOutbox now i (cm_outbox s) = (t, won)" by (meson surj_pair)
  define s1 where "s1 = s\<lparr>cm_outbox := t\<rparr>"
  have won: won using d c by (auto simp: decideDispatch_def split: bool.splits)
  have safe1: "safe cat s s1" unfolding s1_def by (rule safe_claim [OF c])
  then have ok1: "rows_ok cat s1" using ok safe_rows_ok by blast
  obtain row where row: "findOutbox s1 i = Some row" "decideRow cat env now row s1 = (s', PlanSend p)"
    using d c won unfolding decideDispatch_def s1_def
    by (auto simp: settled_def Let_def split: option.splits)
  have "tracks cat s1 row" using ok1 row_in_claimed [OF row(1)] by (auto simp: rows_ok_def intro: tracks_own)
  moreover have "evolves cat s1 s'"
    using safe_decideRow [of cat s1 env now row] row(2) by (simp add: safe_def)
  ultimately show ?thesis
    using plan_decideRow [of cat env now row s1 p] row(2) tracks_evolves by (simp add: plan_ok_def)
qed

lemma plan_of_digest_for:
  assumes own: "\<forall>r\<in>set (cm_outbox s). tracks cat s r"
    and p: "planDigestFor cat env now d digest s = (s', Some p)" and row: "row \<in> set (dp_items p)"
  shows "row \<in> set (digestItems s d)"
  using p row
  by (auto simp: planDigestFor_def Let_def split: option.splits if_splits)

lemma plan_of_digest:
  assumes ok: "rows_ok cat s" and p: "planDigest cat env now d s = (s', Some p)" and row: "row \<in> set (dp_items p)"
  shows "tracks cat s' row"
proof -
  obtain t where t: "claimDigest now d (cm_digests s) = (t, True)"
    using p by (auto simp: planDigest_def split: prod.splits bool.splits)
  define s1 where "s1 = s\<lparr>cm_digests := t\<rparr>"
  obtain digest where dg: "planDigestFor cat env now d digest s1 = (s', Some p)"
    using p t by (auto simp: planDigest_def s1_def Let_def split: option.splits)
  have "rows_ok cat s1" using ok safe_rows_ok [OF safe_claimDigest] by (simp add: s1_def)
  then have own: "\<forall>r\<in>set (cm_outbox s1). tracks cat s1 r" by (auto simp: rows_ok_def intro: tracks_own)
  then have "tracks cat s1 row" using plan_of_digest_for [OF own dg row] digestItems_rows by blast
  moreover have "evolves cat s1 s'"
    using safe_planDigestFor [OF own, of env now d digest] dg by (simp add: safe_def)
  ultimately show ?thesis by (rule tracks_evolves [rotated])
qed

lemma keep_lists: "w\<lparr>cw_state := s\<rparr> = w\<lparr>cw_state := s, cw_sends := cw_sends w, cw_digestSends := cw_digestSends w\<rparr>"
  by simp

lemma comm_ok_begin:
  assumes "comm_ok cat w"
  shows "comm_ok cat (commStep cat (Begin env now i) w)"
proof -
  obtain s' pl where b: "beginDispatch cat env now i (cw_state w) = (s', pl)" by (meson surj_pair)
  have s: "safe cat (cw_state w) s'"
    using b safe_decide [of cat "cw_state w" env now i]
    by (auto simp: beginDispatch_def split: if_splits)
  show ?thesis
  proof (cases pl)
    case (PlanSettled x)
    then show ?thesis
      using b comm_ok_safe [OF assms s, where ps = "cw_sends w" and ds = "cw_digestSends w"] by simp
  next
    case (PlanSend p)
    then have "plan_ok cat s' p"
      using b assms plan_of_decide by (auto simp: beginDispatch_def comm_ok_def split: if_splits)
    then show ?thesis
      using b PlanSend comm_ok_safe [OF assms s, where ps = "cw_sends w @ [p]" and ds = "cw_digestSends w"] by simp
  qed
qed

lemma comm_ok_begin_digest:
  assumes "comm_ok cat w"
  shows "comm_ok cat (commStep cat (BeginDigest env now d) w)"
proof -
  obtain s' pl where b: "planDigest cat env now d (cw_state w) = (s', pl)" by (meson surj_pair)
  have ok: "rows_ok cat (cw_state w)" using assms by (simp add: comm_ok_def)
  then have s: "safe cat (cw_state w) s'"
    using safe_planDigest [of "cw_state w" cat env now d] b by (simp add: rows_ok_def)
  have items: "\<forall>row\<in>set (dp_items p). tracks cat s' row" if "pl = Some p" for p
    using plan_of_digest [OF ok] b that by blast
  show ?thesis
    using b assms comm_ok_safe [OF assms s, where ps = "cw_sends w" and ds = "cw_digestSends w"]
      comm_ok_safe [OF assms s, where ps = "cw_sends w" and ds = "cw_digestSends w @ [the pl]"] items
    by (cases pl) (auto simp: split: if_splits)
qed

lemma comm_ok_finish:
  assumes "comm_ok cat w"
  shows "comm_ok cat (commStep cat (Finish up now a n result) w)"
proof (cases "n < length (cw_sends w)")
  case True
  then have "plan_ok cat (cw_state w) (cw_sends w ! n)" using assms by (simp add: comm_ok_def)
  from comm_ok_safe [OF assms safe_finish [OF this], where ps = "removeNth n (cw_sends w)" and ds = "cw_digestSends w"] True
  show ?thesis by (simp add: le_supI1 set_removeNth)
qed (use assms in simp)

lemma comm_ok_finish_digest:
  assumes "comm_ok cat w"
  shows "comm_ok cat (commStep cat (FinishDigest up now n accepted) w)"
proof (cases "n < length (cw_digestSends w)")
  case True
  then have "\<forall>row\<in>set (dp_items (cw_digestSends w ! n)). tracks cat (cw_state w) row"
    using assms nth_mem by (fastforce simp: comm_ok_def)
  from comm_ok_safe [OF assms safe_finishDigest [OF this], where ps = "cw_sends w" and ds = "removeNth n (cw_digestSends w)"] True
  show ?thesis using set_removeNth [of n "cw_digestSends w"] by auto
qed (use assms in simp)

lemma comm_ok_step: "comm_ok cat w \<Longrightarrow> comm_ok cat (commStep cat st w)"
proof (cases st)
  case (Emit up now inp)
  then show "comm_ok cat w \<Longrightarrow> ?thesis" by (simp add: comm_ok_inserts inserts_emit)
next
  case (EmitToAddress now k a x v)
  then show "comm_ok cat w \<Longrightarrow> ?thesis"
    by (auto intro: comm_ok_inserts inserts_emit_address split: option.split)
next
  case (Forget u k x)
  then show "comm_ok cat w \<Longrightarrow> ?thesis"
    using comm_ok_safe [OF _ safe_forget, where w = w and ps = "cw_sends w" and ds = "cw_digestSends w"] by simp
next
  case (Prune now)
  then show "comm_ok cat w \<Longrightarrow> ?thesis"
    using comm_ok_safe [OF _ safe_prune, where w = w and ps = "cw_sends w" and ds = "cw_digestSends w"] by simp
next
  case (Crash n)
  then show "comm_ok cat w \<Longrightarrow> ?thesis"
    using set_removeNth [of n "cw_sends w"] by (auto simp: comm_ok_def)
next
  case (CrashDigest n)
  then show "comm_ok cat w \<Longrightarrow> ?thesis"
    using set_removeNth [of n "cw_digestSends w"] by (fastforce simp: comm_ok_def)
qed (simp_all only: comm_ok_begin comm_ok_begin_digest comm_ok_finish comm_ok_finish_digest)

lemma comm_ok_history: "comm_ok cat (commHistory cat ss)"
proof -
  have "comm_ok cat w \<Longrightarrow> comm_ok cat (fold (commStep cat) ss w)" for w
    by (induction ss arbitrary: w) (simp_all add: comm_ok_step)
  moreover have "comm_ok cat emptyComm"
    by (simp add: comm_ok_def emptyComm_def rows_ok_def all_clean_def unique_events_def)
  ultimately show ?thesis by (simp add: commHistory_def)
qed

subsection \<open>What a settled row keeps, and how many rows an event has\<close>

definition otpEntry :: catalog_entry where
  "otpEntry =
     \<lparr>ce_category = cat_security, ce_audience = aud_platform, ce_inApp = False, ce_email = em_always,
      ce_extendedRetention = False, ce_dedupe = (\<lambda>(_, i) _. Some (''otp:'' @ i)), ce_cooldownSeconds = 0,
      ce_emailStaleAfterSeconds = None, ce_requiresLiveAcademy = False, ce_credentialValues = [''code''],
      ce_personalValues = [], ce_addressRecipient = False\<rparr>"

definition otpCatalog :: catalog where
  "otpCatalog k = (if k = ''auth.email.otp'' then Some otpEntry else None)"

definition exampleUser :: comm_user where
  "exampleUser = \<lparr>cu_email = ''a@b.c'', cu_deleted = False, cu_preferences =
     \<lparr>sp_legacyEmail = None, sp_reminders = None, sp_engagementEmail = None, sp_engagementDigest = None,
      sp_operationalEmail = None, sp_operationalDigest = None\<rparr>\<rparr>"

definition exampleEnv :: dispatch_env where
  "exampleEnv =
     \<lparr>ev_platformOwner = True, ev_user = (\<lambda>_. Some exampleUser), ev_isStaff = (\<lambda>_. False),
      ev_campaign = (\<lambda>_. None), ev_liveAcademy = (\<lambda>_. True), ev_suppressed = (\<lambda>_. False),
      ev_localSeconds = (\<lambda>_ t. t - t mod 1000), ev_redisUp = True\<rparr>"

definition otpEmit :: "uid \<Rightarrow> comm_step" where
  "otpEmit i = Emit True 0
     \<lparr>ei_key = ''auth.email.otp'', ei_recipientUserId = ''u1'', ei_academyId = None,
      ei_entity = (''otp'', i), ei_values = [(''code'', ''123456''), (''minutes'', ''10'')], ei_notBefore = None\<rparr>"

definition otpSent :: "comm_step list" where
  "otpSent = [otpEmit ''o1'', Begin exampleEnv 5 0, Finish True 9 \<lparr>da_made = 0, da_max = 6\<rparr> 0 SendAccepted]"

text \<open>C26. Over any history of emits, workers, failures, crashes, deletions and retention runs, a row that
  is dispatched, suppressed or failed holds none of the values its catalogue entry declares as
  credentials or as personal data of others, although outcomes are written from rows read long
  before.\<close>
theorem settled_rows_hold_no_credentials:
  assumes "r \<in> set (cm_outbox (cw_state (commHistory cat ss)))" "isSettled r"
    and "cat (ob_key r) = Some e" "k \<in> set (settleScrubKeys e)" "ob_values r = Some v"
  shows "k \<notin> fst ` set v"
proof -
  have "settled_clean cat r"
    using assms(1) comm_ok_history [of cat ss] by (simp add: comm_ok_def rows_ok_def all_clean_def)
  then show ?thesis using assms by (auto simp: settled_clean_def scrubKeysOf_def)
qed

lemma otp_sent_rows:
  "map (\<lambda>r. (ob_key r, ob_values r, isSettled r)) (cm_outbox (cw_state (commHistory otpCatalog otpSent))) =
     [(''auth.email.otp'', Some [(''minutes'', ''10'')], True)]"
  by code_simp

lemma otp_pending_rows:
  "map (\<lambda>r. (ob_key r, ob_values r, isSettled r))
       (cm_outbox (cw_state (commHistory otpCatalog [otpEmit ''o1'', Begin exampleEnv 5 0]))) =
     [(''auth.email.otp'', Some [(''code'', ''123456''), (''minutes'', ''10'')], False)]"
  by code_simp

theorem settled_rows_hold_no_credentials_witness:
  "\<exists>r v. cm_outbox (cw_state (commHistory otpCatalog otpSent)) = [r] \<and> isSettled r
     \<and> ob_values r = Some v \<and> ''code'' \<notin> fst ` set v"
proof -
  obtain r where r: "cm_outbox (cw_state (commHistory otpCatalog otpSent)) = [r]" "ob_key r = ''auth.email.otp''"
      "isSettled r" "ob_values r = Some [(''minutes'', ''10'')]"
    using otp_sent_rows by (auto simp: map_eq_Cons_conv)
  have "''code'' \<notin> fst ` set [(''minutes'', ''10'')]"
    by (rule settled_rows_hold_no_credentials [of r otpCatalog otpSent otpEntry])
      (use r in \<open>simp_all add: otpCatalog_def settleScrubKeys_def otpEntry_def\<close>)
  then show ?thesis using r by blast
qed

text \<open>C29. Over any history, a person has at most one outbox row per natural event key, and so has an
  address, however often and in whatever order the event is emitted.\<close>
theorem one_row_per_event:
  assumes "r \<in> set (cm_outbox (cw_state (commHistory cat ss)))"
    and "r' \<in> set (cm_outbox (cw_state (commHistory cat ss)))"
    and "ob_dedupeKey r = Some k" "ob_dedupeKey r' = Some k"
    and "ob_recipientUserId r = Some u \<and> ob_recipientUserId r' = Some u
         \<or> ob_recipientEmail r = Some a \<and> ob_recipientEmail r' = Some a"
  shows "r' = r"
proof -
  have ok: "rows_ok cat (cw_state (commHistory cat ss))"
    using comm_ok_history [of cat ss] by (simp add: comm_ok_def)
  moreover have "same_event r r'" using assms by (auto simp: same_event_def)
  ultimately have "ob_id r = ob_id r'" using assms(1,2) by (simp add: rows_ok_def unique_events_def)
  then show ?thesis using ok assms(1,2) distinct_keys_unique by (metis rows_ok_def)
qed

lemma otp_twice_rows:
  "map (\<lambda>r. (ob_dedupeKey r, ob_recipientUserId r))
       (cm_outbox (cw_state (commHistory otpCatalog [otpEmit ''o1'', otpEmit ''o1'', otpEmit ''o2'']))) =
     [(Some ''otp:o1'', Some ''u1''), (Some ''otp:o2'', Some ''u1'')]"
  by code_simp

theorem one_row_per_event_witness:
  "\<exists>x y. cm_outbox (cw_state (commHistory otpCatalog [otpEmit ''o1'', otpEmit ''o1'', otpEmit ''o2''])) = [x, y]
     \<and> {r \<in> {x, y}. ob_dedupeKey r = Some ''otp:o1''} = {x}"
proof -
  obtain x y where xy: "cm_outbox (cw_state (commHistory otpCatalog [otpEmit ''o1'', otpEmit ''o1'', otpEmit ''o2''])) = [x, y]"
      "ob_dedupeKey x = Some ''otp:o1''" "ob_recipientUserId x = Some ''u1''" "ob_recipientUserId y = Some ''u1''"
    using otp_twice_rows by (auto simp: map_eq_Cons_conv)
  have "r = x" if "r \<in> {x, y}" "ob_dedupeKey r = Some ''otp:o1''" for r
    by (rule one_row_per_event [of x otpCatalog "[otpEmit ''o1'', otpEmit ''o1'', otpEmit ''o2'']" r _ "''u1''"])
      (use xy that in auto)
  then have "{r \<in> {x, y}. ob_dedupeKey r = Some ''otp:o1''} = {x}" using xy(2) by blast
  then show ?thesis using xy(1) by blast
qed

end
