(* ===== verification/Comm_Claims.thy ===== *)
theory Comm_Claims
  imports Comm_Guarantees
begin

text \<open>
  The claim of a row: while its lease runs and its outcome has not been written, no other worker
  gets a plan for the row, whatever else happens.
\<close>

subsection \<open>Steps seen from one row\<close>

text \<open>\<open>keeps i\<close>: row \<open>i\<close> may be settled or deleted, nothing else of its state moves.\<close>

definition keeps :: "nat \<Rightarrow> comm_state \<Rightarrow> comm_state \<Rightarrow> bool" where
  "keeps i s s' \<longleftrightarrow>
     cm_nextId s \<le> cm_nextId s'
     \<and> (\<forall>r'\<in>set (cm_outbox s'). ob_id r' = i \<longrightarrow>
          (\<exists>r\<in>set (cm_outbox s). ob_id r = i
             \<and> (isSettled r' \<or> \<not> isSettled r \<and> ob_availableAt r' = ob_availableAt r)))"

lemma keeps_refl [simp]: "keeps i s s"
  by (auto simp: keeps_def)

lemma keeps_trans: "keeps i s t \<Longrightarrow> keeps i t u \<Longrightarrow> keeps i s u"
  unfolding keeps_def by (metis order_trans)

lemma keeps_same:
  "cm_outbox s' = cm_outbox s \<Longrightarrow> cm_nextId s \<le> cm_nextId s' \<Longrightarrow> keeps i s s'"
  by (auto simp: keeps_def)

lemma keeps_map:
  assumes "cm_outbox s' = map f (cm_outbox s)" "cm_nextId s \<le> cm_nextId s'"
    and "\<And>r. ob_id (f r) = ob_id r"
    and "\<And>r. ob_id r = i \<Longrightarrow> isSettled (f r) \<or> \<not> isSettled r \<and> ob_availableAt (f r) = ob_availableAt r"
  shows "keeps i s s'"
  using assms by (auto simp: keeps_def)

lemma keeps_other_row:
  assumes "j \<noteq> i" "\<And>r. ob_id (f r) = ob_id r"
  shows "keeps i s (setOutbox j f s)"
  by (rule keeps_map [of _ "\<lambda>r. if ob_id r = j then f r else r"]) (use assms in \<open>auto simp: setOutbox_def\<close>)

lemma keeps_deliveries [simp]: "keeps i s (addDeliveries ds s)"
  by (rule keeps_same) (simp_all add: addDeliveries_def)

lemma keeps_setDigest [simp]: "keeps i s (setDigest d f s)"
  by (rule keeps_same) (simp_all add: setDigest_def)

lemma keeps_settle: "keeps i s (settle cat now j st reason inApp em s)" if "j \<noteq> i"
  by (rule keeps_map [OF settle_outbox(1)]) (use that in \<open>auto simp: settledRow_def\<close>)

lemma keeps_attach: "keeps i s (attachToDigest env now row u aud s)" if "ob_id row \<noteq> i"
proof -
  obtain s1 d where *: "(case findOpenDigest s u (digestKind aud) now of Some d \<Rightarrow> (s, d)
      | None \<Rightarrow> createDigest now u (digestKind aud)
          (nextLocalHour (ev_localSeconds env (ob_academyId row)) now DIGEST_LOCAL_HOUR - 24 * 60 * 60 * 1000)
          (nextLocalHour (ev_localSeconds env (ob_academyId row)) now DIGEST_LOCAL_HOUR) s) = (s1, d)"
    by (meson surj_pair)
  then have "keeps i s s1"
    by (intro keeps_same) (auto simp: createDigest_def Let_def split: option.splits)
  moreover have "keeps i s1 (setOutbox (ob_id row)
      (\<lambda>r. r\<lparr>ob_state := ob_deferred, ob_digestId := Some (dg_id d), ob_availableAt := dg_windowEnd d\<rparr>) s1)"
    using that by (rule keeps_other_row) simp
  ultimately show ?thesis
    using * unfolding attachToDigest_def Let_def
    by (simp add: setDigest_def [symmetric]) (meson keeps_trans keeps_setDigest)
qed

lemma keeps_decideDelivery:
  assumes "ob_id row \<noteq> i"
  shows "keeps i s (fst (decideDelivery cat env now row e u rs pf wd s))"
proof -
  obtain s1 n where c: "cooldownRemaining (ev_redisUp env) now u (ob_key row) e s = (s1, n)"
    by (meson surj_pair)
  then have k: "keeps i s s1"
    by (intro keeps_same) (auto simp: cooldownRemaining_def Let_def split: option.splits if_splits)
  have put_off: "keeps i s1 (setOutbox (ob_id row)
      (\<lambda>r. r\<lparr>ob_state := ob_deferred, ob_availableAt := now + n\<rparr>) s1)"
    using assms by (rule keeps_other_row) simp
  show ?thesis
    using keeps_settle [OF assms] keeps_attach [OF assms] put_off k keeps_trans [OF k]
    by (simp add: decideDelivery_def settled_def c split: cap_verdict.split)
qed

lemma keeps_decideRow: "keeps i s (fst (decideRow cat env now row s))" if "ob_id row \<noteq> i"
  by (auto simp: decideRow_def decideForAddress_def decideForUser_def settled_def Let_def
        keeps_settle [OF that] keeps_decideDelivery [OF that] split: option.split)

lemma keeps_claim:
  assumes "claimOutbox now j (cm_outbox s) = (t, won)" "j \<noteq> i"
  shows "keeps i s (s\<lparr>cm_outbox := t\<rparr>)"
proof (rule keeps_map [of _ "\<lambda>r. if ob_id r = j \<and> claimable now r then claimedRow now r else r"])
  show "cm_outbox (s\<lparr>cm_outbox := t\<rparr>) =
      map (\<lambda>r. if ob_id r = j \<and> claimable now r then claimedRow now r else r) (cm_outbox s)"
    using assms(1) by (simp add: claimOutbox_def guarded_alt)
qed (use assms(2) in \<open>auto simp: claimedRow_def\<close>)

lemma keeps_decide:
  assumes "j \<noteq> i"
  shows "keeps i s (fst (decideDispatch cat env now j s))"
proof -
  obtain t won where c: "claimOutbox now j (cm_outbox s) = (t, won)" by (meson surj_pair)
  have "keeps i s (fst (decideRow cat env now row (s\<lparr>cm_outbox := t\<rparr>)))"
    if "findOutbox (s\<lparr>cm_outbox := t\<rparr>) j = Some row" for row
    using keeps_trans [OF keeps_claim [OF c assms] keeps_decideRow] row_in_claimed [OF that] assms by simp
  then show ?thesis
    using keeps_trans [OF keeps_claim [OF c assms] keeps_settle [OF assms]]
    by (simp add: decideDispatch_def c settled_def Let_def split: bool.split option.split)
qed

lemma keeps_finish:
  assumes "ob_id (pl_row p) \<noteq> i"
  shows "keeps i s (fst (finishSend up now a p result s))"
proof -
  note w = keeps_trans [OF keeps_deliveries keeps_other_row [OF assms]]
  have counted: "keeps i s t \<Longrightarrow> keeps i s (countTowardsDailyCap up now u t)" for t u
    by (erule keeps_trans) (simp add: countTowardsDailyCap_def keeps_same)
  have "keeps i s (recordSent up now a p s)"
    unfolding recordSent_def Let_def by (auto intro!: counted w split: option.split)
  moreover have "keeps i s (handleSendFailure now a m p s)" for m
    unfolding handleSendFailure_def Let_def by (auto intro!: w)
  moreover have "keeps i s (deferForProviderQuota x m p s)" for x m
    unfolding deferForProviderQuota_def by (rule keeps_other_row [OF assms]) simp
  ultimately show ?thesis by (auto simp: finishSend_def split: send_result.split)
qed

lemma keeps_scrub: "keeps i s (scrubSettledRows cat rows s)"
proof (induction rows arbitrary: s)
  case Nil
  then show ?case by (simp add: scrubSettledRows_def)
next
  case (Cons row rows)
  define s1 where "s1 = (case cat (ob_key row) of None \<Rightarrow> s
      | Some e \<Rightarrow> (case withoutCredentials e (ob_values row) of None \<Rightarrow> s
          | Some v \<Rightarrow> setOutbox (ob_id row) (\<lambda>r. r\<lparr>ob_values := Some v\<rparr>) s))"
  have v: "keeps i s (setOutbox j (\<lambda>r. r\<lparr>ob_values := x\<rparr>) s)" for j x
    by (rule keeps_map [of _ "\<lambda>r. if ob_id r = j then r\<lparr>ob_values := x\<rparr> else r"]) (auto simp: setOutbox_def)
  have "keeps i s s1" using v by (simp add: s1_def split: option.split)
  moreover have "scrubSettledRows cat (row # rows) s = scrubSettledRows cat rows s1"
    by (simp add: scrubSettledRows_def s1_def)
  ultimately show ?case using Cons.IH keeps_trans by metis
qed

lemma keeps_updateRows:
  "(\<And>r. ob_id (f r) = ob_id r) \<Longrightarrow> (\<And>r. isSettled (f r)) \<Longrightarrow> keeps i s (updateRows is f s)"
  by (rule keeps_map [OF updateRows_outbox(1)]) auto

lemma keeps_planDigest: "keeps i s (fst (planDigest cat env now d s))"
proof -
  have fo: "keeps i s (fst (planDigestFor cat env now d digest s))" for digest s
  proof -
    have bulk: "keeps i t (updateRows is (\<lambda>r. r\<lparr>ob_state := st, ob_lastError := m\<rparr>) t)"
      if "st = ob_suppressed \<or> st = ob_failed" for t "is" st m
      by (rule keeps_updateRows) (use that in \<open>auto simp: isSettled_def\<close>)
    have quiet: "keeps i t (settleAsInAppOnly now is m t)" for t "is" m
      unfolding settleAsInAppOnly_def
      by (rule keeps_trans [OF keeps_updateRows keeps_deliveries]) (auto simp: isSettled_def)
    have close: "keeps i s t \<Longrightarrow> keeps i s (closeEmptyDigest d t)" for t
      unfolding closeEmptyDigest_def by (erule keeps_trans) (rule keeps_setDigest)
    show ?thesis
      by (auto simp: planDigestFor_def Let_def intro!: close bulk
            intro: keeps_trans [OF bulk keeps_scrub] keeps_trans [OF bulk keeps_trans [OF quiet keeps_scrub]]
            split: option.split)
  qed
  obtain t won where c: "claimDigest now d (cm_digests s) = (t, won)" by (meson surj_pair)
  have "keeps i s (s\<lparr>cm_digests := t\<rparr>)" by (rule keeps_same) simp_all
  then show ?thesis
    using keeps_trans [OF _ fo]
    by (simp add: planDigest_def c Let_def split: bool.split option.split)
qed

lemma keeps_finishDigest: "keeps i s (finishDigest cat up now p accepted s)"
proof -
  have "keeps i s (updateRows is (\<lambda>r. r\<lparr>ob_state := ob_dispatched, ob_dispatchedAt := Some now\<rparr>) s)" for "is" s
    by (rule keeps_updateRows) (auto simp: isSettled_def)
  note w = keeps_trans [OF keeps_deliveries keeps_trans [OF this keeps_trans [OF keeps_scrub keeps_setDigest]]]
  have "keeps i s t \<Longrightarrow> keeps i s (countTowardsDailyCap up now u t)" for t u
    by (erule keeps_trans) (simp add: countTowardsDailyCap_def keeps_same)
  then show ?thesis
    unfolding finishDigest_def releaseDigestClaim_def Let_def by (auto intro: w)
qed

lemma keeps_forget: "keeps i s (forgetEntity cat actor k entity s)"
proof (cases "cat k")
  case (Some e)
  then show ?thesis
    by (auto simp: keeps_def forgetEntity_def Let_def isSettled_def waiting_def)
qed (simp add: forgetEntity_def)

lemma keeps_prune: "keeps i s (prune cat now s)"
proof -
  have "keeps i s (pruneRows now s)"
    by (auto simp: keeps_def pruneRows_def Let_def isSettled_def)
  moreover have "keeps i t (scrubLeftoverCredentials cat now t)" for t
    by (auto simp: keeps_def scrubLeftoverCredentials_def Let_def split: option.split)
  ultimately show ?thesis unfolding prune_def by (rule keeps_trans)
qed

subsection \<open>The lease\<close>

fun writesOutcome :: "nat \<Rightarrow> comm_world \<Rightarrow> comm_step \<Rightarrow> bool" where
  "writesOutcome i w (Finish _ _ _ n _) = (n < length (cw_sends w) \<and> ob_id (pl_row (cw_sends w ! n)) = i)"
| "writesOutcome i w _ = False"

fun claimsAfter :: "instant \<Rightarrow> nat \<Rightarrow> comm_step \<Rightarrow> bool" where
  "claimsAfter t i (Begin _ now j) = (j = i \<and> t \<le> now)"
| "claimsAfter t i _ = False"

text \<open>Steps among which nobody writes the outcome of row \<open>i\<close>, and all its claims come before \<open>t\<close>.\<close>

fun withinLease :: "catalog \<Rightarrow> instant \<Rightarrow> nat \<Rightarrow> comm_world \<Rightarrow> comm_step list \<Rightarrow> bool" where
  "withinLease cat t i w [] = True"
| "withinLease cat t i w (st # sts) =
     (\<not> writesOutcome i w st \<and> \<not> claimsAfter t i st \<and> withinLease cat t i (commStep cat st w) sts)"

definition held :: "instant \<Rightarrow> nat \<Rightarrow> comm_state \<Rightarrow> bool" where
  "held t i s \<longleftrightarrow>
     i < cm_nextId s \<and> (\<forall>r\<in>set (cm_outbox s). ob_id r = i \<longrightarrow> isSettled r \<or> t \<le> ob_availableAt r)"

lemma held_keeps: "held t i s \<Longrightarrow> keeps i s s' \<Longrightarrow> held t i s'"
  unfolding held_def keeps_def by (metis order_less_le_trans)

lemma held_inserts: "held t i s \<Longrightarrow> inserts s s' \<Longrightarrow> held t i s'"
  by (auto simp: held_def inserts_def)

lemma not_waiting_settled: "waiting r = (\<not> isSettled r)"
  by (cases "ob_state r") (simp_all add: waiting_def isSettled_def)

lemma held_not_claimed:
  assumes "held t i s" "now < t"
  shows "decideDispatch cat env now i s = (s, PlanSettled out_skipped)"
proof -
  have "filter (\<lambda>r. ob_id r = i \<and> claimable now r) (cm_outbox s) = []"
    using assms by (auto simp: held_def filter_empty_conv claimable_def not_waiting_settled)
  then obtain x where "claimOutbox now i (cm_outbox s) = (x, False)"
    by (simp add: claimOutbox_def guarded_alt)
  then show ?thesis by (simp add: decideDispatch_def)
qed

lemma held_step:
  assumes h: "held t i (cw_state w)" and o: "\<not> writesOutcome i w st" and c: "\<not> claimsAfter t i st"
  shows "held t i (cw_state (commStep cat st w))"
proof (cases st)
  case (Emit up now inp)
  then show ?thesis using held_inserts [OF h inserts_emit] by simp
next
  case (EmitToAddress now k a x v)
  then show ?thesis using h held_inserts [OF h inserts_emit_address] by (auto split: option.split)
next
  case (Forget u k x)
  then show ?thesis using held_keeps [OF h keeps_forget] by simp
next
  case (Begin env now j)
  have "held t i (fst (decideDispatch cat env now j (cw_state w)))"
  proof (cases "j = i")
    case True
    then show ?thesis using held_not_claimed [OF h] c Begin h by simp
  next
    case False
    then show ?thesis using held_keeps [OF h keeps_decide] by blast
  qed
  then have "held t i (fst (beginDispatch cat env now j (cw_state w)))"
    using h by (simp add: beginDispatch_def)
  then show ?thesis
    using Begin by (auto split: prod.split dispatch_plan.split)
next
  case (Finish up now a n result)
  then show ?thesis using h o held_keeps [OF h keeps_finish] by auto
next
  case (BeginDigest env now d)
  then show ?thesis using h held_keeps [OF h keeps_planDigest [of i "cw_state w" cat env now d]]
    by (auto split: prod.split option.split)
next
  case (FinishDigest up now n accepted)
  then show ?thesis using h held_keeps [OF h keeps_finishDigest] by auto
next
  case (Prune now)
  then show ?thesis using held_keeps [OF h keeps_prune] by simp
qed (use h in simp_all)

lemma held_steps: "held t i (cw_state w) \<Longrightarrow> withinLease cat t i w sts \<Longrightarrow> held t i (cw_state (fold (commStep cat) sts w))"
  by (induction sts arbitrary: w) (simp_all add: held_step)

lemma claim_holds:
  assumes ok: "rows_ok cat s" and d: "decideDispatch cat env now i s = (s', PlanSend p)"
  shows "held (now + COMMUNICATION_CLAIM_LEASE_MS) i s'"
proof -
  obtain t won where c: "claimOutbox now i (cm_outbox s) = (t, won)" by (meson surj_pair)
  define s1 where "s1 = s\<lparr>cm_outbox := t\<rparr>"
  have won: won using d c by (auto simp: decideDispatch_def split: bool.splits)
  obtain row where row: "findOutbox s1 i = Some row" "decideRow cat env now row s1 = (s', PlanSend p)"
    using d c won unfolding decideDispatch_def s1_def by (auto simp: settled_def Let_def split: option.splits)
  have same: "cm_outbox s' = cm_outbox s1 \<and> cm_nextId s' = cm_nextId s1"
    using row(2)
    by (auto simp: decideRow_def decideForAddress_def decideForUser_def decideDelivery_def settled_def
          cooldownRemaining_def Let_def split: option.splits if_splits prod.splits cap_verdict.splits)
  obtain r where r: "find_by ob_id i (cm_outbox s) = Some r" "claimable now r"
    using outbox_claim.won_iff [of "cm_outbox s" now i] ok c won by (auto simp: claimOutbox_def rows_ok_def)
  have bound: "i < cm_nextId s" using ok find_by_Some [OF r(1)] by (auto simp: rows_ok_def)
  have t: "t = map (\<lambda>x. if ob_id x = i then claimedRow now x else x) (cm_outbox s)"
  proof -
    have i: "r \<in> set (cm_outbox s)" "ob_id r = i" using find_by_Some [OF r(1)] by auto
    have ids: "distinct (map ob_id (cm_outbox s))" using ok by (simp add: rows_ok_def)
    have "claimOutbox now (ob_id r) (cm_outbox s) =
        (map (\<lambda>x. if ob_id x = ob_id r then claimedRow now x else x) (cm_outbox s), True)"
      unfolding claimOutbox_def by (rule outbox_claim.write_row [OF ids i(1) r(2)])
    then have "(t, won) = (map (\<lambda>x. if ob_id x = i then claimedRow now x else x) (cm_outbox s), True)"
      by (simp only: i(2) c)
    then show ?thesis by (rule Pair_inject)
  qed
  have "now + COMMUNICATION_CLAIM_LEASE_MS \<le> ob_availableAt x" if "x \<in> set t" "ob_id x = i" for x
  proof -
    from that(1) obtain y where y: "x = (if ob_id y = i then claimedRow now y else y)"
      unfolding t set_map by (rule imageE)
    show ?thesis
    proof (cases "ob_id y = i")
      case True
      then have "x = claimedRow now y" using y by simp
      then show ?thesis by (simp add: claimedRow_def)
    qed (use y that(2) in simp)
  qed
  with same bound show ?thesis by (simp add: held_def s1_def)
qed

text \<open>C27. Once a worker holds a row, no other worker gets it for the ten minutes of the lease: while the
  outcome is not written, every attempt before the lease ends finds nothing and changes nothing,
  whatever other emits, sends, digests, deletions, crashes and retention runs come in between.\<close>
theorem claim_excludes_others:
  assumes w: "w = commHistory cat ss"
    and claim: "beginDispatch cat env now i (cw_state w) = (s', PlanSend p)"
    and between: "withinLease cat (now + COMMUNICATION_CLAIM_LEASE_MS) i (commStep cat (Begin env now i) w) sts"
    and soon: "later < now + COMMUNICATION_CLAIM_LEASE_MS"
    and w2: "w2 = fold (commStep cat) sts (commStep cat (Begin env now i) w)"
  shows "beginDispatch cat env' later i (cw_state w2) = (cw_state w2, PlanSettled out_skipped)"
proof -
  have "rows_ok cat (cw_state w)" using comm_ok_history [of cat ss] w by (simp add: comm_ok_def)
  moreover have "decideDispatch cat env now i (cw_state w) = (s', PlanSend p)"
    using claim by (simp add: beginDispatch_def split: if_splits)
  ultimately have "held (now + COMMUNICATION_CLAIM_LEASE_MS) i (cw_state (commStep cat (Begin env now i) w))"
    using claim_holds claim by simp
  from held_not_claimed [OF held_steps [OF this between] soon] show ?thesis
    unfolding w2 by (simp add: beginDispatch_def)
qed

text \<open>The second worker comes after nine minutes, with another message sent and one deleted in between.\<close>

definition leaseBetween :: "comm_step list" where
  "leaseBetween =
     [otpEmit ''o2'', Begin exampleEnv 6 1, Finish True 9 \<lparr>da_made = 0, da_max = 6\<rparr> 1 SendAccepted,
      Begin exampleEnv 20 0, Forget ''u1'' ''auth.email.otp'' (''otp'', ''o2''), Prune 30]"

theorem claim_excludes_others_witness:
  "beginDispatch otpCatalog exampleEnv 540000 0
      (cw_state (fold (commStep otpCatalog) leaseBetween (commStep otpCatalog (Begin exampleEnv 5 0)
                   (commHistory otpCatalog [otpEmit ''o1'']))))
   = (cw_state (fold (commStep otpCatalog) leaseBetween (commStep otpCatalog (Begin exampleEnv 5 0)
                   (commHistory otpCatalog [otpEmit ''o1'']))), PlanSettled out_skipped)"
proof -
  let ?w = "commHistory otpCatalog [otpEmit ''o1'']"
  have "(case beginDispatch otpCatalog exampleEnv 5 0 (cw_state ?w) of (_, PlanSend _) \<Rightarrow> True | _ \<Rightarrow> False)"
    by code_simp
  then obtain s' p where claim: "beginDispatch otpCatalog exampleEnv 5 0 (cw_state ?w) = (s', PlanSend p)"
    by (auto split: prod.splits dispatch_plan.splits)
  have between: "withinLease otpCatalog (5 + COMMUNICATION_CLAIM_LEASE_MS) 0
      (commStep otpCatalog (Begin exampleEnv 5 0) ?w) leaseBetween"
    by code_simp
  show ?thesis
    by (rule claim_excludes_others [OF refl claim between _ refl]) (simp add: ms_simps)
qed

end
