(* ===== verification/Comm_Delivery.thy ===== *)
theory Comm_Delivery
  imports Comm_Claims
begin

text \<open>
  Which mail goes out: the decision of the dispatcher against a person's wishes, when a digest
  window closes, and three places where mail is sent that should not be.
\<close>

subsection \<open>The dispatcher's decision\<close>

definition wantedAtOnce :: "comm_category \<Rightarrow> email_policy \<Rightarrow> stored_preferences \<Rightarrow> bool \<Rightarrow> bool" where
  "wantedAtOnce c policy sp isStaff =
     (case policy of
        em_always \<Rightarrow> True
      | em_never \<Rightarrow> False
      | em_digest \<Rightarrow> False
      | em_preference \<Rightarrow>
          (case c of
             cat_engagement \<Rightarrow>
               (sp_engagementEmail sp = Some True \<or> sp_engagementEmail sp = None \<and> sp_legacyEmail sp \<noteq> Some False)
               \<and> sp_engagementDigest sp \<noteq> Some daily
           | cat_lifecycle \<Rightarrow> sp_reminders sp \<noteq> Some False
           | cat_operational \<Rightarrow>
               isStaff \<longrightarrow> sp_operationalEmail sp \<noteq> Some False \<and> sp_operationalDigest sp \<noteq> Some daily
           | _ \<Rightarrow> True))"

definition belowCap :: "dispatch_env \<Rightarrow> instant \<Rightarrow> uid \<Rightarrow> recipient_state \<Rightarrow> comm_category \<Rightarrow> comm_state \<Rightarrow> bool" where
  "belowCap env now u rs c s \<longleftrightarrow>
     c = cat_security \<or> c = cat_transactional
     \<or> sentTodayCount (ev_redisUp env) now u s < (if rs_isStaff rs then 10 else 5)"

definition cooledDown :: "dispatch_env \<Rightarrow> instant \<Rightarrow> uid \<Rightarrow> string \<Rightarrow> catalog_entry \<Rightarrow> comm_state \<Rightarrow> bool" where
  "cooledDown env now u k e s \<longleftrightarrow>
     ce_cooldownSeconds e \<le> 0 \<or> \<not> ev_redisUp env
     \<or> (case cm_cooldowns s (u, k) of None \<Rightarrow> True | Some x \<Rightarrow> x \<le> now)"

lemma preference_gate_iff:
  "preferenceGate c policy (resolveCommunicationPreferences sp staff) = Some False \<longleftrightarrow>
     wantedAtOnce c policy sp staff \<or> policy = em_never"
  by (cases c; cases policy; cases "sp_engagementEmail sp"; cases "sp_operationalDigest sp")
    (auto simp: preferenceGate_def resolveCommunicationPreferences_def orElse_def wantedAtOnce_def
       isStaffDigestMode_def split: option.splits)

lemma cap_gate_iff:
  "capGate env now u rs e pf wd s = cap_below \<longleftrightarrow> \<not> wd \<and> belowCap env now u rs (ce_category e) s"
  by (auto simp: capGate_def belowCap_def capExempt_def Let_def DAILY_EMAIL_CAP_LEARNER_def
        DAILY_EMAIL_CAP_STAFF_def)

lemma cooldown_iff:
  assumes "cooldownRemaining (ev_redisUp env) now u k e s = (s1, n)"
  shows "0 < n \<longleftrightarrow> \<not> cooledDown env now u k e s"
    and "cm_sentToday s1 = cm_sentToday s" and "cm_outbox s1 = cm_outbox s"
  using assms by (auto simp: cooldownRemaining_def cooledDown_def Let_def split: option.splits if_splits)

lemma decide_delivery_iff:
  "(\<exists>s' p. decideDelivery cat env now row e u rs pf wd s = (s', PlanSend p)) \<longleftrightarrow>
     \<not> ev_suppressed env (rs_email rs) \<and> cooledDown env now u (ob_key row) e s \<and> \<not> wd
     \<and> belowCap env now u rs (ce_category e) s"
proof -
  obtain s1 n where c: "cooldownRemaining (ev_redisUp env) now u (ob_key row) e s = (s1, n)"
    by (meson surj_pair)
  note cc = cooldown_iff [OF c]
  have b: "belowCap env now u rs c s1 = belowCap env now u rs c s" for c
    by (simp add: belowCap_def sentTodayCount_def cc(2))
  have g: "capGate env now u rs e pf wd s1 = cap_below \<longleftrightarrow> \<not> wd \<and> belowCap env now u rs (ce_category e) s"
    by (simp add: cap_gate_iff b)
  show ?thesis
    using g cc(1)
    by (cases "capGate env now u rs e pf wd s1") (auto simp: decideDelivery_def settled_def c)
qed

lemma decide_claimed:
  assumes ids: "distinct (map ob_id (cm_outbox s))" and r: "r \<in> set (cm_outbox s)" and c: "claimable now r"
  obtains s1 where "cm_outbox s1 = map (\<lambda>x. if ob_id x = ob_id r then claimedRow now x else x) (cm_outbox s)"
    and "cm_cooldowns s1 = cm_cooldowns s" "cm_sentToday s1 = cm_sentToday s"
    and "decideDispatch cat env now (ob_id r) s = decideRow cat env now (claimedRow now r) s1"
proof -
  let ?t = "map (\<lambda>x. if ob_id x = ob_id r then claimedRow now x else x) (cm_outbox s)"
  have t: "claimOutbox now (ob_id r) (cm_outbox s) = (?t, True)"
    unfolding claimOutbox_def by (rule outbox_claim.write_row [OF ids r c])
  have "find_by ob_id (ob_id r) ?t = map_option (\<lambda>x. if ob_id x = ob_id r then claimedRow now x else x)
          (find_by ob_id (ob_id r) (cm_outbox s))"
    by (rule find_by_map) (simp add: claimedRow_def)
  then have "find_by ob_id (ob_id r) ?t = Some (claimedRow now r)"
    using find_by_distinct [OF ids r] by simp
  then have "decideDispatch cat env now (ob_id r) s =
      decideRow cat env now (claimedRow now r) (s\<lparr>cm_outbox := ?t\<rparr>)"
    by (simp add: decideDispatch_def t findOutbox_def)
  then show thesis by (intro that [of "s\<lparr>cm_outbox := ?t\<rparr>"]) simp_all
qed

lemma claimedRow_fields [simp]:
  "ob_id (claimedRow now r) = ob_id r" "ob_key (claimedRow now r) = ob_key r"
  "ob_recipientUserId (claimedRow now r) = ob_recipientUserId r"
  "ob_recipientEmail (claimedRow now r) = ob_recipientEmail r"
  "ob_academyId (claimedRow now r) = ob_academyId r" "ob_values (claimedRow now r) = ob_values r"
  "ob_chInApp (claimedRow now r) = ob_chInApp r" "ob_chEmail (claimedRow now r) = ob_chEmail r"
  "ob_category (claimedRow now r) = ob_category r"
  "ob_createdAt (claimedRow now r) = ob_createdAt r" "ob_campaignId (claimedRow now r) = ob_campaignId r"
  by (simp_all add: claimedRow_def)

lemma stale_claimed [simp]: "isStale now (claimedRow t r) e = isStale now r e"
  by (simp add: isStale_def split: option.split)

lemma cancelled_claimed [simp]: "campaignCancelled env (claimedRow t r) = campaignCancelled env r"
  by (simp add: campaignCancelled_def split: option.split)

text \<open>C28. A due row of a person is mailed now exactly when the person can be reached at an address that is
  not suppressed, the campaign and academy behind the row still stand, the message is not stale, the
  person wants it at once, no cooldown is running and the day's limit is not reached; and the limit
  and the wishes never hold back security and transactional mail that is always sent.\<close>
theorem email_goes_out_iff:
  assumes ids: "distinct (map ob_id (cm_outbox s))" and r: "r \<in> set (cm_outbox s)" "claimable now r"
    and u: "ob_recipientUserId r = Some u" and e: "cat (ob_key r) = Some e"
  shows "(\<exists>s' p. decideDispatch cat env now (ob_id r) s = (s', PlanSend p)) \<longleftrightarrow>
     (\<exists>rs. loadRecipient env u = Some rs \<and> \<not> ev_suppressed env (rs_email rs)
        \<and> \<not> campaignCancelled env r \<and> (ce_requiresLiveAcademy e \<longrightarrow> academyIsLive env (ob_academyId r))
        \<and> \<not> isStale now r e
        \<and> wantedAtOnce (ce_category e) (ob_chEmail r) (rs_preferences rs) (rs_isStaff rs)
        \<and> cooledDown env now u (ob_key r) e s \<and> belowCap env now u rs (ce_category e) s)"
proof -
  obtain s1 where s1: "cm_cooldowns s1 = cm_cooldowns s" "cm_sentToday s1 = cm_sentToday s"
    "decideDispatch cat env now (ob_id r) s = decideRow cat env now (claimedRow now r) s1"
    by (rule decide_claimed [OF ids r, of cat env]) blast
  have same: "cooledDown env now u k e s1 = cooledDown env now u k e s"
    "belowCap env now u rs c s1 = belowCap env now u rs c s" for k rs c
    using s1(1,2) by (simp_all add: cooledDown_def belowCap_def sentTodayCount_def)
  have row: "decideRow cat env now (claimedRow now r) s1 = decideForUser cat env now (claimedRow now r) e u s1"
    by (simp add: decideRow_def u e)
  show ?thesis
  proof (cases "loadRecipient env u")
    case None
    then show ?thesis by (simp add: s1(3) row decideForUser_def settled_def Let_def)
  next
    case (Some rs)
    let ?pf = "resolveCommunicationPreferences (rs_preferences rs) (rs_isStaff rs)"
    note g = preference_gate_iff [of "ce_category e" "ob_chEmail r" "rs_preferences rs" "rs_isStaff rs"]
    have never: "ob_chEmail r = em_never \<Longrightarrow> \<not> wantedAtOnce (ce_category e) (ob_chEmail r) (rs_preferences rs) (rs_isStaff rs)"
      by (simp add: wantedAtOnce_def)
    show ?thesis
    proof (cases "preferenceGate (ce_category e) (ob_chEmail r) ?pf")
      case None
      then show ?thesis using Some g never
        by (auto simp: s1(3) row decideForUser_def settled_def Let_def)
    next
      case (Some wd)
      then show ?thesis using \<open>loadRecipient env u = Some rs\<close> g never
          decide_delivery_iff [of cat env now "claimedRow now r" e u rs ?pf wd s1]
        by (auto simp: s1(3) row decideForUser_def settled_def Let_def same)
    qed
  qed
qed

text \<open>A sign-in code for somebody who turned everything off and was mailed fifty times today.\<close>

definition quietUser :: comm_user where
  "quietUser = \<lparr>cu_email = ''a@b.c'', cu_deleted = False, cu_preferences =
     \<lparr>sp_legacyEmail = Some False, sp_reminders = Some False, sp_engagementEmail = Some False,
      sp_engagementDigest = Some digest_off, sp_operationalEmail = Some False, sp_operationalDigest = None\<rparr>\<rparr>"

definition quietEnv :: dispatch_env where
  "quietEnv = exampleEnv\<lparr>ev_user := (\<lambda>_. Some quietUser)\<rparr>"

definition busyState :: comm_state where
  "busyState = (cw_state (commHistory otpCatalog [otpEmit ''o1'']))\<lparr>cm_sentToday := (\<lambda>_. 50)\<rparr>"

theorem email_goes_out_iff_witness:
  "\<exists>s' p. decideDispatch otpCatalog quietEnv 5 0 busyState = (s', PlanSend p)"
proof -
  have b: "distinct (map ob_id (cm_outbox busyState))"
    "map (\<lambda>r. (ob_id r, ob_key r, ob_recipientUserId r, ob_chEmail r, ob_campaignId r, claimable 5 r)) (cm_outbox busyState) =
       [(0, ''auth.email.otp'', Some ''u1'', em_always, None, True)]"
    by code_simp+
  then obtain r where r: "cm_outbox busyState = [r]" "ob_id r = 0" "ob_key r = ''auth.email.otp''"
      "ob_recipientUserId r = Some ''u1''" "ob_chEmail r = em_always" "ob_campaignId r = None" "claimable 5 r"
    by (auto simp: map_eq_Cons_conv)
  have rs: "loadRecipient quietEnv ''u1'' = Some \<lparr>rs_email = ''a@b.c'', rs_preferences = cu_preferences quietUser, rs_isStaff = False\<rparr>"
    by code_simp
  have m: "r \<in> set (cm_outbox busyState)" and e: "otpCatalog (ob_key r) = Some otpEntry"
    using r by (simp_all add: otpCatalog_def)
  have f: "ce_cooldownSeconds otpEntry = 0" "ce_category otpEntry = cat_security"
    "ce_emailStaleAfterSeconds otpEntry = None" "\<not> ce_requiresLiveAcademy otpEntry"
    "\<not> ev_suppressed quietEnv ''a@b.c''"
    by (simp_all add: otpEntry_def quietEnv_def exampleEnv_def)
  have c: "\<not> campaignCancelled quietEnv r" "\<not> isStale 5 r otpEntry"
    "wantedAtOnce cat_security em_always sp staff" "cooledDown quietEnv 5 ''u1'' k otpEntry busyState"
    "belowCap quietEnv 5 ''u1'' x cat_security busyState" for sp staff k x
    using r f by (simp_all add: campaignCancelled_def isStale_def wantedAtOnce_def cooledDown_def belowCap_def)
  show ?thesis
    using email_goes_out_iff [of busyState r 5 "''u1''" otpCatalog otpEntry quietEnv, OF b(1) m r(7,4) e] rs r f c
    by simp
qed

subsection \<open>When a window closes\<close>

lemma window_unique:
  fixes a b t D :: int
  assumes "a mod D = b mod D" "t < a" "a \<le> t + D" "t < b" "b \<le> t + D"
  shows "a = b"
proof -
  have "D dvd a - b" using assms(1) by (simp add: mod_eq_dvd_iff)
  then have "a - b \<noteq> 0 \<Longrightarrow> \<bar>D\<bar> \<le> \<bar>a - b\<bar>" by (rule dvd_imp_le_int [rotated])
  then show ?thesis using assms(2-5) by linarith
qed

lemma next_hour_bounds:
  assumes z: "localSeconds t = t - t mod 1000 + off" and o: "off mod 1000 = 0" and h: "0 \<le> hour" "hour < 24"
  shows "t < nextLocalHour localSeconds t hour" "nextLocalHour localSeconds t hour \<le> t + day_ms"
    and "(nextLocalHour localSeconds t hour + off) mod day_ms = hour * hour_ms"
proof -
  define L where "L = t - t mod 1000 + off"
  define c where "c = L - L mod day_ms + hour * hour_ms - off"
  have w: "nextLocalHour localSeconds t hour = (if c \<le> t then c + day_ms else c)"
    by (simp add: nextLocalHour_def z Let_def L_def c_def ms_simps)
  have L1: "L \<le> t + off" "t + off < L + 1000" by (simp_all add: L_def)
  obtain q where "off = 1000 * q" using o by (metis dvdE mod_eq_0_iff_dvd)
  moreover have "t - t mod 1000 = 1000 * (t div 1000)" by (rule minus_mod_eq_mult_div)
  ultimately obtain j where j: "L = 1000 * j" unfolding L_def by (metis distrib_left)
  have "L mod day_ms = 1000 * (j mod 86400)"
    using mult_mod_right [of 1000 j 86400] by (simp add: j ms_simps)
  then have "L mod day_ms \<le> day_ms - 1000" using pos_mod_bound [of 86400 j] by (simp add: ms_simps)
  moreover have "0 \<le> L mod day_ms" by (simp add: ms_simps)
  moreover have "0 \<le> hour * hour_ms" "hour * hour_ms \<le> day_ms - hour_ms" using h by (simp_all add: ms_simps)
  ultimately show "t < nextLocalHour localSeconds t hour" "nextLocalHour localSeconds t hour \<le> t + day_ms"
    using L1 unfolding w c_def by (auto simp: ms_simps)
  have "(c + off) mod day_ms = (hour * hour_ms) mod day_ms"
    unfolding c_def by (simp add: mod_simps algebra_simps)
  moreover have "(hour * hour_ms) mod day_ms = hour * hour_ms" using h by (simp add: ms_simps)
  ultimately show "(nextLocalHour localSeconds t hour + off) mod day_ms = hour * hour_ms"
    unfolding w by (simp add: add.commute add.left_commute)
qed

text \<open>While the zone keeps its offset, a digest window closes at the given local hour, after now and
  within a day, and every item that joins before then computes the very same window, to the
  millisecond, so two workers cannot open two.\<close>
theorem digest_window_is_stable:
  assumes z: "\<forall>t. now \<le> t \<and> t < now + day_ms \<longrightarrow> localSeconds t = t - t mod 1000 + off"
    and o: "off mod 1000 = 0" and h: "0 \<le> hour" "hour < 24"
    and w: "w = nextLocalHour localSeconds now hour"
  shows "now < w \<and> w \<le> now + day_ms \<and> (w + off) mod day_ms = hour * hour_ms
    \<and> (now \<le> t \<and> t < w \<longrightarrow> nextLocalHour localSeconds t hour = w)"
proof -
  have d: "0 < day_ms" by (simp add: ms_simps)
  have z0: "localSeconds now = now - now mod 1000 + off" using z d by simp
  note b = next_hour_bounds [of localSeconds now off hour, OF z0 o h]
  have stable: "nextLocalHour localSeconds t hour = w" if t: "now \<le> t" "t < w"
  proof -
    have "localSeconds t = t - t mod 1000 + off" using z t b w by simp
    note bt = next_hour_bounds [of localSeconds t off hour, OF this o h]
    have "(nextLocalHour localSeconds t hour + off) mod day_ms = (w + off) mod day_ms"
      using bt(3) b(3) w by simp
    moreover have "t + off < nextLocalHour localSeconds t hour + off"
        "nextLocalHour localSeconds t hour + off \<le> t + off + day_ms"
      using bt(1,2) by linarith+
    moreover have "t + off < w + off" "w + off \<le> t + off + day_ms"
      using t b(2) unfolding w by linarith+
    ultimately have "nextLocalHour localSeconds t hour + off = w + off" by (rule window_unique)
    then show ?thesis by simp
  qed
  show ?thesis
    by (intro conjI impI b [folded w] stable; elim conjE; assumption)
qed

text \<open>Cairo in winter, two hours ahead of UTC, shortly before and after eight in the morning.\<close>

theorem digest_window_is_stable_witness:
  "nextLocalHour (\<lambda>t. t - t mod 1000 + 7200000) 21500123 8 = 21600000
   \<and> nextLocalHour (\<lambda>t. t - t mod 1000 + 7200000) 21599999 8 = 21600000
   \<and> nextLocalHour (\<lambda>t. t - t mod 1000 + 7200000) 21600000 8 = 108000000"
proof -
  have a: "nextLocalHour (\<lambda>t. t - t mod 1000 + 7200000) 21500123 8 = 21600000"
    by code_simp
  have "nextLocalHour (\<lambda>t. t - t mod 1000 + 7200000) 21599999 8 = 21600000"
    using digest_window_is_stable [of 21500123 "\<lambda>t. t - t mod 1000 + 7200000" 7200000 8 21600000 21599999]
    by (simp add: a)
  moreover have "nextLocalHour (\<lambda>t. t - t mod 1000 + 7200000) 21600000 8 = 108000000"
    by code_simp
  ultimately show ?thesis using a by simp
qed

end
