(* ===== verification/Comm_Findings.thy ===== *)
theory Comm_Findings
  imports Comm_Delivery
begin

text \<open>
  Three ways in which mail goes out that should not: a digest does not ask what the dispatcher
  asks, an outcome written late reopens a row that was closed, and the sweep starts new jobs for a
  row whose job is waiting for its next attempt.
\<close>

subsection \<open>A digest does not ask what the dispatcher asks\<close>

lemma plan_digest_claimed:
  assumes ids: "distinct (map dg_id (cm_digests s))" and g: "g \<in> set (cm_digests s)"
    and o: "dg_state g = dg_open" "dg_sentAt g = None"
  obtains s1 where "cm_outbox s1 = cm_outbox s"
    and "planDigest cat env now (dg_id g) s = planDigestFor cat env now (dg_id g) (g\<lparr>dg_sentAt := Some now\<rparr>) s1"
proof -
  let ?f = "\<lambda>x. x\<lparr>dg_sentAt := Some now\<rparr>"
  let ?t = "map (\<lambda>x. if dg_id x = dg_id g then ?f x else x) (cm_digests s)"
  have t: "claimDigest now (dg_id g) (cm_digests s) = (?t, True)"
    unfolding claimDigest_def
    by (rule digest_claim.write_row [OF ids g]) (simp add: digestClaimable_def o)
  have "find_by dg_id (dg_id g) ?t = map_option (\<lambda>x. if dg_id x = dg_id g then ?f x else x)
          (find_by dg_id (dg_id g) (cm_digests s))"
    by (rule find_by_map) simp
  then have "find_by dg_id (dg_id g) ?t = Some (?f g)"
    using find_by_distinct [OF ids g] by simp
  then show thesis
    by (intro that [of "s\<lparr>cm_digests := ?t\<rparr>"]) (simp_all add: planDigest_def t)
qed

text \<open>C30. A lifecycle message that the day's limit moved into the digest is mailed with it although the
  dispatcher, asked about the same row at the same moment, would not mail it: the message is stale,
  its campaign was cancelled, its academy was archived, or the person has switched reminders
  off since.\<close>
theorem digest_mails_what_dispatch_refuses:
  assumes ids: "distinct (map dg_id (cm_digests s))" and g: "g \<in> set (cm_digests s)"
    and o: "dg_state g = dg_open" "dg_sentAt g = None"
    and r: "r \<in> set (cm_outbox s)" "ob_digestId r = Some (dg_id g)" "ob_state r = ob_deferred"
    and e: "cat (ob_key r) = Some e" "ce_category e = cat_lifecycle" "ob_category r = cat_lifecycle"
    and rs: "loadRecipient env (dg_recipientUserId g) = Some rs" "\<not> ev_suppressed env (rs_email rs)"
    and no: "isStale now r e \<or> campaignCancelled env r
      \<or> ce_requiresLiveAcademy e \<and> \<not> academyIsLive env (ob_academyId r)
      \<or> ob_chEmail r = em_preference \<and> sp_reminders (rs_preferences rs) = Some False"
  shows "(\<exists>s' p. planDigest cat env now (dg_id g) s = (s', Some p) \<and> r \<in> set (dp_items p) \<and> dp_to p = rs_email rs)
    \<and> \<not> (\<exists>s' p. decideForUser cat env now r e (dg_recipientUserId g) t = (s', PlanSend p))"
proof
  obtain s1 where s1: "cm_outbox s1 = cm_outbox s"
    "planDigest cat env now (dg_id g) s = planDigestFor cat env now (dg_id g) (g\<lparr>dg_sentAt := Some now\<rparr>) s1"
    by (rule plan_digest_claimed [OF ids g o])
  have items: "r \<in> set (digestItems s1 (dg_id g))" using r s1(1) by (simp add: digestItems_def)
  moreover have "knownKey cat r" "allowedByPreference (ob_category r) pf" for pf
    using e by (simp_all add: knownKey_def allowedByPreference_def)
  ultimately have "\<exists>s' p. planDigestFor cat env now (dg_id g) (g\<lparr>dg_sentAt := Some now\<rparr>) s1 = (s', Some p)
      \<and> r \<in> set (dp_items p) \<and> dp_to p = rs_email rs"
    using rs by (auto simp: planDigestFor_def Let_def filter_empty_conv)
  then show "\<exists>s' p. planDigest cat env now (dg_id g) s = (s', Some p) \<and> r \<in> set (dp_items p) \<and> dp_to p = rs_email rs"
    by (simp add: s1(2))
  show "\<not> (\<exists>s' p. decideForUser cat env now r e (dg_recipientUserId g) t = (s', PlanSend p))"
    using no rs(1) e(2)
    by (auto simp: decideForUser_def settled_def Let_def preferenceGate_def
          resolveCommunicationPreferences_def orElse_def split: option.splits)
qed

text \<open>
  The reminder that a trial ends: true for twelve hours.  It is written at 19:00 for somebody who
  has had five emails that day, joins the window that closes at 8:00, and is mailed at 8:20.
\<close>

definition trialEntry :: catalog_entry where
  "trialEntry = otpEntry\<lparr>ce_category := cat_lifecycle, ce_audience := aud_staff, ce_inApp := True,
     ce_dedupe := (\<lambda>(_, i) _. Some (''lifecycle_trial:'' @ i)), ce_credentialValues := [],
     ce_emailStaleAfterSeconds := Some 43200\<rparr>"

definition trialCatalog :: catalog where
  "trialCatalog k = (if k = ''lifecycle.trial.ending_soon'' then Some trialEntry else otpCatalog k)"

definition sendCode :: "uid \<Rightarrow> nat \<Rightarrow> comm_step list" where
  "sendCode x i = [otpEmit x, Begin exampleEnv 5 i, Finish True 9 \<lparr>da_made = 0, da_max = 6\<rparr> 0 SendAccepted]"

definition trialHistory :: "comm_step list" where
  "trialHistory = sendCode ''o1'' 0 @ sendCode ''o2'' 1 @ sendCode ''o3'' 2 @ sendCode ''o4'' 3 @ sendCode ''o5'' 4
     @ [Emit True 68400000
          \<lparr>ei_key = ''lifecycle.trial.ending_soon'', ei_recipientUserId = ''u1'', ei_academyId = None,
           ei_entity = (''organization'', ''org1''), ei_values = [], ei_notBefore = None\<rparr>,
        Begin exampleEnv 68400010 5]"

theorem digest_mails_what_dispatch_refuses_witness:
  "\<exists>r s' p. r \<in> set (cm_outbox (cw_state (commHistory trialCatalog trialHistory))) \<and> isStale 116400000 r trialEntry
     \<and> planDigest trialCatalog exampleEnv 116400000 6 (cw_state (commHistory trialCatalog trialHistory)) = (s', Some p)
     \<and> r \<in> set (dp_items p)"
proof -
  let ?s = "cw_state (commHistory trialCatalog trialHistory)"
  have "map (\<lambda>g. (dg_id g, dg_recipientUserId g, dg_state g, dg_sentAt g, dg_windowEnd g)) (cm_digests ?s) =
      [(6, ''u1'', dg_open, None, 115200000)]"
    by code_simp
  then obtain g where g: "cm_digests ?s = [g]" "dg_id g = 6" "dg_recipientUserId g = ''u1''"
      "dg_state g = dg_open" "dg_sentAt g = None"
    by (auto simp: map_eq_Cons_conv)
  have "map (\<lambda>r. (ob_key r, ob_digestId r, ob_state r, ob_category r, ob_createdAt r)) (drop 5 (cm_outbox ?s)) =
      [(''lifecycle.trial.ending_soon'', Some 6, ob_deferred, cat_lifecycle, 68400000)]"
    by code_simp
  then obtain r where r: "drop 5 (cm_outbox ?s) = [r]" "ob_key r = ''lifecycle.trial.ending_soon''"
      "ob_digestId r = Some 6" "ob_state r = ob_deferred" "ob_category r = cat_lifecycle" "ob_createdAt r = 68400000"
    by (auto simp: map_eq_Cons_conv)
  have m: "r \<in> set (cm_outbox ?s)" using r(1) by (metis in_set_dropD list.set_intros(1))
  have f: "trialCatalog (ob_key r) = Some trialEntry" "ce_category trialEntry = cat_lifecycle"
    "isStale 116400000 r trialEntry"
    using r by (simp_all add: trialCatalog_def trialEntry_def isStale_def)
  have rs: "loadRecipient exampleEnv (dg_recipientUserId g) =
      Some \<lparr>rs_email = ''a@b.c'', rs_preferences = cu_preferences exampleUser, rs_isStaff = False\<rparr>"
    unfolding g(3) by code_simp
  have sup: "\<not> ev_suppressed exampleEnv x" for x by (simp add: exampleEnv_def)
  have ids: "distinct (map dg_id (cm_digests ?s))" "g \<in> set (cm_digests ?s)" "ob_digestId r = Some (dg_id g)"
    using g r(3) by simp_all
  obtain s' p where "planDigest trialCatalog exampleEnv 116400000 (dg_id g) ?s = (s', Some p)" "r \<in> set (dp_items p)"
    using digest_mails_what_dispatch_refuses
      [of ?s g r trialCatalog trialEntry exampleEnv _ 116400000 undefined,
       OF ids(1,2) g(4,5) m ids(3) r(4) f(1,2) r(5) rs sup] f(3) by blast
  then show ?thesis using m f(3) g(2) by auto
qed

subsection \<open>A late outcome reopens a closed row\<close>

text \<open>The record behind a message is deleted while the message is being sent, and the row is closed
  with its details blanked; when that send then fails for a passing reason, the worker puts the row
  back to pending without looking, and the next attempt mails the message with its details gone.\<close>
theorem forgotten_message_is_mailed_again:
  assumes ids: "distinct (map ob_id (cm_outbox s))" and r: "r \<in> set (cm_outbox s)" "waiting r" "ob_digestId r = None"
    and e: "cat (ob_key r) = Some e" "ce_addressRecipient e"
    and a: "ob_recipientUserId r = None" "ob_recipientEmail r = Some address"
    and p: "ob_id (pl_row p) = ob_id r" and att: "da_made att + 1 < da_max att"
    and env: "\<not> ev_suppressed env address" and t: "now \<le> later"
  shows "(\<exists>x. findOutbox (forgetEntity cat actor (ob_key r) (ob_entity r) s) (ob_id r) = Some x \<and> ob_state x = ob_suppressed)
    \<and> (\<exists>s' q. decideDispatch cat env later (ob_id r)
                (handleSendFailure now att m p (forgetEntity cat actor (ob_key r) (ob_entity r) s)) = (s', PlanSend q)
         \<and> pl_to q = address
         \<and> ob_values (pl_row q) = map_option (withoutKeys (settleScrubKeys e)) (ob_values r))"
proof -
  let ?g = "\<lambda>x. if ob_key x = ob_key r \<and> ob_entity x = ob_entity r
      then x\<lparr>ob_values := map_option (withoutKeys (settleScrubKeys e)) (ob_values x),
             ob_state := (if waiting x then ob_suppressed else ob_state x),
             ob_lastError := (if waiting x then Some ''source_deleted'' else ob_lastError x)\<rparr>
      else x"
  let ?s1 = "forgetEntity cat actor (ob_key r) (ob_entity r) s"
  have s1: "cm_outbox ?s1 = map ?g (cm_outbox s)" by (simp add: forgetEntity_def e(1) Let_def)
  have gone: "findOutbox ?s1 (ob_id r) = Some (?g r)"
    unfolding findOutbox_def s1 using find_by_distinct [OF ids r(1)] by (subst find_by_map) simp_all
  let ?h = "\<lambda>x. if ob_id x = ob_id r
      then x\<lparr>ob_state := ob_pending, ob_availableAt := now, ob_lastError := Some (take 1000 m)\<rparr> else x"
  let ?s2 = "handleSendFailure now att m p ?s1"
  have s2: "cm_outbox ?s2 = map ?h (map ?g (cm_outbox s))"
    using att by (simp add: handleSendFailure_def Let_def setOutbox_def addDeliveries_def p s1)
  let ?r = "?h (?g r)"
  have "map ob_id (cm_outbox ?s2) = map ob_id (cm_outbox s)" unfolding s2 by (induction "cm_outbox s") auto
  then have ids2: "distinct (map ob_id (cm_outbox ?s2))" using ids by (simp only:)
  have r2: "?r \<in> set (cm_outbox ?s2)" unfolding s2 set_map using r(1) by (intro imageI)
  have c2: "claimable later ?r" using r t by (simp add: claimable_def waiting_def)
  have i2: "ob_id ?r = ob_id r" by simp
  obtain s3 where s3: "decideDispatch cat env later (ob_id ?r) ?s2 = decideRow cat env later (claimedRow later ?r) s3"
    by (rule decide_claimed [OF ids2 r2 c2, of cat env]) blast
  have "decideRow cat env later (claimedRow later ?r) s3 =
      (s3, PlanSend \<lparr>pl_row = claimedRow later ?r, pl_entry = e, pl_to = address\<rparr>)"
    using e a env by (simp add: decideRow_def decideForAddress_def orElse_def)
  with s3 i2 gone r(2) show ?thesis by simp
qed

text \<open>A visitor asks to be contacted, and asks to be forgotten while the team's inbox is being mailed.\<close>

definition contactEntry :: catalog_entry where
  "contactEntry = otpEntry\<lparr>ce_category := cat_operational, ce_dedupe := (\<lambda>(_, i) _. Some (''contact:'' @ i)),
     ce_credentialValues := [], ce_personalValues := [''name'', ''email'', ''message''],
     ce_addressRecipient := True\<rparr>"

definition contactCatalog :: catalog where
  "contactCatalog k = (if k = ''platform.contact_submission.received'' then Some contactEntry else None)"

definition contactHistory :: "comm_step list" where
  "contactHistory =
     [EmitToAddress 0 ''platform.contact_submission.received'' ''team@b.c'' (''contact'', ''c1'')
        [(''name'', ''Mona''), (''topic'', ''pricing'')],
      Begin exampleEnv 5 0]"

theorem forgotten_message_is_mailed_again_witness:
  "\<exists>s' q. decideDispatch contactCatalog exampleEnv 40 0
       (handleSendFailure 30 \<lparr>da_made = 0, da_max = 6\<rparr> ''timeout'' (hd (cw_sends (commHistory contactCatalog contactHistory)))
          (forgetEntity contactCatalog ''owner'' ''platform.contact_submission.received'' (''contact'', ''c1'')
             (cw_state (commHistory contactCatalog contactHistory)))) = (s', PlanSend q)
     \<and> pl_to q = ''team@b.c'' \<and> ob_values (pl_row q) = Some [(''topic'', ''pricing'')]"
proof -
  let ?s = "cw_state (commHistory contactCatalog contactHistory)"
  have "map (\<lambda>r. (ob_id r, ob_key r, ob_entity r, ob_recipientUserId r, ob_recipientEmail r, waiting r, ob_digestId r, ob_values r)) (cm_outbox ?s) =
      [(0, ''platform.contact_submission.received'', (''contact'', ''c1''), None, Some ''team@b.c'', True, None,
        Some [(''name'', ''Mona''), (''topic'', ''pricing'')])]"
    by code_simp
  then obtain r where r: "cm_outbox ?s = [r]" "ob_id r = 0" "ob_key r = ''platform.contact_submission.received''"
      "ob_entity r = (''contact'', ''c1'')" "ob_recipientUserId r = None" "ob_recipientEmail r = Some ''team@b.c''"
      "waiting r" "ob_digestId r = None" "ob_values r = Some [(''name'', ''Mona''), (''topic'', ''pricing'')]"
    by (auto simp: map_eq_Cons_conv)
  have p: "ob_id (pl_row (hd (cw_sends (commHistory contactCatalog contactHistory)))) = 0"
    by code_simp
  have e: "contactCatalog (ob_key r) = Some contactEntry" "ce_addressRecipient contactEntry"
    "\<not> ev_suppressed exampleEnv ''team@b.c''"
    using r(3) by (simp_all add: contactCatalog_def contactEntry_def exampleEnv_def)
  have v: "map_option (withoutKeys (settleScrubKeys contactEntry)) (ob_values r) = Some [(''topic'', ''pricing'')]"
    unfolding r(9) by code_simp
  have d: "distinct (map ob_id (cm_outbox ?s))" "r \<in> set (cm_outbox ?s)" using r(1) by simp_all
  have p0: "ob_id (pl_row (hd (cw_sends (commHistory contactCatalog contactHistory)))) = ob_id r"
    using p r(2) by simp
  show ?thesis
    using forgotten_message_is_mailed_again
      [of ?s r contactCatalog contactEntry "''team@b.c''" _ "\<lparr>da_made = 0, da_max = 6\<rparr>" exampleEnv 30 40
          "''owner''" "''timeout''", OF d r(7,8) e(1,2) r(5,6) p0 _ e(3)]
    unfolding r(2,3,4) v by simp
qed

subsection \<open>The sweep does not know that a job is waiting\<close>

datatype queue_step = QueueSweep instant | QueueRun instant nat

fun queueStep :: "comm_state \<times> dispatch_job list \<Rightarrow> queue_step \<Rightarrow> comm_state \<times> dispatch_job list" where
  "queueStep (s, q) (QueueSweep now) = (s, sweepOutbox True now s q)"
| "queueStep (s, q) (QueueRun now tag) =
     runJob trialCatalog exampleEnv now 0 tag (SendError ''503'') (s, q)"

definition outage :: "comm_state \<times> dispatch_job list" where
  "outage = foldl queueStep
     (cw_state (commHistory trialCatalog [otpEmit ''o1'']), enqueueDispatch 0 0 [])
     [QueueRun 100 0, QueueRun 30100 0, QueueSweep 60000, QueueRun 60001 2, QueueRun 90001 2,
      QueueRun 90100 0, QueueSweep 120000, QueueRun 120001 5, QueueRun 150001 2, QueueRun 150002 5,
      QueueSweep 180000, QueueRun 180001 8]"

text \<open>A job makes at most six attempts, thirty seconds, a minute, two minutes and so on apart; but a row
  handed back after a failed attempt is due at once, so every sweep starts another job for it: in the
  first three minutes of an outage the provider is called nine times for one message, by four jobs of
  which none has used up its attempts, and the row is still pending.\<close>
theorem sweep_multiplies_attempts:
  "count_rows (\<lambda>d. dl_outboxId d = 0 \<and> dl_channel d = ch_email \<and> dl_status d = dv_failed) (cm_deliveries (fst outage)) = 9
   \<and> map ob_state (cm_outbox (fst outage)) = [ob_pending]
   \<and> map (\<lambda>j. (jb_tag j, jb_made j, jb_failed j)) (snd outage) =
       [(0, 3, False), (2, 3, False), (5, 2, False), (8, 1, False)]"
  by code_simp

end
