(* ===== verification/Entitlements.thy ===== *)
theory Entitlements
  imports Plan_Changes
begin

text \<open>
  What a tenant is entitled to (\<open>plans/services/entitlement.service.ts\<close>): the plan's limits and
  features with every active add-on applied, and what a limit or feature that is missing asks for.
  The lemmas give each effective limit and feature exactly; the order of the add-ons does not matter.
\<close>

datatype plan_feature_key = liveSessions

text \<open>
  An add-on's effect is stored JSON: a limit key with an amount, or a feature by its name.
\<close>

datatype add_on_effect = LimitEffect plan_limit_key int | FeatureEffect string

record entitlement_add_on =
  ea_effect :: add_on_effect
  ea_compatiblePlanKeys :: "string list"

record effective_entitlements =
  ef_organizationId :: uid
  ef_limits :: plan_resource_limits
  ef_features :: "plan_feature_key \<Rightarrow> bool"

definition PLAN_FEATURE_KEYS :: "(string \<times> plan_feature_key) list" where
  "PLAN_FEATURE_KEYS = [(''liveSessions'', liveSessions)]"

definition featureKeyNamed :: "string \<Rightarrow> plan_feature_key option" where
  "featureKeyNamed x = map_of PLAN_FEATURE_KEYS x"

text \<open>\<open>raw\<close> is the stored object, \<open>None\<close> for a key whose value is not \<open>true\<close>.\<close>

definition pickPlanFeatures :: "(plan_feature_key \<Rightarrow> bool option) \<Rightarrow> plan_feature_key \<Rightarrow> bool" where
  "pickPlanFeatures raw k \<longleftrightarrow> raw k = Some True"

fun addToLimit :: "limit_value \<Rightarrow> int \<Rightarrow> limit_value" where
  "addToLimit Unlimited _ = Unlimited"
| "addToLimit (Limited base) amount = Limited (base + amount)"

definition applyAddOn :: "entitlement_add_on \<Rightarrow> effective_entitlements \<Rightarrow> effective_entitlements" where
  "applyAddOn addOn ent =
     (case ea_effect addOn of
        LimitEffect k amount \<Rightarrow>
          (case ef_limits ent k of
             None \<Rightarrow> ent
           | Some base \<Rightarrow> ent\<lparr>ef_limits := (ef_limits ent)(k \<mapsto> addToLimit base amount)\<rparr>)
      | FeatureEffect x \<Rightarrow>
          (case featureKeyNamed x of
             None \<Rightarrow> ent
           | Some k \<Rightarrow> ent\<lparr>ef_features := (ef_features ent)(k := True)\<rparr>))"

definition computeEffectiveEntitlements ::
  "uid \<Rightarrow> plan_resource_limits \<Rightarrow> (plan_feature_key \<Rightarrow> bool option) \<Rightarrow> entitlement_add_on list \<Rightarrow> effective_entitlements"
  where
  "computeEffectiveEntitlements org limits features activeAddOns =
     fold applyAddOn activeAddOns
       \<lparr>ef_organizationId = org, ef_limits = limits, ef_features = pickPlanFeatures features\<rparr>"

definition hasFeature :: "effective_entitlements \<Rightarrow> plan_feature_key \<Rightarrow> bool" where
  "hasFeature ent k \<longleftrightarrow> ef_features ent k"

datatype resource_limit_status = allowed | limitReached | unlimitedStatus | unknownStatus

definition getResourceLimitStatus :: "int option \<Rightarrow> limit_value option \<Rightarrow> resource_limit_status" where
  "getResourceLimitStatus used limit =
     (case (used, limit) of
        (Some n, Some Unlimited) \<Rightarrow> unlimitedStatus
      | (Some n, Some (Limited x)) \<Rightarrow> if x \<le> n then limitReached else allowed
      | _ \<Rightarrow> unknownStatus)"

datatype entitlement_gap_action = upgradePlan | addOnPurchase | noGap

definition getLimitGapAction ::
  "plan_limit_key \<Rightarrow> resource_limit_status \<Rightarrow> string \<Rightarrow> entitlement_add_on list \<Rightarrow> entitlement_gap_action" where
  "getLimitGapAction k st currentPlanKey catalogue =
     (if st \<noteq> limitReached then noGap
      else if list_ex (\<lambda>a. (case ea_effect a of LimitEffect x _ \<Rightarrow> x = k | _ \<Rightarrow> False)
                         \<and> List.member (ea_compatiblePlanKeys a) currentPlanKey) catalogue
      then addOnPurchase else upgradePlan)"

definition getFeatureGapAction ::
  "plan_feature_key \<Rightarrow> bool \<Rightarrow> string \<Rightarrow> entitlement_add_on list \<Rightarrow> entitlement_gap_action" where
  "getFeatureGapAction k hasIt currentPlanKey catalogue =
     (if hasIt then noGap
      else if list_ex (\<lambda>a. (case ea_effect a of FeatureEffect x \<Rightarrow> featureKeyNamed x = Some k | _ \<Rightarrow> False)
                         \<and> List.member (ea_compatiblePlanKeys a) currentPlanKey) catalogue
      then addOnPurchase else upgradePlan)"

subsection \<open>What the add-ons add up to\<close>

definition addedTo :: "plan_limit_key \<Rightarrow> entitlement_add_on \<Rightarrow> int" where
  "addedTo k a = (case ea_effect a of LimitEffect x n \<Rightarrow> if x = k then n else 0 | _ \<Rightarrow> 0)"

lemma addToLimit_0 [simp]: "addToLimit b 0 = b"
  by (cases b) simp_all

lemma addToLimit_add [simp]: "addToLimit (addToLimit b x) y = addToLimit b (x + y)"
  by (cases b) simp_all

lemma applyAddOn_limit:
  "ef_limits (applyAddOn a e) k = map_option (\<lambda>b. addToLimit b (addedTo k a)) (ef_limits e k)"
  by (cases "ef_limits e k")
    (auto simp: applyAddOn_def addedTo_def split: add_on_effect.split option.split)

lemma fold_applyAddOn_limit:
  "ef_limits (fold applyAddOn as e) k =
     map_option (\<lambda>b. addToLimit b (sum_list (map (addedTo k) as))) (ef_limits e k)"
  by (induction as arbitrary: e) (simp_all add: applyAddOn_limit option.map_comp comp_def option.map_ident)

lemma effective_limit:
  "ef_limits (computeEffectiveEntitlements org l f as) k =
     map_option (\<lambda>b. addToLimit b (sum_list (map (addedTo k) as))) (l k)"
  by (simp add: computeEffectiveEntitlements_def fold_applyAddOn_limit)

definition grantsFeature :: "plan_feature_key \<Rightarrow> entitlement_add_on \<Rightarrow> bool" where
  "grantsFeature k a = (case ea_effect a of FeatureEffect x \<Rightarrow> featureKeyNamed x = Some k | _ \<Rightarrow> False)"

lemma fold_applyAddOn_feature:
  "ef_features (fold applyAddOn as e) k \<longleftrightarrow> ef_features e k \<or> list_ex (grantsFeature k) as"
  by (induction as arbitrary: e)
    (auto simp: applyAddOn_def grantsFeature_def split: add_on_effect.split option.split)

lemma effective_feature:
  "ef_features (computeEffectiveEntitlements org l f as) k \<longleftrightarrow>
     f k = Some True \<or> list_ex (grantsFeature k) as"
  by (simp add: computeEffectiveEntitlements_def fold_applyAddOn_feature pickPlanFeatures_def)

end
