(* ===== verification/Campaign_Quota.thy ===== *)
theory Campaign_Quota
  imports Entitlements Calendar
begin

text \<open>
  The monthly email quota of an academy (\<open>communications/campaigns/academy-email-quota.service.ts\<close>):
  the limit in force, the period row of a calendar month, the conditional reservation and the
  ledger with one movement per message and kind.  The locale \<open>usage_meter\<close> is what the campaign
  worker relies on.
\<close>

subsection \<open>The limit in force\<close>

definition DEFAULT_MONTHLY_EMAILS :: int where "DEFAULT_MONTHLY_EMAILS = 50"

record usage_period_range =
  ur_start :: instant
  ur_end :: instant

definition emailUsagePeriod :: "instant \<Rightarrow> usage_period_range" where
  "emailUsagePeriod now =
     \<lparr>ur_start = DateUTC (getUTCFullYear now) (getUTCMonth now) 1 0 0 0 0,
      ur_end = DateUTC (getUTCFullYear now) (getUTCMonth now + 1) 1 0 0 0 0\<rparr>"

definition pickMonthlyEmails :: "limits_column \<Rightarrow> limit_value option" where
  "pickMonthlyEmails source =
     (case source of
        LimitObject l \<Rightarrow>
          (case l monthlyEmails of
             Some Unlimited \<Rightarrow> Some Unlimited
           | Some (Limited n) \<Rightarrow> if 0 \<le> n then Some (Limited n) else None
           | None \<Rightarrow> None)
      | _ \<Rightarrow> None)"

definition resolveMonthlyEmailLimit :: "limits_column \<Rightarrow> limits_column \<Rightarrow> limit_value" where
  "resolveMonthlyEmailLimit granted planLimits =
     (case pickMonthlyEmails granted of
        Some v \<Rightarrow> v
      | None \<Rightarrow> (case pickMonthlyEmails planLimits of Some v \<Rightarrow> v | None \<Rightarrow> Limited DEFAULT_MONTHLY_EMAILS))"

text \<open>What \<open>limitFor\<close> reads of an organization: its subscription with the plan, and its add-ons.\<close>

record quota_subscription =
  qb_grantedLimits :: limits_column
  qb_planLimits :: plan_resource_limits
  qb_planFeatures :: "plan_feature_key \<Rightarrow> bool option"
  qb_addOns :: "entitlement_add_on list"

text \<open>\<open>None\<close> is no limit.\<close>

definition limitFor :: "uid \<Rightarrow> quota_subscription option \<Rightarrow> int option" where
  "limitFor org sub =
     (case sub of
        None \<Rightarrow> Some DEFAULT_MONTHLY_EMAILS
      | Some b \<Rightarrow>
          (let base = resolveMonthlyEmailLimit (qb_grantedLimits b) (LimitObject (qb_planLimits b));
               limits = (resolveSubscriptionLimits (qb_grantedLimits b) (qb_planLimits b))(monthlyEmails \<mapsto> base);
               effective = computeEffectiveEntitlements org limits (qb_planFeatures b) (qb_addOns b)
           in case ef_limits effective monthlyEmails of
                None \<Rightarrow> (case base of Unlimited \<Rightarrow> None | Limited n \<Rightarrow> Some n)
              | Some Unlimited \<Rightarrow> None
              | Some (Limited n) \<Rightarrow> Some n))"

subsection \<open>Periods and ledger\<close>

datatype ledger_kind = lk_charge | lk_release | lk_refund

record usage_period =
  up_academyId :: uid
  up_periodStart :: instant
  up_periodEnd :: instant
  up_limitSnapshot :: "int option"
  up_used :: int

record usage_movement =
  um_academyId :: uid
  um_periodStart :: instant
  um_messageId :: uid
  um_kind :: ledger_kind
  um_quantity :: int

record quota_state =
  qt_periods :: "usage_period list"
  qt_ledger :: "usage_movement list"

type_synonym period_key = "uid \<times> instant"

definition periodKey :: "usage_period \<Rightarrow> period_key" where
  "periodKey p = (up_academyId p, up_periodStart p)"

definition movementKey :: "usage_movement \<Rightarrow> uid \<times> ledger_kind" where
  "movementKey m = (um_messageId m, um_kind m)"

definition findPeriod :: "quota_state \<Rightarrow> period_key \<Rightarrow> usage_period option" where
  "findPeriod q k = find_by periodKey k (qt_periods q)"

definition usedIn :: "quota_state \<Rightarrow> period_key \<Rightarrow> int" where
  "usedIn q k = (case findPeriod q k of None \<Rightarrow> 0 | Some p \<Rightarrow> up_used p)"

definition writeLedger :: "usage_movement \<Rightarrow> quota_state \<Rightarrow> quota_state \<times> bool" where
  "writeLedger m q =
     (case insertNew movementKey m (qt_ledger q) of (t, written) \<Rightarrow> (q\<lparr>qt_ledger := t\<rparr>, written))"

record quota_view =
  qv_limit :: "int option"
  qv_used :: int
  qv_remaining :: "int option"
  qv_periodStart :: instant
  qv_resetsAt :: instant

definition toQuotaView :: "int option \<Rightarrow> int \<Rightarrow> usage_period_range \<Rightarrow> quota_view" where
  "toQuotaView limit used period =
     \<lparr>qv_limit = limit, qv_used = used, qv_remaining = map_option (\<lambda>l. max 0 (l - used)) limit,
      qv_periodStart = ur_start period, qv_resetsAt = ur_end period\<rparr>"

definition viewQuota :: "int option \<Rightarrow> uid \<Rightarrow> instant \<Rightarrow> quota_state \<Rightarrow> quota_view" where
  "viewQuota limit academy now q =
     (let period = emailUsagePeriod now
      in toQuotaView limit (usedIn q (academy, ur_start period)) period)"

definition MAX_SAFE_INTEGER :: int where "MAX_SAFE_INTEGER = 2 ^ 53 - 1"

record quota_exceeded =
  qx_requested :: int
  qx_remaining :: int
  qx_limit :: "int option"

definition fitsLimit :: "int option \<Rightarrow> int \<Rightarrow> usage_period \<Rightarrow> bool" where
  "fitsLimit limit n p = (case limit of None \<Rightarrow> True | Some l \<Rightarrow> up_used p + n \<le> l)"

definition openPeriod :: "uid \<Rightarrow> usage_period_range \<Rightarrow> int option \<Rightarrow> quota_state \<Rightarrow> quota_state" where
  "openPeriod academy period limit q =
     q\<lparr>qt_periods := fst (insertNew periodKey
        \<lparr>up_academyId = academy, up_periodStart = ur_start period, up_periodEnd = ur_end period,
         up_limitSnapshot = limit, up_used = 0\<rparr> (qt_periods q))\<rparr>"

text \<open>An \<open>Inl\<close> is thrown: the caller's transaction drops every write, this one's included.\<close>

definition reserveQuota ::
  "int option \<Rightarrow> uid \<Rightarrow> uid \<Rightarrow> int \<Rightarrow> instant \<Rightarrow> quota_state \<Rightarrow> quota_exceeded + (quota_state \<times> quota_view)" where
  "reserveQuota limit academy message quantity now q =
     (let period = emailUsagePeriod now;
          k = (academy, ur_start period);
          q1 = openPeriod academy period limit q
      in if 0 < quantity then
           (case updateMany (\<lambda>p. periodKey p = k \<and> fitsLimit limit quantity p)
                   (\<lambda>p. p\<lparr>up_used := up_used p + quantity, up_limitSnapshot := limit\<rparr>) (qt_periods q1) of
              (t, updated) \<Rightarrow>
                if updated = 0 then
                  Inl \<lparr>qx_requested = quantity,
                       qx_remaining = (case limit of None \<Rightarrow> MAX_SAFE_INTEGER
                                       | Some l \<Rightarrow> max 0 (l - usedIn q1 k)),
                       qx_limit = limit\<rparr>
                else
                  (let q2 = q1\<lparr>qt_periods := t\<rparr>;
                       q3 = fst (writeLedger \<lparr>um_academyId = academy, um_periodStart = ur_start period,
                              um_messageId = message, um_kind = lk_charge, um_quantity = quantity\<rparr> q2)
                   in Inr (q3, toQuotaView limit (usedIn q2 k) period)))
         else Inr (q1, toQuotaView limit (usedIn q1 k) period))"

definition giveBack ::
  "period_key \<Rightarrow> uid \<Rightarrow> ledger_kind \<Rightarrow> int \<Rightarrow> quota_state \<Rightarrow> quota_state \<times> bool" where
  "giveBack k message kind quantity q =
     (if quantity \<le> 0 then (q, False)
      else
        (case writeLedger \<lparr>um_academyId = fst k, um_periodStart = snd k, um_messageId = message,
                um_kind = kind, um_quantity = quantity\<rparr> q of
           (q1, inserted) \<Rightarrow>
             if \<not> inserted then (q1, False)
             else (q1\<lparr>qt_periods := map (\<lambda>p. if periodKey p = k
                        then p\<lparr>up_used := max (up_used p - quantity) 0\<rparr> else p) (qt_periods q1)\<rparr>, True)))"

subsection \<open>The books\<close>

definition signedQuantity :: "usage_movement \<Rightarrow> int" where
  "signedQuantity m = (if um_kind m = lk_charge then um_quantity m else - um_quantity m)"

definition movementPeriod :: "usage_movement \<Rightarrow> period_key" where
  "movementPeriod m = (um_academyId m, um_periodStart m)"

definition balanceIn :: "quota_state \<Rightarrow> period_key \<Rightarrow> int" where
  "balanceIn q k = sum_list (map signedQuantity (filter (\<lambda>m. movementPeriod m = k) (qt_ledger q)))"

definition moved :: "quota_state \<Rightarrow> uid \<Rightarrow> ledger_kind \<Rightarrow> bool" where
  "moved q message kind \<longleftrightarrow> (message, kind) \<in> movementKey ` set (qt_ledger q)"

text \<open>The counter of every period is the sum of its movements.\<close>

definition books_ok :: "quota_state \<Rightarrow> bool" where
  "books_ok q \<longleftrightarrow>
     distinct (map periodKey (qt_periods q)) \<and> distinct (map movementKey (qt_ledger q))
     \<and> (\<forall>k. usedIn q k = balanceIn q k)"

lemma books_used: "books_ok q \<Longrightarrow> usedIn q k = balanceIn q k"
  unfolding books_ok_def by blast

lemma books_okI:
  "distinct (map periodKey (qt_periods q)) \<Longrightarrow> distinct (map movementKey (qt_ledger q))
   \<Longrightarrow> (\<And>k. usedIn q k = balanceIn q k) \<Longrightarrow> books_ok q"
  by (simp add: books_ok_def)

lemma findPeriod_open:
  "findPeriod (openPeriod a period limit q) k =
     (case findPeriod q k of
        None \<Rightarrow> if k = (a, ur_start period)
                then Some \<lparr>up_academyId = a, up_periodStart = ur_start period, up_periodEnd = ur_end period,
                           up_limitSnapshot = limit, up_used = 0\<rparr> else None
      | Some p \<Rightarrow> Some p)"
proof (cases "(a, ur_start period) \<in> periodKey ` set (qt_periods q)")
  case True
  then have "k = (a, ur_start period) \<Longrightarrow> \<exists>p. find_by periodKey k (qt_periods q) = Some p"
    by (metis find_by_None option.exhaust)
  then show ?thesis using True
    by (auto simp: findPeriod_def openPeriod_def fst_insertNew periodKey_def split: option.split)
next
  case False
  then show ?thesis
    by (auto simp: findPeriod_def openPeriod_def fst_insertNew find_by_append periodKey_def
          simp del: find_by_None split: option.split)
qed

lemma usedIn_open [simp]: "usedIn (openPeriod a period limit q) = usedIn q"
  by (rule ext) (simp add: usedIn_def findPeriod_open split: option.split)

lemma open_frame [simp]:
  "qt_ledger (openPeriod a period limit q) = qt_ledger q"
  "distinct (map periodKey (qt_periods q)) \<Longrightarrow> distinct (map periodKey (qt_periods (openPeriod a period limit q)))"
  by (simp_all add: openPeriod_def)

lemma findPeriod_map:
  assumes "\<And>p. periodKey (f p) = periodKey p"
  shows "findPeriod (q\<lparr>qt_periods := map f (qt_periods q)\<rparr>) k = map_option f (findPeriod q k)"
  using assms by (simp add: findPeriod_def find_by_map)

lemma usedIn_ledger [simp]: "usedIn (q\<lparr>qt_ledger := t\<rparr>) = usedIn q"
  by (rule ext) (simp add: usedIn_def findPeriod_def)

text \<open>Adding a movement moves the sum of its own period only.\<close>

lemma balanceIn_append:
  "qt_ledger q' = qt_ledger q @ [m] \<Longrightarrow>
     balanceIn q' k = balanceIn q k + (if movementPeriod m = k then signedQuantity m else 0)"
  by (simp add: balanceIn_def)

lemma writeLedger_new:
  "\<not> moved q (um_messageId m) (um_kind m) \<Longrightarrow> writeLedger m q = (q\<lparr>qt_ledger := qt_ledger q @ [m]\<rparr>, True)"
  by (simp add: writeLedger_def insertNew_def moved_def movementKey_def)

lemma writeLedger_old:
  "moved q (um_messageId m) (um_kind m) \<Longrightarrow> writeLedger m q = (q, False)"
  by (simp add: writeLedger_def insertNew_def moved_def movementKey_def)

lemma map_period_keys: "(\<And>p. periodKey (f p) = periodKey p) \<Longrightarrow> map periodKey (map f ps) = map periodKey ps"
  by simp

subsection \<open>A reservation\<close>

lemma reserve_accepted:
  assumes "books_ok q" "\<not> moved q message lk_charge"
    and r: "reserveQuota limit academy message quantity now q = Inr (q', v)"
  defines "k \<equiv> (academy, ur_start (emailUsagePeriod now))"
  shows "books_ok q' \<and> qv_periodStart v = snd k
    \<and> usedIn q' = (usedIn q)(k := usedIn q k + max quantity 0)
    \<and> qt_ledger q' = qt_ledger q @ (if 0 < quantity
         then [\<lparr>um_academyId = academy, um_periodStart = snd k, um_messageId = message,
                um_kind = lk_charge, um_quantity = quantity\<rparr>] else [])
    \<and> (0 < quantity \<longrightarrow> (\<forall>l. limit = Some l \<longrightarrow> usedIn q' k \<le> l))"
proof (cases "0 < quantity")
  case False
  then show ?thesis using assms
    by (auto simp: reserveQuota_def Let_def toQuotaView_def books_ok_def balanceIn_def fun_upd_idem max_def)
next
  case True
  define q1 where "q1 = openPeriod academy (emailUsagePeriod now) limit q"
  define f where "f p = (if periodKey p = k \<and> fitsLimit limit quantity p
    then p\<lparr>up_used := up_used p + quantity, up_limitSnapshot := limit\<rparr> else p)" for p :: usage_period
  define m where "m = \<lparr>um_academyId = academy, um_periodStart = snd k, um_messageId = message,
                um_kind = lk_charge, um_quantity = quantity\<rparr>"
  have key: "periodKey (f p) = periodKey p" for p by (simp add: f_def periodKey_def)
  have fresh: "\<not> moved q1 message lk_charge" using assms(2) by (simp add: q1_def moved_def)
  define hit where "hit = filter (\<lambda>p. periodKey p = k \<and> fitsLimit limit quantity p) (qt_periods q1)"
  define stepped where "stepped = q1\<lparr>qt_periods := map f (qt_periods q1)\<rparr>"
  have unfolded: "reserveQuota limit academy message quantity now q =
      (if length hit = 0 then Inl \<lparr>qx_requested = quantity,
        qx_remaining = (case limit of None \<Rightarrow> MAX_SAFE_INTEGER | Some l \<Rightarrow> max 0 (l - usedIn q1 k)), qx_limit = limit\<rparr>
      else Inr (fst (writeLedger m stepped), toQuotaView limit (usedIn stepped k) (emailUsagePeriod now)))"
    unfolding reserveQuota_def updateMany_def Let_def q1_def f_def hit_def m_def k_def stepped_def
    by (simp only: True if_True prod.case fst_conv snd_conv)
  have r': "(if length hit = 0 then Inl \<lparr>qx_requested = quantity,
        qx_remaining = (case limit of None \<Rightarrow> MAX_SAFE_INTEGER | Some l \<Rightarrow> max 0 (l - usedIn q1 k)), qx_limit = limit\<rparr>
      else Inr (fst (writeLedger m stepped), toQuotaView limit (usedIn stepped k) (emailUsagePeriod now))) = Inr (q', v)"
    using r unfolding unfolded .
  have fresh': "\<not> moved (q1\<lparr>qt_periods := ps\<rparr>) (um_messageId m) (um_kind m)" for ps
    using fresh by (simp add: moved_def m_def)
  have some: "hit \<noteq> []" using r' by (auto split: if_splits)
  have q': "q' = q1\<lparr>qt_periods := map f (qt_periods q1), qt_ledger := qt_ledger q1 @ [m]\<rparr>"
    and v: "qv_periodStart v = snd k"
    using r' some writeLedger_new [OF fresh'] by (auto simp: toQuotaView_def k_def stepped_def)
  obtain p where p: "p \<in> set (qt_periods q1)" "periodKey p = k" "fitsLimit limit quantity p"
    using some by (auto simp: hit_def filter_empty_conv)
  have d: "distinct (map periodKey (qt_periods q1))" using assms(1) by (simp add: q1_def books_ok_def)
  have find: "findPeriod q1 k = Some p"
    unfolding findPeriod_def using find_by_distinct [OF d p(1)] p(2) by simp
  have used1: "usedIn q1 = usedIn q" by (simp add: q1_def)
  have used: "usedIn q' j = (if j = k then usedIn q k + quantity else usedIn q j)" for j
  proof -
    have "usedIn q' j = (case findPeriod q1 j of None \<Rightarrow> 0 | Some p \<Rightarrow> up_used (f p))"
      using findPeriod_map [of f q1 j, OF key] by (simp add: q' usedIn_def findPeriod_def del: find_by_None split: option.split)
    moreover have "periodKey x = j" if "findPeriod q1 j = Some x" for x
      using that by (auto simp: findPeriod_def dest: find_by_Some)
    ultimately show ?thesis
      using find p(3) used1 [THEN fun_cong, of j] used1 [THEN fun_cong, of k]
      by (cases "j = k") (auto simp: f_def usedIn_def split: option.splits)
  qed
  have within: "usedIn q' k \<le> l" if "limit = Some l" for l
    using p(3) that used [of k] used1 [THEN fun_cong, of k] find
    by (simp add: fitsLimit_def usedIn_def)
  have period: "movementPeriod m = k" "signedQuantity m = quantity"
    by (simp_all add: movementPeriod_def m_def k_def signedQuantity_def)
  have ledger: "qt_ledger q' = qt_ledger q @ [m]" by (simp add: q' q1_def)
  have books: "usedIn q' j = balanceIn q' j" for j
    using used [of j] books_used [OF assms(1)] balanceIn_append [OF ledger, of j]
    by (simp only: period) simp
  have "distinct (map movementKey (qt_ledger q'))"
    using assms(1,2) by (auto simp: q' q1_def books_ok_def moved_def movementKey_def m_def)
  moreover have "distinct (map periodKey (qt_periods q'))" using d by (simp add: q' o_def key)
  ultimately show ?thesis
    using True v used within ledger books_okI [OF _ _ books] by (auto simp: m_def)
qed

lemma reserve_refused:
  assumes "books_ok q" and r: "reserveQuota limit academy message quantity now q = Inl x"
  shows "0 < quantity \<and> (\<exists>l. limit = Some l \<and> l < usedIn q (academy, ur_start (emailUsagePeriod now)) + quantity
    \<and> qx_remaining x = max 0 (l - usedIn q (academy, ur_start (emailUsagePeriod now))))"
proof -
  define k where "k = (academy, ur_start (emailUsagePeriod now))"
  define q1 where "q1 = openPeriod academy (emailUsagePeriod now) limit q"
  have pos: "0 < quantity" using r by (auto simp: reserveQuota_def Let_def split: if_splits)
  obtain p where p: "findPeriod q1 k = Some p"
    by (cases "findPeriod q k") (simp_all add: q1_def k_def findPeriod_open)
  then have mem: "p \<in> set (qt_periods q1)" "periodKey p = k"
    by (auto simp: findPeriod_def dest: find_by_Some)
  have used: "up_used p = usedIn q k"
    using p usedIn_open [of academy "emailUsagePeriod now" limit q, THEN fun_cong, of k]
    by (metis usedIn_def q1_def option.simps(5))
  have x: "\<not> fitsLimit limit quantity p"
    "qx_remaining x = (case limit of None \<Rightarrow> MAX_SAFE_INTEGER | Some l \<Rightarrow> max 0 (l - usedIn q1 k))"
    using r pos mem
    unfolding reserveQuota_def Let_def updateMany_def q1_def [symmetric] k_def [symmetric]
    by (auto simp: filter_empty_conv split: if_splits)
  then show ?thesis using pos used
    by (auto simp: fitsLimit_def k_def [symmetric] q1_def split: option.splits)
qed

subsection \<open>Giving back\<close>

lemma giveBack_again: "moved q message kind \<Longrightarrow> giveBack k message kind n q = (q, False)"
  by (simp add: giveBack_def writeLedger_old)

lemma giveBack_nothing: "n \<le> 0 \<Longrightarrow> giveBack k message kind n q = (q, False)"
  by (simp add: giveBack_def)

lemma giveBack_new:
  assumes "books_ok q" "\<not> moved q message kind" "kind \<noteq> lk_charge" "0 < n" "n \<le> usedIn q k"
  defines "m \<equiv> \<lparr>um_academyId = fst k, um_periodStart = snd k, um_messageId = message,
                um_kind = kind, um_quantity = n\<rparr>"
  shows "\<exists>q'. giveBack k message kind n q = (q', True) \<and> books_ok q'
    \<and> usedIn q' = (usedIn q)(k := usedIn q k - n) \<and> qt_ledger q' = qt_ledger q @ [m]"
proof -
  define f where "f p = (if periodKey p = k then p\<lparr>up_used := max (up_used p - n) 0\<rparr> else p)" for p :: usage_period
  define q' where "q' = q\<lparr>qt_ledger := qt_ledger q @ [m], qt_periods := map f (qt_periods q)\<rparr>"
  have key: "periodKey (f p) = periodKey p" for p by (simp add: f_def periodKey_def)
  have "giveBack k message kind n q = (q', True)"
    using assms(2,4) writeLedger_new [of q m]
    by (simp add: giveBack_def q'_def f_def [abs_def] m_def)
  moreover have used: "usedIn q' = (usedIn q)(k := usedIn q k - n)"
  proof (rule ext)
    fix j
    have "usedIn q' j = (case findPeriod q j of None \<Rightarrow> 0 | Some p \<Rightarrow> up_used (f p))"
      using findPeriod_map [of f q j, OF key]
      by (simp add: q'_def usedIn_def findPeriod_def del: find_by_None split: option.split)
    moreover have "periodKey x = j" if "findPeriod q j = Some x" for x
      using that by (auto simp: findPeriod_def dest: find_by_Some)
    ultimately show "usedIn q' j = ((usedIn q)(k := usedIn q k - n)) j"
      using assms(4,5) by (cases "findPeriod q j") (auto simp: f_def usedIn_def)
  qed
  moreover have ledger: "qt_ledger q' = qt_ledger q @ [m]" by (simp add: q'_def)
  have "usedIn q' j = balanceIn q' j" for j
    using used books_used [OF assms(1)] balanceIn_append [OF ledger, of j] assms(3)
    by (cases k) (simp add: movementPeriod_def signedQuantity_def m_def)
  moreover have "distinct (map periodKey (qt_periods q'))" "distinct (map movementKey (qt_ledger q'))"
    using assms(1,2) by (auto simp: books_ok_def q'_def o_def key moved_def movementKey_def m_def)
  ultimately show ?thesis using ledger by (blast intro: books_okI)
qed

text \<open>
  What the campaign worker needs of the meter: a movement that was made is not made again,
  a new one credits exactly what it says, and nothing is no movement.
\<close>

locale usage_meter =
  fixes used :: "'q \<Rightarrow> 'p \<Rightarrow> int"
    and made :: "'q \<Rightarrow> 'm \<Rightarrow> 'k \<Rightarrow> bool"
    and ok :: "'q \<Rightarrow> bool"
    and credit :: "'p \<Rightarrow> 'm \<Rightarrow> 'k \<Rightarrow> int \<Rightarrow> 'q \<Rightarrow> 'q \<times> bool"
    and credits :: "'k \<Rightarrow> bool"
  assumes again: "made q m k \<Longrightarrow> credit p m k n q = (q, False)"
    and no_credit: "n \<le> 0 \<Longrightarrow> credit p m k n q = (q, False)"
    and made_new: "ok q \<Longrightarrow> \<not> made q m k \<Longrightarrow> credits k \<Longrightarrow> 0 < n \<Longrightarrow> n \<le> used q p \<Longrightarrow>
          \<exists>q'. credit p m k n q = (q', True) \<and> ok q' \<and> used q' = (used q)(p := used q p - n)
             \<and> (\<forall>m' k'. made q' m' k' \<longleftrightarrow> made q m' k' \<or> m' = m \<and> k' = k)"
begin

lemma unmoved: "made q m k \<or> n \<le> 0 \<Longrightarrow> fst (credit p m k n q) = q"
  using again [of q m k p n] no_credit [of n p m k q] by auto

definition retried :: "nat \<Rightarrow> 'p \<Rightarrow> 'm \<Rightarrow> 'k \<Rightarrow> int \<Rightarrow> 'q \<Rightarrow> 'q" where
  "retried i p m k n q = ((\<lambda>q. fst (credit p m k n q)) ^^ i) q"

lemma retried_made: "made q m k \<Longrightarrow> retried i p m k n q = q"
  by (induction i) (simp_all add: retried_def again)

text \<open>However often a step is retried, the counter moves once.\<close>

lemma retry_is_once:
  assumes "ok q" "credits k" "n \<le> used q p"
  shows "retried (Suc i) p m k n q = fst (credit p m k n q)"
proof (cases "made q m k \<or> n \<le> 0")
  case True
  then have "fst (credit p m k n q) = q" by (rule unmoved)
  then have "((\<lambda>q. fst (credit p m k n q)) ^^ j) q = q" for j by (induction j) simp_all
  then show ?thesis using \<open>fst (credit p m k n q) = q\<close> by (simp only: retried_def)
next
  case False
  then obtain q' where q': "credit p m k n q = (q', True)" "made q' m k"
    using made_new [of q m k n p] assms by auto
  then have "((\<lambda>q. fst (credit p m k n q)) ^^ i) q' = q'"
    using retried_made [of q' m k i p n] by (simp only: retried_def)
  then show ?thesis using q'(1) by (simp only: retried_def funpow_Suc_right comp_apply fst_conv)
qed

lemma credit_keeps:
  assumes "ok q" "credits k" "n \<le> used q p"
  shows "ok (fst (credit p m k n q))"
    and "used (fst (credit p m k n q)) j = used q j - (if j = p \<and> \<not> made q m k then max n 0 else 0)"
proof -
  have "ok (fst (credit p m k n q)) \<and>
      used (fst (credit p m k n q)) j = used q j - (if j = p \<and> \<not> made q m k then max n 0 else 0)"
  proof (cases "made q m k \<or> n \<le> 0")
    case True
    then have "fst (credit p m k n q) = q" by (rule unmoved)
    then show ?thesis using assms(1) True by (auto simp: max_def)
  next
    case False
    then show ?thesis using made_new [of q m k n p] assms by (auto simp: max_def)
  qed
  then show "ok (fst (credit p m k n q))"
    and "used (fst (credit p m k n q)) j = used q j - (if j = p \<and> \<not> made q m k then max n 0 else 0)" by auto
qed

end

interpretation meter: usage_meter usedIn moved books_ok giveBack "\<lambda>kind. kind \<noteq> lk_charge"
proof
  fix q m k n p
  assume "books_ok q" "\<not> moved q m k" "k \<noteq> lk_charge" "0 < n" "n \<le> usedIn q p"
  from giveBack_new [OF this] obtain q' where
    "giveBack p m k n q = (q', True)" "books_ok q'" "usedIn q' = (usedIn q)(p := usedIn q p - n)"
    "qt_ledger q' = qt_ledger q @ [\<lparr>um_academyId = fst p, um_periodStart = snd p, um_messageId = m,
       um_kind = k, um_quantity = n\<rparr>]"
    by blast
  then show "\<exists>q'. giveBack p m k n q = (q', True) \<and> books_ok q' \<and> usedIn q' = (usedIn q)(p := usedIn q p - n)
             \<and> (\<forall>m' k'. moved q' m' k' \<longleftrightarrow> moved q m' k' \<or> m' = m \<and> k' = k)"
    by (auto simp: moved_def movementKey_def)
qed (simp_all add: giveBack_again giveBack_nothing)

end
