(* ===== verification/Campaign_Audience.thy ===== *)
theory Campaign_Audience
  imports Comm_Dispatch
begin

text \<open>
  Who a campaign reaches (\<open>communications/campaigns/campaign-audience.ts\<close>): the audience
  predicates over the tables they read, the count that is shown and confirmed, and one keyset page
  of the expansion.  A scope and its audience are one value, the pair the code casts together; the
  tables are the record \<open>audience_db\<close> as one transaction sees it.
\<close>

subsection \<open>Tables\<close>

record student_row =
  sd_academyId :: uid
  sd_userId :: uid
  sd_status :: string
  sd_blocked :: bool

record enrollment_entry =
  er_academyId :: uid
  er_studentId :: uid
  er_courseId :: uid
  er_status :: string
  er_revoked :: bool

record staff_row =
  sf_academyId :: uid
  sf_userId :: uid
  sf_role :: string
  sf_status :: string

record organization_row =
  og_id :: uid
  og_ownerUserId :: uid
  og_status :: string

record academy_row =
  ay_id :: uid
  ay_organizationId :: uid
  ay_status :: string

record account_row =
  us_id :: uid
  us_status :: string
  us_deleted :: bool
  us_email :: string
  us_preferences :: stored_preferences

text \<open>
  \<open>ad_memberships\<close> are an organization, a user and a role, \<open>ad_courses\<close> a course and its
  academy; \<open>ad_subscription\<close> is the organization's subscription joined with its plan: the plan's key and
  the subscription's status; \<open>ad_suppressed\<close> is \<open>communication_email_suppressed\<close>.
\<close>

record audience_db =
  ad_students :: "student_row list"
  ad_enrollments :: "enrollment_entry list"
  ad_staff :: "staff_row list"
  ad_organizations :: "organization_row list"
  ad_academies :: "academy_row list"
  ad_subscription :: "uid \<Rightarrow> (string \<times> string) option"
  ad_memberships :: "(uid \<times> uid \<times> string) list"
  ad_courses :: "(uid \<times> uid) list"
  ad_accounts :: "account_row list"
  ad_suppressed :: "string \<Rightarrow> bool"

subsection \<open>Audiences\<close>

datatype campaign_scope = scope_platform | scope_academy

datatype platform_audience =
    OrgOwners
  | AcademyOwners "string list" "string list" "string list"
  | AcademyOwnersAdmins
  | OneOrganization uid

datatype academy_audience =
    Learners
  | InCourses "uid list"
  | StaffWithRoles "string list"

datatype campaign_target = ToPlatform platform_audience | ToAcademy uid academy_audience

fun targetScope :: "campaign_target \<Rightarrow> campaign_scope" where
  "targetScope (ToPlatform _) = scope_platform"
| "targetScope (ToAcademy _ _) = scope_academy"

text \<open>Off by the stored preferences, for the category of the scope.\<close>

definition optedOutSql :: "campaign_scope \<Rightarrow> stored_preferences \<Rightarrow> bool" where
  "optedOutSql scope p \<longleftrightarrow>
     (if scope = scope_academy
      then \<not> (case sp_engagementEmail p of
                Some b \<Rightarrow> b
              | None \<Rightarrow> \<not> (sp_legacyEmail p = Some False))
      else \<not> (case sp_operationalEmail p of Some b \<Rightarrow> b | None \<Rightarrow> True))"

definition activeAccount :: "account_row \<Rightarrow> bool" where
  "activeAccount u \<longleftrightarrow>
     us_status u = ''active'' \<and> \<not> us_deleted u \<and> \<not> endsWith (map lowerChar (us_email u)) ''@account.invalid''"

definition afterCursor :: "uid option \<Rightarrow> uid \<Rightarrow> bool" where
  "afterCursor cursor u = (case cursor of None \<Rightarrow> True | Some c \<Rightarrow> c < u)"

definition activeStudent :: "student_row \<Rightarrow> bool" where
  "activeStudent s \<longleftrightarrow> sd_status s = ''active'' \<and> \<not> sd_blocked s"

definition activeEnrollment :: "enrollment_entry \<Rightarrow> bool" where
  "activeEnrollment e \<longleftrightarrow> (er_status e = ''enrolled'' \<or> er_status e = ''completed'') \<and> \<not> er_revoked e"

fun academySource :: "audience_db \<Rightarrow> academy_audience \<Rightarrow> uid \<Rightarrow> uid option \<Rightarrow> uid list" where
  "academySource db Learners academy cursor =
     map sd_userId (filter (\<lambda>s. sd_academyId s = academy \<and> activeStudent s
                            \<and> afterCursor cursor (sd_userId s)) (ad_students db))"
| "academySource db (InCourses courses) academy cursor =
     map er_studentId (filter (\<lambda>e. er_academyId e = academy \<and> List.member courses (er_courseId e)
         \<and> activeEnrollment e \<and> afterCursor cursor (er_studentId e)
         \<and> list_ex (\<lambda>s. sd_academyId s = er_academyId e \<and> sd_userId s = er_studentId e \<and> activeStudent s)
             (ad_students db)) (ad_enrollments db))"
| "academySource db (StaffWithRoles roles) academy cursor =
     map sf_userId (filter (\<lambda>m. sf_academyId m = academy \<and> sf_status m = ''active''
         \<and> List.member roles (sf_role m) \<and> afterCursor cursor (sf_userId m)) (ad_staff db))"

definition anyOf :: "string list \<Rightarrow> string option \<Rightarrow> bool" where
  "anyOf xs v \<longleftrightarrow> xs = [] \<or> (case v of None \<Rightarrow> False | Some x \<Rightarrow> List.member xs x)"

text \<open>The academies a staff row belongs to, for which \<open>p\<close> holds.\<close>

definition staffAcademy :: "audience_db \<Rightarrow> (academy_row \<Rightarrow> bool) \<Rightarrow> staff_row \<Rightarrow> bool" where
  "staffAcademy db p m \<longleftrightarrow>
     list_ex (\<lambda>a. ay_id a = sf_academyId m \<and> ay_status a \<noteq> ''archived'' \<and> p a) (ad_academies db)"

fun platformSource :: "audience_db \<Rightarrow> platform_audience \<Rightarrow> uid option \<Rightarrow> uid list" where
  "platformSource db OrgOwners cursor =
     map og_ownerUserId (filter (\<lambda>g. og_status g = ''active'' \<and> afterCursor cursor (og_ownerUserId g))
       (ad_organizations db))"
| "platformSource db (AcademyOwners plans subs statuses) cursor =
     map sf_userId (filter (\<lambda>m. sf_role m = ''owner'' \<and> sf_status m = ''active''
         \<and> afterCursor cursor (sf_userId m)
         \<and> staffAcademy db (\<lambda>a. anyOf plans (map_option fst (ad_subscription db (ay_organizationId a)))
               \<and> anyOf subs (map_option snd (ad_subscription db (ay_organizationId a)))
               \<and> anyOf statuses (Some (ay_status a))) m) (ad_staff db))"
| "platformSource db AcademyOwnersAdmins cursor =
     map sf_userId (filter (\<lambda>m. (sf_role m = ''owner'' \<or> sf_role m = ''administrator'') \<and> sf_status m = ''active''
         \<and> afterCursor cursor (sf_userId m) \<and> staffAcademy db (\<lambda>_. True) m) (ad_staff db))"
| "platformSource db (OneOrganization org) cursor =
     map (\<lambda>(_, u, _). u) (filter (\<lambda>(o', u, _). o' = org \<and> afterCursor cursor u) (ad_memberships db))
     @ map sf_userId (filter (\<lambda>m. (sf_role m = ''owner'' \<or> sf_role m = ''administrator'')
         \<and> sf_status m = ''active'' \<and> afterCursor cursor (sf_userId m)
         \<and> staffAcademy db (\<lambda>a. ay_organizationId a = org) m) (ad_staff db))"

fun audienceSource :: "audience_db \<Rightarrow> campaign_target \<Rightarrow> uid option \<Rightarrow> uid list" where
  "audienceSource db (ToAcademy academy a) cursor = academySource db a academy cursor"
| "audienceSource db (ToPlatform p) cursor = platformSource db p cursor"

subsection \<open>Counting\<close>

record audience_counts =
  an_recipients :: nat
  an_suppressed :: nat
  an_optedOut :: nat

definition accountSuppressed :: "audience_db \<Rightarrow> account_row \<Rightarrow> bool" where
  "accountSuppressed db u = ad_suppressed db (us_email u)"

definition accountOptedOut :: "campaign_target \<Rightarrow> account_row \<Rightarrow> bool" where
  "accountOptedOut t u = optedOutSql (targetScope t) (us_preferences u)"

definition countAudience :: "audience_db \<Rightarrow> campaign_target \<Rightarrow> audience_counts" where
  "countAudience db t =
     (let people = filter (\<lambda>u. List.member (audienceSource db t None) (us_id u) \<and> activeAccount u) (ad_accounts db)
      in \<lparr>an_recipients = length people,
          an_suppressed = count_rows (accountSuppressed db) people,
          an_optedOut = count_rows (\<lambda>u. \<not> accountSuppressed db u \<and> accountOptedOut t u) people\<rparr>)"

definition countInactiveLearners :: "audience_db \<Rightarrow> academy_audience \<Rightarrow> uid \<Rightarrow> nat \<times> nat" where
  "countInactiveLearners db a academy =
     (let inCourse = (\<lambda>s. case a of
            InCourses courses \<Rightarrow> list_ex (\<lambda>e. er_academyId e = sd_academyId s \<and> er_studentId e = sd_userId s
                \<and> List.member courses (er_courseId e) \<and> activeEnrollment e) (ad_enrollments db)
          | _ \<Rightarrow> True);
          rows = filter (\<lambda>s. sd_academyId s = academy \<and> inCourse s) (ad_students db)
      in (case a of
            StaffWithRoles _ \<Rightarrow> (0, 0)
          | _ \<Rightarrow> (count_rows sd_blocked rows,
                   count_rows (\<lambda>s. \<not> sd_blocked s \<and> sd_status s = ''pending'') rows)))"

subsection \<open>One page of the expansion\<close>

datatype email_exclusion = ex_suppressed | ex_opted_out | ex_quota

record recipient_row =
  rc_campaignId :: uid
  rc_userId :: uid
  rc_emailEligible :: bool
  rc_exclusion :: "email_exclusion option"
  rc_released :: bool
  rc_outboxId :: "nat option"
  rc_releasedAt :: "instant option"

definition recipientKey :: "recipient_row \<Rightarrow> uid \<times> uid" where
  "recipientKey r = (rc_campaignId r, rc_userId r)"

definition pagePeople :: "audience_db \<Rightarrow> campaign_target \<Rightarrow> uid option \<Rightarrow> nat \<Rightarrow> account_row list" where
  "pagePeople db t cursor limit =
     take limit (sort_key us_id
       (filter (\<lambda>u. List.member (audienceSource db t cursor) (us_id u) \<and> activeAccount u
                  \<and> afterCursor cursor (us_id u)) (ad_accounts db)))"

fun decidePage ::
  "audience_db \<Rightarrow> campaign_target \<Rightarrow> uid \<Rightarrow> bool \<Rightarrow> int option \<Rightarrow> account_row list \<Rightarrow> recipient_row list" where
  "decidePage db t campaign emailChannel budget [] = []"
| "decidePage db t campaign emailChannel budget (u # us) =
     (let row = (\<lambda>eligible excl. \<lparr>rc_campaignId = campaign, rc_userId = us_id u, rc_emailEligible = eligible,
                   rc_exclusion = excl, rc_released = False, rc_outboxId = None, rc_releasedAt = None\<rparr>)
      in if \<not> emailChannel then
           row False None # decidePage db t campaign emailChannel budget us
         else if accountSuppressed db u then
           row False (Some ex_suppressed) # decidePage db t campaign emailChannel budget us
         else if accountOptedOut t u then
           row False (Some ex_opted_out) # decidePage db t campaign emailChannel budget us
         else if (case budget of None \<Rightarrow> False | Some b \<Rightarrow> b \<le> 0) then
           row False (Some ex_quota) # decidePage db t campaign emailChannel budget us
         else
           row True None # decidePage db t campaign emailChannel (map_option (\<lambda>b. b - 1) budget) us)"

record expanded_page =
  xp_pageSize :: nat
  xp_written :: "recipient_row list"
  xp_lastUserId :: "uid option"

definition excludedFor :: "email_exclusion \<Rightarrow> recipient_row list \<Rightarrow> nat" where
  "excludedFor x rows = count_rows (\<lambda>r. rc_exclusion r = Some x) rows"

text \<open>
  The rows of the page and the table with those that were new to it; the counts the code returns
  are \<open>length\<close> of \<open>xp_written\<close> and \<open>excludedFor\<close>.
\<close>

definition expandAudiencePage ::
  "audience_db \<Rightarrow> campaign_target \<Rightarrow> uid \<Rightarrow> uid option \<Rightarrow> nat \<Rightarrow> bool \<Rightarrow> int option \<Rightarrow> recipient_row list
   \<Rightarrow> recipient_row list \<times> expanded_page" where
  "expandAudiencePage db t campaign cursor limit emailChannel budget recipients =
     (let page = pagePeople db t cursor limit
      in if page = [] then (recipients, \<lparr>xp_pageSize = 0, xp_written = [], xp_lastUserId = None\<rparr>)
         else
           (case insertMissing recipientKey (decidePage db t campaign emailChannel budget page) recipients of
              (recipients', written) \<Rightarrow>
                (recipients',
                 \<lparr>xp_pageSize = length page, xp_written = written, xp_lastUserId = Some (us_id (last page))\<rparr>)))"

end
