(* ===== verification/Campaign_Engine.thy ===== *)
theory Campaign_Engine
  imports Campaign_Quota Campaign_Audience Comm_Guarantees
begin

text \<open>
  Sending a campaign (\<open>communications/campaigns/communication-campaign.service.ts\<close>) and turning it
  into outbox rows (\<open>campaign-worker.service.ts\<close>): every transaction of the two services, the
  worker's bounded run over them and the repeated tick.  Text is a list of UTF-16 code units (numbers from 0); the
  rich-text sanitiser is an argument, from raw HTML to HTML and its visible text.
\<close>

subsection \<open>The campaign row\<close>

datatype campaign_status = cs_queued | cs_expanding | cs_sending | cs_completed | cs_cancelled | cs_failed

type_synonym utf16 = "int list"

record campaign =
  cg_id :: uid
  cg_target :: campaign_target
  cg_organizationId :: "uid option"
  cg_createdBy :: uid
  cg_idempotencyScope :: string
  cg_idempotencyKey :: string
  cg_chEmail :: bool
  cg_chInApp :: bool
  cg_subject :: utf16
  cg_bodyHtml :: utf16
  cg_bodyText :: utf16
  cg_status :: campaign_status
  cg_recipientCount :: int
  cg_expectedEmailCount :: int
  cg_expansionCursor :: "uid option"
  cg_expandedCount :: int
  cg_emailReleasedCount :: int
  cg_inAppReleasedCount :: int
  cg_excludedOptedOut :: int
  cg_excludedSuppressed :: int
  cg_excludedQuota :: int
  cg_quotaPeriodStart :: "instant option"
  cg_quotaReserved :: int
  cg_largeAudienceConfirmed :: bool
  cg_lastError :: "string option"
  cg_startedAt :: "instant option"
  cg_completedAt :: "instant option"
  cg_updatedAt :: instant

definition CAMPAIGN_SUBJECT_MAX :: int where "CAMPAIGN_SUBJECT_MAX = 150"
definition CAMPAIGN_BODY_HTML_MAX :: int where "CAMPAIGN_BODY_HTML_MAX = 20000"
definition CAMPAIGN_BODY_HTML_MAX_BYTES :: int where "CAMPAIGN_BODY_HTML_MAX_BYTES = 50000"
definition CAMPAIGN_BODY_TEXT_MAX :: int where "CAMPAIGN_BODY_TEXT_MAX = 5000"
definition CAMPAIGN_BATCH_SIZE :: nat where "CAMPAIGN_BATCH_SIZE = 200"
definition CAMPAIGN_RELEASE_PER_RUN :: int where "CAMPAIGN_RELEASE_PER_RUN = 2000"
definition CAMPAIGN_LARGE_AUDIENCE :: int where "CAMPAIGN_LARGE_AUDIENCE = 1000"
definition MAX_PAGES_PER_RUN :: nat where "MAX_PAGES_PER_RUN = 100"
definition CAMPAIGN_TICK_BATCH :: nat where "CAMPAIGN_TICK_BATCH = 20"

fun CAMPAIGN_KEY :: "campaign_scope \<Rightarrow> string" where
  "CAMPAIGN_KEY scope_platform = ''platform.broadcast.sent''"
| "CAMPAIGN_KEY scope_academy = ''academy.message.sent''"

text \<open>The two entries of the catalogue a campaign's rows carry.\<close>

fun campaignEntry :: "campaign_scope \<Rightarrow> catalog_entry" where
  "campaignEntry scope_academy =
     \<lparr>ce_category = cat_engagement, ce_audience = aud_learner, ce_inApp = True, ce_email = em_preference,
      ce_extendedRetention = False, ce_dedupe = (\<lambda>(_, i) _. Some (''campaign:'' @ i)), ce_cooldownSeconds = 0,
      ce_emailStaleAfterSeconds = None, ce_requiresLiveAcademy = False, ce_credentialValues = [],
      ce_personalValues = [], ce_addressRecipient = False\<rparr>"
| "campaignEntry scope_platform =
     \<lparr>ce_category = cat_operational, ce_audience = aud_staff, ce_inApp = True, ce_email = em_preference,
      ce_extendedRetention = False, ce_dedupe = (\<lambda>(_, i) _. Some (''campaign:'' @ i)), ce_cooldownSeconds = 0,
      ce_emailStaleAfterSeconds = None, ce_requiresLiveAcademy = False, ce_credentialValues = [],
      ce_personalValues = [], ce_addressRecipient = False\<rparr>"

subsection \<open>Who sends, and what\<close>

datatype sender = PlatformSender uid | AcademySender uid uid uid string

fun actorOf :: "sender \<Rightarrow> uid" where
  "actorOf (PlatformSender u) = u"
| "actorOf (AcademySender u _ _ _) = u"

datatype send_refusal =
    NotAMember | MessagingForbidden | AcademyNotActive
  | NoChannel | SubjectInvalid | BodyTooLong | BodyEmpty
  | IdempotencyKeyReused | RateLimited int
  | UnknownCourse | UnknownOrganization | NoRecipients | AudienceChanged nat nat | ConfirmationRequired nat
  | QuotaExceeded quota_exceeded
  | UniqueViolation | InvalidAudience

definition senderRole :: "string \<Rightarrow> bool" where
  "senderRole x \<longleftrightarrow> x = ''owner'' \<or> x = ''administrator''"

definition assertAcademySender ::
  "audience_db \<Rightarrow> uid \<Rightarrow> uid \<Rightarrow> uid \<Rightarrow> bool \<Rightarrow> send_refusal + sender" where
  "assertAcademySender db academyId org user toSend =
     (case find (\<lambda>a. ay_id a = academyId) (ad_academies db) of
        None \<Rightarrow> Inl NotAMember
      | Some a \<Rightarrow>
          if ay_organizationId a \<noteq> org then Inl NotAMember
          else
            (let staffRole = (case find (\<lambda>m. sf_academyId m = academyId \<and> sf_userId m = user) (ad_staff db) of
                   None \<Rightarrow> None
                 | Some m \<Rightarrow> if sf_status m = ''active'' \<and> senderRole (sf_role m) then Some (sf_role m) else None);
                 role = (case staffRole of
                   Some x \<Rightarrow> Some x
                 | None \<Rightarrow> if List.member (ad_memberships db) (org, user, ''owner'') then Some ''owner'' else None)
             in case role of
                  None \<Rightarrow> Inl MessagingForbidden
                | Some x \<Rightarrow>
                    if toSend \<and> \<not> (ay_status a = ''active'' \<or> ay_status a = ''draft'')
                    then Inl AcademyNotActive
                    else Inr (AcademySender user academyId org x)))"

datatype audience_input = PlatformAudience platform_audience | AcademyAudience academy_audience

text \<open>An audience of the other scope gives no query: the statement fails.\<close>

fun targetOf :: "sender \<Rightarrow> audience_input \<Rightarrow> campaign_target option" where
  "targetOf (PlatformSender _) (PlatformAudience p) = Some (ToPlatform p)"
| "targetOf (AcademySender _ academyId _ _) (AcademyAudience a) = Some (ToAcademy academyId a)"
| "targetOf _ _ = None"

fun organizationOf :: "sender \<Rightarrow> uid option" where
  "organizationOf (PlatformSender _) = None"
| "organizationOf (AcademySender _ _ org _) = Some org"

fun idempotencyScopeOf :: "sender \<Rightarrow> string" where
  "idempotencyScopeOf (PlatformSender _) = ''platform''"
| "idempotencyScopeOf (AcademySender _ academyId _ _) = ''academy:'' @ academyId"

record send_input =
  si_audience :: audience_input
  si_chEmail :: bool
  si_chInApp :: bool
  si_idempotencyKey :: string
  si_subject :: utf16
  si_bodyHtml :: utf16
  si_expectedRecipientCount :: nat
  si_confirmLargeAudience :: bool

definition isControl :: "int \<Rightarrow> bool" where
  "isControl c \<longleftrightarrow> 0 \<le> c \<and> c \<le> 31 \<or> c = 127"

fun squeezeControls :: "bool \<Rightarrow> utf16 \<Rightarrow> utf16" where
  "squeezeControls inRun [] = []"
| "squeezeControls inRun (c # cs) =
     (if isControl c then (if inRun then squeezeControls True cs else 32 # squeezeControls True cs)
      else c # squeezeControls False cs)"

definition isWhitespace :: "int \<Rightarrow> bool" where
  "isWhitespace c \<longleftrightarrow>
     9 \<le> c \<and> c \<le> 13 \<or> c = 32 \<or> c = 160 \<or> c = 5760 \<or> 8192 \<le> c \<and> c \<le> 8202 \<or> c = 8232 \<or> c = 8233
     \<or> c = 8239 \<or> c = 8287 \<or> c = 12288 \<or> c = 65279"

definition trimText :: "utf16 \<Rightarrow> utf16" where
  "trimText t = rev (dropWhile isWhitespace (rev (dropWhile isWhitespace t)))"

fun utf8Length :: "utf16 \<Rightarrow> int" where
  "utf8Length [] = 0"
| "utf8Length [c] = (if c < 128 then 1 else if c < 2048 then 2 else 3)"
| "utf8Length (c # d # cs) =
     (if c < 128 then 1 + utf8Length (d # cs)
      else if c < 2048 then 2 + utf8Length (d # cs)
      else if 55296 \<le> c \<and> c \<le> 56319 \<and> 56320 \<le> d \<and> d \<le> 57343 then 4 + utf8Length cs
      else 3 + utf8Length (d # cs))"

definition assertRawContent :: "send_input \<Rightarrow> send_refusal + utf16" where
  "assertRawContent inp =
     (let subject = trimText (squeezeControls False (si_subject inp))
      in if subject = [] \<or> CAMPAIGN_SUBJECT_MAX < int (length subject) then Inl SubjectInvalid
         else if CAMPAIGN_BODY_HTML_MAX < int (length (si_bodyHtml inp))
                 \<or> CAMPAIGN_BODY_HTML_MAX_BYTES < utf8Length (si_bodyHtml inp) then Inl BodyTooLong
         else Inr subject)"

definition sanitizeContent ::
  "(utf16 \<Rightarrow> utf16 \<times> utf16) \<Rightarrow> send_input \<Rightarrow> send_refusal + (utf16 \<times> utf16 \<times> utf16)" where
  "sanitizeContent sanitize inp =
     (case assertRawContent inp of
        Inl e \<Rightarrow> Inl e
      | Inr subject \<Rightarrow>
          (case sanitize (si_bodyHtml inp) of
             (html, txt) \<Rightarrow>
               if txt = [] then Inl BodyEmpty
               else if CAMPAIGN_BODY_TEXT_MAX < int (length txt) then Inl BodyTooLong
               else Inr (subject, html, txt)))"

subsection \<open>The world of campaigns\<close>

text \<open>
  \<open>pw_rates\<close> are the counters of the fixed-window limiter in Redis, with their expiry;
  \<open>pw_accepted\<close> are requests that passed every check made before their transaction.
\<close>

record accepted_send =
  as_campaignId :: uid
  as_sender :: sender
  as_input :: send_input
  as_subject :: utf16
  as_html :: utf16
  as_text :: utf16

record campaign_world =
  pw_comm :: comm_world
  pw_quota :: quota_state
  pw_campaigns :: "campaign list"
  pw_recipients :: "recipient_row list"
  pw_rates :: "string \<Rightarrow> (nat \<times> instant) option"
  pw_accepted :: "accepted_send list"

text \<open>The answer 202: the campaign, its counts, and whether it replays an earlier request.\<close>

record accepted_response =
  ap_campaignId :: uid
  ap_status :: campaign_status
  ap_recipientCount :: int
  ap_emailCount :: int
  ap_replayed :: bool

type_synonym send_reply = "send_refusal + accepted_response"

definition findCampaign :: "campaign_world \<Rightarrow> uid \<Rightarrow> campaign option" where
  "findCampaign w c = find_by cg_id c (pw_campaigns w)"

definition updateCampaign :: "uid \<Rightarrow> (campaign \<Rightarrow> campaign) \<Rightarrow> campaign_world \<Rightarrow> campaign_world" where
  "updateCampaign c f w = w\<lparr>pw_campaigns := map (\<lambda>g. if cg_id g = c then f g else g) (pw_campaigns w)\<rparr>"

definition findReplay :: "sender \<Rightarrow> string \<Rightarrow> campaign_world \<Rightarrow> send_reply option" where
  "findReplay who key w =
     (case find (\<lambda>g. cg_idempotencyScope g = idempotencyScopeOf who \<and> cg_idempotencyKey g = key)
             (pw_campaigns w) of
        None \<Rightarrow> None
      | Some g \<Rightarrow>
          Some (if cg_createdBy g \<noteq> actorOf who then Inl IdempotencyKeyReused
                else Inr \<lparr>ap_campaignId = cg_id g, ap_status = cg_status g,
                          ap_recipientCount = cg_recipientCount g,
                          ap_emailCount = cg_expectedEmailCount g, ap_replayed = True\<rparr>))"

text \<open>
  \<open>INCR\<close>, and \<open>EXPIRE\<close> on the first; an unreachable Redis lets the request through.  \<open>Inl\<close> is
  the number of seconds to wait.
\<close>

definition rateLimit ::
  "bool \<Rightarrow> instant \<Rightarrow> string \<Rightarrow> nat \<Rightarrow> int \<Rightarrow> campaign_world \<Rightarrow> campaign_world \<times> int option" where
  "rateLimit redisUp now key maxCount windowSeconds w =
     (if \<not> redisUp then (w, None)
      else
        (let (n, expiry) = (case pw_rates w key of
               Some (n, x) \<Rightarrow> if now < x then (Suc n, x) else (1, now + windowSeconds * 1000)
             | None \<Rightarrow> (1, now + windowSeconds * 1000));
             w1 = w\<lparr>pw_rates := (pw_rates w)(key \<mapsto> (n, expiry))\<rparr>
         in (w1, if maxCount < n then Some ((expiry - now + 999) div 1000) else None)))"

fun sendRateKey :: "sender \<Rightarrow> string" where
  "sendRateKey (PlatformSender u) = ''campaign:send:platform:'' @ u"
| "sendRateKey (AcademySender _ academyId _ _) = ''campaign:send:academy:'' @ academyId"

fun CAMPAIGN_SEND_RATE :: "sender \<Rightarrow> nat \<times> int" where
  "CAMPAIGN_SEND_RATE (AcademySender _ _ _ _) = (10, 60 * 60)"
| "CAMPAIGN_SEND_RATE (PlatformSender _) = (20, 60 * 60)"

text \<open>
  Everything \<open>send\<close> does before its transaction.  No reply means the request goes on; \<open>newId\<close> is
  what \<open>randomUUID\<close> returns.
\<close>

definition beginSend ::
  "(utf16 \<Rightarrow> utf16 \<times> utf16) \<Rightarrow> bool \<Rightarrow> instant \<Rightarrow> uid \<Rightarrow> sender \<Rightarrow> send_input \<Rightarrow> campaign_world
   \<Rightarrow> campaign_world \<times> send_reply option" where
  "beginSend sanitize redisUp now newId who inp w =
     (if \<not> si_chEmail inp \<and> \<not> si_chInApp inp then (w, Some (Inl NoChannel))
      else
        (case assertRawContent inp of
           Inl e \<Rightarrow> (w, Some (Inl e))
         | Inr _ \<Rightarrow>
             (case findReplay who (si_idempotencyKey inp) w of
                Some reply \<Rightarrow> (w, Some reply)
              | None \<Rightarrow>
                  (case rateLimit redisUp now (sendRateKey who) (fst (CAMPAIGN_SEND_RATE who))
                          (snd (CAMPAIGN_SEND_RATE who)) w of
                     (w1, Some wait) \<Rightarrow> (w1, Some (Inl (RateLimited wait)))
                   | (w1, None) \<Rightarrow>
                       (case sanitizeContent sanitize inp of
                          Inl e \<Rightarrow> (w1, Some (Inl e))
                        | Inr (subject, html, txt) \<Rightarrow>
                            (w1\<lparr>pw_accepted := pw_accepted w1 @
                                [\<lparr>as_campaignId = newId, as_sender = who, as_input = inp,
                                  as_subject = subject, as_html = html, as_text = txt\<rparr>]\<rparr>, None))))))"

definition assertAudienceInScope :: "audience_db \<Rightarrow> campaign_target \<Rightarrow> send_refusal option" where
  "assertAudienceInScope db t =
     (case t of
        ToAcademy academyId (InCourses ids) \<Rightarrow>
          if count_rows (\<lambda>(i, a). List.member ids i \<and> a = academyId) (ad_courses db) \<noteq> length (remdups ids)
          then Some UnknownCourse else None
      | ToPlatform (OneOrganization org) \<Rightarrow>
          if list_ex (\<lambda>g. og_id g = org) (ad_organizations db) then None else Some UnknownOrganization
      | _ \<Rightarrow> None)"

record counted_audience =
  ca_recipientCount :: nat
  ca_emailCount :: nat

definition countFor :: "audience_db \<Rightarrow> campaign_target \<Rightarrow> send_input \<Rightarrow> counted_audience" where
  "countFor db t inp =
     (let c = countAudience db t;
          emailable = int (an_recipients c) - int (an_suppressed c) - int (an_optedOut c)
      in \<lparr>ca_recipientCount = an_recipients c,
          ca_emailCount = (if si_chEmail inp then nat (max 0 emailable) else 0)\<rparr>)"

text \<open>What the transaction reads: the audience tables and the organization's subscription.\<close>

record send_env =
  sv_db :: audience_db
  sv_subscription :: "uid \<Rightarrow> quota_subscription option"

definition reserveFor ::
  "send_env \<Rightarrow> instant \<Rightarrow> accepted_send \<Rightarrow> int \<Rightarrow> quota_state \<Rightarrow> quota_exceeded + (quota_state \<times> instant option)" where
  "reserveFor env now a quantity q =
     (case as_sender a of
        PlatformSender _ \<Rightarrow> Inr (q, None)
      | AcademySender _ academyId org _ \<Rightarrow>
          (case reserveQuota (limitFor org (sv_subscription env org)) academyId (as_campaignId a) quantity now q of
             Inl x \<Rightarrow> Inl x
           | Inr (q', view) \<Rightarrow> Inr (q', Some (qv_periodStart view))))"

definition newCampaign :: "instant \<Rightarrow> accepted_send \<Rightarrow> campaign_target \<Rightarrow> counted_audience \<Rightarrow> instant option \<Rightarrow> campaign" where
  "newCampaign now a t n periodStart =
     (let inp = as_input a
      in \<lparr>cg_id = as_campaignId a, cg_target = t, cg_organizationId = organizationOf (as_sender a),
          cg_createdBy = actorOf (as_sender a), cg_idempotencyScope = idempotencyScopeOf (as_sender a),
          cg_idempotencyKey = si_idempotencyKey inp, cg_chEmail = si_chEmail inp, cg_chInApp = si_chInApp inp,
          cg_subject = as_subject a, cg_bodyHtml = as_html a, cg_bodyText = as_text a, cg_status = cs_queued,
          cg_recipientCount = int (ca_recipientCount n), cg_expectedEmailCount = int (ca_emailCount n),
          cg_expansionCursor = None, cg_expandedCount = 0, cg_emailReleasedCount = 0, cg_inAppReleasedCount = 0,
          cg_excludedOptedOut = 0, cg_excludedSuppressed = 0, cg_excludedQuota = 0,
          cg_quotaPeriodStart = periodStart,
          cg_quotaReserved = (if targetScope t = scope_academy then int (ca_emailCount n) else 0),
          cg_largeAudienceConfirmed = si_confirmLargeAudience inp, cg_lastError = None,
          cg_startedAt = None, cg_completedAt = None, cg_updatedAt = now\<rparr>)"

definition campaignTaken :: "campaign \<Rightarrow> campaign_world \<Rightarrow> bool" where
  "campaignTaken g w \<longleftrightarrow>
     list_ex (\<lambda>x. cg_id x = cg_id g
        \<or> cg_idempotencyScope x = cg_idempotencyScope g \<and> cg_idempotencyKey x = cg_idempotencyKey g)
       (pw_campaigns w)"

text \<open>The transaction of \<open>send\<close>; an \<open>Inl\<close> rolls it back.\<close>

definition sendTransaction ::
  "send_env \<Rightarrow> instant \<Rightarrow> accepted_send \<Rightarrow> campaign_world \<Rightarrow> send_refusal + (campaign_world \<times> accepted_response)" where
  "sendTransaction env now a w =
     (case targetOf (as_sender a) (si_audience (as_input a)) of
        None \<Rightarrow> Inl InvalidAudience
      | Some t \<Rightarrow>
          (case assertAudienceInScope (sv_db env) t of
             Some e \<Rightarrow> Inl e
           | None \<Rightarrow>
               (let n = countFor (sv_db env) t (as_input a);
                    reached = ca_recipientCount n
                in if reached = 0 then Inl NoRecipients
                   else if reached \<noteq> si_expectedRecipientCount (as_input a)
                   then Inl (AudienceChanged reached (ca_emailCount n))
                   else if CAMPAIGN_LARGE_AUDIENCE \<le> int reached \<and> \<not> si_confirmLargeAudience (as_input a)
                   then Inl (ConfirmationRequired reached)
                   else
                     (case reserveFor env now a (int (ca_emailCount n)) (pw_quota w) of
                        Inl x \<Rightarrow> Inl (QuotaExceeded x)
                      | Inr (q, periodStart) \<Rightarrow>
                          (let g = newCampaign now a t n periodStart
                           in if campaignTaken g w then Inl UniqueViolation
                              else Inr (w\<lparr>pw_quota := q, pw_campaigns := pw_campaigns w @ [g]\<rparr>,
                                \<lparr>ap_campaignId = cg_id g, ap_status = cs_queued,
                                 ap_recipientCount = cg_recipientCount g,
                                 ap_emailCount = cg_expectedEmailCount g, ap_replayed = False\<rparr>))))))"

definition removeAccepted :: "nat \<Rightarrow> campaign_world \<Rightarrow> campaign_world" where
  "removeAccepted n w = w\<lparr>pw_accepted := removeNth n (pw_accepted w)\<rparr>"

definition commitSend :: "send_env \<Rightarrow> instant \<Rightarrow> nat \<Rightarrow> campaign_world \<Rightarrow> campaign_world \<times> send_reply option" where
  "commitSend env now n w =
     (if \<not> n < length (pw_accepted w) then (w, None)
      else
        (let a = pw_accepted w ! n; w0 = removeAccepted n w
         in case sendTransaction env now a w0 of
              Inr (w1, reply) \<Rightarrow> (w1, Some (Inr reply))
            | Inl UniqueViolation \<Rightarrow>
                (w0, Some (case findReplay (as_sender a) (si_idempotencyKey (as_input a)) w0 of
                             Some winner \<Rightarrow> winner
                           | None \<Rightarrow> Inl UniqueViolation))
            | Inl e \<Rightarrow> (w0, Some (Inl e))))"

subsection \<open>The worker\<close>

definition isActiveStatus :: "campaign_status \<Rightarrow> bool" where
  "isActiveStatus st \<longleftrightarrow> st = cs_queued \<or> st = cs_expanding \<or> st = cs_sending"

definition stillExpanding :: "campaign_status \<Rightarrow> bool" where
  "stillExpanding st \<longleftrightarrow> st = cs_queued \<or> st = cs_expanding"

text \<open>An academy's email rows may never exceed what it reserved.\<close>

definition emailBudget :: "campaign \<Rightarrow> int option" where
  "emailBudget g =
     (if targetScope (cg_target g) = scope_academy \<and> cg_chEmail g
      then Some (max 0 (cg_quotaReserved g
             - (cg_expandedCount g - cg_excludedOptedOut g - cg_excludedSuppressed g - cg_excludedQuota g)))
      else None)"

text \<open>One page, one transaction; the answer is \<open>done\<close>.\<close>

definition expandPage :: "audience_db \<Rightarrow> instant \<Rightarrow> uid \<Rightarrow> campaign_world \<Rightarrow> campaign_world \<times> bool" where
  "expandPage db now c w =
     (case findCampaign w c of
        None \<Rightarrow> (w, True)
      | Some g \<Rightarrow>
          if \<not> stillExpanding (cg_status g) then (w, True)
          else
            (case expandAudiencePage db (cg_target g) c (cg_expansionCursor g) CAMPAIGN_BATCH_SIZE
                    (cg_chEmail g) (emailBudget g) (pw_recipients w) of
               (recipients, page) \<Rightarrow>
                 (let finished = xp_pageSize page < CAMPAIGN_BATCH_SIZE;
                      written = xp_written page
                  in (updateCampaign c (\<lambda>g. g\<lparr>
                        cg_status := (if finished then cs_sending else cs_expanding),
                        cg_expansionCursor := (case xp_lastUserId page of Some u \<Rightarrow> Some u
                                               | None \<Rightarrow> cg_expansionCursor g),
                        cg_expandedCount := cg_expandedCount g + int (length written),
                        cg_excludedOptedOut := cg_excludedOptedOut g + int (excludedFor ex_opted_out written),
                        cg_excludedSuppressed := cg_excludedSuppressed g + int (excludedFor ex_suppressed written),
                        cg_excludedQuota := cg_excludedQuota g + int (excludedFor ex_quota written),
                        cg_startedAt := (case cg_startedAt g of Some x \<Rightarrow> Some x | None \<Rightarrow> Some now),
                        cg_updatedAt := now\<rparr>) (w\<lparr>pw_recipients := recipients\<rparr>), finished))))"

definition campaignDedupeKey :: "campaign \<Rightarrow> string option" where
  "campaignDedupeKey g = ce_dedupe (campaignEntry (targetScope (cg_target g))) (''communication_campaign'', cg_id g) []"

definition campaignOutboxRow :: "instant \<Rightarrow> campaign \<Rightarrow> uid \<Rightarrow> outbox_row" where
  "campaignOutboxRow now g u =
     (let entry = campaignEntry (targetScope (cg_target g))
      in (pendingRow now (CAMPAIGN_KEY (targetScope (cg_target g))) entry
            (''communication_campaign'', cg_id g) [])
           \<lparr>ob_recipientUserId := Some u,
            ob_academyId := (case cg_target g of ToAcademy a _ \<Rightarrow> Some a | ToPlatform _ \<Rightarrow> None),
            ob_chInApp := cg_chInApp g,
            ob_chEmail := (if cg_chEmail g then em_preference else em_never),
            ob_campaignId := Some (cg_id g)\<rparr>)"

text \<open>Of the interpolation values only the campaign's id is kept; the rest is wording.\<close>

definition campaignNotification :: "instant \<Rightarrow> campaign \<Rightarrow> uid \<Rightarrow> notification_row" where
  "campaignNotification now g u =
     \<lparr>nt_userId = u, nt_dedupeKey = campaignDedupeKey g, nt_values = [(''campaignId'', cg_id g)],
      nt_extended = ce_extendedRetention (campaignEntry (targetScope (cg_target g))), nt_createdAt = now\<rparr>"

definition awaitingRows :: "uid \<Rightarrow> campaign_world \<Rightarrow> recipient_row list" where
  "awaitingRows c w = filter (\<lambda>r. rc_campaignId r = c \<and> \<not> rc_released r) (pw_recipients w)"

definition getsEmail :: "campaign \<Rightarrow> recipient_row \<Rightarrow> bool" where
  "getsEmail g r \<longleftrightarrow> cg_chEmail g \<and> rc_emailEligible r"

text \<open>The two unique indexes a batch can run into.\<close>

definition releaseConflict :: "campaign \<Rightarrow> recipient_row list \<Rightarrow> comm_state \<Rightarrow> bool" where
  "releaseConflict g rows s \<longleftrightarrow>
     list_ex (\<lambda>r. getsEmail g r \<and> outboxExists s (Some (rc_userId r)) None (campaignDedupeKey g)) rows
     \<or> cg_chInApp g \<and> list_ex (\<lambda>r. notificationExists s (rc_userId r) (campaignDedupeKey g)) rows"

definition insertCampaignRows :: "instant \<Rightarrow> campaign \<Rightarrow> uid list \<Rightarrow> comm_state \<Rightarrow> comm_state" where
  "insertCampaignRows now g users s = fold (\<lambda>u. insertOutbox (campaignOutboxRow now g u)) users s"

text \<open>The outbox ids of a batch: the email rows are numbered in the order they are inserted.\<close>

fun numberRows :: "campaign \<Rightarrow> instant \<Rightarrow> nat \<Rightarrow> recipient_row list \<Rightarrow> recipient_row list" where
  "numberRows g now n [] = []"
| "numberRows g now n (r # rs) =
     (if getsEmail g r
      then r\<lparr>rc_released := True, rc_releasedAt := Some now, rc_outboxId := Some n\<rparr> # numberRows g now (Suc n) rs
      else r\<lparr>rc_released := True, rc_releasedAt := Some now, rc_outboxId := None\<rparr> # numberRows g now n rs)"

definition storeRecipients :: "recipient_row list \<Rightarrow> recipient_row list \<Rightarrow> recipient_row list" where
  "storeRecipients new t = map (\<lambda>r. case find_by recipientKey (recipientKey r) new of
                                       Some r' \<Rightarrow> r' | None \<Rightarrow> r) t"

text \<open>
  One batch, one transaction.  \<open>Inl ()\<close> is a violated unique index: nothing is written and the
  run ends there.  The number is how many recipients were released.
\<close>

definition releaseBatch :: "instant \<Rightarrow> uid \<Rightarrow> campaign_world \<Rightarrow> unit + (campaign_world \<times> nat)" where
  "releaseBatch now c w =
     (case findCampaign w c of
        None \<Rightarrow> Inr (w, 0)
      | Some g \<Rightarrow>
          if cg_status g \<noteq> cs_sending then Inr (w, 0)
          else
            (let rows = take CAMPAIGN_BATCH_SIZE (sort_key rc_userId (awaitingRows c w));
                 s = cw_state (pw_comm w)
             in if rows = [] then Inr (w, 0)
                else if releaseConflict g rows s then Inl ()
                else
                  (let emailUsers = map rc_userId (filter (getsEmail g) rows);
                       s1 = insertCampaignRows now g emailUsers s;
                       s2 = (if cg_chInApp g
                             then s1\<lparr>cm_notifications := cm_notifications s1
                                      @ map (campaignNotification now g \<circ> rc_userId) rows\<rparr>
                             else s1)
                   in Inr (updateCampaign c (\<lambda>g. g\<lparr>
                             cg_emailReleasedCount := cg_emailReleasedCount g + int (length emailUsers),
                             cg_inAppReleasedCount := cg_inAppReleasedCount g
                               + (if cg_chInApp g then int (length rows) else 0),
                             cg_updatedAt := now\<rparr>)
                           (w\<lparr>pw_comm := (pw_comm w)\<lparr>cw_state := s2\<rparr>,
                              pw_recipients := storeRecipients (numberRows g now (cm_nextId s) rows)
                                                 (pw_recipients w)\<rparr>),
                           length rows))))"

datatype campaign_run_outcome = run_missing | run_idle | run_expanding | run_sending | run_completed

definition campaignRows :: "uid \<Rightarrow> comm_state \<Rightarrow> outbox_row list" where
  "campaignRows c s = filter (\<lambda>r. ob_campaignId r = Some c) (cm_outbox s)"

definition quotaOf :: "campaign \<Rightarrow> period_key option" where
  "quotaOf g =
     (case (cg_target g, cg_quotaPeriodStart g) of
        (ToAcademy a _, Some p) \<Rightarrow> Some (a, p)
      | _ \<Rightarrow> None)"

definition settleCampaign :: "instant \<Rightarrow> uid \<Rightarrow> campaign_world \<Rightarrow> campaign_world \<times> campaign_run_outcome" where
  "settleCampaign now c w =
     (case findCampaign w c of
        None \<Rightarrow> (w, run_missing)
      | Some g \<Rightarrow>
          if cg_status g \<noteq> cs_sending
          then (w, if cg_status g = cs_completed then run_completed else run_expanding)
          else if awaitingRows c w \<noteq> [] then (w, run_sending)
          else
            (let q1 = (case quotaOf g of
                   None \<Rightarrow> pw_quota w
                 | Some k \<Rightarrow>
                     if cg_emailReleasedCount g < cg_quotaReserved g
                     then fst (giveBack k c lk_release (cg_quotaReserved g - cg_emailReleasedCount g) (pw_quota w))
                     else pw_quota w);
                 rows = campaignRows c (cw_state (pw_comm w));
                 openRows = count_rows waiting rows;
                 failedRows = count_rows (\<lambda>r. ob_state r = ob_failed) rows
             in if 0 < openRows then (w\<lparr>pw_quota := q1\<rparr>, run_sending)
                else
                  (let q2 = (case quotaOf g of
                         None \<Rightarrow> q1
                       | Some k \<Rightarrow>
                           if 0 < failedRows then fst (giveBack k c lk_refund (int failedRows) q1) else q1)
                   in (updateCampaign c (\<lambda>g. g\<lparr>cg_status := cs_completed, cg_completedAt := Some now,
                                                cg_updatedAt := now\<rparr>) (w\<lparr>pw_quota := q2\<rparr>), run_completed))))"

subsection \<open>A run and the tick\<close>

text \<open>The pages of a run; \<open>dbs\<close> is what each page's transaction sees.\<close>

fun expandPages :: "(nat \<Rightarrow> audience_db) \<Rightarrow> instant \<Rightarrow> uid \<Rightarrow> nat \<Rightarrow> campaign_world \<Rightarrow> campaign_world \<times> bool" where
  "expandPages dbs now c 0 w = (w, False)"
| "expandPages dbs now c (Suc n) w =
     (case expandPage (dbs n) now c w of
        (w', True) \<Rightarrow> (w', True)
      | (w', False) \<Rightarrow> expandPages dbs now c n w')"

text \<open>The batches of a run; \<open>False\<close> is an exception out of a batch.\<close>

function releaseBatches :: "instant \<Rightarrow> uid \<Rightarrow> int \<Rightarrow> campaign_world \<Rightarrow> campaign_world \<times> bool" where
  "releaseBatches now c released w =
     (if released < CAMPAIGN_RELEASE_PER_RUN then
        (case releaseBatch now c w of
           Inl _ \<Rightarrow> (w, False)
         | Inr (w', n) \<Rightarrow>
             if n < CAMPAIGN_BATCH_SIZE then (w', True) else releaseBatches now c (released + int n) w')
      else (w, True))"
  by pat_completeness auto

termination releaseBatches
  by (relation "measure (\<lambda>(_, _, released, _). nat (CAMPAIGN_RELEASE_PER_RUN - released))")
    (auto simp: CAMPAIGN_BATCH_SIZE_def)

declare releaseBatches.simps [simp del]

text \<open>No outcome is an exception; what was committed before it stays.\<close>

definition runCampaign ::
  "bool \<Rightarrow> (nat \<Rightarrow> audience_db) \<Rightarrow> instant \<Rightarrow> uid \<Rightarrow> campaign_world \<Rightarrow> campaign_world \<times> campaign_run_outcome option" where
  "runCampaign owner dbs now c w =
     (if \<not> owner then (w, Some run_idle)
      else
        (case findCampaign w c of
           None \<Rightarrow> (w, Some run_missing)
         | Some g \<Rightarrow>
             if \<not> isActiveStatus (cg_status g) then (w, Some run_idle)
             else
               (let (w1, finished) = (if stillExpanding (cg_status g)
                       then expandPages dbs now c MAX_PAGES_PER_RUN w else (w, True))
                in if \<not> finished then (w1, Some run_expanding)
                   else
                     (case releaseBatches now c 0 w1 of
                        (w2, False) \<Rightarrow> (w2, None)
                      | (w2, True) \<Rightarrow> (case settleCampaign now c w2 of (w3, outcome) \<Rightarrow> (w3, Some outcome))))))"

definition recordError :: "instant \<Rightarrow> uid \<Rightarrow> string \<Rightarrow> campaign_world \<Rightarrow> campaign_world" where
  "recordError now c message w =
     updateCampaign c (\<lambda>g. g\<lparr>cg_lastError := Some (take 500 message), cg_updatedAt := now\<rparr>) w"

definition tickBatch :: "campaign_world \<Rightarrow> uid list" where
  "tickBatch w =
     map cg_id (take CAMPAIGN_TICK_BATCH
       (sort_key cg_updatedAt (filter (\<lambda>g. isActiveStatus (cg_status g)) (pw_campaigns w))))"

definition tickCampaigns ::
  "bool \<Rightarrow> (uid \<Rightarrow> nat \<Rightarrow> audience_db) \<Rightarrow> instant \<Rightarrow> string \<Rightarrow> campaign_world \<Rightarrow> campaign_world \<times> nat" where
  "tickCampaigns owner dbs now message w =
     (if \<not> owner then (w, 0)
      else
        (fold (\<lambda>c w. case runCampaign owner (dbs c) now c w of
                       (w', Some _) \<Rightarrow> w'
                     | (w', None) \<Rightarrow> recordError now c message w') (tickBatch w) w,
         length (tickBatch w)))"

subsection \<open>Histories\<close>

text \<open>Every transaction is one step; a crash between two is no step at all.\<close>

datatype campaign_step =
    SendRequest bool instant uid sender send_input
  | SendCommit send_env instant nat
  | ExpandPage audience_db instant uid
  | ReleaseBatch instant uid
  | SettleCampaign instant uid
  | RecordError instant uid string
  | Communication comm_step

fun campaignStep ::
  "(utf16 \<Rightarrow> utf16 \<times> utf16) \<Rightarrow> catalog \<Rightarrow> campaign_step \<Rightarrow> campaign_world \<Rightarrow> campaign_world" where
  "campaignStep sz cat (SendRequest up now i who inp) w = fst (beginSend sz up now i who inp w)"
| "campaignStep sz cat (SendCommit env now n) w = fst (commitSend env now n w)"
| "campaignStep sz cat (ExpandPage db now c) w = fst (expandPage db now c w)"
| "campaignStep sz cat (ReleaseBatch now c) w =
     (case releaseBatch now c w of Inl _ \<Rightarrow> w | Inr (w', _) \<Rightarrow> w')"
| "campaignStep sz cat (SettleCampaign now c) w = fst (settleCampaign now c w)"
| "campaignStep sz cat (RecordError now c m) w = recordError now c m w"
| "campaignStep sz cat (Communication st) w = w\<lparr>pw_comm := commStep cat st (pw_comm w)\<rparr>"

definition emptyCampaigns :: campaign_world where
  "emptyCampaigns =
     \<lparr>pw_comm = emptyComm, pw_quota = \<lparr>qt_periods = [], qt_ledger = []\<rparr>, pw_campaigns = [],
      pw_recipients = [], pw_rates = (\<lambda>_. None), pw_accepted = []\<rparr>"

definition campaignHistory ::
  "(utf16 \<Rightarrow> utf16 \<times> utf16) \<Rightarrow> catalog \<Rightarrow> campaign_step list \<Rightarrow> campaign_world" where
  "campaignHistory sz cat ss = fold (campaignStep sz cat) ss emptyCampaigns"

lemma campaignHistory_snoc [simp]:
  "campaignHistory sz cat [] = emptyCampaigns"
  "campaignHistory sz cat (ss @ [st]) = campaignStep sz cat st (campaignHistory sz cat ss)"
  by (simp_all add: campaignHistory_def)

text \<open>A run of the worker is a sequence of its steps.\<close>

definition reaches :: "(utf16 \<Rightarrow> utf16 \<times> utf16) \<Rightarrow> catalog \<Rightarrow> campaign_world \<Rightarrow> campaign_world \<Rightarrow> bool" where
  "reaches sz cat w w' \<longleftrightarrow> (\<exists>ss. w' = fold (campaignStep sz cat) ss w)"

lemma reaches_refl [simp]: "reaches sz cat w w"
  by (auto simp: reaches_def intro: exI [of _ "[]"])

lemma reaches_trans: "reaches sz cat w u \<Longrightarrow> reaches sz cat u v \<Longrightarrow> reaches sz cat w v"
  unfolding reaches_def by (metis fold_append o_apply)

lemma reaches_step: "reaches sz cat w (campaignStep sz cat st w)"
  unfolding reaches_def by (rule exI [of _ "[st]"]) simp

lemma reaches_expandPages: "reaches sz cat w (fst (expandPages dbs now c n w))"
proof (induction n arbitrary: w)
  case (Suc n)
  obtain w' b where e: "expandPage (dbs n) now c w = (w', b)" by (meson surj_pair)
  then have "reaches sz cat w w'" using reaches_step [of sz cat w "ExpandPage (dbs n) now c"] by simp
  then show ?case using Suc.IH [of w'] reaches_trans e by (cases b) auto
qed simp

lemma reaches_releaseBatches: "reaches sz cat w (fst (releaseBatches now c n w))"
proof (induction now c n w rule: releaseBatches.induct)
  case (1 now c released w)
  have s: "reaches sz cat w w'" if "releaseBatch now c w = Inr (w', n)" for w' n
    using reaches_step [of sz cat w "ReleaseBatch now c"] that by simp
  show ?case
    by (subst releaseBatches.simps) (use 1 s in \<open>auto split: sum.split intro: reaches_trans\<close>)
qed

lemma reaches_run: "reaches sz cat w (fst (runCampaign owner dbs now c w))"
proof -
  obtain w1 b where e: "expandPages dbs now c MAX_PAGES_PER_RUN w = (w1, b)" by (meson surj_pair)
  have r1: "reaches sz cat w w1" using reaches_expandPages [of sz cat w dbs now c MAX_PAGES_PER_RUN] e by simp
  have r2: "reaches sz cat v v2" if "releaseBatches now c 0 v = (v2, ok)" for v v2 ok
    using reaches_releaseBatches [of sz cat v now c 0] that by simp
  have r3: "reaches sz cat v v3" if "settleCampaign now c v = (v3, outcome)" for v v3 outcome
    using reaches_step [of sz cat v "SettleCampaign now c"] that by simp
  show ?thesis
    by (auto simp: runCampaign_def e split: option.split prod.split bool.split
        intro: r1 dest!: r2 r3 intro: reaches_trans)
qed

lemma reaches_tick: "reaches sz cat w (fst (tickCampaigns owner dbs now m w))"
proof -
  define f where "f = (\<lambda>c w. case runCampaign owner (dbs c) now c w of
      (w', Some _) \<Rightarrow> w' | (w', None) \<Rightarrow> recordError now c m w')"
  have "reaches sz cat v (f c v)" for c v
  proof -
    obtain v' outcome where r: "runCampaign owner (dbs c) now c v = (v', outcome)" by (meson surj_pair)
    then have "reaches sz cat v v'" using reaches_run [of sz cat v owner "dbs c" now c] by simp
    moreover have "reaches sz cat v' (recordError now c m v')"
      using reaches_step [of sz cat v' "RecordError now c m"] by simp
    ultimately show ?thesis using r reaches_trans by (auto simp: f_def split: option.split)
  qed
  then have "reaches sz cat v (fold f cs v)" for cs v
    by (induction cs arbitrary: v) (auto intro: reaches_trans)
  then show ?thesis unfolding tickCampaigns_def f_def [symmetric] by simp
qed

end
