(* ===== verification/Campaign_Frames.thy ===== *)
theory Campaign_Frames
  imports Campaign_Engine
begin

text \<open>
  What the dispatcher, the digests, retention and every other event do to the outbox rows of a
  campaign: they may change what a row holds and retention may remove it, but no row changes its
  campaign or its recipient and none is added.
\<close>

definition tag :: "outbox_row \<Rightarrow> uid option \<times> uid option" where
  "tag r = (ob_campaignId r, ob_recipientUserId r)"

definition tags :: "comm_state \<Rightarrow> (uid option \<times> uid option) list" where
  "tags s = map tag (cm_outbox s)"

named_theorems tag_simps \<open>operations that keep the rows' campaigns and recipients\<close>

lemma tags_map:
  assumes "cm_outbox s' = map f (cm_outbox s)" "\<And>r. tag (f r) = tag r"
  shows "tags s' = tags s"
  using assms by (simp add: tags_def)

lemma tags_same: "cm_outbox s' = cm_outbox s \<Longrightarrow> tags s' = tags s"
  by (simp add: tags_def)

lemma tags_setOutbox [tag_simps]: "(\<And>r. tag (f r) = tag r) \<Longrightarrow> tags (setOutbox i f s) = tags s"
  by (rule tags_map [of _ "\<lambda>r. if ob_id r = i then f r else r"]) (simp_all add: setOutbox_def)

lemma tags_updateRows [tag_simps]: "(\<And>r. tag (f r) = tag r) \<Longrightarrow> tags (updateRows is f s) = tags s"
  by (rule tags_map [of _ "\<lambda>r. if List.member is (ob_id r) then f r else r"]) (simp_all add: updateRows_def)

lemma tags_frames [tag_simps]:
  "tags (addDeliveries ds s) = tags s" "tags (setDigest d g s) = tags s"
  "tags (closeEmptyDigest d s) = tags s" "tags (releaseDigestClaim d s) = tags s"
  "tags (countTowardsDailyCap up now u s) = tags s"
  "tags (s\<lparr>cm_digests := x\<rparr>) = tags s" "tags (s\<lparr>cm_notifications := y\<rparr>) = tags s"
  "tags (s\<lparr>cm_cooldowns := z\<rparr>) = tags s"
  by (rule tags_same; simp add: addDeliveries_def setDigest_def closeEmptyDigest_def releaseDigestClaim_def
        countTowardsDailyCap_def)+

lemma tag_updates [simp]:
  "tag (r\<lparr>ob_state := a\<rparr>) = tag r" "tag (r\<lparr>ob_dispatchedAt := b\<rparr>) = tag r"
  "tag (r\<lparr>ob_lastError := c\<rparr>) = tag r" "tag (r\<lparr>ob_values := d\<rparr>) = tag r"
  "tag (r\<lparr>ob_availableAt := e\<rparr>) = tag r" "tag (r\<lparr>ob_attempts := f\<rparr>) = tag r"
  "tag (r\<lparr>ob_digestId := g\<rparr>) = tag r"
  by (simp_all add: tag_def)

lemma tag_scrubRow [simp]: "tag (scrubRow cat r) = tag r"
  by (simp add: scrubRow_def split: option.split)

lemma tags_settle [tag_simps]: "tags (settle cat now i st x inApp em s) = tags s"
  by (rule tags_map [OF settle_outbox(1)]) (simp add: settledRow_def)

lemma tags_settled [tag_simps]: "tags (fst (settled cat now i st x inApp em oc s)) = tags s"
  by (simp add: settled_def tag_simps)

lemma tags_claim [tag_simps]: "tags (s\<lparr>cm_outbox := fst (claimOutbox now i (cm_outbox s))\<rparr>) = tags s"
  by (rule tags_map [of _ "\<lambda>r. if ob_id r = i \<and> claimable now r then claimedRow now r else r"])
    (simp_all add: claimOutbox_def guarded_alt claimedRow_def)

lemma tags_cooldown [tag_simps]: "tags (fst (cooldownRemaining up now u k e s)) = tags s"
  by (rule tags_same) (simp add: cooldownRemaining_def Let_def split: option.split)

lemma tags_createDigest [tag_simps]: "tags (fst (createDigest now u k a b s)) = tags s"
  by (rule tags_same) (simp add: createDigest_def Let_def split: option.split)

lemma tags_attach [tag_simps]: "tags (attachToDigest env now row u aud s) = tags s"
  by (simp add: attachToDigest_def Let_def tag_simps split: option.split prod.split)
    (metis fst_conv tags_createDigest)

lemma tags_decideDelivery [tag_simps]:
  "tags (fst (decideDelivery cat env now row e u rs pf wd s)) = tags s"
proof -
  obtain s1 n where c: "cooldownRemaining (ev_redisUp env) now u (ob_key row) e s = (s1, n)" by (meson surj_pair)
  then have "tags s1 = tags s" using tags_cooldown [of "ev_redisUp env" now u "ob_key row" e s] by simp
  then show ?thesis
    by (simp add: decideDelivery_def c tag_simps split: cap_verdict.split)
qed

lemma tags_decideRow [tag_simps]: "tags (fst (decideRow cat env now row s)) = tags s"
  by (simp add: decideRow_def decideForAddress_def decideForUser_def Let_def tag_simps split: option.split)

lemma tags_decide [tag_simps]: "tags (fst (decideDispatch cat env now i s)) = tags s"
proof -
  obtain t won where c: "claimOutbox now i (cm_outbox s) = (t, won)" by (meson surj_pair)
  then have "tags (s\<lparr>cm_outbox := t\<rparr>) = tags s" using tags_claim [of now i s] by simp
  then show ?thesis
    by (simp add: decideDispatch_def c Let_def tag_simps split: bool.split option.split)
qed

lemma tags_finish [tag_simps]: "tags (fst (finishSend up now a p res s)) = tags s"
  by (simp add: finishSend_def recordSent_def handleSendFailure_def deferForProviderQuota_def Let_def tag_simps
        split: send_result.split option.split)

lemma tags_scrubSettled [tag_simps]: "tags (scrubSettledRows cat rows s) = tags s"
  unfolding scrubSettledRows_def
  by (induction rows arbitrary: s) (simp_all add: tag_simps split: option.split)

lemma tags_planDigestFor [tag_simps]: "tags (fst (planDigestFor cat env now d digest s)) = tags s"
  by (simp add: planDigestFor_def settleAsInAppOnly_def Let_def tag_simps split: option.split)

lemma tags_planDigest [tag_simps]: "tags (fst (planDigest cat env now d s)) = tags s"
  by (simp add: planDigest_def Let_def tag_simps split: prod.split bool.split option.split)

lemma tags_finishDigest [tag_simps]: "tags (finishDigest cat up now p acc s) = tags s"
  by (simp add: finishDigest_def Let_def tag_simps)

lemma tags_forget [tag_simps]: "tags (forgetEntity cat u k x s) = tags s"
proof (cases "cat k")
  case (Some e)
  show ?thesis
    by (rule tags_map [where f = "\<lambda>r. if ob_key r = k \<and> ob_entity r = x
          then r\<lparr>ob_values := map_option (withoutKeys (settleScrubKeys e)) (ob_values r),
                 ob_state := (if waiting r then ob_suppressed else ob_state r),
                 ob_lastError := (if waiting r then Some ''source_deleted'' else ob_lastError r)\<rparr> else r"])
      (simp_all add: forgetEntity_def Some Let_def)
qed (simp add: forgetEntity_def)

subsection \<open>The rows of one campaign over a step\<close>

definition campaignTags :: "uid \<Rightarrow> comm_state \<Rightarrow> (uid option \<times> uid option) list" where
  "campaignTags c s = filter (\<lambda>t. fst t = Some c) (tags s)"

lemma campaignTags_rows: "campaignTags c s = map tag (campaignRows c s)"
  by (simp add: campaignTags_def tags_def campaignRows_def filter_map o_def tag_def)

lemma length_campaignRows: "length (campaignRows c s) = length (campaignTags c s)"
  by (simp add: campaignTags_rows)

lemma campaignTags_insert:
  "campaignTags c (insertOutbox r s) =
     campaignTags c s @ (if ob_campaignId r = Some c then [tag r] else [])"
  by (simp add: campaignTags_def tags_def insertOutbox_def tag_def)

lemma campaignTags_eq: "tags s' = tags s \<Longrightarrow> campaignTags c s' = campaignTags c s"
  by (simp add: campaignTags_def)

lemma campaignTags_emit: "campaignTags c (fst (emitEvent cat up now inp s)) = campaignTags c s"
proof -
  have n: "campaignTags c (s\<lparr>cm_notifications := x\<rparr>) = campaignTags c s" for x
    by (rule campaignTags_eq) (simp add: tag_simps)
  show ?thesis
    by (simp add: emitEvent_def Let_def campaignTags_insert pendingRow_def n split: option.split)
qed

lemma campaignTags_emit_address:
  "emitToAddress cat now k a x v s = Some (s', i) \<Longrightarrow> campaignTags c s' = campaignTags c s"
  by (auto simp: emitToAddress_def campaignTags_insert pendingRow_def split: option.splits if_splits)

definition prunes :: "comm_step \<Rightarrow> bool" where
  "prunes st \<longleftrightarrow> (case st of Prune _ \<Rightarrow> True | _ \<Rightarrow> False)"

lemma tags_beginDispatch: "tags (fst (beginDispatch cat env now i s)) = tags s"
  by (simp add: beginDispatch_def tag_simps)

lemma campaignTags_step:
  assumes "\<not> prunes st"
  shows "campaignTags c (cw_state (commStep cat st w)) = campaignTags c (cw_state w)"
proof (cases st)
  case (Begin env now i)
  obtain s' pl where b: "beginDispatch cat env now i (cw_state w) = (s', pl)" by (meson surj_pair)
  then have "campaignTags c s' = campaignTags c (cw_state w)"
    using campaignTags_eq [OF tags_beginDispatch, of c cat env now i "cw_state w"] by simp
  then show ?thesis by (cases pl) (simp_all add: Begin b)
next
  case (BeginDigest env now d)
  obtain s' pl where b: "planDigest cat env now d (cw_state w) = (s', pl)" by (meson surj_pair)
  then have "campaignTags c s' = campaignTags c (cw_state w)"
    using campaignTags_eq [OF tags_planDigest, of c cat env now d "cw_state w"] by simp
  then show ?thesis by (cases pl) (simp_all add: BeginDigest b)
next
  case (EmitToAddress now k a x v)
  then show ?thesis by (auto split: option.split dest: campaignTags_emit_address)
next
  case (Emit up now inp)
  then show ?thesis by (simp add: campaignTags_emit)
next
  case (Prune now)
  then show ?thesis using assms by (simp add: prunes_def)
next
  case (Forget u k x)
  then show ?thesis using campaignTags_eq [OF tags_forget] by simp
next
  case (Finish up now a n res)
  then show ?thesis using campaignTags_eq [OF tags_finish] by simp
next
  case (FinishDigest up now n acc)
  then show ?thesis using campaignTags_eq [OF tags_finishDigest] by simp
qed simp_all

text \<open>Retention only removes rows.\<close>

lemma length_filter_map_filter: "length (filter q (map t (filter p xs))) \<le> length (filter q (map t xs))"
  by (induction xs) auto

lemma campaignTags_prune: "length (campaignTags c (prune cat now s)) \<le> length (campaignTags c s)"
proof -
  have scrub: "tags (scrubLeftoverCredentials cat now t) = tags t" for t
    by (auto simp: tags_def scrubLeftoverCredentials_def Let_def split: option.split)
  have "tags (pruneRows now s) =
      map tag (filter (\<lambda>r. \<not> ob_createdAt r < now - COMMUNICATION_RETENTION_DAYS * 24 * 60 * 60 * 1000)
        (cm_outbox s))"
    by (simp add: tags_def pruneRows_def Let_def)
  then show ?thesis
    unfolding prune_def campaignTags_def scrub by (simp only: tags_def length_filter_map_filter)
qed

lemma campaignTags_any_step:
  "length (campaignTags c (cw_state (commStep cat st w))) \<le> length (campaignTags c (cw_state w))"
proof (cases st)
  case (Prune now)
  then show ?thesis by (simp add: campaignTags_prune)
qed (simp_all add: campaignTags_step prunes_def del: commStep.simps)

end
