(* ===== verification/Campaign_Books.thy ===== *)
theory Campaign_Books
  imports Campaign_Frames
begin

text \<open>
  The invariant of campaigns over any history: what a campaign's counters, its recipients, its
  outbox rows and its quota movements say of each other.
\<close>

subsection \<open>Sums by message\<close>

lemma sum_list_by_key:
  fixes f :: "'a \<Rightarrow> 'b::comm_monoid_add"
  shows "sum_list (map f xs) = (\<Sum>k\<in>key ` set xs. sum_list (map f (filter (\<lambda>x. key x = k) xs)))"
proof (induction xs)
  case (Cons x xs)
  let ?g = "\<lambda>xs k. sum_list (map f (filter (\<lambda>x. key x = k) xs))"
  have split: "?g (x # xs) k = (if k = key x then f x else 0) + ?g xs k" for k by auto
  have "(\<Sum>k\<in>key ` set (x # xs). ?g (x # xs) k) =
      (\<Sum>k\<in>insert (key x) (key ` set xs). (if k = key x then f x else 0)) + (\<Sum>k\<in>insert (key x) (key ` set xs). ?g xs k)"
    by (simp add: split sum.distrib del: filter.simps)
  also have "(\<Sum>k\<in>insert (key x) (key ` set xs). (if k = key x then f x else 0)) = f x" by (simp add: sum.delta)
  also have "(\<Sum>k\<in>insert (key x) (key ` set xs). ?g xs k) = (\<Sum>k\<in>key ` set xs. ?g xs k)"
  proof (rule sum.mono_neutral_right)
    show "\<forall>i\<in>insert (key x) (key ` set xs) - key ` set xs. ?g xs i = 0"
      by (auto simp: image_iff filter_empty_conv) (metis (mono_tags, lifting) filter_False list.simps(8) sum_list.Nil)
  qed auto
  finally show ?case using Cons by simp
qed simp

definition movesOf :: "quota_state \<Rightarrow> uid \<Rightarrow> usage_movement list" where
  "movesOf q c = filter (\<lambda>m. um_messageId m = c) (qt_ledger q)"

definition messageBalance :: "usage_movement list \<Rightarrow> int" where
  "messageBalance ms = sum_list (map signedQuantity ms)"

definition movedBy :: "ledger_kind \<Rightarrow> usage_movement list \<Rightarrow> int" where
  "movedBy kind ms = (case find_by um_kind kind ms of None \<Rightarrow> 0 | Some m \<Rightarrow> um_quantity m)"

lemma movedBy_Cons: "movedBy kind (m # ms) = (if um_kind m = kind then um_quantity m else movedBy kind ms)"
  by (simp add: movedBy_def)

lemma movedBy_0: "kind \<notin> um_kind ` set ms \<Longrightarrow> movedBy kind ms = 0"
  unfolding movedBy_def by (metis find_by_None option.simps(4))

lemma messageBalance_kinds:
  "distinct (map um_kind ms) \<Longrightarrow>
     messageBalance ms = movedBy lk_charge ms - movedBy lk_release ms - movedBy lk_refund ms"
proof (induction ms)
  case (Cons m ms)
  then have "movedBy (um_kind m) ms = 0" by (simp add: movedBy_0)
  with Cons show ?case
    by (cases "um_kind m") (simp_all add: messageBalance_def movedBy_Cons signedQuantity_def)
qed (simp add: messageBalance_def movedBy_def)

lemma movedBy_mem:
  assumes "distinct (map um_kind ms)" "m \<in> set ms"
  shows "movedBy (um_kind m) ms = um_quantity m"
  using find_by_distinct [OF assms] by (simp add: movedBy_def)

lemma distinct_kinds:
  assumes "books_ok q"
  shows "distinct (map um_kind (movesOf q c))"
proof -
  have "inj_on movementKey (set (qt_ledger q))" "distinct (qt_ledger q)"
    using assms by (auto simp: books_ok_def distinct_map)
  then show ?thesis
    by (auto simp: movesOf_def distinct_map inj_on_def movementKey_def)
qed

lemma period_covers_message:
  assumes "\<And>c. 0 \<le> messageBalance (movesOf q c)"
    and one: "\<And>m m'. m \<in> set (qt_ledger q) \<Longrightarrow> m' \<in> set (qt_ledger q) \<Longrightarrow> um_messageId m = um_messageId m'
               \<Longrightarrow> movementPeriod m = movementPeriod m'"
    and c: "\<And>m. m \<in> set (movesOf q c) \<Longrightarrow> movementPeriod m = k"
  shows "messageBalance (movesOf q c) \<le> balanceIn q k"
proof -
  define L where "L = filter (\<lambda>m. movementPeriod m = k) (qt_ledger q)"
  define g where "g m = sum_list (map signedQuantity (filter (\<lambda>x. um_messageId x = m) L))" for m
  have sum: "balanceIn q k = (\<Sum>m\<in>um_messageId ` set L. g m)"
    unfolding balanceIn_def L_def g_def by (rule sum_list_by_key)
  have same: "filter (\<lambda>x. um_messageId x = m) L = movesOf q m" if "m \<in> um_messageId ` set L" for m
  proof -
    have "movementPeriod x = k" if "x \<in> set (qt_ledger q)" "um_messageId x = m" for x
    proof -
      obtain y where y: "y \<in> set L" "m = um_messageId y" using \<open>m \<in> um_messageId ` set L\<close> by blast
      then have "y \<in> set (qt_ledger q)" "movementPeriod y = k" by (simp_all add: L_def)
      with one [OF that(1) this(1)] that(2) y(2) show ?thesis by simp
    qed
    then show ?thesis unfolding L_def movesOf_def filter_filter by (intro filter_cong) auto
  qed
  have g: "g m = messageBalance (movesOf q m)" if "m \<in> um_messageId ` set L" for m
    using same [OF that] by (simp add: g_def messageBalance_def)
  show ?thesis
  proof (cases "c \<in> um_messageId ` set L")
    case True
    have "g c \<le> (\<Sum>m\<in>um_messageId ` set L. g m)"
      by (rule member_le_sum) (use True g assms(1) in auto)
    then show ?thesis using True g sum by simp
  next
    case False
    then have "movesOf q c = []" using c by (auto simp: movesOf_def L_def filter_empty_conv)
    moreover have "0 \<le> (\<Sum>m\<in>um_messageId ` set L. g m)" by (rule sum_nonneg) (use g assms(1) in auto)
    ultimately show ?thesis using sum by (simp add: messageBalance_def)
  qed
qed

subsection \<open>The invariant\<close>

definition rowsOf :: "uid \<Rightarrow> recipient_row list \<Rightarrow> recipient_row list" where
  "rowsOf c t = filter (\<lambda>r. rc_campaignId r = c) t"

definition counters_ok :: "recipient_row list \<Rightarrow> campaign \<Rightarrow> bool" where
  "counters_ok rs g \<longleftrightarrow>
     cg_expandedCount g = int (length rs)
     \<and> cg_excludedOptedOut g = int (excludedFor ex_opted_out rs)
     \<and> cg_excludedSuppressed g = int (excludedFor ex_suppressed rs)
     \<and> cg_excludedQuota g = int (excludedFor ex_quota rs)
     \<and> cg_emailReleasedCount g = int (count_rows (\<lambda>r. rc_released r \<and> getsEmail g r) rs)
     \<and> cg_inAppReleasedCount g = (if cg_chInApp g then int (count_rows rc_released rs) else 0)"

definition progress_ok :: "recipient_row list \<Rightarrow> nat \<Rightarrow> campaign \<Rightarrow> bool" where
  "progress_ok rs n g \<longleftrightarrow>
     cg_status g \<in> {cs_queued, cs_expanding, cs_sending, cs_completed}
     \<and> (\<forall>r\<in>set rs. rc_emailEligible r \<longleftrightarrow> cg_chEmail g \<and> rc_exclusion r = None)
     \<and> (cg_status g = cs_queued \<longrightarrow> rs = [] \<and> cg_expansionCursor g = None)
     \<and> (stillExpanding (cg_status g) \<longrightarrow> (\<forall>r\<in>set rs. \<not> rc_released r))
     \<and> (cg_status g = cs_completed \<longrightarrow> (\<forall>r\<in>set rs. rc_released r))
     \<and> int n \<le> cg_emailReleasedCount g"

definition quota_ok :: "recipient_row list \<Rightarrow> usage_movement list \<Rightarrow> campaign \<Rightarrow> bool" where
  "quota_ok rs ms g \<longleftrightarrow>
     0 \<le> cg_quotaReserved g
     \<and> (quotaOf g = None \<longleftrightarrow> targetScope (cg_target g) = scope_platform)
     \<and> (quotaOf g \<noteq> None \<longrightarrow> int (count_rows rc_emailEligible rs) \<le> cg_quotaReserved g)
     \<and> (\<forall>m\<in>set ms. quotaOf g = Some (movementPeriod m) \<and> 0 < um_quantity m
          \<and> (um_kind m = lk_charge \<longrightarrow> um_quantity m = cg_quotaReserved g)
          \<and> (um_kind m = lk_release \<longrightarrow> \<not> stillExpanding (cg_status g) \<and> (\<forall>r\<in>set rs. rc_released r)
                \<and> um_quantity m = cg_quotaReserved g - cg_emailReleasedCount g)
          \<and> (um_kind m = lk_refund \<longrightarrow> cg_status g = cs_completed \<and> um_quantity m \<le> cg_emailReleasedCount g))
     \<and> (quotaOf g \<noteq> None \<and> 0 < cg_quotaReserved g \<longrightarrow> lk_charge \<in> um_kind ` set ms)
     \<and> (quotaOf g \<noteq> None \<and> cg_status g = cs_completed \<and> cg_emailReleasedCount g < cg_quotaReserved g
          \<longrightarrow> lk_release \<in> um_kind ` set ms)"

definition campaign_ok :: "recipient_row list \<Rightarrow> nat \<Rightarrow> usage_movement list \<Rightarrow> campaign \<Rightarrow> bool" where
  "campaign_ok rs n ms g \<longleftrightarrow> counters_ok rs g \<and> progress_ok rs n g \<and> quota_ok rs ms g"

definition requestKey :: "campaign \<Rightarrow> string \<times> string" where
  "requestKey g = (cg_idempotencyScope g, cg_idempotencyKey g)"

definition viewOf :: "campaign_world \<Rightarrow> uid \<Rightarrow> recipient_row list \<times> nat \<times> usage_movement list" where
  "viewOf w c = (rowsOf c (pw_recipients w), length (campaignTags c (cw_state (pw_comm w))), movesOf (pw_quota w) c)"

definition view_ok :: "campaign_world \<Rightarrow> campaign \<Rightarrow> bool" where
  "view_ok w g = (case viewOf w (cg_id g) of (rs, n, ms) \<Rightarrow> campaign_ok rs n ms g)"

definition campaigns_ok :: "campaign_world \<Rightarrow> bool" where
  "campaigns_ok w \<longleftrightarrow>
     distinct (map cg_id (pw_campaigns w)) \<and> distinct (map requestKey (pw_campaigns w))
     \<and> distinct (map recipientKey (pw_recipients w)) \<and> books_ok (pw_quota w)
     \<and> (\<forall>c. c \<notin> cg_id ` set (pw_campaigns w) \<longrightarrow> viewOf w c = ([], 0, []))
     \<and> (\<forall>g\<in>set (pw_campaigns w). view_ok w g)"

lemma campaign_ok_fewer: "campaign_ok rs n ms g \<Longrightarrow> n' \<le> n \<Longrightarrow> campaign_ok rs n' ms g"
  by (auto simp: campaign_ok_def progress_ok_def)

lemma campaigns_ok_view: "campaigns_ok w \<Longrightarrow> g \<in> set (pw_campaigns w) \<Longrightarrow> view_ok w g"
  by (simp add: campaigns_ok_def)

lemma findCampaign_mem: "findCampaign w c = Some g \<Longrightarrow> g \<in> set (pw_campaigns w) \<and> cg_id g = c"
  by (auto simp: findCampaign_def dest: find_by_Some)

text \<open>What one step may do to the campaign \<open>c\<close> while it leaves every other one alone.\<close>

lemma campaigns_ok_update:
  assumes ok: "campaigns_ok w"
    and cs: "pw_campaigns w' = map (\<lambda>g. if cg_id g = c then f g else g) (pw_campaigns w)"
    and f: "\<And>g. cg_id (f g) = cg_id g" "\<And>g. requestKey (f g) = requestKey g"
    and known: "c \<in> cg_id ` set (pw_campaigns w)"
    and table: "distinct (map recipientKey (pw_recipients w'))" "books_ok (pw_quota w')"
    and others: "\<And>d. d \<noteq> c \<Longrightarrow> viewOf w' d = viewOf w d"
    and this_one: "\<And>g. g \<in> set (pw_campaigns w) \<Longrightarrow> cg_id g = c \<Longrightarrow> view_ok w' (f g)"
  shows "campaigns_ok w'"
proof -
  have keys: "map cg_id (pw_campaigns w') = map cg_id (pw_campaigns w)"
    "map requestKey (pw_campaigns w') = map requestKey (pw_campaigns w)"
    by (simp_all add: cs f)
  then have ids: "cg_id ` set (pw_campaigns w') = cg_id ` set (pw_campaigns w)"
    by (metis list.set_map)
  have "viewOf w' d = ([], 0, [])" if "d \<notin> cg_id ` set (pw_campaigns w')" for d
    using that ok known others [of d] unfolding ids campaigns_ok_def by metis
  moreover have "view_ok w' g" if g: "g \<in> set (pw_campaigns w')" for g
  proof -
    obtain g0 where g0: "g0 \<in> set (pw_campaigns w)" "g = (if cg_id g0 = c then f g0 else g0)"
      using g unfolding cs set_map by blast
    then show ?thesis
      using this_one ok others by (cases "cg_id g0 = c") (auto simp: campaigns_ok_def view_ok_def)
  qed
  ultimately show ?thesis using ok table keys by (simp add: campaigns_ok_def)
qed

lemma campaigns_ok_frame:
  assumes "campaigns_ok w" "pw_campaigns w' = pw_campaigns w" "pw_recipients w' = pw_recipients w"
    and "pw_quota w' = pw_quota w"
    and fewer: "\<And>c. length (campaignTags c (cw_state (pw_comm w'))) \<le> length (campaignTags c (cw_state (pw_comm w)))"
  shows "campaigns_ok w'"
proof -
  have "viewOf w' c = ([], 0, [])" if "viewOf w c = ([], 0, [])" for c
    using that fewer [of c] assms(3,4) by (simp add: viewOf_def)
  moreover have "view_ok w' g" if "view_ok w g" for g
    using that campaign_ok_fewer [OF _ fewer] assms(3,4) by (simp add: view_ok_def viewOf_def)
  ultimately show ?thesis using assms(1-4) by (simp add: campaigns_ok_def)
qed

subsection \<open>Balances are never negative\<close>

lemma count_rows_mono: "(\<And>x. x \<in> set xs \<Longrightarrow> p x \<Longrightarrow> q x) \<Longrightarrow> count_rows p xs \<le> count_rows q xs"
  unfolding count_rows_def by (induction xs) auto

text \<open>What the quota part says of one movement.\<close>

lemma quota_okD:
  assumes "quota_ok rs ms g"
  shows "0 \<le> cg_quotaReserved g"
    and "m \<in> set ms \<Longrightarrow> quotaOf g = Some (movementPeriod m)"
    and "m \<in> set ms \<Longrightarrow> 0 < um_quantity m"
    and "m \<in> set ms \<Longrightarrow> um_kind m = lk_charge \<Longrightarrow> um_quantity m = cg_quotaReserved g"
    and "m \<in> set ms \<Longrightarrow> um_kind m = lk_release \<Longrightarrow> um_quantity m = cg_quotaReserved g - cg_emailReleasedCount g"
    and "m \<in> set ms \<Longrightarrow> um_kind m = lk_release \<Longrightarrow> \<not> stillExpanding (cg_status g) \<and> (\<forall>r\<in>set rs. rc_released r)"
    and "m \<in> set ms \<Longrightarrow> um_kind m = lk_refund \<Longrightarrow> cg_status g = cs_completed \<and> um_quantity m \<le> cg_emailReleasedCount g"
    and "quotaOf g \<noteq> None \<Longrightarrow> int (count_rows rc_emailEligible rs) \<le> cg_quotaReserved g"
    and "quotaOf g \<noteq> None \<Longrightarrow> 0 < cg_quotaReserved g \<Longrightarrow> lk_charge \<in> um_kind ` set ms"
    and "quotaOf g \<noteq> None \<Longrightarrow> cg_status g = cs_completed \<Longrightarrow> cg_emailReleasedCount g < cg_quotaReserved g
           \<Longrightarrow> lk_release \<in> um_kind ` set ms"
    and "quotaOf g = None \<longleftrightarrow> targetScope (cg_target g) = scope_platform"
  using assms unfolding quota_ok_def by blast+

lemma quota_okI:
  assumes "0 \<le> cg_quotaReserved g" "quotaOf g = None \<longleftrightarrow> targetScope (cg_target g) = scope_platform"
    and "quotaOf g \<noteq> None \<Longrightarrow> int (count_rows rc_emailEligible rs) \<le> cg_quotaReserved g"
    and "\<And>m. m \<in> set ms \<Longrightarrow> quotaOf g = Some (movementPeriod m) \<and> 0 < um_quantity m"
    and "\<And>m. m \<in> set ms \<Longrightarrow> um_kind m = lk_charge \<Longrightarrow> um_quantity m = cg_quotaReserved g"
    and "\<And>m. m \<in> set ms \<Longrightarrow> um_kind m = lk_release \<Longrightarrow> \<not> stillExpanding (cg_status g) \<and> (\<forall>r\<in>set rs. rc_released r)
                \<and> um_quantity m = cg_quotaReserved g - cg_emailReleasedCount g"
    and "\<And>m. m \<in> set ms \<Longrightarrow> um_kind m = lk_refund \<Longrightarrow> cg_status g = cs_completed \<and> um_quantity m \<le> cg_emailReleasedCount g"
    and "quotaOf g \<noteq> None \<Longrightarrow> 0 < cg_quotaReserved g \<Longrightarrow> lk_charge \<in> um_kind ` set ms"
    and "quotaOf g \<noteq> None \<Longrightarrow> cg_status g = cs_completed \<Longrightarrow> cg_emailReleasedCount g < cg_quotaReserved g
           \<Longrightarrow> lk_release \<in> um_kind ` set ms"
  shows "quota_ok rs ms g"
  using assms unfolding quota_ok_def by blast

lemma released_within:
  assumes "counters_ok rs g" "quota_ok rs ms g" "quotaOf g \<noteq> None"
  shows "cg_emailReleasedCount g \<le> cg_quotaReserved g"
proof -
  have "count_rows (\<lambda>r. rc_released r \<and> getsEmail g r) rs \<le> count_rows rc_emailEligible rs"
    by (rule count_rows_mono) (simp add: getsEmail_def)
  then show ?thesis using assms(1) quota_okD(8) [OF assms(2,3)] by (simp add: counters_ok_def)
qed

lemma movedBy_quota:
  assumes "quota_ok rs ms g"
  shows "movedBy lk_charge ms = 0 \<or> movedBy lk_charge ms = cg_quotaReserved g"
    and "0 \<le> movedBy kind ms"
    and "movedBy lk_release ms = 0 \<or> movedBy lk_release ms = cg_quotaReserved g - cg_emailReleasedCount g"
    and "lk_refund \<in> um_kind ` set ms \<Longrightarrow> cg_status g = cs_completed \<and> movedBy lk_refund ms \<le> cg_emailReleasedCount g"
proof -
  note q = quota_okD [OF assms]
  have find: "\<exists>m\<in>set ms. um_kind m = kind \<and> movedBy kind ms = um_quantity m" if k: "kind \<in> um_kind ` set ms" for kind
  proof -
    have "find_by um_kind kind ms \<noteq> None" using k by simp
    then obtain m where "find_by um_kind kind ms = Some m" by blast
    then show ?thesis by (auto simp: movedBy_def dest: find_by_Some)
  qed
  show "movedBy lk_charge ms = 0 \<or> movedBy lk_charge ms = cg_quotaReserved g"
    using find [of lk_charge] q(4) movedBy_0 by metis
  show "0 \<le> movedBy kind ms"
    using find [of kind] q(3) movedBy_0 [of kind ms] by (metis order_less_imp_le order_refl)
  show "movedBy lk_release ms = 0 \<or> movedBy lk_release ms = cg_quotaReserved g - cg_emailReleasedCount g"
    using find [of lk_release] q(5) movedBy_0 by metis
  show "cg_status g = cs_completed \<and> movedBy lk_refund ms \<le> cg_emailReleasedCount g"
    if "lk_refund \<in> um_kind ` set ms"
    using find [OF that] q(7) by metis
qed

lemma movedBy_made:
  assumes "quota_ok rs ms g" "distinct (map um_kind ms)" "quotaOf g \<noteq> None"
  shows "movedBy lk_charge ms = cg_quotaReserved g"
    and "cg_status g = cs_completed \<Longrightarrow> cg_emailReleasedCount g \<le> cg_quotaReserved g \<Longrightarrow>
           movedBy lk_release ms = cg_quotaReserved g - cg_emailReleasedCount g"
proof -
  have made: "movedBy kind ms = n" if "kind \<in> um_kind ` set ms" "\<And>m. m \<in> set ms \<Longrightarrow> um_kind m = kind \<Longrightarrow> um_quantity m = n"
    for kind n
    using that movedBy_mem [OF assms(2)] by auto
  note q = quota_okD [OF assms(1)]
  show "movedBy lk_charge ms = cg_quotaReserved g"
  proof (cases "lk_charge \<in> um_kind ` set ms")
    case True
    then show ?thesis using made q(4) by blast
  next
    case False
    then have "\<not> 0 < cg_quotaReserved g" "0 \<le> cg_quotaReserved g"
      using q(1) q(9) [OF assms(3)] by blast+
    then show ?thesis using False by (simp add: movedBy_0)
  qed
  show "movedBy lk_release ms = cg_quotaReserved g - cg_emailReleasedCount g"
    if "cg_status g = cs_completed" "cg_emailReleasedCount g \<le> cg_quotaReserved g"
  proof (cases "lk_release \<in> um_kind ` set ms")
    case True
    then show ?thesis using made q(5) by blast
  next
    case False
    then have "\<not> cg_emailReleasedCount g < cg_quotaReserved g"
      using q(10) [OF assms(3) that(1)] by blast
    then show ?thesis using that False by (simp add: movedBy_0)
  qed
qed

lemma balance_nonneg:
  assumes "counters_ok rs g" "quota_ok rs ms g" "distinct (map um_kind ms)"
  shows "0 \<le> messageBalance ms"
proof (cases "quotaOf g")
  case None
  then have "ms = []" using quota_okD(2) [OF assms(2)] by (cases ms) auto
  then show ?thesis by (simp add: messageBalance_def)
next
  case (Some k)
  note within = released_within [OF assms(1,2)]
  have er: "0 \<le> cg_emailReleasedCount g" using assms(1) by (simp add: counters_ok_def)
  show ?thesis
  proof (cases "lk_refund \<in> um_kind ` set ms")
    case True
    then show ?thesis
      using messageBalance_kinds [OF assms(3)] movedBy_made [OF assms(2,3)] Some within
        movedBy_quota(4) [OF assms(2)] by simp
  next
    case False
    then show ?thesis
      using messageBalance_kinds [OF assms(3)] movedBy_made(1) [OF assms(2,3)] Some within er
        movedBy_quota(3) [OF assms(2)] movedBy_0 [OF False] by auto
  qed
qed

lemma balances_ok:
  assumes "campaigns_ok w"
  shows "0 \<le> messageBalance (movesOf (pw_quota w) c)"
proof (cases "c \<in> cg_id ` set (pw_campaigns w)")
  case True
  then obtain g where g: "g \<in> set (pw_campaigns w)" "cg_id g = c" by blast
  have "distinct (map um_kind (movesOf (pw_quota w) c))" using assms distinct_kinds by (simp add: campaigns_ok_def)
  then show ?thesis
    using campaigns_ok_view [OF assms g(1)] g(2)
    by (auto simp: view_ok_def viewOf_def campaign_ok_def intro: balance_nonneg)
next
  case False
  then have "movesOf (pw_quota w) c = []" using assms by (auto simp: campaigns_ok_def viewOf_def)
  then show ?thesis by (simp add: messageBalance_def)
qed

lemma ledger_campaign:
  assumes "campaigns_ok w" "m \<in> set (qt_ledger (pw_quota w))"
  obtains g where "g \<in> set (pw_campaigns w)" "cg_id g = um_messageId m" "quotaOf g = Some (movementPeriod m)"
proof -
  have m: "m \<in> set (movesOf (pw_quota w) (um_messageId m))" using assms(2) by (simp add: movesOf_def)
  then have "um_messageId m \<in> cg_id ` set (pw_campaigns w)"
    using assms(1) by (force simp: campaigns_ok_def viewOf_def)
  then obtain g where g: "g \<in> set (pw_campaigns w)" "cg_id g = um_messageId m" by force
  then have "quotaOf g = Some (movementPeriod m)"
    using campaigns_ok_view [OF assms(1) g(1)] m
    by (simp add: view_ok_def viewOf_def campaign_ok_def quota_ok_def)
  then show thesis using g that by blast
qed

text \<open>What a campaign still holds is in the counter of its period: \<open>GREATEST\<close> never cuts.\<close>

lemma used_covers:
  assumes ok: "campaigns_ok w" and g: "g \<in> set (pw_campaigns w)" "quotaOf g = Some k"
  shows "messageBalance (movesOf (pw_quota w) (cg_id g)) \<le> usedIn (pw_quota w) k"
proof -
  have d: "distinct (map cg_id (pw_campaigns w))" using ok by (simp add: campaigns_ok_def)
  have "messageBalance (movesOf (pw_quota w) (cg_id g)) \<le> balanceIn (pw_quota w) k"
  proof (rule period_covers_message)
    fix m m' assume m: "m \<in> set (qt_ledger (pw_quota w))" "m' \<in> set (qt_ledger (pw_quota w))"
      "um_messageId m = um_messageId m'"
    from m(1) obtain g1 where g1: "g1 \<in> set (pw_campaigns w)" "cg_id g1 = um_messageId m"
      "quotaOf g1 = Some (movementPeriod m)" by (rule ledger_campaign [OF ok])
    from m(2) obtain g2 where g2: "g2 \<in> set (pw_campaigns w)" "cg_id g2 = um_messageId m'"
      "quotaOf g2 = Some (movementPeriod m')" by (rule ledger_campaign [OF ok])
    have "g1 = g2" using d g1 g2 m(3) distinct_keys_unique by metis
    then show "movementPeriod m = movementPeriod m'" using g1 g2 by simp
  next
    fix m assume "m \<in> set (movesOf (pw_quota w) (cg_id g))"
    then show "movementPeriod m = k"
      using campaigns_ok_view [OF ok g(1)] g(2)
      by (simp add: view_ok_def viewOf_def campaign_ok_def quota_ok_def)
  qed (rule balances_ok [OF ok])
  then show ?thesis using ok books_used by (simp add: campaigns_ok_def)
qed

end
