(* ===== verification/Campaign_Invariant.thy ===== *)
theory Campaign_Invariant
  imports Campaign_Books
begin

text \<open>
  Every transaction of the composer, of the worker and of the rest of communications keeps the
  invariant of campaigns.
\<close>

lemma campaign_ok_cong:
  assumes "cg_target g' = cg_target g" "cg_quotaPeriodStart g' = cg_quotaPeriodStart g"
    "cg_chEmail g' = cg_chEmail g" "cg_chInApp g' = cg_chInApp g" "cg_status g' = cg_status g"
    "cg_expandedCount g' = cg_expandedCount g" "cg_emailReleasedCount g' = cg_emailReleasedCount g"
    "cg_inAppReleasedCount g' = cg_inAppReleasedCount g" "cg_excludedOptedOut g' = cg_excludedOptedOut g"
    "cg_excludedSuppressed g' = cg_excludedSuppressed g" "cg_excludedQuota g' = cg_excludedQuota g"
    "cg_quotaReserved g' = cg_quotaReserved g" "cg_expansionCursor g' = cg_expansionCursor g"
  shows "campaign_ok rs n ms g' \<longleftrightarrow> campaign_ok rs n ms g"
  by (simp add: campaign_ok_def counters_ok_def progress_ok_def quota_ok_def quotaOf_def getsEmail_def assms)

lemma findCampaign_of:
  "campaigns_ok w \<Longrightarrow> g \<in> set (pw_campaigns w) \<Longrightarrow> findCampaign w (cg_id g) = Some g"
  unfolding findCampaign_def campaigns_ok_def by (blast intro: find_by_distinct)

lemma updateCampaign_frame [simp]:
  "pw_comm (updateCampaign c f w) = pw_comm w" "pw_quota (updateCampaign c f w) = pw_quota w"
  "pw_recipients (updateCampaign c f w) = pw_recipients w"
  "pw_accepted (updateCampaign c f w) = pw_accepted w" "pw_rates (updateCampaign c f w) = pw_rates w"
  "pw_campaigns (updateCampaign c f w) = map (\<lambda>g. if cg_id g = c then f g else g) (pw_campaigns w)"
  by (simp_all add: updateCampaign_def)

lemma viewOf_updateCampaign [simp]: "viewOf (updateCampaign c f w) = viewOf w"
  by (rule ext) (simp add: viewOf_def)

subsection \<open>Requests and communication\<close>

lemma beginSend_frame:
  "pw_comm (fst (beginSend sz up now i who inp w)) = pw_comm w"
  "pw_quota (fst (beginSend sz up now i who inp w)) = pw_quota w"
  "pw_campaigns (fst (beginSend sz up now i who inp w)) = pw_campaigns w"
  "pw_recipients (fst (beginSend sz up now i who inp w)) = pw_recipients w"
  by (simp_all add: beginSend_def rateLimit_def Let_def split: sum.split option.split prod.split)

lemma ok_begin: "campaigns_ok w \<Longrightarrow> campaigns_ok (fst (beginSend sz up now i who inp w))"
  by (erule campaigns_ok_frame) (simp_all add: beginSend_frame)

lemma ok_communication:
  "campaigns_ok w \<Longrightarrow> campaigns_ok (w\<lparr>pw_comm := commStep cat st (pw_comm w)\<rparr>)"
  by (erule campaigns_ok_frame) (simp_all add: campaignTags_any_step)

lemma ok_updateCampaign:
  assumes ok: "campaigns_ok w"
    and f: "\<And>g. cg_id (f g) = cg_id g" "\<And>g. requestKey (f g) = requestKey g"
    and new: "\<And>g. g \<in> set (pw_campaigns w) \<Longrightarrow> cg_id g = c \<Longrightarrow> view_ok w (f g)"
  shows "campaigns_ok (updateCampaign c f w)"
proof (cases "c \<in> cg_id ` set (pw_campaigns w)")
  case True
  have same: "view_ok (updateCampaign c f w) = view_ok w" by (rule ext) (simp add: view_ok_def)
  show ?thesis
  proof (rule campaigns_ok_update [where c = c and f = f, OF ok _ f True])
    show "distinct (map recipientKey (pw_recipients (updateCampaign c f w)))"
      "books_ok (pw_quota (updateCampaign c f w))"
      using ok by (simp_all add: campaigns_ok_def)
    show "view_ok (updateCampaign c f w) (f g)" if "g \<in> set (pw_campaigns w)" "cg_id g = c" for g
      using new [OF that] by (simp add: same)
  qed simp_all
next
  case False
  then have "updateCampaign c f w = w"
    by (auto simp: updateCampaign_def intro!: campaign_world.equality map_idI)
  then show ?thesis using ok by simp
qed

lemma ok_recordError: "campaigns_ok w \<Longrightarrow> campaigns_ok (recordError now c m w)"
  unfolding recordError_def
proof (rule ok_updateCampaign)
  fix g assume "campaigns_ok w" "g \<in> set (pw_campaigns w)"
  then have "view_ok w g" by (rule campaigns_ok_view)
  moreover have "campaign_ok rs n ms (g\<lparr>cg_lastError := Some (take 500 m), cg_updatedAt := now\<rparr>)
      \<longleftrightarrow> campaign_ok rs n ms g" for rs n ms
    by (rule campaign_ok_cong) simp_all
  ultimately show "view_ok w (g\<lparr>cg_lastError := Some (take 500 m), cg_updatedAt := now\<rparr>)"
    by (simp add: view_ok_def viewOf_def)
qed (simp_all add: requestKey_def)

subsection \<open>A send\<close>

lemma movesOf_append:
  "qt_ledger q' = qt_ledger q @ ms \<Longrightarrow> movesOf q' c = movesOf q c @ filter (\<lambda>m. um_messageId m = c) ms"
  by (simp add: movesOf_def)

lemma reserveFor_effect:
  assumes "books_ok q" "movesOf q (as_campaignId a) = []" "0 \<le> n"
    and r: "reserveFor env now a n q = Inr (q', p)"
    and t: "targetOf (as_sender a) aud = Some t"
  shows "books_ok q' \<and> (\<forall>d. d \<noteq> as_campaignId a \<longrightarrow> movesOf q' d = movesOf q d)
    \<and> (case t of
         ToPlatform _ \<Rightarrow> q' = q \<and> p = None
       | ToAcademy academy _ \<Rightarrow> p \<noteq> None \<and>
           (movesOf q' (as_campaignId a) = (if 0 < n
              then [\<lparr>um_academyId = academy, um_periodStart = the p, um_messageId = as_campaignId a,
                     um_kind = lk_charge, um_quantity = n\<rparr>] else [])))"
proof (cases "as_sender a")
  case (PlatformSender u)
  then show ?thesis using assms by (auto simp: reserveFor_def split: campaign_target.split elim: targetOf.elims)
next
  case (AcademySender u academy org rl)
  obtain view where v: "reserveQuota (limitFor org (sv_subscription env org)) academy (as_campaignId a) n now q = Inr (q', view)"
    "p = Some (qv_periodStart view)"
    using r by (auto simp: reserveFor_def AcademySender split: sum.splits)
  have fresh: "\<not> moved q (as_campaignId a) lk_charge"
    using assms(2) by (force simp: moved_def movementKey_def movesOf_def filter_empty_conv)
  obtain x where "t = ToAcademy academy x" using t by (auto simp: AcademySender elim: targetOf.elims)
  then show ?thesis
    using reserve_accepted [OF assms(1) fresh v(1)] assms(2) v(2)
    by (auto simp: movesOf_append)
qed

lemma ok_transaction:
  assumes ok: "campaigns_ok w" and s: "sendTransaction env now a w = Inr (w', reply)"
  shows "campaigns_ok w'"
proof -
  obtain t n q p where t: "targetOf (as_sender a) (si_audience (as_input a)) = Some t"
    and n: "n = countFor (sv_db env) t (as_input a)"
    and r: "reserveFor env now a (int (ca_emailCount n)) (pw_quota w) = Inr (q, p)"
    and free: "\<not> campaignTaken (newCampaign now a t n p) w"
    and w': "w' = w\<lparr>pw_quota := q, pw_campaigns := pw_campaigns w @ [newCampaign now a t n p]\<rparr>"
    using s by (auto simp: sendTransaction_def Let_def split: option.splits if_splits sum.splits)
  define g where "g = newCampaign now a t n p"
  have id: "cg_id g = as_campaignId a" by (simp add: g_def newCampaign_def Let_def)
  have fresh: "cg_id g \<notin> cg_id ` set (pw_campaigns w)" "requestKey g \<notin> requestKey ` set (pw_campaigns w)"
    using free unfolding g_def [symmetric] by (auto simp: campaignTaken_def list_ex_iff requestKey_def)
  have empty: "viewOf w (cg_id g) = ([], 0, [])" using ok fresh(1) by (simp add: campaigns_ok_def)
  have e: "books_ok q" "\<And>d. d \<noteq> cg_id g \<Longrightarrow> movesOf q d = movesOf (pw_quota w) d"
    "case t of ToPlatform _ \<Rightarrow> q = pw_quota w \<and> p = None
       | ToAcademy academy _ \<Rightarrow> p \<noteq> None \<and>
           (movesOf q (as_campaignId a) = (if 0 < int (ca_emailCount n)
              then [\<lparr>um_academyId = academy, um_periodStart = the p, um_messageId = as_campaignId a,
                     um_kind = lk_charge, um_quantity = int (ca_emailCount n)\<rparr>] else []))"
    using reserveFor_effect [OF _ _ _ r t] ok empty id by (auto simp: campaigns_ok_def viewOf_def)
  have view: "viewOf w' d = viewOf w d" if "d \<noteq> cg_id g" for d
    using e(2) [OF that] by (simp add: w' viewOf_def)
  have "campaign_ok [] 0 (movesOf q (cg_id g)) g"
    using e(3) empty
    by (auto simp: campaign_ok_def counters_ok_def progress_ok_def quota_ok_def excludedFor_def count_rows_def
          g_def newCampaign_def Let_def quotaOf_def stillExpanding_def movementPeriod_def viewOf_def
        split: campaign_target.splits option.splits)
  then have this_one: "view_ok w' g" using empty by (simp add: view_ok_def viewOf_def w')
  have "view_ok w' x" if "x \<in> set (pw_campaigns w)" for x
  proof -
    have "cg_id x \<noteq> cg_id g" using fresh(1) that by (metis imageI)
    then show ?thesis using campaigns_ok_view [OF ok that] view by (simp add: view_ok_def)
  qed
  moreover have "viewOf w' d = ([], 0, [])" if "d \<notin> cg_id ` set (pw_campaigns w')" for d
    using that view [of d] ok by (auto simp: w' g_def [symmetric] campaigns_ok_def)
  ultimately show ?thesis
    using ok fresh e(1) this_one by (simp add: campaigns_ok_def w' g_def [symmetric])
qed

lemma ok_commit:
  assumes "campaigns_ok w"
  shows "campaigns_ok (fst (commitSend env now n w))"
proof -
  have ok0: "campaigns_ok (removeAccepted n w)"
    by (rule campaigns_ok_frame [OF assms]) (simp_all add: removeAccepted_def)
  show ?thesis
    using assms ok0 ok_transaction [OF ok0]
    by (auto simp: commitSend_def Let_def split: sum.split send_refusal.split)
qed

subsection \<open>A page of the expansion\<close>

lemma decidePage_row:
  "r \<in> set (decidePage db t c e b us) \<Longrightarrow>
     rc_campaignId r = c \<and> \<not> rc_released r \<and> (rc_emailEligible r \<longleftrightarrow> e \<and> rc_exclusion r = None)"
  by (induction us arbitrary: b) (auto simp: Let_def split: if_splits)

lemma decidePage_users [simp]: "map rc_userId (decidePage db t c e b us) = map us_id us"
  by (induction us arbitrary: b) (auto simp: Let_def)

lemma decidePage_budget:
  "int (length (filter rc_emailEligible (decidePage db t c e (Some b) us))) \<le> max 0 b"
proof (induction us arbitrary: b)
  case (Cons u us)
  show ?case using Cons [of b] Cons [of "b - 1"] by (auto simp: Let_def)
qed simp

lemma eligible_count:
  assumes "\<forall>r\<in>set rs. rc_emailEligible r \<longleftrightarrow> rc_exclusion r = None"
  shows "int (count_rows rc_emailEligible rs) = int (length rs) - int (excludedFor ex_opted_out rs)
           - int (excludedFor ex_suppressed rs) - int (excludedFor ex_quota rs)"
  using assms
proof (induction rs)
  case (Cons r rs)
  then have "int (count_rows rc_emailEligible rs) = int (length rs) - int (excludedFor ex_opted_out rs)
           - int (excludedFor ex_suppressed rs) - int (excludedFor ex_quota rs)" by simp
  moreover have "rc_emailEligible r \<longleftrightarrow> rc_exclusion r = None" using Cons.prems by simp
  ultimately show ?case
  proof (cases "rc_exclusion r")
    case (Some x)
    then show ?thesis using \<open>rc_emailEligible r \<longleftrightarrow> rc_exclusion r = None\<close> Cons
      by (cases x) (simp_all add: count_rows_def excludedFor_def)
  qed (simp add: count_rows_def excludedFor_def)
qed (simp add: count_rows_def excludedFor_def)

text \<open>What a page adds is new to the table and stays within the budget.\<close>

lemma expandAudiencePage_appends:
  assumes "distinct (map recipientKey t)"
    and e: "expandAudiencePage db tg c cursor limit emailChannel budget t = (t', page)"
  shows "t' = t @ xp_written page \<and> distinct (map recipientKey t')
    \<and> (\<forall>r\<in>set (xp_written page). rc_campaignId r = c \<and> \<not> rc_released r
          \<and> (rc_emailEligible r \<longleftrightarrow> emailChannel \<and> rc_exclusion r = None))
    \<and> (\<forall>b. budget = Some b \<longrightarrow> int (count_rows rc_emailEligible (xp_written page)) \<le> max 0 b)"
proof (cases "pagePeople db tg cursor limit = []")
  case True
  then show ?thesis using assms by (auto simp: expandAudiencePage_def count_rows_def)
next
  case False
  define rows where "rows = decidePage db tg c emailChannel budget (pagePeople db tg cursor limit)"
  obtain ws where ws: "insertMissing recipientKey rows t = (t @ ws, ws)" "distinct (map recipientKey (t @ ws))"
    "set ws \<subseteq> set rows" "\<forall>p. length (filter p ws) \<le> length (filter p rows)"
    using insertMissing_appends [OF assms(1)] by blast
  have page: "t' = t @ ws" "xp_written page = ws"
    using e False ws(1) by (auto simp: expandAudiencePage_def Let_def rows_def)
  moreover have "int (count_rows rc_emailEligible ws) \<le> max 0 b" if "budget = Some b" for b
  proof -
    have "int (length (filter rc_emailEligible rows)) \<le> max 0 b"
      unfolding rows_def that by (rule decidePage_budget)
    then show ?thesis
      using ws(4) [rule_format, of rc_emailEligible] by (simp add: count_rows_def)
  qed
  ultimately show ?thesis using ws(2,3) decidePage_row unfolding rows_def by blast
qed

lemma count_rows_append: "count_rows p (xs @ ys) = count_rows p xs + count_rows p ys"
  by (simp add: count_rows_def)

lemma excludedFor_append: "excludedFor x (xs @ ys) = excludedFor x xs + excludedFor x ys"
  by (simp add: excludedFor_def count_rows_append)

lemma count_rows_none: "(\<And>r. r \<in> set rs \<Longrightarrow> \<not> p r) \<Longrightarrow> count_rows p rs = 0"
  by (simp add: count_rows_def filter_empty_conv)

definition expandedCampaign :: "instant \<Rightarrow> expanded_page \<Rightarrow> campaign \<Rightarrow> campaign" where
  "expandedCampaign now page g = g\<lparr>
     cg_status := (if xp_pageSize page < CAMPAIGN_BATCH_SIZE then cs_sending else cs_expanding),
     cg_expansionCursor := (case xp_lastUserId page of Some u \<Rightarrow> Some u | None \<Rightarrow> cg_expansionCursor g),
     cg_expandedCount := cg_expandedCount g + int (length (xp_written page)),
     cg_excludedOptedOut := cg_excludedOptedOut g + int (excludedFor ex_opted_out (xp_written page)),
     cg_excludedSuppressed := cg_excludedSuppressed g + int (excludedFor ex_suppressed (xp_written page)),
     cg_excludedQuota := cg_excludedQuota g + int (excludedFor ex_quota (xp_written page)),
     cg_startedAt := (case cg_startedAt g of Some x \<Rightarrow> Some x | None \<Rightarrow> Some now),
     cg_updatedAt := now\<rparr>"

lemma expandedCampaign_ok:
  assumes ok: "campaign_ok rs n ms g" and st: "stillExpanding (cg_status g)"
    and new: "\<forall>r\<in>set ws. \<not> rc_released r \<and> (rc_emailEligible r \<longleftrightarrow> cg_chEmail g \<and> rc_exclusion r = None)"
    and budget: "\<forall>b. emailBudget g = Some b \<longrightarrow> int (count_rows rc_emailEligible ws) \<le> max 0 b"
    and ws: "xp_written page = ws"
  shows "campaign_ok (rs @ ws) n ms (expandedCampaign now page g)"
proof -
  define g' where "g' = expandedCampaign now page g"
  have same: "quotaOf g' = quotaOf g" "cg_quotaReserved g' = cg_quotaReserved g" "cg_target g' = cg_target g"
    "cg_emailReleasedCount g' = cg_emailReleasedCount g" "cg_inAppReleasedCount g' = cg_inAppReleasedCount g"
    "cg_chEmail g' = cg_chEmail g" "cg_chInApp g' = cg_chInApp g"
    by (simp_all add: g'_def expandedCampaign_def quotaOf_def)
  have st': "cg_status g' = cs_sending \<or> cg_status g' = cs_expanding"
    by (simp add: g'_def expandedCampaign_def)
  have c: "counters_ok rs g" and p: "progress_ok rs n g" and q: "quota_ok rs ms g"
    using ok by (simp_all add: campaign_ok_def)
  have elig: "\<forall>r\<in>set rs. rc_emailEligible r \<longleftrightarrow> cg_chEmail g \<and> rc_exclusion r = None"
    and none: "\<forall>r\<in>set rs. \<not> rc_released r"
    using p st by (simp_all add: progress_ok_def)
  have "counters_ok (rs @ ws) g'"
    using c new none
    by (simp add: counters_ok_def g'_def expandedCampaign_def ws excludedFor_append count_rows_append
          count_rows_none getsEmail_def)
  moreover have "progress_ok (rs @ ws) n g'"
  proof -
    have er: "int n \<le> cg_emailReleasedCount g" using p by (simp add: progress_ok_def)
    have rows: "\<forall>r\<in>set (rs @ ws). \<not> rc_released r \<and> (rc_emailEligible r \<longleftrightarrow> cg_chEmail g \<and> rc_exclusion r = None)"
      using new elig none by auto
    show ?thesis using st' er rows unfolding progress_ok_def same by auto
  qed
  moreover have "quota_ok (rs @ ws) ms g'"
  proof -
    have "int (count_rows rc_emailEligible (rs @ ws)) \<le> cg_quotaReserved g" if k: "quotaOf g \<noteq> None"
    proof (cases "cg_chEmail g")
      case True
      have "targetScope (cg_target g) = scope_academy"
        using q k by (cases "targetScope (cg_target g)") (auto simp: quota_ok_def)
      then have "emailBudget g = Some (max 0 (cg_quotaReserved g - int (count_rows rc_emailEligible rs)))"
        using True elig c by (simp add: emailBudget_def counters_ok_def eligible_count)
      then show ?thesis using budget quota_okD(8) [OF q k] by (simp add: count_rows_append)
    next
      case False
      then have "count_rows rc_emailEligible (rs @ ws) = 0"
        using elig new by (simp add: count_rows_append count_rows_none)
      then show ?thesis using quota_okD(1) [OF q] by simp
    qed
    moreover have "um_kind m = lk_charge" if "m \<in> set ms" for m
      using quota_okD(6,7) [OF q that] st by (cases "um_kind m") (auto simp: stillExpanding_def)
    ultimately show ?thesis
      using st' quota_okD [OF q] by (intro quota_okI; simp only: same) auto
  qed
  ultimately show ?thesis by (simp add: campaign_ok_def g'_def)
qed

lemma rowsOf_append: "rowsOf c (t @ ws) = rowsOf c t @ rowsOf c ws"
  by (simp add: rowsOf_def)

lemma rowsOf_own: "\<forall>r\<in>set ws. rc_campaignId r = c \<Longrightarrow> rowsOf d ws = (if d = c then ws else [])"
  by (auto simp: rowsOf_def filter_id_conv filter_empty_conv)

lemma ok_expand:
  assumes ok: "campaigns_ok w"
  shows "campaigns_ok (fst (expandPage db now c w))"
proof (cases "\<exists>g. findCampaign w c = Some g \<and> stillExpanding (cg_status g)")
  case False
  then show ?thesis using ok by (auto simp: expandPage_def split: option.split)
next
  case True
  then obtain g where g: "findCampaign w c = Some g" "stillExpanding (cg_status g)" by blast
  have mem: "g \<in> set (pw_campaigns w)" "cg_id g = c" using findCampaign_mem [OF g(1)] by auto
  obtain t' page where e: "expandAudiencePage db (cg_target g) c (cg_expansionCursor g) CAMPAIGN_BATCH_SIZE
                    (cg_chEmail g) (emailBudget g) (pw_recipients w) = (t', page)" by (meson surj_pair)
  have d: "distinct (map recipientKey (pw_recipients w))" using ok by (simp add: campaigns_ok_def)
  define ws where "ws = xp_written page"
  note new = expandAudiencePage_appends [OF d e, folded ws_def]
  define w' where "w' = updateCampaign c (expandedCampaign now page) (w\<lparr>pw_recipients := t'\<rparr>)"
  have res: "fst (expandPage db now c w) = w'"
    by (simp add: expandPage_def g e Let_def w'_def expandedCampaign_def [abs_def])
  have "\<forall>r\<in>set ws. rc_campaignId r = c" and t': "t' = pw_recipients w @ ws" using new by blast+
  from rowsOf_own [OF this(1)]
  have view: "viewOf w' x = (case viewOf w x of (rs, n, ms) \<Rightarrow> (if x = c then rs @ ws else rs, n, ms))" for x
    by (simp add: viewOf_def w'_def rowsOf_append t')
  show ?thesis unfolding res
  proof (rule campaigns_ok_update [where c = c and f = "expandedCampaign now page", OF ok])
    show "pw_campaigns w' = map (\<lambda>g. if cg_id g = c then expandedCampaign now page g else g) (pw_campaigns w)"
      by (simp add: w'_def)
    show "c \<in> cg_id ` set (pw_campaigns w)" using mem by blast
    have "distinct (map recipientKey t')" using new by blast
    then show "distinct (map recipientKey (pw_recipients w'))" by (simp add: w'_def)
    show "books_ok (pw_quota w')" using ok by (simp add: campaigns_ok_def w'_def)
    show "viewOf w' x = viewOf w x" if "x \<noteq> c" for x using view [of x] that by (simp add: split: prod.split)
    fix h assume h: "h \<in> set (pw_campaigns w)" "cg_id h = c"
    then have "h = g" using ok mem distinct_keys_unique unfolding campaigns_ok_def by metis
    obtain rs n ms where v: "viewOf w c = (rs, n, ms)" by (metis prod_cases3)
    then have "campaign_ok rs n ms g" using campaigns_ok_view [OF ok mem(1)] mem(2) by (simp add: view_ok_def)
    then have "campaign_ok (rs @ ws) n ms (expandedCampaign now page g)"
      by (rule expandedCampaign_ok [OF _ g(2) _ _ ws_def [symmetric]]) (use new in blast)+
    then show "view_ok w' (expandedCampaign now page h)"
      using view [of c] v mem(2) \<open>h = g\<close> by (simp add: view_ok_def expandedCampaign_def [of _ _ g])
  qed (simp_all add: expandedCampaign_def requestKey_def)
qed

subsection \<open>A batch of releases\<close>

definition releasedRow :: "instant \<Rightarrow> nat option \<Rightarrow> recipient_row \<Rightarrow> recipient_row" where
  "releasedRow now oid r = r\<lparr>rc_released := True, rc_releasedAt := Some now, rc_outboxId := oid\<rparr>"

lemma releasedRow_fields [simp]:
  "rc_campaignId (releasedRow now oid r) = rc_campaignId r" "rc_userId (releasedRow now oid r) = rc_userId r"
  "rc_emailEligible (releasedRow now oid r) = rc_emailEligible r"
  "rc_exclusion (releasedRow now oid r) = rc_exclusion r" "rc_released (releasedRow now oid r)"
  "recipientKey (releasedRow now oid r) = recipientKey r" "getsEmail g (releasedRow now oid r) = getsEmail g r"
  by (simp_all add: releasedRow_def recipientKey_def getsEmail_def)

lemma numberRows_find:
  "\<exists>oid. find_by recipientKey k (numberRows g now n rows) =
     map_option (releasedRow now oid) (find_by recipientKey k rows)"
proof (induction rows arbitrary: n)
  case (Cons r rows)
  show ?case
    using Cons.IH [of n] Cons.IH [of "Suc n"]
    by (cases "recipientKey r = k") (auto simp: releasedRow_def recipientKey_def)
qed simp

lemma storeRecipients_map:
  assumes "distinct (map recipientKey t)" "set rows \<subseteq> set t"
  obtains h where "storeRecipients (numberRows g now n rows) t = map h t"
    and "\<And>r. r \<in> set rows \<Longrightarrow> \<exists>oid. h r = releasedRow now oid r"
    and "\<And>r. r \<in> set t \<Longrightarrow> r \<notin> set rows \<Longrightarrow> h r = r"
proof
  define h where "h r = (case find_by recipientKey (recipientKey r) (numberRows g now n rows) of
      Some r' \<Rightarrow> r' | None \<Rightarrow> r)" for r
  show "storeRecipients (numberRows g now n rows) t = map h t"
    by (simp add: storeRecipients_def h_def)
  have own: "r' = r" if "r' \<in> set rows" "r \<in> set t" "recipientKey r' = recipientKey r" for r r'
    using distinct_keys_unique [OF assms(1)] that assms(2) by blast
  show "\<exists>oid. h r = releasedRow now oid r" if r: "r \<in> set rows" for r
  proof -
    obtain x where x: "find_by recipientKey (recipientKey r) rows = Some x"
      using r by (cases "find_by recipientKey (recipientKey r) rows") (auto simp del: find_by_Cons)
    then have "x = r" using find_by_Some [OF x] own r assms(2) by blast
    then show ?thesis using numberRows_find [of "recipientKey r" g now n rows] x by (auto simp: h_def)
  qed
  show "h r = r" if r: "r \<in> set t" "r \<notin> set rows" for r
  proof -
    have "find_by recipientKey (recipientKey r) rows = None"
      unfolding find_by_None using own r by (metis imageE)
    then show ?thesis
      using numberRows_find [of "recipientKey r" g now n rows] by (auto simp: h_def simp del: find_by_None)
  qed
qed

lemma count_rows_map: "(\<And>r. r \<in> set xs \<Longrightarrow> p (h r) = q r) \<Longrightarrow> count_rows p (map h xs) = count_rows q xs"
  by (induction xs) (auto simp: count_rows_def)

lemma count_rows_within:
  assumes "distinct xs" "distinct ys" "set ys \<subseteq> set xs" "\<And>y. y \<in> set ys \<Longrightarrow> \<not> q y"
  shows "count_rows (\<lambda>x. (q x \<or> x \<in> set ys) \<and> p x) xs = count_rows (\<lambda>x. q x \<and> p x) xs + count_rows p ys"
proof -
  have "card ({x. (q x \<or> x \<in> set ys) \<and> p x} \<inter> set xs) =
      card ({x. q x \<and> p x} \<inter> set xs) + card ({x. p x} \<inter> set ys)"
    by (subst card_Un_disjoint [symmetric]) (use assms(3,4) in \<open>auto intro!: arg_cong [of _ _ card]\<close>)
  then show ?thesis using assms(1,2) by (simp add: count_rows_def distinct_length_filter)
qed

lemma insertCampaignRows_frame:
  "cm_notifications (insertCampaignRows now g us s) = cm_notifications s"
  by (induction us arbitrary: s) (simp_all add: insertCampaignRows_def insertOutbox_def)

lemma campaignTags_insertCampaign:
  "campaignTags c (insertCampaignRows now g us s) =
     campaignTags c s @ (if c = cg_id g then map (\<lambda>u. (Some c, Some u)) us else [])"
proof (induction us arbitrary: s)
  case (Cons u us)
  have "insertCampaignRows now g (u # us) s = insertCampaignRows now g us (insertOutbox (campaignOutboxRow now g u) s)"
    by (simp add: insertCampaignRows_def)
  then show ?case
    by (simp add: Cons.IH campaignTags_insert campaignOutboxRow_def Let_def tag_def)
qed (simp add: insertCampaignRows_def)

definition releasedCampaign :: "instant \<Rightarrow> nat \<Rightarrow> nat \<Rightarrow> campaign \<Rightarrow> campaign" where
  "releasedCampaign now emails people g = g\<lparr>
     cg_emailReleasedCount := cg_emailReleasedCount g + int emails,
     cg_inAppReleasedCount := cg_inAppReleasedCount g + (if cg_chInApp g then int people else 0),
     cg_updatedAt := now\<rparr>"

lemma releasedCampaign_ok:
  assumes ok: "campaign_ok rs n ms g" and st: "cg_status g = cs_sending"
    and d: "distinct rs" "distinct rows" "set rows \<subseteq> set rs" "rows \<noteq> []"
    and wait: "\<And>r. r \<in> set rows \<Longrightarrow> \<not> rc_released r"
    and h: "\<And>r. r \<in> set rows \<Longrightarrow> \<exists>oid. h r = releasedRow now oid r"
      "\<And>r. r \<in> set rs \<Longrightarrow> r \<notin> set rows \<Longrightarrow> h r = r"
  shows "campaign_ok (map h rs) (n + count_rows (getsEmail g) rows) ms
           (releasedCampaign now (count_rows (getsEmail g) rows) (length rows) g)"
proof -
  define g' where "g' = releasedCampaign now (count_rows (getsEmail g) rows) (length rows) g"
  have same: "quotaOf g' = quotaOf g" "cg_quotaReserved g' = cg_quotaReserved g" "cg_target g' = cg_target g"
    "cg_chEmail g' = cg_chEmail g" "cg_chInApp g' = cg_chInApp g" "cg_status g' = cg_status g"
    "getsEmail g' = getsEmail g"
    by (simp_all add: g'_def releasedCampaign_def quotaOf_def getsEmail_def fun_eq_iff)
  have c: "counters_ok rs g" and p: "progress_ok rs n g" and q: "quota_ok rs ms g"
    using ok by (simp_all add: campaign_ok_def)
  have hr: "rc_exclusion (h r) = rc_exclusion r \<and> rc_emailEligible (h r) = rc_emailEligible r
      \<and> getsEmail g (h r) = getsEmail g r \<and> (rc_released (h r) \<longleftrightarrow> rc_released r \<or> r \<in> set rows)"
    if "r \<in> set rs" for r
    using h(1) [of r] h(2) [OF that] by (cases "r \<in> set rows") auto
  have ex: "excludedFor x (map h rs) = excludedFor x rs" for x
    unfolding excludedFor_def by (rule count_rows_map) (simp add: hr)
  have el: "count_rows rc_emailEligible (map h rs) = count_rows rc_emailEligible rs"
    by (rule count_rows_map) (simp add: hr)
  have rel: "count_rows (\<lambda>r. rc_released r \<and> getsEmail g r) (map h rs) =
      count_rows (\<lambda>r. rc_released r \<and> getsEmail g r) rs + count_rows (getsEmail g) rows"
    using count_rows_within [OF d(1,2,3), of rc_released "getsEmail g"] wait
    by (subst count_rows_map [where q = "\<lambda>r. (rc_released r \<or> r \<in> set rows) \<and> getsEmail g r"]) (auto simp: hr)
  have people: "count_rows rc_released (map h rs) = count_rows rc_released rs + length rows"
    using count_rows_within [OF d(1,2,3), of rc_released "\<lambda>_. True"] wait
    by (subst count_rows_map [where q = "\<lambda>r. rc_released r \<or> r \<in> set rows"]) (auto simp: hr count_rows_def)
  have "counters_ok (map h rs) g'"
    using c rel people by (simp add: counters_ok_def ex same) (simp add: g'_def releasedCampaign_def)
  moreover have "progress_ok (map h rs) (n + count_rows (getsEmail g) rows) g'"
    using p st hr by (simp add: progress_ok_def same stillExpanding_def) (simp add: g'_def releasedCampaign_def)
  moreover have "quota_ok (map h rs) ms g'"
  proof -
    obtain r where "r \<in> set rows" using d(4) by (cases rows) auto
    then have "r \<in> set rs" "\<not> rc_released r" using d(3) wait by auto
    then have "um_kind m = lk_charge" if "m \<in> set ms" for m
      using quota_okD(6,7) [OF q that] st by (cases "um_kind m") auto
    then show ?thesis
      using quota_okD [OF q] st by (intro quota_okI; simp only: same el) auto
  qed
  ultimately show ?thesis by (simp add: campaign_ok_def g'_def)
qed

text \<open>Everything a batch changes, in one statement.\<close>

lemma release_result:
  assumes ok: "campaigns_ok w" and g: "findCampaign w c = Some g" "cg_status g = cs_sending"
    "take CAMPAIGN_BATCH_SIZE (sort_key rc_userId (awaitingRows c w)) \<noteq> []"
    and r: "releaseBatch now c w = Inr (w', k)"
  defines "rows \<equiv> take CAMPAIGN_BATCH_SIZE (sort_key rc_userId (awaitingRows c w))"
  defines "f \<equiv> releasedCampaign now (count_rows (getsEmail g) rows) (length rows)"
  shows "\<exists>h. pw_campaigns w' = map (\<lambda>x. if cg_id x = c then f x else x) (pw_campaigns w)
    \<and> pw_quota w' = pw_quota w \<and> pw_recipients w' = map h (pw_recipients w)
    \<and> (\<forall>x. campaignTags x (cw_state (pw_comm w')) = campaignTags x (cw_state (pw_comm w))
          @ (if x = c then map (\<lambda>u. (Some x, Some u)) (map rc_userId (filter (getsEmail g) rows)) else []))
    \<and> (\<forall>x. rowsOf x (pw_recipients w') = map h (rowsOf x (pw_recipients w)))
    \<and> (\<forall>r\<in>set rows. \<exists>oid. h r = releasedRow now oid r)
    \<and> (\<forall>r\<in>set (pw_recipients w). r \<notin> set rows \<longrightarrow> h r = r)
    \<and> (\<forall>r\<in>set (pw_recipients w). recipientKey (h r) = recipientKey r)
    \<and> distinct rows \<and> (\<forall>r\<in>set rows. r \<in> set (rowsOf c (pw_recipients w)) \<and> \<not> rc_released r)"
proof -
  have mem: "g \<in> set (pw_campaigns w)" "cg_id g = c" using findCampaign_mem [OF g(1)] by auto
  have d: "distinct (map recipientKey (pw_recipients w))" using ok by (simp add: campaigns_ok_def)
  have "distinct (sort_key rc_userId (awaitingRows c w))"
    using d by (simp add: awaitingRows_def distinct_map)
  then have drows: "distinct rows" by (simp add: rows_def)
  have sub: "r \<in> set (rowsOf c (pw_recipients w)) \<and> \<not> rc_released r" if "r \<in> set rows" for r
    using in_set_takeD [OF that [unfolded rows_def]] by (simp add: awaitingRows_def rowsOf_def)
  then have "set rows \<subseteq> set (pw_recipients w)" by (auto simp: rowsOf_def)
  from storeRecipients_map [OF d this, of g now "cm_nextId (cw_state (pw_comm w))"] obtain h where
    h: "storeRecipients (numberRows g now (cm_nextId (cw_state (pw_comm w))) rows) (pw_recipients w)
          = map h (pw_recipients w)"
      "\<And>r. r \<in> set rows \<Longrightarrow> \<exists>oid. h r = releasedRow now oid r"
      "\<And>r. r \<in> set (pw_recipients w) \<Longrightarrow> r \<notin> set rows \<Longrightarrow> h r = r" by blast
  have keys: "recipientKey (h r) = recipientKey r \<and> rc_campaignId (h r) = rc_campaignId r"
    if "r \<in> set (pw_recipients w)" for r
    using h(2) [of r] h(3) [OF that] by (cases "r \<in> set rows") auto
  define users where "users = map rc_userId (filter (getsEmail g) rows)"
  have users: "length users = count_rows (getsEmail g) rows" by (simp add: users_def count_rows_def)
  define s where "s = insertCampaignRows now g users (cw_state (pw_comm w))"
  define s' where "s' = (if cg_chInApp g then s\<lparr>cm_notifications := cm_notifications s
        @ map (campaignNotification now g \<circ> rc_userId) rows\<rparr> else s)"
  have w': "w' = updateCampaign c (\<lambda>x. x\<lparr>
         cg_emailReleasedCount := cg_emailReleasedCount x + int (length users),
         cg_inAppReleasedCount := cg_inAppReleasedCount x + (if cg_chInApp x then int (length rows) else 0),
         cg_updatedAt := now\<rparr>)
       (w\<lparr>pw_comm := (pw_comm w)\<lparr>cw_state := s'\<rparr>, pw_recipients := map h (pw_recipients w)\<rparr>)"
    using r g unfolding rows_def [symmetric]
    by (auto simp: releaseBatch_def Let_def rows_def [symmetric] users_def [symmetric] s_def [symmetric]
        s'_def h(1) split: if_splits)
  have only: "x = g" if "x \<in> set (pw_campaigns w)" "cg_id x = c" for x
    using that ok mem distinct_keys_unique unfolding campaigns_ok_def by metis
  have cs: "pw_campaigns w' = map (\<lambda>x. if cg_id x = c then f x else x) (pw_campaigns w)"
    using only by (auto simp: w' f_def releasedCampaign_def users)
  have "tags s' = tags s" by (simp add: s'_def tag_simps)
  from campaignTags_eq [OF this]
  have "campaignTags x s' = campaignTags x (cw_state (pw_comm w))
      @ (if x = c then map (\<lambda>u. (Some x, Some u)) users else [])" for x
    by (simp add: s_def campaignTags_insertCampaign mem(2))
  moreover have "cw_state (pw_comm w') = s'" by (simp add: w')
  moreover have "rowsOf x (pw_recipients w') = map h (rowsOf x (pw_recipients w))" for x
    using keys by (simp add: w' rowsOf_def filter_map o_def cong: filter_cong)
  moreover have "pw_quota w' = pw_quota w" "pw_recipients w' = map h (pw_recipients w)" by (simp_all add: w')
  ultimately show ?thesis
    using cs h(2,3) keys drows sub unfolding users_def
    by (intro exI [of _ h]) auto
qed

lemma ok_release:
  assumes ok: "campaigns_ok w" and r: "releaseBatch now c w = Inr (w', k)"
  shows "campaigns_ok w'"
proof -
  define rows where "rows = take CAMPAIGN_BATCH_SIZE (sort_key rc_userId (awaitingRows c w))"
  show ?thesis
  proof (cases "\<exists>g. findCampaign w c = Some g \<and> cg_status g = cs_sending \<and> rows \<noteq> []")
    case False
    then show ?thesis using r ok
      by (auto simp: releaseBatch_def Let_def rows_def [symmetric] split: option.splits if_splits)
  next
    case True
    then obtain g where g: "findCampaign w c = Some g" "cg_status g = cs_sending" "rows \<noteq> []" by blast
    have mem: "g \<in> set (pw_campaigns w)" "cg_id g = c" using findCampaign_mem [OF g(1)] by auto
    define f where "f = releasedCampaign now (count_rows (getsEmail g) rows) (length rows)"
    from release_result [OF ok g [unfolded rows_def] r, folded rows_def, folded f_def] obtain h where
      cs: "pw_campaigns w' = map (\<lambda>x. if cg_id x = c then f x else x) (pw_campaigns w)"
      and q: "pw_quota w' = pw_quota w" "pw_recipients w' = map h (pw_recipients w)"
      and ts: "\<And>x. campaignTags x (cw_state (pw_comm w')) = campaignTags x (cw_state (pw_comm w))
          @ (if x = c then map (\<lambda>u. (Some x, Some u)) (map rc_userId (filter (getsEmail g) rows)) else [])"
      and rs: "\<And>x. rowsOf x (pw_recipients w') = map h (rowsOf x (pw_recipients w))"
      and h: "\<And>r. r \<in> set rows \<Longrightarrow> \<exists>oid. h r = releasedRow now oid r"
        "\<And>r. r \<in> set (pw_recipients w) \<Longrightarrow> r \<notin> set rows \<Longrightarrow> h r = r"
        "\<And>r. r \<in> set (pw_recipients w) \<Longrightarrow> recipientKey (h r) = recipientKey r"
      and rows: "distinct rows" "\<And>r. r \<in> set rows \<Longrightarrow> r \<in> set (rowsOf c (pw_recipients w)) \<and> \<not> rc_released r"
      by blast
    have d: "distinct (map recipientKey (pw_recipients w))" using ok by (simp add: campaigns_ok_def)
    have users: "length (filter (getsEmail g) rows) = count_rows (getsEmail g) rows" by (simp add: count_rows_def)
    have view: "viewOf w' x = (map h (rowsOf x (pw_recipients w)),
        length (campaignTags x (cw_state (pw_comm w'))), movesOf (pw_quota w) x)" for x
      by (simp only: viewOf_def rs q(1))
    show ?thesis
    proof (rule campaigns_ok_update [where c = c and f = f, OF ok cs])
      show "c \<in> cg_id ` set (pw_campaigns w)" using mem by blast
      have "map recipientKey (pw_recipients w') = map recipientKey (pw_recipients w)" using h(3) by (simp add: q(2))
      then show "distinct (map recipientKey (pw_recipients w'))" using d by simp
      show "books_ok (pw_quota w')" using ok by (simp add: campaigns_ok_def q(1))
      show "viewOf w' x = viewOf w x" if "x \<noteq> c" for x
      proof -
        have "map h (rowsOf x (pw_recipients w)) = rowsOf x (pw_recipients w)"
        proof (rule map_idI)
          fix r assume "r \<in> set (rowsOf x (pw_recipients w))"
          then have "r \<in> set (pw_recipients w)" "r \<notin> set rows" using rows(2) that by (auto simp: rowsOf_def)
          then show "h r = r" by (rule h(2))
        qed
        then show ?thesis using that by (simp add: view ts) (simp add: viewOf_def)
      qed
      fix x assume x: "x \<in> set (pw_campaigns w)" "cg_id x = c"
      then have "x = g" using ok mem distinct_keys_unique unfolding campaigns_ok_def by metis
      have "campaign_ok (rowsOf c (pw_recipients w)) (length (campaignTags c (cw_state (pw_comm w))))
          (movesOf (pw_quota w) c) g"
        using campaigns_ok_view [OF ok mem(1)] mem(2) by (simp add: view_ok_def viewOf_def)
      then have "campaign_ok (map h (rowsOf c (pw_recipients w)))
          (length (campaignTags c (cw_state (pw_comm w))) + count_rows (getsEmail g) rows) (movesOf (pw_quota w) c) (f g)"
        unfolding f_def
      proof (rule releasedCampaign_ok [OF _ g(2) _ rows(1) _ g(3)])
        show "distinct (rowsOf c (pw_recipients w))" using d by (simp add: rowsOf_def distinct_map)
        show "set rows \<subseteq> set (rowsOf c (pw_recipients w))" using rows(2) by blast
        show "h r = r" if "r \<in> set (rowsOf c (pw_recipients w))" "r \<notin> set rows" for r
          using h(2) that by (simp add: rowsOf_def)
      qed (use rows(2) h(1) in blast)+
      then show "view_ok w' (f x)"
        using \<open>x = g\<close> mem(2) users by (simp add: view_ok_def view ts) (simp add: f_def releasedCampaign_def)
    qed (simp_all add: f_def releasedCampaign_def requestKey_def)
  qed
qed

subsection \<open>Settling\<close>

lemma giveBack_moves:
  fixes c :: uid
  assumes "books_ok q" "kind \<noteq> lk_charge" "n \<le> usedIn q k"
  defines "q' \<equiv> fst (giveBack k c kind n q)"
  shows "books_ok q'" and "d \<noteq> c \<Longrightarrow> movesOf q' d = movesOf q d"
    and "movesOf q' c = movesOf q c @ (if moved q c kind \<or> n \<le> 0 then []
      else [\<lparr>um_academyId = fst k, um_periodStart = snd k, um_messageId = c, um_kind = kind, um_quantity = n\<rparr>])"
proof -
  show "books_ok q'" unfolding q'_def by (rule meter.credit_keeps(1) [OF assms(1-3)])
  have "q' = q" if "moved q c kind \<or> n \<le> 0" unfolding q'_def by (rule meter.unmoved [OF that])
  moreover have "qt_ledger q' = qt_ledger q @ [\<lparr>um_academyId = fst k, um_periodStart = snd k, um_messageId = c,
      um_kind = kind, um_quantity = n\<rparr>]" if "\<not> (moved q c kind \<or> n \<le> 0)"
    using giveBack_new [of q c kind n k] assms(1-3) that by (auto simp: q'_def)
  ultimately show "d \<noteq> c \<Longrightarrow> movesOf q' d = movesOf q d"
    and "movesOf q' c = movesOf q c @ (if moved q c kind \<or> n \<le> 0 then []
      else [\<lparr>um_academyId = fst k, um_periodStart = snd k, um_messageId = c, um_kind = kind, um_quantity = n\<rparr>])"
    by (cases "moved q c kind \<or> n \<le> 0"; simp add: movesOf_append)+
qed

lemma moved_kinds: "moved q c kind \<longleftrightarrow> kind \<in> um_kind ` set (movesOf q c)"
  by (auto simp: moved_def movementKey_def movesOf_def)

text \<open>A campaign whose recipients are all released.\<close>

definition settling :: "campaign_world \<Rightarrow> campaign \<Rightarrow> bool" where
  "settling w g \<longleftrightarrow> g \<in> set (pw_campaigns w) \<and> cg_status g = cs_sending \<and> awaitingRows (cg_id g) w = []"

lemma settling_released: "settling w g \<Longrightarrow> r \<in> set (rowsOf (cg_id g) (pw_recipients w)) \<Longrightarrow> rc_released r"
  by (auto simp: settling_def awaitingRows_def rowsOf_def filter_empty_conv)

lemma settling_parts:
  assumes "campaigns_ok w" "settling w g"
  shows "counters_ok (rowsOf (cg_id g) (pw_recipients w)) g"
    and "progress_ok (rowsOf (cg_id g) (pw_recipients w)) (length (campaignTags (cg_id g) (cw_state (pw_comm w)))) g"
    and "quota_ok (rowsOf (cg_id g) (pw_recipients w)) (movesOf (pw_quota w) (cg_id g)) g"
    and "distinct (map um_kind (movesOf (pw_quota w) (cg_id g)))"
    and "lk_refund \<notin> um_kind ` set (movesOf (pw_quota w) (cg_id g))"
proof -
  have "view_ok w g" using assms campaigns_ok_view by (simp add: settling_def)
  then show "counters_ok (rowsOf (cg_id g) (pw_recipients w)) g"
    and "progress_ok (rowsOf (cg_id g) (pw_recipients w)) (length (campaignTags (cg_id g) (cw_state (pw_comm w)))) g"
    and q: "quota_ok (rowsOf (cg_id g) (pw_recipients w)) (movesOf (pw_quota w) (cg_id g)) g"
    by (simp_all add: view_ok_def viewOf_def campaign_ok_def)
  show "distinct (map um_kind (movesOf (pw_quota w) (cg_id g)))"
    using assms(1) distinct_kinds by (simp add: campaigns_ok_def)
  show "lk_refund \<notin> um_kind ` set (movesOf (pw_quota w) (cg_id g))"
    using movedBy_quota(4) [OF q] assms(2) by (auto simp: settling_def)
qed

lemma settling_balance:
  assumes "campaigns_ok w" "settling w g" "quotaOf g = Some k"
  shows "cg_quotaReserved g - movedBy lk_release (movesOf (pw_quota w) (cg_id g)) \<le> usedIn (pw_quota w) k"
proof -
  note parts = settling_parts [OF assms(1,2)]
  have "messageBalance (movesOf (pw_quota w) (cg_id g)) =
      cg_quotaReserved g - movedBy lk_release (movesOf (pw_quota w) (cg_id g))"
    using messageBalance_kinds [OF parts(4)] movedBy_made(1) [OF parts(3,4)] movedBy_0 [OF parts(5)] assms(3) by simp
  then show ?thesis
    using used_covers [OF assms(1) _ assms(3)] assms(2) by (simp add: settling_def)
qed

lemma same_id: "campaigns_ok w \<Longrightarrow> g \<in> set (pw_campaigns w) \<Longrightarrow> h \<in> set (pw_campaigns w) \<Longrightarrow> cg_id h = cg_id g \<Longrightarrow> h = g"
  unfolding campaigns_ok_def by (metis distinct_keys_unique)

lemma ok_giveUnused:
  assumes ok: "campaigns_ok w" and s: "settling w g" and k: "quotaOf g = Some k"
    and less: "cg_emailReleasedCount g < cg_quotaReserved g"
  defines "w' \<equiv> w\<lparr>pw_quota := fst (giveBack k (cg_id g) lk_release
                       (cg_quotaReserved g - cg_emailReleasedCount g) (pw_quota w))\<rparr>"
  shows "campaigns_ok w'" and "lk_release \<in> um_kind ` set (movesOf (pw_quota w') (cg_id g))"
proof -
  let ?c = "cg_id g" and ?n = "cg_quotaReserved g - cg_emailReleasedCount g"
  note parts = settling_parts [OF ok s]
  have mem: "g \<in> set (pw_campaigns w)" using s by (simp add: settling_def)
  have books: "books_ok (pw_quota w)" using ok by (simp add: campaigns_ok_def)
  have er: "0 \<le> cg_emailReleasedCount g" using parts(1) by (simp add: counters_ok_def)
  show "campaigns_ok w'" and "lk_release \<in> um_kind ` set (movesOf (pw_quota w') ?c)"
  proof (atomize (full), cases "moved (pw_quota w) ?c lk_release")
    case True
    then have "w' = w" by (simp add: w'_def giveBack_again)
    then show "campaigns_ok w' \<and> lk_release \<in> um_kind ` set (movesOf (pw_quota w') ?c)"
      using ok True by (simp add: moved_kinds)
  next
    case False
    have "?n \<le> usedIn (pw_quota w) k"
      using settling_balance [OF ok s k] False er by (simp add: moved_kinds movedBy_0)
    note g = giveBack_moves [OF books _ this, where kind = lk_release]
    define m where "m = \<lparr>um_academyId = fst k, um_periodStart = snd k, um_messageId = ?c,
        um_kind = lk_release, um_quantity = ?n\<rparr>"
    have ms: "movesOf (pw_quota w') ?c = movesOf (pw_quota w) ?c @ [m]"
      using g(3) [of ?c] False less by (simp add: w'_def m_def)
    have q: "quota_ok (rowsOf ?c (pw_recipients w)) (movesOf (pw_quota w) ?c @ [m]) g"
      using quota_okD [OF parts(3)] settling_released [OF s] s k less
      by (intro quota_okI) (auto simp: m_def movementPeriod_def settling_def stillExpanding_def)
    have "campaigns_ok w'"
    proof (rule campaigns_ok_update [where c = ?c and f = "\<lambda>x. x", OF ok])
      show "?c \<in> cg_id ` set (pw_campaigns w)" using mem by blast
      show "books_ok (pw_quota w')" using g(1) by (simp add: w'_def)
      show "distinct (map recipientKey (pw_recipients w'))" using ok by (simp add: w'_def campaigns_ok_def)
      show "viewOf w' d = viewOf w d" if "d \<noteq> ?c" for d using g(2) [OF _ that] by (simp add: viewOf_def w'_def)
      fix x assume "x \<in> set (pw_campaigns w)" "cg_id x = ?c"
      then have "x = g" using same_id [OF ok mem] by blast
      then show "view_ok w' x"
        using parts q ms by (simp add: view_ok_def viewOf_def campaign_ok_def) (simp add: w'_def)
    qed (simp_all add: w'_def)
    then show "campaigns_ok w' \<and> lk_release \<in> um_kind ` set (movesOf (pw_quota w') ?c)" by (simp add: ms m_def)
  qed
qed

definition completedCampaign :: "instant \<Rightarrow> campaign \<Rightarrow> campaign" where
  "completedCampaign now g = g\<lparr>cg_status := cs_completed, cg_completedAt := Some now, cg_updatedAt := now\<rparr>"

definition refunded :: "campaign \<Rightarrow> nat \<Rightarrow> quota_state \<Rightarrow> quota_state" where
  "refunded g failed q = (case quotaOf g of
     None \<Rightarrow> q
   | Some k \<Rightarrow> if 0 < failed then fst (giveBack k (cg_id g) lk_refund (int failed) q) else q)"

lemma refunded_moves:
  assumes ok: "campaigns_ok w" and s: "settling w g"
    and failed: "int failed \<le> cg_emailReleasedCount g"
  shows "books_ok (refunded g failed (pw_quota w))"
    and "d \<noteq> cg_id g \<Longrightarrow> movesOf (refunded g failed (pw_quota w)) d = movesOf (pw_quota w) d"
    and "movesOf (refunded g failed (pw_quota w)) (cg_id g) = movesOf (pw_quota w) (cg_id g)
           @ (case quotaOf g of None \<Rightarrow> [] | Some k \<Rightarrow> if failed = 0 then [] else
                [\<lparr>um_academyId = fst k, um_periodStart = snd k, um_messageId = cg_id g,
                  um_kind = lk_refund, um_quantity = int failed\<rparr>])"
proof -
  note parts = settling_parts [OF ok s]
  have books: "books_ok (pw_quota w)" using ok by (simp add: campaigns_ok_def)
  have le: "int failed \<le> usedIn (pw_quota w) k" if k: "quotaOf g = Some k" for k
  proof -
    have "cg_emailReleasedCount g \<le> cg_quotaReserved g - movedBy lk_release (movesOf (pw_quota w) (cg_id g))"
      using movedBy_quota(3) [OF parts(3)] released_within [OF parts(1,3)] k by auto
    then show ?thesis using settling_balance [OF ok s k] failed by simp
  qed
  have fresh: "\<not> moved (pw_quota w) (cg_id g) lk_refund" using parts(5) by (simp add: moved_kinds)
  show "books_ok (refunded g failed (pw_quota w))"
    using books giveBack_moves(1) [OF books _ le] by (auto simp: refunded_def split: option.split)
  show "d \<noteq> cg_id g \<Longrightarrow> movesOf (refunded g failed (pw_quota w)) d = movesOf (pw_quota w) d"
    using giveBack_moves(2) [OF books _ le] by (auto simp: refunded_def split: option.split)
  show "movesOf (refunded g failed (pw_quota w)) (cg_id g) = movesOf (pw_quota w) (cg_id g)
           @ (case quotaOf g of None \<Rightarrow> [] | Some k \<Rightarrow> if failed = 0 then [] else
                [\<lparr>um_academyId = fst k, um_periodStart = snd k, um_messageId = cg_id g,
                  um_kind = lk_refund, um_quantity = int failed\<rparr>])"
    using giveBack_moves(3) [OF books _ le, where kind = lk_refund and c = "cg_id g"] fresh
    by (auto simp: refunded_def split: option.split)
qed

lemma ok_complete:
  assumes ok: "campaigns_ok w" and s: "settling w g"
    and rel: "quotaOf g \<noteq> None \<and> cg_emailReleasedCount g < cg_quotaReserved g
                \<longrightarrow> lk_release \<in> um_kind ` set (movesOf (pw_quota w) (cg_id g))"
    and failed: "int failed \<le> cg_emailReleasedCount g"
  shows "campaigns_ok (updateCampaign (cg_id g) (completedCampaign now)
           (w\<lparr>pw_quota := refunded g failed (pw_quota w)\<rparr>))"
proof -
  let ?c = "cg_id g"
  note parts = settling_parts [OF ok s]
  note r = refunded_moves [OF ok s failed]
  have mem: "g \<in> set (pw_campaigns w)" using s by (simp add: settling_def)
  define q' where "q' = refunded g failed (pw_quota w)"
  define w' where "w' = updateCampaign ?c (completedCampaign now) (w\<lparr>pw_quota := q'\<rparr>)"
  define g' where "g' = completedCampaign now g"
  have same: "quotaOf g' = quotaOf g" "cg_quotaReserved g' = cg_quotaReserved g" "cg_target g' = cg_target g"
    "cg_emailReleasedCount g' = cg_emailReleasedCount g" "getsEmail g' = getsEmail g" "cg_status g' = cs_completed"
    "cg_chEmail g' = cg_chEmail g"
    by (simp_all add: g'_def completedCampaign_def quotaOf_def getsEmail_def fun_eq_iff)
  note released = settling_released [OF s]
  have c: "counters_ok (rowsOf ?c (pw_recipients w)) g'"
    using parts(1) by (simp add: counters_ok_def same) (simp add: g'_def completedCampaign_def)
  have p: "progress_ok (rowsOf ?c (pw_recipients w)) (length (campaignTags ?c (cw_state (pw_comm w)))) g'"
    using parts(2) released by (simp add: progress_ok_def same stillExpanding_def)
  have q: "quota_ok (rowsOf ?c (pw_recipients w)) (movesOf q' ?c) g'"
  proof (rule quota_okI; (simp only: same)?)
    fix m assume m: "m \<in> set (movesOf q' ?c)"
    then consider "m \<in> set (movesOf (pw_quota w) ?c)"
      | k where "quotaOf g = Some k" "failed \<noteq> 0" "m = \<lparr>um_academyId = fst k, um_periodStart = snd k,
          um_messageId = ?c, um_kind = lk_refund, um_quantity = int failed\<rparr>"
      using r(3) by (auto simp: q'_def split: option.splits if_splits)
    then have "quotaOf g = Some (movementPeriod m) \<and> 0 < um_quantity m
        \<and> (um_kind m = lk_charge \<longrightarrow> um_quantity m = cg_quotaReserved g)
        \<and> (um_kind m = lk_release \<longrightarrow> um_quantity m = cg_quotaReserved g - cg_emailReleasedCount g)
        \<and> (um_kind m = lk_refund \<longrightarrow> um_quantity m \<le> cg_emailReleasedCount g)"
    proof cases
      case 1
      then show ?thesis using quota_okD(2-5,7) [OF parts(3)] by blast
    next
      case 2
      then show ?thesis using failed by (simp add: movementPeriod_def)
    qed
    then show "quotaOf g = Some (movementPeriod m) \<and> 0 < um_quantity m"
      "um_kind m = lk_charge \<Longrightarrow> um_quantity m = cg_quotaReserved g"
      "um_kind m = lk_release \<Longrightarrow> \<not> stillExpanding cs_completed \<and> (\<forall>r\<in>set (rowsOf ?c (pw_recipients w)). rc_released r)
           \<and> um_quantity m = cg_quotaReserved g - cg_emailReleasedCount g"
      "um_kind m = lk_refund \<Longrightarrow> cs_completed = cs_completed \<and> um_quantity m \<le> cg_emailReleasedCount g"
      using released by (auto simp: stillExpanding_def)
  next
    show "quotaOf g \<noteq> None \<Longrightarrow> 0 < cg_quotaReserved g \<Longrightarrow> lk_charge \<in> um_kind ` set (movesOf q' ?c)"
      using quota_okD(9) [OF parts(3)] r(3) by (auto simp: q'_def)
    show "quotaOf g \<noteq> None \<Longrightarrow> cg_emailReleasedCount g < cg_quotaReserved g \<Longrightarrow> lk_release \<in> um_kind ` set (movesOf q' ?c)"
      using rel r(3) by (auto simp: q'_def)
  qed (use quota_okD(1,8,11) [OF parts(3)] in auto)
  have "campaigns_ok w'"
  proof (rule campaigns_ok_update [where c = ?c and f = "completedCampaign now", OF ok])
    show "pw_campaigns w' = map (\<lambda>x. if cg_id x = ?c then completedCampaign now x else x) (pw_campaigns w)"
      by (simp add: w'_def)
    show "?c \<in> cg_id ` set (pw_campaigns w)" using mem by blast
    show "books_ok (pw_quota w')" using r(1) by (simp add: w'_def q'_def)
    show "distinct (map recipientKey (pw_recipients w'))" using ok by (simp add: w'_def campaigns_ok_def)
    show "viewOf w' d = viewOf w d" if "d \<noteq> ?c" for d
      using r(2) [OF that] by (simp add: viewOf_def w'_def q'_def)
    fix x assume "x \<in> set (pw_campaigns w)" "cg_id x = ?c"
    then have "x = g" using same_id [OF ok mem] by blast
    moreover have "cg_id g' = ?c" by (simp add: g'_def completedCampaign_def)
    ultimately show "view_ok w' (completedCampaign now x)"
      using c p q by (simp add: view_ok_def viewOf_def campaign_ok_def w'_def g'_def)
  qed (simp_all add: completedCampaign_def requestKey_def)
  then show ?thesis by (simp add: w'_def q'_def)
qed

text \<open>The quota after the first half of \<open>settle\<close>.\<close>

definition unusedGiven :: "campaign \<Rightarrow> quota_state \<Rightarrow> quota_state" where
  "unusedGiven g q = (case quotaOf g of
     None \<Rightarrow> q
   | Some k \<Rightarrow> if cg_emailReleasedCount g < cg_quotaReserved g
               then fst (giveBack k (cg_id g) lk_release (cg_quotaReserved g - cg_emailReleasedCount g) q) else q)"

lemma settling_unused:
  assumes ok: "campaigns_ok w" and s: "settling w g"
  defines "w' \<equiv> w\<lparr>pw_quota := unusedGiven g (pw_quota w)\<rparr>"
  shows "campaigns_ok w'" and "settling w' g"
    and "quotaOf g \<noteq> None \<and> cg_emailReleasedCount g < cg_quotaReserved g
           \<longrightarrow> lk_release \<in> um_kind ` set (movesOf (pw_quota w') (cg_id g))"
proof -
  show "settling w' g" using s by (simp add: settling_def w'_def awaitingRows_def)
  show "campaigns_ok w'" using ok_giveUnused(1) [OF ok s] ok by (auto simp: w'_def unusedGiven_def split: option.split)
  show "quotaOf g \<noteq> None \<and> cg_emailReleasedCount g < cg_quotaReserved g
           \<longrightarrow> lk_release \<in> um_kind ` set (movesOf (pw_quota w') (cg_id g))"
    using ok_giveUnused(2) [OF ok s] by (auto simp: w'_def unusedGiven_def)
qed

definition failedRows :: "uid \<Rightarrow> comm_state \<Rightarrow> nat" where
  "failedRows c s = count_rows (\<lambda>r. ob_state r = ob_failed) (campaignRows c s)"

definition openRows :: "uid \<Rightarrow> comm_state \<Rightarrow> nat" where
  "openRows c s = count_rows waiting (campaignRows c s)"

lemma settle_cases:
  assumes "settleCampaign now c w = (w', outcome)"
  shows "(w' = w \<and> outcome \<noteq> run_completed)
    \<or> (w' = w \<and> (\<exists>g. findCampaign w c = Some g \<and> cg_status g = cs_completed))
    \<or> (\<exists>g. findCampaign w c = Some g \<and> settling w g \<and> cg_id g = c \<and>
        (if 0 < openRows c (cw_state (pw_comm w))
         then w' = w\<lparr>pw_quota := unusedGiven g (pw_quota w)\<rparr> \<and> outcome = run_sending
         else w' = updateCampaign c (completedCampaign now)
                (w\<lparr>pw_quota := refunded g (failedRows c (cw_state (pw_comm w))) (unusedGiven g (pw_quota w))\<rparr>)
              \<and> outcome = run_completed))"
proof (cases "findCampaign w c")
  case None
  then show ?thesis using assms by (auto simp: settleCampaign_def)
next
  case (Some g)
  have id: "cg_id g = c" "g \<in> set (pw_campaigns w)" using findCampaign_mem [OF Some] by auto
  show ?thesis
  proof (cases "cg_status g = cs_sending \<and> awaitingRows c w = []")
    case False
    then show ?thesis using assms Some by (auto simp: settleCampaign_def split: if_splits)
  next
    case True
    then have "settling w g" using id by (simp add: settling_def)
    moreover have "if 0 < openRows c (cw_state (pw_comm w))
         then w' = w\<lparr>pw_quota := unusedGiven g (pw_quota w)\<rparr> \<and> outcome = run_sending
         else w' = updateCampaign c (completedCampaign now)
                (w\<lparr>pw_quota := refunded g (failedRows c (cw_state (pw_comm w))) (unusedGiven g (pw_quota w))\<rparr>)
              \<and> outcome = run_completed"
      using assms Some True
      unfolding settleCampaign_def openRows_def failedRows_def unusedGiven_def refunded_def
        completedCampaign_def [abs_def] Let_def id(1)
      by (auto split: option.splits)
    ultimately show ?thesis using Some id by blast
  qed
qed

lemma failed_within:
  assumes "campaigns_ok w" "settling w g"
  shows "int (failedRows (cg_id g) (cw_state (pw_comm w))) \<le> cg_emailReleasedCount g"
proof -
  have "failedRows (cg_id g) (cw_state (pw_comm w)) \<le> length (campaignTags (cg_id g) (cw_state (pw_comm w)))"
    by (simp add: failedRows_def count_rows_def length_campaignRows [symmetric])
  then show ?thesis using settling_parts(2) [OF assms] by (simp add: progress_ok_def)
qed

lemma ok_settle:
  assumes ok: "campaigns_ok w"
  shows "campaigns_ok (fst (settleCampaign now c w))"
proof -
  obtain w' outcome where s: "settleCampaign now c w = (w', outcome)" by (meson surj_pair)
  have "campaigns_ok w'"
  proof (cases "w' = w")
    case False
    then obtain g where g: "settling w g" "cg_id g = c"
      "if 0 < openRows c (cw_state (pw_comm w)) then w' = w\<lparr>pw_quota := unusedGiven g (pw_quota w)\<rparr>
       else w' = updateCampaign c (completedCampaign now)
                (w\<lparr>pw_quota := refunded g (failedRows c (cw_state (pw_comm w))) (unusedGiven g (pw_quota w))\<rparr>)"
      using settle_cases [OF s] by (auto split: if_splits)
    note u = settling_unused [OF ok g(1)]
    show ?thesis
      using g(3) u(1) ok_complete [OF u(1,2,3), of "failedRows c (cw_state (pw_comm w))" now]
        failed_within [OF ok g(1)]
      by (auto simp: g(2) split: if_splits)
  qed (use ok in simp)
  then show ?thesis by (simp add: s)
qed

subsection \<open>Every history\<close>

lemma ok_step: "campaigns_ok w \<Longrightarrow> campaigns_ok (campaignStep sz cat st w)"
  by (cases st)
    (simp_all add: ok_begin ok_commit ok_expand ok_settle ok_recordError ok_communication
      ok_release split: sum.split prod.split)

theorem campaigns_ok_history: "campaigns_ok (campaignHistory sz cat ss)"
proof (induction ss rule: rev_induct)
  case Nil
  show ?case
    by (simp add: campaigns_ok_def emptyCampaigns_def books_ok_def usedIn_def findPeriod_def balanceIn_def
          viewOf_def rowsOf_def campaignTags_def tags_def movesOf_def emptyComm_def)
qed (simp add: ok_step)

end
