(* ===== verification/Campaign_Exact.thy ===== *)
theory Campaign_Exact
  imports Campaign_Invariant "HOL-Library.Multiset"
begin

text \<open>
  The outbox rows of a campaign are at most one for each recipient that was released and may be
  mailed, however the worker's transactions interleave, and exactly one as long as retention has
  removed nothing (\<open>keep\<close>).
\<close>

definition sentTo :: "campaign_world \<Rightarrow> campaign \<Rightarrow> uid option multiset" where
  "sentTo w g = mset (map snd (campaignTags (cg_id g) (cw_state (pw_comm w))))"

definition dueTo :: "campaign_world \<Rightarrow> campaign \<Rightarrow> uid option multiset" where
  "dueTo w g = mset (map (Some \<circ> rc_userId)
     (filter (\<lambda>r. rc_released r \<and> getsEmail g r) (rowsOf (cg_id g) (pw_recipients w))))"

text \<open>Nobody is mailed who should not be, nobody twice, and with \<open>keep\<close> nobody is left out.\<close>

definition matches :: "bool \<Rightarrow> 'a multiset \<Rightarrow> 'a multiset \<Rightarrow> bool" where
  "matches keep sent due \<longleftrightarrow> sent \<subseteq># due \<and> (keep \<longrightarrow> sent = due)"

lemma matches_same [simp]: "matches keep m m"
  by (simp add: matches_def)

lemma matches_add: "matches keep a b \<Longrightarrow> matches keep (a + m) (b + m)"
  by (simp add: matches_def)

lemma matches_less: "matches keep a b \<Longrightarrow> a' \<subseteq># a \<Longrightarrow> (keep' \<longrightarrow> keep \<and> a' = a) \<Longrightarrow> matches keep' a' b"
  by (auto simp: matches_def intro: subset_mset.order_trans)

definition exact :: "bool \<Rightarrow> campaign_world \<Rightarrow> bool" where
  "exact keep w \<longleftrightarrow> (\<forall>g\<in>set (pw_campaigns w). matches keep (sentTo w g) (dueTo w g))"

lemma sentTo_rows: "sentTo w g = mset (map ob_recipientUserId (campaignRows (cg_id g) (cw_state (pw_comm w))))"
  by (simp add: sentTo_def campaignTags_rows o_def tag_def)

lemma exact_update:
  assumes "exact keep w" "pw_campaigns w' = map (\<lambda>g. if cg_id g = c then f g else g) (pw_campaigns w)"
    and f: "\<And>g. cg_id (f g) = cg_id g" "\<And>g. cg_chEmail (f g) = cg_chEmail g"
    and others: "\<And>g. g \<in> set (pw_campaigns w) \<Longrightarrow> cg_id g \<noteq> c \<Longrightarrow> sentTo w' g = sentTo w g \<and> dueTo w' g = dueTo w g"
    and this_one: "\<And>g. g \<in> set (pw_campaigns w) \<Longrightarrow> cg_id g = c \<Longrightarrow> matches keep (sentTo w g) (dueTo w g) \<Longrightarrow> matches keep (sentTo w' g) (dueTo w' g)"
  shows "exact keep w'"
proof -
  have fields: "sentTo w' (f g) = sentTo w' g" "dueTo w' (f g) = dueTo w' g" for g
    using f by (simp_all add: sentTo_def dueTo_def getsEmail_def)
  have "matches keep (sentTo w' g) (dueTo w' g)" if g: "g \<in> set (pw_campaigns w')" for g
  proof -
    obtain h where h: "h \<in> set (pw_campaigns w)" "g = (if cg_id h = c then f h else h)"
      using g unfolding assms(2) set_map by blast
    then have "matches keep (sentTo w' h) (dueTo w' h)"
      using others this_one assms(1) by (cases "cg_id h = c") (auto simp: exact_def)
    then show ?thesis using h fields by simp
  qed
  then show ?thesis by (simp add: exact_def)
qed

lemma exact_frame:
  assumes "exact keep w" "pw_campaigns w' = pw_campaigns w" "pw_recipients w' = pw_recipients w"
    and "\<And>c. campaignTags c (cw_state (pw_comm w')) = campaignTags c (cw_state (pw_comm w))"
  shows "exact keep w'"
  using assms by (simp add: exact_def sentTo_def dueTo_def)

text \<open>Updating campaigns alone: whom it is due to depends on the channel only.\<close>

lemma exact_updateCampaign:
  assumes "exact keep w" "\<And>g. cg_id (f g) = cg_id g" "\<And>g. cg_chEmail (f g) = cg_chEmail g"
  shows "exact keep (updateCampaign c f (w\<lparr>pw_quota := q\<rparr>))"
  by (rule exact_update [OF assms(1) _ assms(2,3), of _ c]) (simp_all add: sentTo_def dueTo_def)

lemma exact_settle:
  assumes "exact keep w" "settleCampaign now c w = (w', outcome)"
  shows "exact keep w'"
proof -
  have "exact keep (w\<lparr>pw_quota := q\<rparr>)" for q by (rule exact_frame [OF assms(1)]) simp_all
  moreover have "exact keep (updateCampaign c (completedCampaign now) (w\<lparr>pw_quota := q\<rparr>))" for q
    by (rule exact_updateCampaign [OF assms(1)]) (simp_all add: completedCampaign_def)
  ultimately show ?thesis using settle_cases [OF assms(2)] assms(1) by (auto split: if_splits)
qed

lemma exact_commit:
  assumes "exact keep w" "campaigns_ok w"
  shows "exact keep (fst (commitSend env now n w))"
proof -
  have ok0: "campaigns_ok (removeAccepted n w)" and ex0: "exact keep (removeAccepted n w)"
    using campaigns_ok_frame [OF assms(2), of "removeAccepted n w"] exact_frame [OF assms(1), of "removeAccepted n w"]
    by (simp_all add: removeAccepted_def)
  have "exact keep w'" if s: "sendTransaction env now a (removeAccepted n w) = Inr (w', reply)" for a w' reply
  proof -
    obtain q g where w': "w' = (removeAccepted n w)\<lparr>pw_quota := q, pw_campaigns := pw_campaigns (removeAccepted n w) @ [g]\<rparr>"
      and "\<not> campaignTaken g (removeAccepted n w)"
      using s by (auto simp: sendTransaction_def Let_def split: option.splits if_splits sum.splits)
    then have "cg_id g \<notin> cg_id ` set (pw_campaigns (removeAccepted n w))"
      by (auto simp: campaignTaken_def list_ex_iff)
    then have "viewOf (removeAccepted n w) (cg_id g) = ([], 0, [])" using ok0 by (simp add: campaigns_ok_def)
    then have "matches keep (sentTo w' g) (dueTo w' g)" by (simp add: viewOf_def sentTo_def dueTo_def w')
    moreover have "matches keep (sentTo w' h) (dueTo w' h)" if "h \<in> set (pw_campaigns (removeAccepted n w))" for h
      using ex0 that by (simp add: exact_def sentTo_def dueTo_def w')
    ultimately show ?thesis by (auto simp: exact_def w')
  qed
  then show ?thesis
    using assms(1) ex0 by (auto simp: commitSend_def Let_def split: sum.split send_refusal.split)
qed

lemma exact_expand:
  assumes "exact keep w" "campaigns_ok w"
  shows "exact keep (fst (expandPage db now c w))"
proof (cases "\<exists>g. findCampaign w c = Some g \<and> stillExpanding (cg_status g)")
  case False
  then show ?thesis using assms(1) by (auto simp: expandPage_def split: option.split)
next
  case True
  then obtain g where g: "findCampaign w c = Some g" "stillExpanding (cg_status g)" by blast
  obtain t' page where e: "expandAudiencePage db (cg_target g) c (cg_expansionCursor g) CAMPAIGN_BATCH_SIZE
                    (cg_chEmail g) (emailBudget g) (pw_recipients w) = (t', page)" by (meson surj_pair)
  have "distinct (map recipientKey (pw_recipients w))" using assms(2) by (simp add: campaigns_ok_def)
  note new = expandAudiencePage_appends [OF this e]
  have t': "t' = pw_recipients w @ xp_written page" "\<forall>r\<in>set (xp_written page). \<not> rc_released r"
    using new by blast+
  have res: "fst (expandPage db now c w) = updateCampaign c (expandedCampaign now page) (w\<lparr>pw_recipients := t'\<rparr>)"
    by (simp add: expandPage_def g e Let_def expandedCampaign_def [abs_def])
  have due: "dueTo (fst (expandPage db now c w)) h = dueTo w h" for h
  proof -
    have "filter (\<lambda>r. rc_released r \<and> getsEmail h r) (rowsOf (cg_id h) (xp_written page)) = []"
      using t'(2) by (auto simp: filter_empty_conv rowsOf_def)
    then show ?thesis unfolding res by (simp add: dueTo_def rowsOf_append t'(1))
  qed
  have sent: "sentTo (fst (expandPage db now c w)) h = sentTo w h" for h
    unfolding res by (simp add: sentTo_def)
  show ?thesis
    by (rule exact_update [OF assms(1), of _ c "expandedCampaign now page"])
      (simp_all add: due sent, simp_all add: res expandedCampaign_def)
qed

lemma mset_filter_within:
  assumes "distinct xs" "distinct ys" "set ys \<subseteq> set xs" "\<And>y. y \<in> set ys \<Longrightarrow> \<not> q y"
  shows "mset (filter (\<lambda>x. (q x \<or> x \<in> set ys) \<and> p x) xs) =
           mset (filter (\<lambda>x. q x \<and> p x) xs) + mset (filter p ys)"
proof -
  have "{x \<in> set xs. (q x \<or> x \<in> set ys) \<and> p x} = {x \<in> set xs. q x \<and> p x} \<union> {x \<in> set ys. p x}"
    using assms(3) by auto
  moreover have "{x \<in> set xs. q x \<and> p x} \<inter> {x \<in> set ys. p x} = {}" using assms(4) by auto
  ultimately have "mset_set {x \<in> set xs. (q x \<or> x \<in> set ys) \<and> p x} =
      mset_set {x \<in> set xs. q x \<and> p x} + mset_set {x \<in> set ys. p x}"
    by (simp add: mset_set_Union)
  then show ?thesis using assms(1,2) by (simp add: mset_set_set [symmetric])
qed

lemma exact_release:
  assumes ex: "exact keep w" and ok: "campaigns_ok w" and r: "releaseBatch now c w = Inr (w', k)"
  shows "exact keep w'"
proof -
  define rows where "rows = take CAMPAIGN_BATCH_SIZE (sort_key rc_userId (awaitingRows c w))"
  show ?thesis
  proof (cases "\<exists>g. findCampaign w c = Some g \<and> cg_status g = cs_sending \<and> rows \<noteq> []")
    case False
    then show ?thesis using r ex
      by (auto simp: releaseBatch_def Let_def rows_def [symmetric] split: option.splits if_splits)
  next
    case True
    then obtain g where g: "findCampaign w c = Some g" "cg_status g = cs_sending" "rows \<noteq> []" by blast
    define f where "f = releasedCampaign now (count_rows (getsEmail g) rows) (length rows)"
    from release_result [OF ok g [unfolded rows_def] r, folded rows_def, folded f_def] obtain h where
      cs: "pw_campaigns w' = map (\<lambda>x. if cg_id x = c then f x else x) (pw_campaigns w)"
      and ts: "\<And>x. campaignTags x (cw_state (pw_comm w')) = campaignTags x (cw_state (pw_comm w))
          @ (if x = c then map (\<lambda>u. (Some x, Some u)) (map rc_userId (filter (getsEmail g) rows)) else [])"
      and rs: "\<And>x. rowsOf x (pw_recipients w') = map h (rowsOf x (pw_recipients w))"
      and h: "\<And>r. r \<in> set rows \<Longrightarrow> \<exists>oid. h r = releasedRow now oid r"
        "\<And>r. r \<in> set (pw_recipients w) \<Longrightarrow> r \<notin> set rows \<Longrightarrow> h r = r"
      and rows: "distinct rows" "\<And>r. r \<in> set rows \<Longrightarrow> r \<in> set (rowsOf c (pw_recipients w)) \<and> \<not> rc_released r"
      by blast
    have f: "cg_id (f x) = cg_id x" "cg_chEmail (f x) = cg_chEmail x" for x
      by (simp_all add: f_def releasedCampaign_def)
    have mem: "g \<in> set (pw_campaigns w)" "cg_id g = c" using findCampaign_mem [OF g(1)] by auto
    have d: "distinct (rowsOf c (pw_recipients w))"
      using ok by (simp add: campaigns_ok_def rowsOf_def distinct_map)
    show ?thesis
    proof (rule exact_update [OF ex cs f])
      fix x :: campaign assume x: "cg_id x \<noteq> c"
      have "map h (rowsOf (cg_id x) (pw_recipients w)) = rowsOf (cg_id x) (pw_recipients w)"
      proof (rule map_idI)
        fix r assume "r \<in> set (rowsOf (cg_id x) (pw_recipients w))"
        then have "r \<in> set (pw_recipients w)" "r \<notin> set rows" using rows(2) x by (auto simp: rowsOf_def)
        then show "h r = r" by (rule h(2))
      qed
      then show "sentTo w' x = sentTo w x \<and> dueTo w' x = dueTo w x"
        using x by (simp add: sentTo_def dueTo_def ts rs)
    next
      fix x assume x: "x \<in> set (pw_campaigns w)" "cg_id x = c" and eq: "matches keep (sentTo w x) (dueTo w x)"
      then have "x = g" using same_id [OF ok mem(1)] mem(2) by simp
      have hr: "rc_userId (h r) = rc_userId r \<and> getsEmail g (h r) = getsEmail g r
          \<and> (rc_released (h r) \<longleftrightarrow> rc_released r \<or> r \<in> set rows)"
        if "r \<in> set (rowsOf c (pw_recipients w))" for r
        using h(1) [of r] h(2) [of r] that by (cases "r \<in> set rows") (auto simp: rowsOf_def)
      have "dueTo w' g = mset (map (Some \<circ> rc_userId)
          (filter (\<lambda>r. (rc_released r \<or> r \<in> set rows) \<and> getsEmail g r) (rowsOf c (pw_recipients w))))"
        unfolding dueTo_def mem(2) rs filter_map map_map
        by (rule arg_cong [where f = mset], rule map_cong, rule filter_cong) (auto simp: hr)
      also have "\<dots> = dueTo w g + mset (map (Some \<circ> rc_userId) (filter (getsEmail g) rows))"
      proof -
        have "set rows \<subseteq> set (rowsOf c (pw_recipients w))" "\<And>r. r \<in> set rows \<Longrightarrow> \<not> rc_released r"
          using rows(2) by blast+
        from mset_filter_within [OF d rows(1) this, where p = "getsEmail g"]
        show ?thesis unfolding dueTo_def mem(2) mset_map by simp
      qed
      finally show "matches keep (sentTo w' x) (dueTo w' x)"
        using matches_add [OF eq] \<open>x = g\<close> by (simp add: sentTo_def ts mem(2) o_def)
    qed
  qed
qed

subsection \<open>Retention\<close>

definition prunesAny :: "campaign_step \<Rightarrow> bool" where
  "prunesAny st \<longleftrightarrow> (case st of Communication x \<Rightarrow> prunes x | _ \<Rightarrow> False)"

lemma mset_filter_map_filter: "mset (filter q (map t (filter p xs))) \<subseteq># mset (filter q (map t xs))"
  by (induction xs) (auto intro: subset_mset.order_trans)

lemma prune_removes_tags: "mset (campaignTags c (prune cat now s)) \<subseteq># mset (campaignTags c s)"
proof -
  have scrub: "tags (scrubLeftoverCredentials cat now t) = tags t" for t
    by (auto simp: tags_def scrubLeftoverCredentials_def Let_def split: option.split)
  have "tags (pruneRows now s) =
      map tag (filter (\<lambda>r. \<not> ob_createdAt r < now - COMMUNICATION_RETENTION_DAYS * 24 * 60 * 60 * 1000)
        (cm_outbox s))"
    by (simp add: tags_def pruneRows_def Let_def)
  then show ?thesis
    unfolding prune_def campaignTags_def scrub by (simp only: tags_def mset_filter_map_filter)
qed

lemma exact_communication:
  assumes "exact keep w"
  shows "exact (keep \<and> \<not> prunes x) (w\<lparr>pw_comm := commStep cat x (pw_comm w)\<rparr>)"
proof -
  let ?w = "w\<lparr>pw_comm := commStep cat x (pw_comm w)\<rparr>"
  have "mset (campaignTags c (cw_state (commStep cat x (pw_comm w)))) \<subseteq># mset (campaignTags c (cw_state (pw_comm w)))" for c
  proof (cases "prunes x")
    case True
    then obtain now where "x = Prune now" by (auto simp: prunes_def split: comm_step.splits)
    then show ?thesis by (simp add: prune_removes_tags)
  qed (simp add: campaignTags_step)
  then have "sentTo ?w g \<subseteq># sentTo w g" for g by (simp add: sentTo_def image_mset_subseteq_mono)
  moreover have "\<not> prunes x \<Longrightarrow> sentTo ?w g = sentTo w g" for g by (simp add: sentTo_def campaignTags_step)
  moreover have "dueTo ?w g = dueTo w g" for g by (simp add: dueTo_def)
  ultimately have "matches (keep \<and> \<not> prunes x) (sentTo ?w g) (dueTo ?w g)"
    if "matches keep (sentTo w g) (dueTo w g)" for g
    using matches_less [OF that, of "sentTo ?w g" "keep \<and> \<not> prunes x"] by simp
  then show ?thesis using assms by (simp add: exact_def)
qed

lemma exact_step:
  assumes "exact keep w" "campaigns_ok w"
  shows "exact (keep \<and> \<not> prunesAny st) (campaignStep sz cat st w)"
proof (cases st)
  case (SendRequest up now i who inp)
  then show ?thesis using exact_frame [OF assms(1)] by (simp add: beginSend_frame prunesAny_def)
next
  case (RecordError now c m)
  have "exact keep (updateCampaign c f (w\<lparr>pw_quota := pw_quota w\<rparr>))"
    if "\<And>g. cg_id (f g) = cg_id g" "\<And>g. cg_chEmail (f g) = cg_chEmail g" for f
    by (rule exact_updateCampaign [OF assms(1) that])
  then show ?thesis using RecordError by (simp add: recordError_def prunesAny_def)
next
  case (Communication x)
  then show ?thesis using exact_communication [OF assms(1)] by (simp add: prunesAny_def)
next
  case (SettleCampaign now c)
  then show ?thesis using exact_settle [OF assms(1)] by (simp add: prod_eq_iff prunesAny_def)
next
  case (ReleaseBatch now c)
  then show ?thesis using exact_release [OF assms(1,2)] assms(1) by (auto simp: prunesAny_def split: sum.split)
qed (use assms exact_commit exact_expand in \<open>auto simp: prunesAny_def\<close>)

lemma exact_history: "exact (\<not> list_ex prunesAny ss) (campaignHistory sz cat ss)"
proof (induction ss rule: rev_induct)
  case Nil
  show ?case by (simp add: exact_def emptyCampaigns_def)
next
  case (snoc st ss)
  then show ?case using exact_step [OF _ campaigns_ok_history] by simp
qed

end
