(* ===== verification/Campaign_Guarantees.thy ===== *)
theory Campaign_Guarantees
  imports Campaign_Exact
begin

text \<open>
  What campaigns promise over any history of requests, worker transactions and communication:
  the quota counter is its ledger, no reservation passes the limit, a finished campaign has paid
  for what was not refused, nobody is mailed twice, and one request makes one campaign.
\<close>

subsection \<open>An academy with three learners\<close>

definition learnerAccount :: "uid \<Rightarrow> bool option \<Rightarrow> account_row" where
  "learnerAccount u p =
     \<lparr>us_id = u, us_status = ''active'', us_deleted = False, us_email = u @ ''@b.c'', us_preferences =
        \<lparr>sp_legacyEmail = None, sp_reminders = None, sp_engagementEmail = p, sp_engagementDigest = None,
         sp_operationalEmail = None, sp_operationalDigest = None\<rparr>\<rparr>"

definition learnerDb :: audience_db where
  "learnerDb =
     \<lparr>ad_students = map (\<lambda>u. \<lparr>sd_academyId = ''a1'', sd_userId = u, sd_status = ''active'', sd_blocked = False\<rparr>)
        [''u1'', ''u2'', ''u3''],
      ad_enrollments = [], ad_staff = [], ad_organizations = [], ad_academies = [],
      ad_subscription = (\<lambda>_. None), ad_memberships = [], ad_courses = [],
      ad_accounts = [learnerAccount ''u3'' (Some False), learnerAccount ''u1'' None, learnerAccount ''u2'' None],
      ad_suppressed = (\<lambda>_. False)\<rparr>"

definition plainText :: "utf16 \<Rightarrow> utf16 \<times> utf16" where
  "plainText t = (t, t)"

definition academyOwner :: sender where
  "academyOwner = AcademySender ''o'' ''a1'' ''org'' ''owner''"

definition hello :: "string \<Rightarrow> send_input" where
  "hello k = \<lparr>si_audience = AcademyAudience Learners, si_chEmail = True, si_chInApp = True,
     si_idempotencyKey = k, si_subject = [72, 105], si_bodyHtml = [72, 105],
     si_expectedRecipientCount = 3, si_confirmLargeAudience = False\<rparr>"

definition learnerEnv :: send_env where
  "learnerEnv = \<lparr>sv_db = learnerDb, sv_subscription = (\<lambda>_. None)\<rparr>"

definition campaignCatalog :: catalog where
  "campaignCatalog k = (if k = ''academy.message.sent'' then Some (campaignEntry scope_academy)
     else if k = ''platform.broadcast.sent'' then Some (campaignEntry scope_platform) else None)"

definition campaignEnv :: dispatch_env where
  "campaignEnv = exampleEnv\<lparr>ev_campaign := (\<lambda>_. Some ''sending'')\<rparr>"

definition released :: "campaign_step list" where
  "released =
     [SendRequest True 0 ''c1'' academyOwner (hello ''k1''), SendCommit learnerEnv 0 0,
      ExpandPage learnerDb 1 ''c1'', ReleaseBatch 2 ''c1'']"

definition delivered :: "campaign_step list" where
  "delivered = released @
     [Communication (Begin campaignEnv 3 0),
      Communication (Finish True 4 \<lparr>da_made = 0, da_max = 6\<rparr> 0 SendAccepted),
      Communication (Begin campaignEnv 5 1),
      Communication (Finish True 6 \<lparr>da_made = 5, da_max = 6\<rparr> 0 (SendError ''refused''))]"

abbreviation example_world :: "campaign_step list \<Rightarrow> campaign_world" where
  "example_world \<equiv> campaignHistory plainText campaignCatalog"

definition marchPeriod :: period_key where "marchPeriod = (''a1'', 0)"

lemma released_view:
  "(let w = example_world released
    in (usedIn (pw_quota w) marchPeriod,
        map (\<lambda>r. (rc_userId r, rc_emailEligible r, rc_released r, rc_outboxId r)) (pw_recipients w),
        map (\<lambda>r. (ob_id r, ob_recipientUserId r, ob_state r)) (cm_outbox (cw_state (pw_comm w))),
        map (\<lambda>g. (cg_id g, cg_status g, cg_quotaReserved g, cg_emailReleasedCount g)) (pw_campaigns w))) =
   (2, [(''u1'', True, True, Some 0), (''u2'', True, True, Some 1), (''u3'', False, True, None)],
    [(0, Some ''u1'', ob_pending), (1, Some ''u2'', ob_pending)], [(''c1'', cs_sending, 2, 2)])"
  by code_simp

lemma delivered_view:
  "(let w = example_world (delivered @ [SettleCampaign 7 ''c1''])
    in (usedIn (pw_quota w) marchPeriod,
        map (\<lambda>m. (um_kind m, um_quantity m)) (qt_ledger (pw_quota w)),
        map (\<lambda>r. (ob_id r, ob_state r)) (cm_outbox (cw_state (pw_comm w))),
        map cg_status (pw_campaigns w))) =
   (1, [(lk_charge, 2), (lk_refund, 1)], [(0, ob_dispatched), (1, ob_failed)], [cs_completed])"
  by code_simp

lemma delivered_settles: "snd (settleCampaign 7 ''c1'' (example_world delivered)) = run_completed"
  by code_simp

lemma delivered_campaign:
  "(case findCampaign (example_world delivered) ''c1'' of
      None \<Rightarrow> False
    | Some g \<Rightarrow> cg_status g = cs_sending \<and> quotaOf g = Some marchPeriod)"
  by code_simp

lemma delivered_failed:
  "count_rows (\<lambda>r. ob_state r \<noteq> ob_failed) (campaignRows ''c1'' (cw_state (pw_comm (example_world delivered)))) = 1"
  by code_simp

lemma delivered_keeps: "\<not> list_ex prunesAny delivered"
  by (simp add: delivered_def released_def prunesAny_def prunes_def)

subsection \<open>The counter\<close>

lemma used_nonneg:
  assumes ok: "campaigns_ok w"
  shows "0 \<le> usedIn (pw_quota w) k"
proof (cases "\<exists>m\<in>set (qt_ledger (pw_quota w)). movementPeriod m = k")
  case True
  then obtain m where m: "m \<in> set (qt_ledger (pw_quota w))" "movementPeriod m = k" by blast
  obtain g where g: "g \<in> set (pw_campaigns w)" "cg_id g = um_messageId m" "quotaOf g = Some (movementPeriod m)"
    by (rule ledger_campaign [OF ok m(1)])
  then show ?thesis using used_covers [OF ok g(1), of k] balances_ok [OF ok, of "cg_id g"] m(2) by simp
next
  case False
  then have "filter (\<lambda>m. movementPeriod m = k) (qt_ledger (pw_quota w)) = []" by (simp add: filter_empty_conv)
  then show ?thesis using ok books_used [of "pw_quota w" k] by (simp add: campaigns_ok_def balanceIn_def)
qed

text \<open>C31. Over any history of requests, expansions, releases, settlements and retries, in any order,
  what an academy has used of a month is exactly what its ledger says (charges less releases less
  refunds), never below zero, with at most one movement of each kind per message: no step moves the
  counter twice and the cut at zero never hides a difference.\<close>
theorem quota_counter_is_its_ledger:
  "usedIn (pw_quota (campaignHistory sz cat ss)) k = balanceIn (pw_quota (campaignHistory sz cat ss)) k
   \<and> 0 \<le> usedIn (pw_quota (campaignHistory sz cat ss)) k
   \<and> distinct (map movementKey (qt_ledger (pw_quota (campaignHistory sz cat ss))))"
proof -
  have ok: "campaigns_ok (campaignHistory sz cat ss)" by (rule campaigns_ok_history)
  then have books: "books_ok (pw_quota (campaignHistory sz cat ss))" by (simp add: campaigns_ok_def)
  then have "distinct (map movementKey (qt_ledger (pw_quota (campaignHistory sz cat ss))))"
    by (simp add: books_ok_def)
  with books_used [OF books] used_nonneg [OF ok] show ?thesis by blast
qed

subsection \<open>The limit\<close>

lemma giveBack_lowers:
  assumes "0 \<le> bound" "usedIn q j \<le> bound"
  shows "usedIn (fst (giveBack k m kind n q)) j \<le> bound"
proof (cases "moved q m kind \<or> n \<le> 0")
  case True
  then show ?thesis using assms meter.unmoved by simp
next
  case False
  define f where "f p = (if periodKey p = k then p\<lparr>up_used := max (up_used p - n) 0\<rparr> else p)" for p :: usage_period
  have key: "periodKey (f p) = periodKey p" for p by (simp add: f_def periodKey_def)
  have "qt_periods (fst (giveBack k m kind n q)) = map f (qt_periods q)"
    using False by (simp add: giveBack_def writeLedger_new f_def [abs_def])
  then have "findPeriod (fst (giveBack k m kind n q)) j = map_option f (findPeriod q j)"
    by (simp add: findPeriod_def find_by_map key)
  then show ?thesis using assms False by (auto simp: usedIn_def f_def split: option.splits)
qed

text \<open>
  What it takes for the counter of an academy's month to rise: a send of that academy, in that month,
  that makes a campaign, charges its emails and stays within the limit of the academy's organization.
\<close>

definition reservation :: "send_env \<Rightarrow> instant \<Rightarrow> nat \<Rightarrow> period_key \<Rightarrow> campaign_world \<Rightarrow> campaign_world \<Rightarrow> bool" where
  "reservation env now n k w w' \<longleftrightarrow> n < length (pw_accepted w)
     \<and> (\<exists>u org rl g. as_sender (pw_accepted w ! n) = AcademySender u (fst k) org rl
          \<and> snd k = ur_start (emailUsagePeriod now)
          \<and> pw_campaigns w' = pw_campaigns w @ [g] \<and> cg_id g = as_campaignId (pw_accepted w ! n)
          \<and> 0 < cg_quotaReserved g \<and> usedIn (pw_quota w') k = usedIn (pw_quota w) k + cg_quotaReserved g
          \<and> (\<forall>l. limitFor org (sv_subscription env org) = Some l \<longrightarrow> usedIn (pw_quota w') k \<le> l))"

lemma new_uncharged:
  assumes "campaigns_ok w" "c \<notin> cg_id ` set (pw_campaigns w)"
  shows "books_ok (pw_quota w)" "\<not> moved (pw_quota w) c lk_charge"
proof -
  have "movesOf (pw_quota w) c = []" using assms by (simp add: campaigns_ok_def viewOf_def)
  then show "\<not> moved (pw_quota w) c lk_charge" by (simp add: moved_kinds)
  show "books_ok (pw_quota w)" using assms(1) by (simp add: campaigns_ok_def)
qed

lemma commit_reserves:
  assumes ok: "campaigns_ok w" and rise: "usedIn (pw_quota w) k < usedIn (pw_quota (fst (commitSend env now n w))) k"
  shows "reservation env now n k w (fst (commitSend env now n w))"
proof -
  define a where "a = pw_accepted w ! n"
  have n: "n < length (pw_accepted w)" using rise by (auto simp: commitSend_def split: if_splits)
  obtain w' reply where s: "sendTransaction env now a (removeAccepted n w) = Inr (w', reply)"
      and w': "fst (commitSend env now n w) = w'"
    using rise by (auto simp: commitSend_def Let_def a_def removeAccepted_def split: if_splits sum.splits send_refusal.splits)
  obtain t q p where t: "targetOf (as_sender a) (si_audience (as_input a)) = Some t"
    and r: "reserveFor env now a (int (ca_emailCount (countFor (sv_db env) t (as_input a)))) (pw_quota w) = Inr (q, p)"
    and free: "\<not> campaignTaken (newCampaign now a t (countFor (sv_db env) t (as_input a)) p) (removeAccepted n w)"
    and res: "pw_quota w' = q"
      "pw_campaigns w' = pw_campaigns w @ [newCampaign now a t (countFor (sv_db env) t (as_input a)) p]"
    using s by (auto simp: sendTransaction_def Let_def removeAccepted_def
        split: option.splits if_splits sum.splits)
  define g where "g = newCampaign now a t (countFor (sv_db env) t (as_input a)) p"
  let ?m = "int (ca_emailCount (countFor (sv_db env) t (as_input a)))"
  have "as_campaignId a \<notin> cg_id ` set (pw_campaigns w)"
    using free by (auto simp: campaignTaken_def list_ex_iff newCampaign_def Let_def removeAccepted_def)
  note fresh = new_uncharged [OF ok this]
  show ?thesis
  proof (cases "as_sender a")
    case (PlatformSender u)
    then show ?thesis using r rise by (simp add: reserveFor_def w' res)
  next
    case (AcademySender u academy org rl)
    obtain v where v: "reserveQuota (limitFor org (sv_subscription env org)) academy (as_campaignId a) ?m now (pw_quota w) = Inr (q, v)"
      using r by (auto simp: reserveFor_def AcademySender split: sum.splits)
    note acc = reserve_accepted [OF fresh v]
    have up: "usedIn (pw_quota w) k < usedIn q k" using rise by (simp add: w' res)
    then have k: "k = (academy, ur_start (emailUsagePeriod now))" "0 < ?m"
      using acc by (auto simp: fun_upd_apply split: if_splits)
    have "targetScope t = scope_academy"
      using t by (cases "si_audience (as_input a)") (auto simp: AcademySender)
    then have "cg_id g = as_campaignId a" "cg_quotaReserved g = ?m"
      by (simp_all add: g_def newCampaign_def Let_def)
    moreover have "usedIn q k = usedIn (pw_quota w) k + ?m" using acc k by simp
    moreover have "\<forall>l. limitFor org (sv_subscription env org) = Some l \<longrightarrow> usedIn q k \<le> l"
      using acc k(2) unfolding k(1) by blast
    ultimately show ?thesis
      using n k AcademySender res by (auto simp: reservation_def a_def [symmetric] w' g_def [symmetric])
  qed
qed

lemma other_steps_keep_used:
  assumes ok: "campaigns_ok w" and other: "\<And>env now n. st \<noteq> SendCommit env now n"
  shows "usedIn (pw_quota (campaignStep sz cat st w)) k \<le> usedIn (pw_quota w) k"
proof (cases st)
  case (SettleCampaign now c)
  note nonneg = used_nonneg [OF ok, of k]
  obtain w' outcome where s: "settleCampaign now c w = (w', outcome)" by (meson surj_pair)
  have u: "usedIn (unusedGiven g (pw_quota w)) k \<le> usedIn (pw_quota w) k" for g
    using giveBack_lowers [OF nonneg] by (simp add: unusedGiven_def split: option.split)
  then have "usedIn (refunded g m (unusedGiven g (pw_quota w))) k \<le> usedIn (pw_quota w) k" for g m
    using giveBack_lowers [OF nonneg] by (simp add: refunded_def split: option.split)
  then show ?thesis using settle_cases [OF s] u by (auto simp: SettleCampaign s split: if_splits)
qed (use other in \<open>auto simp: beginSend_frame recordError_def expandPage_def releaseBatch_def Let_def
      split: option.split prod.split sum.split\<close>)

lemma rise_is_reservation:
  assumes "usedIn (pw_quota (campaignHistory sz cat ss)) k < usedIn (pw_quota (campaignHistory sz cat (ss @ [st]))) k"
  shows "\<exists>env now n. st = SendCommit env now n
    \<and> reservation env now n k (campaignHistory sz cat ss) (campaignHistory sz cat (ss @ [st]))"
proof (cases "\<exists>env now n. st = SendCommit env now n")
  case True
  then obtain env now n where st: "st = SendCommit env now n" by blast
  show ?thesis
    using commit_reserves [OF campaigns_ok_history, where k = k and env = env and now = now and n = n] assms
    by (simp add: st)
next
  case False
  then show ?thesis using other_steps_keep_used [OF campaigns_ok_history, where st = st and k = k] assms
    by (fastforce simp: not_le [symmetric])
qed

text \<open>C32. After any history, whatever step comes next: the emails an academy has used of a month rise only
  when a send of that very academy commits in that month, by exactly the emails its new campaign
  reserves, and never past the limit of the academy's own organization as the transaction reads
  it. However many sends race and however often they are retried, no other step raises a counter.\<close>
theorem quota_is_never_exceeded:
  assumes "usedIn (pw_quota (campaignHistory sz cat ss)) k < usedIn (pw_quota (campaignHistory sz cat (ss @ [st]))) k"
  shows "\<exists>env now n u org rl g. st = SendCommit env now n
    \<and> n < length (pw_accepted (campaignHistory sz cat ss))
    \<and> as_sender (pw_accepted (campaignHistory sz cat ss) ! n) = AcademySender u (fst k) org rl
    \<and> snd k = ur_start (emailUsagePeriod now)
    \<and> pw_campaigns (campaignHistory sz cat (ss @ [st])) = pw_campaigns (campaignHistory sz cat ss) @ [g]
    \<and> usedIn (pw_quota (campaignHistory sz cat (ss @ [st]))) k =
        usedIn (pw_quota (campaignHistory sz cat ss)) k + cg_quotaReserved g
    \<and> (case limitFor org (sv_subscription env org) of
         Some l \<Rightarrow> usedIn (pw_quota (campaignHistory sz cat (ss @ [st]))) k \<le> l | None \<Rightarrow> True)"
  using rise_is_reservation [OF assms] unfolding reservation_def by (fastforce split: option.split)

lemma first_reservation:
  "usedIn (pw_quota (example_world [SendRequest True 0 ''c1'' academyOwner (hello ''k1'')])) marchPeriod = 0
   \<and> usedIn (pw_quota (example_world ([SendRequest True 0 ''c1'' academyOwner (hello ''k1'')] @ [SendCommit learnerEnv 0 0])))
       marchPeriod = 2"
  by code_simp

theorem quota_is_never_exceeded_witness:
  "\<exists>g. pw_campaigns (example_world ([SendRequest True 0 ''c1'' academyOwner (hello ''k1'')] @ [SendCommit learnerEnv 0 0])) = [g]
     \<and> cg_quotaReserved g = 2"
proof -
  let ?ss = "[SendRequest True 0 ''c1'' academyOwner (hello ''k1'')]"
  have none: "pw_campaigns (example_world ?ss) = []" by code_simp
  have "usedIn (pw_quota (example_world ?ss)) marchPeriod
      < usedIn (pw_quota (example_world (?ss @ [SendCommit learnerEnv 0 0]))) marchPeriod"
    using first_reservation by simp
  from quota_is_never_exceeded [OF this] first_reservation none show ?thesis by auto
qed

text \<open>
  The bound over a whole history, academy by academy: if every commit of a send of academy \<open>a\<close> finds a
  limit of at most \<open>bound\<close> for its organization, no month of \<open>a\<close> is ever used past \<open>bound\<close>.
\<close>

definition limitAtMost :: "uid \<Rightarrow> int \<Rightarrow> campaign_world \<Rightarrow> campaign_step \<Rightarrow> bool" where
  "limitAtMost academy bound w st =
     (case st of
        SendCommit env now n \<Rightarrow>
          n < length (pw_accepted w) \<longrightarrow>
          (case as_sender (pw_accepted w ! n) of
             AcademySender u a org rl \<Rightarrow>
               a = academy \<longrightarrow> (case limitFor org (sv_subscription env org) of Some l \<Rightarrow> l \<le> bound | None \<Rightarrow> False)
           | PlatformSender u \<Rightarrow> True)
      | _ \<Rightarrow> True)"

corollary academy_month_within_limit:
  assumes "\<forall>i<length ss. limitAtMost academy bound (campaignHistory sz cat (take i ss)) (ss ! i)" "0 \<le> bound"
  shows "usedIn (pw_quota (campaignHistory sz cat ss)) (academy, month) \<le> bound"
  using assms(1)
proof (induction ss rule: rev_induct)
  case Nil
  then show ?case using assms(2) by (simp add: emptyCampaigns_def usedIn_def findPeriod_def)
next
  case (snoc st ss)
  have last: "limitAtMost academy bound (campaignHistory sz cat ss) st"
    using snoc.prems [rule_format, of "length ss"] by simp
  have "limitAtMost academy bound (campaignHistory sz cat (take i ss)) (ss ! i)" if "i < length ss" for i
    using snoc.prems [rule_format, of i] that by (simp add: nth_append)
  then have before: "usedIn (pw_quota (campaignHistory sz cat ss)) (academy, month) \<le> bound"
    using snoc.IH by blast
  show ?case
  proof (rule ccontr)
    assume past: "\<not> ?thesis"
    with before have "usedIn (pw_quota (campaignHistory sz cat ss)) (academy, month)
        < usedIn (pw_quota (campaignHistory sz cat (ss @ [st]))) (academy, month)" by linarith
    from rise_is_reservation [OF this] last past show False
      by (auto simp: reservation_def limitAtMost_def split: option.splits)
  qed
qed

subsection \<open>What a campaign pays for, and whom it mails\<close>

lemma released_rows:
  assumes "exact True w" "campaigns_ok w" "g \<in> set (pw_campaigns w)"
  shows "int (length (campaignRows (cg_id g) (cw_state (pw_comm w)))) = cg_emailReleasedCount g"
proof -
  have "counters_ok (rowsOf (cg_id g) (pw_recipients w)) g"
    using campaigns_ok_view [OF assms(2,3)] by (simp add: view_ok_def viewOf_def campaign_ok_def)
  moreover have "sentTo w g = dueTo w g" using assms(1,3) by (simp add: exact_def matches_def)
  then have "size (sentTo w g) = size (dueTo w g)" by simp
  then have "length (campaignRows (cg_id g) (cw_state (pw_comm w))) =
      length (filter (\<lambda>r. rc_released r \<and> getsEmail g r) (rowsOf (cg_id g) (pw_recipients w)))"
    by (simp only: sentTo_rows dueTo_def size_mset length_map)
  ultimately show ?thesis by (simp add: counters_ok_def count_rows_def)
qed

lemma completed_balance:
  assumes ok: "campaigns_ok w" and s: "settling w g" and k: "quotaOf g = Some k"
    and w': "w' = updateCampaign (cg_id g) (completedCampaign now)
                (w\<lparr>pw_quota := refunded g (failedRows (cg_id g) (cw_state (pw_comm w))) (unusedGiven g (pw_quota w))\<rparr>)"
  shows "messageBalance (movesOf (pw_quota w') (cg_id g)) =
           cg_emailReleasedCount g - int (failedRows (cg_id g) (cw_state (pw_comm w)))"
proof -
  let ?c = "cg_id g" and ?n = "failedRows (cg_id g) (cw_state (pw_comm w))"
  define w1 where "w1 = w\<lparr>pw_quota := unusedGiven g (pw_quota w)\<rparr>"
  note u = settling_unused [OF ok s, folded w1_def]
  have fails: "int ?n \<le> cg_emailReleasedCount g" by (rule failed_within [OF ok s])
  note r = refunded_moves [OF u(1,2) fails]
  have moves: "movesOf (pw_quota w') ?c = movesOf (refunded g ?n (pw_quota w1)) ?c" by (simp add: w' w1_def)
  note p = settling_parts [OF u(1,2)]
  have kinds: "distinct (map um_kind (movesOf (pw_quota w') ?c))" unfolding moves by (rule distinct_kinds [OF r(1)])
  have within: "cg_emailReleasedCount g \<le> cg_quotaReserved g" using released_within [OF p(1,3)] k by simp
  have release: "movedBy lk_release (movesOf (pw_quota w1) ?c) = cg_quotaReserved g - cg_emailReleasedCount g"
  proof (cases "lk_release \<in> um_kind ` set (movesOf (pw_quota w1) ?c)")
    case True
    then show ?thesis
      using movedBy_quota(3) [OF p(3)] movedBy_mem [OF p(4)] quota_okD(3) [OF p(3)] by fastforce
  next
    case False
    then show ?thesis using u(3) within k by (simp add: movedBy_0)
  qed
  have "messageBalance (movesOf (pw_quota w1) ?c) = cg_emailReleasedCount g"
    using messageBalance_kinds [OF p(4)] movedBy_made(1) [OF p(3,4)] movedBy_0 [OF p(5)] release k by simp
  then show ?thesis
    unfolding moves r(3) by (simp add: k messageBalance_def signedQuantity_def)
qed

text \<open>C33. At the moment a campaign of an academy settles to completed, and while retention has removed
  nothing, it has paid for exactly the emails that have not failed by then: its charge, less what
  it gave back, is the number of its outbox rows in any other final state. (A row that a provider
  accepts afterwards is not paid for: see the findings.)\<close>
theorem completed_campaign_pays_for_its_mail:
  fixes sz cat ss
  defines "w \<equiv> campaignHistory sz cat ss"
  assumes "\<not> list_ex prunesAny ss" "findCampaign w c = Some g" "cg_status g = cs_sending" "quotaOf g = Some k"
    and s: "settleCampaign now c w = (w', run_completed)"
  shows "messageBalance (movesOf (pw_quota w') c) =
           int (count_rows (\<lambda>r. ob_state r \<noteq> ob_failed) (campaignRows c (cw_state (pw_comm w))))"
proof -
  have ok: "campaigns_ok w" and ex: "exact True w"
    using assms(2) campaigns_ok_history exact_history [of ss sz cat] by (simp_all add: w_def)
  have id: "cg_id g = c" "g \<in> set (pw_campaigns w)" using findCampaign_mem [OF assms(3)] by auto
  have "settling w g" "w' = updateCampaign c (completedCampaign now)
      (w\<lparr>pw_quota := refunded g (failedRows c (cw_state (pw_comm w))) (unusedGiven g (pw_quota w))\<rparr>)"
    using settle_cases [OF s] assms(3,4) by (auto split: if_splits)
  then have "messageBalance (movesOf (pw_quota w') c) =
      int (length (campaignRows c (cw_state (pw_comm w)))) - int (failedRows c (cw_state (pw_comm w)))"
    using completed_balance [OF ok, of g k w' now] released_rows [OF ex ok id(2)] assms(5) id(1) by simp
  also have "\<dots> = int (count_rows (\<lambda>r. ob_state r \<noteq> ob_failed) (campaignRows c (cw_state (pw_comm w))))"
    using sum_length_filter_compl [of "\<lambda>r. ob_state r = ob_failed" "campaignRows c (cw_state (pw_comm w))"]
    by (simp add: failedRows_def count_rows_def)
  finally show ?thesis .
qed

theorem completed_campaign_pays_for_its_mail_witness:
  "\<exists>w'. settleCampaign 7 ''c1'' (example_world delivered) = (w', run_completed)
     \<and> messageBalance (movesOf (pw_quota w') ''c1'') = 1"
proof -
  obtain w' where w': "settleCampaign 7 ''c1'' (example_world delivered) = (w', run_completed)"
    using delivered_settles by (metis prod.collapse)
  obtain g where v: "findCampaign (example_world delivered) ''c1'' = Some g" "cg_status g = cs_sending"
    "quotaOf g = Some marchPeriod"
    using delivered_campaign by (cases "findCampaign (example_world delivered) ''c1''") auto
  have "messageBalance (movesOf (pw_quota w') ''c1'') = 1"
    using completed_campaign_pays_for_its_mail [OF delivered_keeps v w'] delivered_failed by simp
  then show ?thesis using w' by blast
qed

lemma distinct_subset_mset:
  assumes "mset xs \<subseteq># mset ys" "distinct ys"
  shows "distinct xs"
proof -
  obtain zs where "mset ys = mset (xs @ zs)"
    using assms(1) by (metis ex_mset mset_append subset_mset.add_diff_inverse)
  then show ?thesis using assms(2) mset_eq_imp_distinct_iff [of ys "xs @ zs"] by simp
qed

text \<open>C34. After any history of pages, batches, retries and crashes, also with retention, a campaign has at
  most one outbox row for each recipient that was released and may be mailed, never two for one
  person and none for anybody else. As long as retention has removed nothing it has exactly one
  for each of them.\<close>
theorem each_released_recipient_is_mailed_once:
  fixes sz cat ss
  defines "w \<equiv> campaignHistory sz cat ss"
  assumes "g \<in> set (pw_campaigns w)"
  shows "mset (map ob_recipientUserId (campaignRows (cg_id g) (cw_state (pw_comm w)))) \<subseteq>#
           mset (map (Some \<circ> rc_userId) (filter (\<lambda>r. rc_released r \<and> getsEmail g r) (rowsOf (cg_id g) (pw_recipients w))))
         \<and> distinct (map ob_recipientUserId (campaignRows (cg_id g) (cw_state (pw_comm w))))
         \<and> (\<not> list_ex prunesAny ss \<longrightarrow>
              mset (map ob_recipientUserId (campaignRows (cg_id g) (cw_state (pw_comm w)))) =
              mset (map (Some \<circ> rc_userId) (filter (\<lambda>r. rc_released r \<and> getsEmail g r) (rowsOf (cg_id g) (pw_recipients w)))))"
proof -
  let ?rs = "filter (\<lambda>r. rc_released r \<and> getsEmail g r) (rowsOf (cg_id g) (pw_recipients w))"
  let ?sent = "map ob_recipientUserId (campaignRows (cg_id g) (cw_state (pw_comm w)))"
  have ok: "campaigns_ok w" by (simp add: w_def campaigns_ok_history)
  have m: "matches (\<not> list_ex prunesAny ss) (mset ?sent) (mset (map (Some \<circ> rc_userId) ?rs))"
    using exact_history [of ss sz cat] assms(2) by (simp only: w_def exact_def sentTo_rows dueTo_def)
  have "distinct (map recipientKey (pw_recipients w))" using ok by (simp add: campaigns_ok_def)
  then have "distinct (map recipientKey ?rs)" by (simp only: rowsOf_def distinct_concat_filter)
  then have "distinct (map (Some \<circ> rc_userId) ?rs)"
    by (auto simp: distinct_map inj_on_def rowsOf_def recipientKey_def)
  then have "distinct ?sent"
    using m distinct_subset_mset [of ?sent "map (Some \<circ> rc_userId) ?rs"] by (simp only: matches_def)
  with m show ?thesis unfolding matches_def by (intro conjI) simp_all
qed

theorem each_released_recipient_is_mailed_once_witness:
  "\<exists>g. findCampaign (example_world delivered) ''c1'' = Some g
     \<and> distinct (map ob_recipientUserId (campaignRows ''c1'' (cw_state (pw_comm (example_world delivered)))))"
proof -
  obtain g where v: "findCampaign (example_world delivered) ''c1'' = Some g"
    using delivered_campaign by (cases "findCampaign (example_world delivered) ''c1''") auto
  then have mem: "g \<in> set (pw_campaigns (example_world delivered))" "cg_id g = ''c1''"
    using findCampaign_mem by blast+
  from each_released_recipient_is_mailed_once [OF mem(1)]
  have "distinct (map ob_recipientUserId (campaignRows (cg_id g) (cw_state (pw_comm (example_world delivered)))))"
    by (elim conjE)
  then show ?thesis using v mem(2) by simp
qed

subsection \<open>One request, one campaign\<close>

definition sameRequest :: "campaign \<Rightarrow> sender \<Rightarrow> send_input \<Rightarrow> bool" where
  "sameRequest g who inp \<longleftrightarrow>
     cg_idempotencyScope g = idempotencyScopeOf who \<and> cg_idempotencyKey g = si_idempotencyKey inp"

definition replayOf :: "campaign \<Rightarrow> sender \<Rightarrow> send_reply" where
  "replayOf g who =
     (if cg_createdBy g \<noteq> actorOf who then Inl IdempotencyKeyReused
      else Inr \<lparr>ap_campaignId = cg_id g, ap_status = cg_status g, ap_recipientCount = cg_recipientCount g,
                ap_emailCount = cg_expectedEmailCount g, ap_replayed = True\<rparr>)"

lemma findReplay_same:
  assumes "campaigns_ok w" "g \<in> set (pw_campaigns w)" "sameRequest g who inp"
  shows "findReplay who (si_idempotencyKey inp) w = Some (replayOf g who)"
proof -
  have "find_by requestKey (requestKey g) (pw_campaigns w) = Some g"
    using assms(1,2) find_by_distinct [of requestKey "pw_campaigns w" g] by (simp add: campaigns_ok_def)
  moreover have "requestKey g = (idempotencyScopeOf who, si_idempotencyKey inp)"
    using assms(3) by (simp add: sameRequest_def requestKey_def)
  ultimately show ?thesis by (simp add: findReplay_def replayOf_def find_by_def requestKey_def)
qed

text \<open>C38. Once a request has made a campaign, sending it again (the same scope and idempotency key, with
  a channel and well-formed content) answers with that campaign, or refuses a key that is somebody
  else's, and changes nothing. And every copy of it that had passed its checks before and is still
  to be committed writes no campaign and reserves nothing: it is refused or gets the same answer.
  One idempotency key is one campaign and one charge.\<close>
theorem repeated_request_changes_nothing:
  fixes sz cat ss
  defines "w \<equiv> campaignHistory sz cat ss"
  assumes "g \<in> set (pw_campaigns w)" "sameRequest g who inp"
    and "si_chEmail inp \<or> si_chInApp inp" "assertRawContent inp = Inr subject"
  shows "beginSend sz up now i who inp w = (w, Some (replayOf g who))
    \<and> (\<forall>n<length (pw_accepted w).
         sameRequest g (as_sender (pw_accepted w ! n)) (as_input (pw_accepted w ! n)) \<longrightarrow>
           pw_campaigns (fst (commitSend env now n w)) = pw_campaigns w
         \<and> pw_quota (fst (commitSend env now n w)) = pw_quota w
         \<and> (\<exists>reply. snd (commitSend env now n w) = Some reply
              \<and> (isl reply \<or> reply = replayOf g (as_sender (pw_accepted w ! n)))))"
proof -
  have ok: "campaigns_ok w" by (simp add: w_def campaigns_ok_history)
  have begins: "beginSend sz up now i who inp w = (w, Some (replayOf g who))"
    using assms(4,5) findReplay_same [OF ok assms(2,3)] by (auto simp: beginSend_def)
  have "pw_campaigns (fst (commitSend env now n w)) = pw_campaigns w
      \<and> pw_quota (fst (commitSend env now n w)) = pw_quota w
      \<and> (\<exists>reply. snd (commitSend env now n w) = Some reply
           \<and> (isl reply \<or> reply = replayOf g (as_sender (pw_accepted w ! n))))"
    if n: "n < length (pw_accepted w)" and a: "sameRequest g (as_sender (pw_accepted w ! n)) (as_input (pw_accepted w ! n))"
    for n
  proof -
    define a where "a = pw_accepted w ! n"
    have taken: "campaignTaken (newCampaign now a t m p) (removeAccepted n w)" for t m p
      using assms(2) that(2) by (force simp: a_def campaignTaken_def list_ex_iff newCampaign_def Let_def sameRequest_def removeAccepted_def)
    have "\<exists>e. sendTransaction env now a (removeAccepted n w) = Inl e"
      using taken by (auto simp: sendTransaction_def Let_def split: option.split sum.split)
    then obtain e where e: "sendTransaction env now a (removeAccepted n w) = Inl e" by blast
    have replay: "findReplay (as_sender a) (si_idempotencyKey (as_input a)) (removeAccepted n w) = Some (replayOf g (as_sender a))"
      using findReplay_same [OF ok assms(2) that(2)] by (simp add: a_def findReplay_def removeAccepted_def)
    have "commitSend env now n w = (removeAccepted n w,
        Some (if e = UniqueViolation then replayOf g (as_sender a) else Inl e))"
      using n e replay by (cases e) (simp_all add: commitSend_def Let_def a_def [symmetric])
    then show ?thesis by (simp add: removeAccepted_def a_def)
  qed
  with begins show ?thesis by blast
qed

text \<open>Two copies of one request that passed their checks before either was committed.\<close>

definition doubleClick :: "campaign_step list" where
  "doubleClick =
     [SendRequest True 0 ''c1'' academyOwner (hello ''k1''), SendRequest True 0 ''c2'' academyOwner (hello ''k1''),
      SendCommit learnerEnv 0 0]"

lemma doubleClick_view:
  "map (\<lambda>g. sameRequest g academyOwner (hello ''k1'')) (pw_campaigns (example_world doubleClick)) = [True]
   \<and> map as_campaignId (pw_accepted (example_world doubleClick)) = [''c2'']
   \<and> map as_sender (pw_accepted (example_world doubleClick)) = [academyOwner]
   \<and> map as_input (pw_accepted (example_world doubleClick)) = [hello ''k1'']"
  by code_simp

theorem repeated_request_changes_nothing_witness:
  "pw_campaigns (fst (commitSend learnerEnv 1 0 (example_world doubleClick))) = pw_campaigns (example_world doubleClick)
   \<and> fst (beginSend plainText True 1 ''c9'' academyOwner (hello ''k1'') (example_world doubleClick)) = example_world doubleClick"
proof -
  obtain g a where g: "pw_campaigns (example_world doubleClick) = [g]" "sameRequest g academyOwner (hello ''k1'')"
    and a: "pw_accepted (example_world doubleClick) = [a]" "as_sender a = academyOwner" "as_input a = hello ''k1''"
    using doubleClick_view by (auto simp: map_eq_Cons_conv)
  have "assertRawContent (hello ''k1'') = Inr [72, 105]" by code_simp
  then show ?thesis
    using repeated_request_changes_nothing [where sz = plainText and cat = campaignCatalog and ss = doubleClick
        and g = g and who = academyOwner and inp = "hello ''k1''" and subject = "[72, 105]" and up = True
        and now = 1 and i = "''c9''" and env = learnerEnv] g a
    by (simp add: hello_def)
qed

end
