(* ===== verification/Campaign_Expansion.thy ===== *)
theory Campaign_Expansion
  imports Campaign_Guarantees
begin

text \<open>
  The expansion of an audience in keyset pages is the expansion of the whole audience at once, it
  ends, and an academy's audience never leaves the academy; opting out means the same to the
  expansion and to the dispatcher.
\<close>

subsection \<open>The whole audience\<close>

definition audiencePeople :: "audience_db \<Rightarrow> campaign_target \<Rightarrow> account_row list" where
  "audiencePeople db t =
     sort_key us_id (filter (\<lambda>u. List.member (audienceSource db t None) (us_id u) \<and> activeAccount u) (ad_accounts db))"

text \<open>The cursor in the source only prunes what the cursor on the page drops.\<close>

lemma academySource_cursor:
  "u \<in> set (academySource db a academy cursor) \<longleftrightarrow> u \<in> set (academySource db a academy None) \<and> afterCursor cursor u"
  by (cases a) (auto simp: afterCursor_def)

lemma platformSource_cursor:
  "u \<in> set (platformSource db p cursor) \<longleftrightarrow> u \<in> set (platformSource db p None) \<and> afterCursor cursor u"
  by (cases p) (force simp: afterCursor_def)+

lemma audienceSource_cursor:
  "u \<in> set (audienceSource db t cursor) \<longleftrightarrow> u \<in> set (audienceSource db t None) \<and> afterCursor cursor u"
  by (cases t) (simp_all only: audienceSource.simps academySource_cursor [of _ _ _ _ cursor]
      platformSource_cursor [of _ _ _ cursor])

lemma pagePeople_audience:
  "pagePeople db t cursor limit = take limit (filter (\<lambda>u. afterCursor cursor (us_id u)) (audiencePeople db t))"
proof -
  have "filter (\<lambda>u. List.member (audienceSource db t cursor) (us_id u) \<and> activeAccount u \<and> afterCursor cursor (us_id u)) (ad_accounts db)
      = filter (\<lambda>u. (List.member (audienceSource db t None) (us_id u) \<and> activeAccount u) \<and> afterCursor cursor (us_id u)) (ad_accounts db)"
    using audienceSource_cursor [of _ db t cursor] by (intro filter_cong) auto
  then show ?thesis
    by (simp only: pagePeople_def audiencePeople_def filter_sort filter_filter)
qed

lemma audiencePeople_sorted:
  assumes "distinct (map us_id (ad_accounts db))"
  shows "sorted_wrt (<) (map us_id (audiencePeople db t))"
proof -
  have "distinct (map us_id (audiencePeople db t))"
    using assms by (simp add: audiencePeople_def distinct_map) (auto intro: inj_on_subset)
  moreover have "sorted (map us_id (audiencePeople db t))" by (simp add: audiencePeople_def)
  ultimately show ?thesis by (simp add: strict_sorted_iff)
qed

text \<open>What the keyset condition drops is what was read.\<close>

lemma keyset_drop:
  assumes "sorted_wrt (<) (map key ps)" "0 < m" "m \<le> length ps"
  shows "filter (\<lambda>u. key (ps ! (m - 1)) < (key u :: uid)) ps = drop m ps"
proof -
  have lt: "key (ps ! i) < key (ps ! j)" if "i < j" "j < length ps" for i j
    using sorted_wrt_nth_less [OF assms(1), of i j] that by simp
  have "filter (\<lambda>u. key (ps ! (m - 1)) < key u) (take m ps) = []"
  proof (rule filter_False, rule ballI)
    fix u assume "u \<in> set (take m ps)"
    then obtain i where i: "i < m" "u = ps ! i" using assms(3) by (auto simp: in_set_conv_nth)
    then have "i = m - 1 \<or> key (ps ! i) < key (ps ! (m - 1))" using lt [of i "m - 1"] assms by force
    then show "\<not> key (ps ! (m - 1)) < key u" using i by auto
  qed
  moreover have "filter (\<lambda>u. key (ps ! (m - 1)) < key u) (drop m ps) = drop m ps"
  proof (rule filter_True, rule ballI)
    fix u assume "u \<in> set (drop m ps)"
    then obtain i where "i < length ps - m" "u = ps ! (m + i)" by (auto simp: in_set_conv_nth)
    then show "key (ps ! (m - 1)) < key u" using lt [of "m - 1" "m + i"] assms(2) by simp
  qed
  ultimately show ?thesis
    by (metis append_Nil append_take_drop_id filter_append)
qed

subsection \<open>Page by page\<close>

definition budgetAfter :: "int option \<Rightarrow> recipient_row list \<Rightarrow> int option" where
  "budgetAfter b rows = map_option (\<lambda>x. x - int (count_rows rc_emailEligible rows)) b"

lemma decidePage_append:
  "decidePage db t c e b (xs @ ys) =
     decidePage db t c e b xs @ decidePage db t c e (budgetAfter b (decidePage db t c e b xs)) ys"
proof (induction xs arbitrary: b)
  case Nil
  then show ?case by (cases b) (simp_all add: budgetAfter_def count_rows_def)
next
  case (Cons u us)
  have "budgetAfter b (r # rows) = budgetAfter (if rc_emailEligible r then map_option (\<lambda>x. x - 1) b else b) rows"
    for r rows by (cases b) (simp_all add: budgetAfter_def count_rows_def)
  with Cons.IH show ?case by (cases e) (simp_all add: Let_def)
qed

lemma decidePage_keys: "map recipientKey (decidePage db t c e b us) = map (\<lambda>u. (c, us_id u)) us"
  by (induction us arbitrary: b) (auto simp: Let_def recipientKey_def)

lemma length_decidePage [simp]: "length (decidePage db t c e b us) = length us"
  by (induction us arbitrary: b; cases e) (simp_all add: Let_def)

text \<open>The campaign after the first \<open>m\<close> people of its audience.\<close>

definition expandedTo :: "audience_db \<Rightarrow> int option \<Rightarrow> nat \<Rightarrow> uid \<Rightarrow> campaign \<Rightarrow> campaign_world \<Rightarrow> bool" where
  "expandedTo db b m c g w \<longleftrightarrow>
     (let ps = audiencePeople db (cg_target g)
      in m \<le> length ps
         \<and> cg_expansionCursor g = (if m = 0 then None else Some (us_id (ps ! (m - 1))))
         \<and> rowsOf c (pw_recipients w) = decidePage db (cg_target g) c (cg_chEmail g) b (take m ps))"

lemma emailBudget_now:
  assumes "campaigns_ok w" "findCampaign w c = Some g" "stillExpanding (cg_status g)"
  shows "emailBudget g = (if targetScope (cg_target g) = scope_academy \<and> cg_chEmail g
     then Some (cg_quotaReserved g - int (count_rows rc_emailEligible (rowsOf c (pw_recipients w)))) else None)"
proof (cases "targetScope (cg_target g) = scope_academy \<and> cg_chEmail g")
  case True
  have g: "g \<in> set (pw_campaigns w)" "cg_id g = c" using findCampaign_mem [OF assms(2)] by auto
  then have "campaign_ok (rowsOf c (pw_recipients w)) (length (campaignTags c (cw_state (pw_comm w)))) (movesOf (pw_quota w) c) g"
    using campaigns_ok_view [OF assms(1)] by (force simp: view_ok_def viewOf_def)
  then have c: "counters_ok (rowsOf c (pw_recipients w)) g"
    and p: "\<forall>r\<in>set (rowsOf c (pw_recipients w)). rc_emailEligible r \<longleftrightarrow> rc_exclusion r = None"
    and q: "quota_ok (rowsOf c (pw_recipients w)) (movesOf (pw_quota w) c) g"
    using True by (simp_all add: campaign_ok_def progress_ok_def)
  have "quotaOf g \<noteq> None" using quota_okD(11) [OF q] True by simp
  then show ?thesis
    using True c quota_okD(8) [OF q] eligible_count [OF p] by (simp add: emailBudget_def counters_ok_def)
qed (auto simp add: emailBudget_def)

lemma expandPage_next:
  assumes ok: "campaigns_ok w" and g: "findCampaign w c = Some g" "stillExpanding (cg_status g)"
    and to: "expandedTo db b m c g w"
    and b: "b = (if targetScope (cg_target g) = scope_academy \<and> cg_chEmail g then Some (cg_quotaReserved g) else None)"
    and d: "distinct (map us_id (ad_accounts db))"
  defines "ps \<equiv> audiencePeople db (cg_target g)"
  shows "\<exists>w' g'. expandPage db now c w = (w', length ps - m < CAMPAIGN_BATCH_SIZE)
     \<and> findCampaign w' c = Some g' \<and> cg_target g' = cg_target g \<and> cg_chEmail g' = cg_chEmail g
     \<and> cg_quotaReserved g' = cg_quotaReserved g
     \<and> cg_status g' = (if length ps - m < CAMPAIGN_BATCH_SIZE then cs_sending else cs_expanding)
     \<and> expandedTo db b (min (length ps) (m + CAMPAIGN_BATCH_SIZE)) c g' w'"
proof -
  let ?t = "cg_target g" and ?e = "cg_chEmail g"
  define page where "page = take CAMPAIGN_BATCH_SIZE (drop m ps)"
  define rows where "rows = decidePage db ?t c ?e (emailBudget g) page"
  have sorted: "sorted_wrt (<) (map us_id ps)" unfolding ps_def by (rule audiencePeople_sorted [OF d])
  have m: "m \<le> length ps" and cursor: "cg_expansionCursor g = (if m = 0 then None else Some (us_id (ps ! (m - 1))))"
    and so_far: "rowsOf c (pw_recipients w) = decidePage db ?t c ?e b (take m ps)"
    using to by (simp_all add: expandedTo_def Let_def ps_def)
  have people: "pagePeople db ?t (cg_expansionCursor g) CAMPAIGN_BATCH_SIZE = page"
    using keyset_drop [OF sorted _ m] by (simp add: pagePeople_audience ps_def [symmetric] cursor page_def afterCursor_def)
  have budget: "emailBudget g = budgetAfter b (decidePage db ?t c ?e b (take m ps))"
    by (simp add: emailBudget_now [OF ok g] b budgetAfter_def so_far)
  have all: "decidePage db ?t c ?e b (take m ps) @ rows = decidePage db ?t c ?e b (take (m + CAMPAIGN_BATCH_SIZE) ps)"
    by (simp add: rows_def budget page_def take_add decidePage_append)
  have dist: "distinct (map recipientKey (pw_recipients w @ rows))"
  proof -
    have "distinct (map us_id (take (m + CAMPAIGN_BATCH_SIZE) ps))"
      using sorted by (simp add: strict_sorted_iff distinct_map inj_on_def) (meson in_set_takeD)
    then have "distinct (map recipientKey (rowsOf c (pw_recipients w) @ rows))"
      unfolding so_far all decidePage_keys by (simp add: distinct_map inj_on_def)
    moreover have "distinct (map recipientKey (pw_recipients w))" using ok by (simp add: campaigns_ok_def)
    moreover have "recipientKey r \<in> recipientKey ` set (rowsOf c (pw_recipients w))"
      if "r \<in> set (pw_recipients w)" "recipientKey r \<in> recipientKey ` set rows" for r
    proof -
      have "rc_campaignId r = c" using that(2) decidePage_row by (force simp: rows_def recipientKey_def)
      then show ?thesis using that(1) by (simp add: rowsOf_def)
    qed
    ultimately show ?thesis unfolding map_append distinct_append set_map by blast
  qed
  define w' where "w' = fst (expandPage db now c w)"
  define x where "x = \<lparr>xp_pageSize = length page, xp_written = rows,
      xp_lastUserId = (if page = [] then None else Some (us_id (last page)))\<rparr>"
  have page_result: "expandAudiencePage db ?t c (cg_expansionCursor g) CAMPAIGN_BATCH_SIZE ?e (emailBudget g) (pw_recipients w)
      = (pw_recipients w @ rows, x)"
    using insertMissing_all [OF dist] by (simp add: expandAudiencePage_def people Let_def rows_def x_def)
  have res: "expandPage db now c w = (updateCampaign c (expandedCampaign now x) (w\<lparr>pw_recipients := pw_recipients w @ rows\<rparr>),
      length page < CAMPAIGN_BATCH_SIZE)"
    by (simp add: expandPage_def g page_result Let_def expandedCampaign_def [abs_def]) (simp add: x_def)
  have own: "\<forall>r\<in>set rows. rc_campaignId r = c" using decidePage_row by (auto simp: rows_def)
  have last: "(if m = 0 then None else Some (us_id (ps ! (m - 1)))) = cg_expansionCursor g" by (simp add: cursor)
  have size: "length page = min CAMPAIGN_BATCH_SIZE (length ps - m)" by (simp add: page_def)
  have found: "findCampaign (fst (expandPage db now c w)) c = Some (expandedCampaign now x g)"
    using g(1) unfolding res findCampaign_def
    by (simp add: find_by_map expandedCampaign_def) (metis find_by_Some)
  have cur: "cg_expansionCursor (expandedCampaign now x g) =
      (if min (length ps) (m + CAMPAIGN_BATCH_SIZE) = 0 then None
       else Some (us_id (ps ! (min (length ps) (m + CAMPAIGN_BATCH_SIZE) - 1))))"
  proof (cases "page = []")
    case True
    then have "m = length ps" using m by (auto simp: page_def CAMPAIGN_BATCH_SIZE_def)
    then show ?thesis using True cursor by (simp add: expandedCampaign_def x_def)
  next
    case False
    then have "last page = ps ! (min (length ps) (m + CAMPAIGN_BATCH_SIZE) - 1)"
      by (simp add: last_conv_nth page_def min_def)
    moreover have "0 < min (length ps) (m + CAMPAIGN_BATCH_SIZE)" using False by (auto simp: page_def)
    ultimately show ?thesis using False by (simp add: expandedCampaign_def x_def)
  qed
  have keeps: "cg_target (expandedCampaign now x g) = ?t" "cg_chEmail (expandedCampaign now x g) = ?e"
    by (simp_all add: expandedCampaign_def)
  have rows_now: "rowsOf c (pw_recipients (fst (expandPage db now c w))) = decidePage db ?t c ?e b (take (m + CAMPAIGN_BATCH_SIZE) ps)"
    using rowsOf_own [OF own] so_far all by (simp add: res rowsOf_append)
  have prefix: "take (min (length ps) k) ps = take k ps" for k by (cases "k \<le> length ps") auto
  have "expandedTo db b (min (length ps) (m + CAMPAIGN_BATCH_SIZE)) c (expandedCampaign now x g) (fst (expandPage db now c w))"
    unfolding expandedTo_def Let_def keeps ps_def [symmetric] prefix using cur rows_now by simp
  then show ?thesis
    using found res size
    by (intro exI [of _ "fst (expandPage db now c w)"] exI [of _ "expandedCampaign now x g"])
      (auto simp: expandedCampaign_def x_def)
qed

lemma expandPages_all:
  assumes "campaigns_ok w" "findCampaign w c = Some g" "stillExpanding (cg_status g)" "expandedTo db b m c g w"
    and "b = (if targetScope (cg_target g) = scope_academy \<and> cg_chEmail g then Some (cg_quotaReserved g) else None)"
    and d: "distinct (map us_id (ad_accounts db))"
    and "(length (audiencePeople db (cg_target g)) - m) div CAMPAIGN_BATCH_SIZE < n"
  shows "\<exists>w' g'. expandPages (\<lambda>_. db) now c n w = (w', True) \<and> campaigns_ok w' \<and> findCampaign w' c = Some g'
     \<and> cg_status g' = cs_sending
     \<and> rowsOf c (pw_recipients w') = decidePage db (cg_target g) c (cg_chEmail g) b (audiencePeople db (cg_target g))"
  using assms(1-5,7)
proof (induction n arbitrary: m w g)
  case (Suc n)
  let ?ps = "audiencePeople db (cg_target g)"
  let ?last = "length ?ps - m < CAMPAIGN_BATCH_SIZE"
  obtain w' g' where e: "expandPage db now c w = (w', ?last)" and g': "findCampaign w' c = Some g'"
    and keep: "cg_target g' = cg_target g" "cg_chEmail g' = cg_chEmail g" "cg_quotaReserved g' = cg_quotaReserved g"
    and st: "cg_status g' = (if ?last then cs_sending else cs_expanding)"
    and to: "expandedTo db b (min (length ?ps) (m + CAMPAIGN_BATCH_SIZE)) c g' w'"
    using expandPage_next [OF Suc.prems(1-5) d, of now] by blast
  have ok: "campaigns_ok w'" using ok_expand [OF Suc.prems(1), of db now c] e by simp
  show ?case
  proof (cases ?last)
    case True
    then have "min (length ?ps) (m + CAMPAIGN_BATCH_SIZE) = length ?ps" by simp
    then show ?thesis using to e g' st ok True by (auto simp: expandedTo_def Let_def keep)
  next
    case False
    then have "(length ?ps - m) div CAMPAIGN_BATCH_SIZE = Suc ((length ?ps - (m + CAMPAIGN_BATCH_SIZE)) div CAMPAIGN_BATCH_SIZE)"
      using le_div_geq [of CAMPAIGN_BATCH_SIZE "length ?ps - m"] by (simp add: CAMPAIGN_BATCH_SIZE_def)
    then have "(length ?ps - min (length ?ps) (m + CAMPAIGN_BATCH_SIZE)) div CAMPAIGN_BATCH_SIZE < n"
      using Suc.prems(6) by (simp add: min_def)
    moreover have "b = (if targetScope (cg_target g') = scope_academy \<and> cg_chEmail g' then Some (cg_quotaReserved g') else None)"
      using Suc.prems(5) by (simp only: keep)
    ultimately have "\<exists>w'' g''. expandPages (\<lambda>_. db) now c n w' = (w'', True) \<and> campaigns_ok w'' \<and> findCampaign w'' c = Some g''
        \<and> cg_status g'' = cs_sending
        \<and> rowsOf c (pw_recipients w'') = decidePage db (cg_target g) c (cg_chEmail g) b ?ps"
      using Suc.IH [OF ok g' _ to] st False by (simp only: keep stillExpanding_def if_False simp_thms)
    then show ?thesis using e False by simp
  qed
qed simp

text \<open>C35. When nobody's standing changes while a queued campaign is expanded, the pages of 200 end, and
  what they leave behind is the expansion of the whole audience at once, ordered by account: nobody
  is skipped between two pages, nobody is written twice, the quota runs out at the same person, and
  as many people are written as the count that was shown and confirmed.\<close>
theorem paged_expansion_is_the_whole_audience:
  fixes sz cat ss
  defines "w \<equiv> campaignHistory sz cat ss"
  assumes "findCampaign w c = Some g" "cg_status g = cs_queued" "distinct (map us_id (ad_accounts db))"
    and "length (audiencePeople db (cg_target g)) div CAMPAIGN_BATCH_SIZE < n"
  shows "\<exists>w' g'. expandPages (\<lambda>_. db) now c n w = (w', True) \<and> findCampaign w' c = Some g' \<and> cg_status g' = cs_sending
     \<and> rowsOf c (pw_recipients w') = decidePage db (cg_target g) c (cg_chEmail g)
          (if targetScope (cg_target g) = scope_academy \<and> cg_chEmail g then Some (cg_quotaReserved g) else None)
          (audiencePeople db (cg_target g))
     \<and> cg_expandedCount g' = int (an_recipients (countAudience db (cg_target g)))"
proof -
  have ok: "campaigns_ok w" by (simp add: w_def campaigns_ok_history)
  have mem: "g \<in> set (pw_campaigns w)" "cg_id g = c" using findCampaign_mem [OF assms(2)] by auto
  then have "progress_ok (rowsOf c (pw_recipients w)) (length (campaignTags c (cw_state (pw_comm w)))) g"
    using campaigns_ok_view [OF ok] by (force simp: view_ok_def viewOf_def campaign_ok_def)
  then have "expandedTo db b 0 c g w" for b
    using assms(3) by (simp add: expandedTo_def progress_ok_def)
  then obtain w' g' where e: "expandPages (\<lambda>_. db) now c n w = (w', True)" "campaigns_ok w'"
      "findCampaign w' c = Some g'" "cg_status g' = cs_sending"
    and r: "rowsOf c (pw_recipients w') = decidePage db (cg_target g) c (cg_chEmail g)
      (if targetScope (cg_target g) = scope_academy \<and> cg_chEmail g then Some (cg_quotaReserved g) else None)
      (audiencePeople db (cg_target g))"
    using expandPages_all [OF ok assms(2) _ _ refl assms(4), of 0 n now] assms(3,5)
    by (auto simp: stillExpanding_def)
  have "g' \<in> set (pw_campaigns w')" "cg_id g' = c" using findCampaign_mem [OF e(3)] by auto
  then have "counters_ok (rowsOf c (pw_recipients w')) g'"
    using campaigns_ok_view [OF e(2)] by (force simp: view_ok_def viewOf_def campaign_ok_def)
  then have "cg_expandedCount g' = int (length (audiencePeople db (cg_target g)))"
    by (simp add: counters_ok_def r)
  moreover have "length (audiencePeople db t) = an_recipients (countAudience db t)" for t
    by (simp add: audiencePeople_def countAudience_def Let_def)
  ultimately show ?thesis using e(1,3,4) r by auto
qed

text \<open>The example: one page is enough for three learners.\<close>

lemma requested_campaign:
  "(let w = example_world (take 2 released)
    in case findCampaign w ''c1'' of
      None \<Rightarrow> False
    | Some g \<Rightarrow> cg_status g = cs_queued \<and> cg_target g = ToAcademy ''a1'' Learners
         \<and> length (audiencePeople learnerDb (cg_target g)) = 3)"
  by code_simp

theorem paged_expansion_is_the_whole_audience_witness:
  "\<exists>w' g'. expandPages (\<lambda>_. learnerDb) 1 ''c1'' 1 (example_world (take 2 released)) = (w', True)
     \<and> findCampaign w' ''c1'' = Some g'
     \<and> cg_expandedCount g' = int (an_recipients (countAudience learnerDb (ToAcademy ''a1'' Learners)))"
proof -
  obtain g where g: "findCampaign (example_world (take 2 released)) ''c1'' = Some g" "cg_status g = cs_queued"
    "cg_target g = ToAcademy ''a1'' Learners" "length (audiencePeople learnerDb (cg_target g)) = 3"
    using requested_campaign by (auto simp: Let_def split: option.splits)
  have "distinct (map us_id (ad_accounts learnerDb))" by code_simp
  then show ?thesis
    using paged_expansion_is_the_whole_audience [OF g(1,2), of learnerDb 1 1] g(3,4)
    by (auto simp: CAMPAIGN_BATCH_SIZE_def)
qed

subsection \<open>Whom an academy reaches\<close>

text \<open>What the three audiences of an academy mean.\<close>

definition learnerOf :: "audience_db \<Rightarrow> uid \<Rightarrow> uid \<Rightarrow> bool" where
  "learnerOf db a u \<longleftrightarrow> (\<exists>s\<in>set (ad_students db). sd_academyId s = a \<and> sd_userId s = u \<and> activeStudent s)"

fun inAudience :: "audience_db \<Rightarrow> uid \<Rightarrow> academy_audience \<Rightarrow> uid \<Rightarrow> bool" where
  "inAudience db a Learners u \<longleftrightarrow> learnerOf db a u"
| "inAudience db a (InCourses chosen) u \<longleftrightarrow>
     learnerOf db a u
     \<and> (\<exists>e\<in>set (ad_enrollments db). er_academyId e = a \<and> er_studentId e = u \<and> activeEnrollment e
          \<and> er_courseId e \<in> set chosen)"
| "inAudience db a (StaffWithRoles roles) u \<longleftrightarrow>
     (\<exists>m\<in>set (ad_staff db). sf_academyId m = a \<and> sf_userId m = u \<and> sf_status m = ''active'' \<and> sf_role m \<in> set roles)"

lemma academySource_inAudience: "u \<in> set (academySource db aud a None) \<longleftrightarrow> inAudience db a aud u"
  by (cases aud) (auto 4 4 simp: learnerOf_def afterCursor_def list_ex_iff image_iff)

text \<open>A recipient's row comes from a page of its own campaign's audience.\<close>

definition fromPage :: "campaign_step list \<Rightarrow> campaign_world \<Rightarrow> recipient_row \<Rightarrow> bool" where
  "fromPage ss w r \<longleftrightarrow>
     (\<exists>db now. \<exists>g\<in>set (pw_campaigns w). ExpandPage db now (cg_id g) \<in> set ss \<and> cg_id g = rc_campaignId r
        \<and> rc_userId r \<in> us_id ` set (audiencePeople db (cg_target g)))"

text \<open>No step changes what a campaign is sent to; only a page adds recipients.\<close>

definition keepsTargets :: "campaign_world \<Rightarrow> campaign_world \<Rightarrow> bool" where
  "keepsTargets w w' \<longleftrightarrow>
     (\<forall>g\<in>set (pw_campaigns w). \<exists>g'\<in>set (pw_campaigns w'). cg_id g' = cg_id g \<and> cg_target g' = cg_target g)"

lemma updated_keeps:
  assumes "pw_campaigns w' = map (\<lambda>g. if cg_id g = c then f g else g) (pw_campaigns w)"
    and "\<And>g. cg_id (f g) = cg_id g" "\<And>g. cg_target (f g) = cg_target g"
  shows "keepsTargets w w'"
proof -
  have "cg_id (if cg_id g = c then f g else g) = cg_id g \<and> cg_target (if cg_id g = c then f g else g) = cg_target g" for g
    using assms(2,3) by simp
  then show ?thesis unfolding keepsTargets_def assms(1) by (metis (no_types, lifting) image_eqI image_set)
qed

lemma same_keeps: "set (pw_campaigns w) \<subseteq> set (pw_campaigns w') \<Longrightarrow> keepsTargets w w'"
  unfolding keepsTargets_def by blast

lemma expandAudiencePage_users:
  assumes "distinct (map recipientKey t)" "expandAudiencePage db tg c cursor limit emailChannel budget t = (t', page)"
  shows "rc_userId ` set (xp_written page) \<subseteq> us_id ` set (audiencePeople db tg)"
proof -
  let ?rows = "decidePage db tg c emailChannel budget (pagePeople db tg cursor limit)"
  obtain ws where ws: "insertMissing recipientKey ?rows t = (t @ ws, ws)" "set ws \<subseteq> set ?rows"
    using insertMissing_appends [OF assms(1)] by blast
  have "set (pagePeople db tg cursor limit) \<subseteq> set (audiencePeople db tg)"
    unfolding pagePeople_audience by (auto dest: in_set_takeD)
  moreover have "rc_userId ` set ?rows = us_id ` set (pagePeople db tg cursor limit)"
    by (metis decidePage_users image_set)
  moreover have "set (xp_written page) \<subseteq> set ?rows"
    using assms(2) ws by (auto simp: expandAudiencePage_def Let_def split: if_splits)
  ultimately show ?thesis by blast
qed

lemma expandPage_origin:
  fixes db now c
  assumes ok: "campaigns_ok w"
  defines "w' \<equiv> fst (expandPage db now c w)"
  shows "keepsTargets w w' \<and>
    (\<forall>r\<in>set (pw_recipients w'). r \<in> set (pw_recipients w)
       \<or> (\<exists>g\<in>set (pw_campaigns w). cg_id g = c \<and> rc_campaignId r = c
            \<and> rc_userId r \<in> us_id ` set (audiencePeople db (cg_target g))))"
proof (cases "\<exists>g. findCampaign w c = Some g \<and> stillExpanding (cg_status g)")
  case False
  then have "w' = w" by (auto simp: w'_def expandPage_def split: option.split)
  then show ?thesis by (simp add: same_keeps)
next
  case True
  then obtain g where g: "findCampaign w c = Some g" "stillExpanding (cg_status g)" by blast
  obtain t' x where e: "expandAudiencePage db (cg_target g) c (cg_expansionCursor g) CAMPAIGN_BATCH_SIZE
      (cg_chEmail g) (emailBudget g) (pw_recipients w) = (t', x)" by (meson surj_pair)
  have d: "distinct (map recipientKey (pw_recipients w))" using ok by (simp add: campaigns_ok_def)
  define ws where "ws = xp_written x"
  have t': "t' = pw_recipients w @ ws" using expandAudiencePage_appends [OF d e] by (simp add: ws_def)
  have page: "rc_campaignId r = c \<and> rc_userId r \<in> us_id ` set (audiencePeople db (cg_target g))" if "r \<in> set ws" for r
    using that expandAudiencePage_appends [OF d e] expandAudiencePage_users [OF d e] by (auto simp: ws_def)
  from e t' have w': "w' = updateCampaign c (expandedCampaign now x) (w\<lparr>pw_recipients := pw_recipients w @ ws\<rparr>)"
    by (simp add: w'_def expandPage_def g Let_def expandedCampaign_def [abs_def])
  have "keepsTargets w w'"
    by (rule updated_keeps [of _ c "expandedCampaign now x"]) (simp_all add: w' expandedCampaign_def)
  moreover have "pw_recipients w' = pw_recipients w @ ws" by (simp add: w')
  moreover have "g \<in> set (pw_campaigns w) \<and> cg_id g = c" by (rule findCampaign_mem [OF g(1)])
  ultimately show ?thesis using page by (metis Un_iff set_append)
qed

lemma releaseBatch_origin:
  assumes ok: "campaigns_ok w" and r: "releaseBatch now c w = Inr (w', k)"
  shows "keepsTargets w w' \<and> recipientKey ` set (pw_recipients w') = recipientKey ` set (pw_recipients w)"
proof -
  define rows where "rows = take CAMPAIGN_BATCH_SIZE (sort_key rc_userId (awaitingRows c w))"
  show ?thesis
  proof (cases "\<exists>g. findCampaign w c = Some g \<and> cg_status g = cs_sending \<and> rows \<noteq> []")
    case False
    then have "w' = w" using r
      by (auto simp: releaseBatch_def Let_def rows_def [symmetric] split: option.splits if_splits)
    then show ?thesis by (simp add: same_keeps)
  next
    case True
    then obtain g where g: "findCampaign w c = Some g" "cg_status g = cs_sending" "rows \<noteq> []" by blast
    define f where "f = releasedCampaign now (count_rows (getsEmail g) rows) (length rows)"
    from release_result [OF ok g [unfolded rows_def] r, folded rows_def, folded f_def] obtain h where
      cs: "pw_campaigns w' = map (\<lambda>x. if cg_id x = c then f x else x) (pw_campaigns w)"
      and q: "pw_recipients w' = map h (pw_recipients w)"
      and h: "\<And>r. r \<in> set (pw_recipients w) \<Longrightarrow> recipientKey (h r) = recipientKey r"
      by blast
    have "keepsTargets w w'" by (rule updated_keeps [OF cs]) (simp_all add: f_def releasedCampaign_def)
    moreover have "recipientKey ` set (pw_recipients w') = recipientKey ` set (pw_recipients w)"
      unfolding q by (simp add: image_image h cong: image_cong_simp)
    ultimately show ?thesis ..
  qed
qed

lemma fromPageI:
  "g \<in> set (pw_campaigns w) \<Longrightarrow> ExpandPage db now (cg_id g) \<in> set ss \<Longrightarrow> cg_id g = rc_campaignId r
   \<Longrightarrow> rc_userId r \<in> us_id ` set (audiencePeople db (cg_target g)) \<Longrightarrow> fromPage ss w r"
  unfolding fromPage_def by blast

lemma fromPage_kept:
  assumes "fromPage ss w r" "keepsTargets w w'" "recipientKey r' = recipientKey r"
  shows "fromPage (ss @ [st]) w' r'"
proof -
  obtain db now g where g: "g \<in> set (pw_campaigns w)" "ExpandPage db now (cg_id g) \<in> set ss" "cg_id g = rc_campaignId r"
      "rc_userId r \<in> us_id ` set (audiencePeople db (cg_target g))"
    using assms(1) by (auto simp: fromPage_def)
  obtain g' where "g' \<in> set (pw_campaigns w')" "cg_id g' = cg_id g" "cg_target g' = cg_target g"
    using assms(2) g(1) by (auto simp: keepsTargets_def)
  then show ?thesis using g assms(3) fromPageI [of g' w' db now "ss @ [st]" r'] by (simp add: recipientKey_def)
qed

lemma commitSend_keeps:
  "set (pw_campaigns w) \<subseteq> set (pw_campaigns (fst (commitSend env now n w)))
   \<and> pw_recipients (fst (commitSend env now n w)) = pw_recipients w"
  by (auto simp: commitSend_def sendTransaction_def removeAccepted_def Let_def
      split: option.split sum.split send_refusal.split)

lemma settleCampaign_keeps:
  "keepsTargets w (fst (settleCampaign now c w)) \<and> pw_recipients (fst (settleCampaign now c w)) = pw_recipients w"
proof -
  obtain w' outcome where s: "settleCampaign now c w = (w', outcome)" by (meson surj_pair)
  then have "pw_campaigns w' = pw_campaigns w \<or>
      pw_campaigns w' = map (\<lambda>g. if cg_id g = c then completedCampaign now g else g) (pw_campaigns w)"
    and "pw_recipients w' = pw_recipients w"
    using settle_cases [OF s] by (auto split: if_splits)
  then show ?thesis
    by (auto simp: s completedCampaign_def same_keeps intro: updated_keeps [where f = "completedCampaign now"])
qed

lemma step_from_page:
  assumes ok: "campaigns_ok w" and from_page: "\<forall>r\<in>set (pw_recipients w). fromPage ss w r"
    and r': "r' \<in> set (pw_recipients (campaignStep sz cat st w))"
  shows "fromPage (ss @ [st]) (campaignStep sz cat st w) r'"
proof -
  have old: "fromPage (ss @ [st]) v r'"
    if "keepsTargets w v" "recipientKey r' \<in> recipientKey ` set (pw_recipients w)" for v
    using that from_page fromPage_kept by blast
  show ?thesis
  proof (cases st)
    case (ExpandPage db now c)
    note p = expandPage_origin [OF ok, of db now c]
    show ?thesis
    proof (cases "r' \<in> set (pw_recipients w)")
      case True
      then show ?thesis using p by (auto simp: ExpandPage intro: old [unfolded ExpandPage])
    next
      case False
      then obtain g where g: "g \<in> set (pw_campaigns w)" "cg_id g = c" "rc_campaignId r' = c"
          "rc_userId r' \<in> us_id ` set (audiencePeople db (cg_target g))"
        using p r' by (auto simp: ExpandPage)
      obtain g' where "g' \<in> set (pw_campaigns (fst (expandPage db now c w)))" "cg_id g' = cg_id g" "cg_target g' = cg_target g"
        using p g(1) by (auto simp: keepsTargets_def)
      then show ?thesis using g fromPageI [of g' _ db now "ss @ [st]" r'] by (simp add: ExpandPage)
    qed
  next
    case (ReleaseBatch now c)
    show ?thesis
    proof (cases "releaseBatch now c w")
      case (Inl x)
      then show ?thesis using r' old [of w] same_keeps [of w w] by (simp add: ReleaseBatch)
    next
      case (Inr x)
      then obtain w' k where "releaseBatch now c w = Inr (w', k)" by (cases x) simp
      then show ?thesis using r' old [of w'] releaseBatch_origin [OF ok] by (simp add: ReleaseBatch) blast
    qed
  next
    case (SendCommit env now n)
    show ?thesis using r' commitSend_keeps [of w env now n] by (auto simp: SendCommit intro!: old [unfolded SendCommit] same_keeps)
  next
    case (SettleCampaign now c)
    show ?thesis using r' settleCampaign_keeps [of w now c] by (auto simp: SettleCampaign intro: old [unfolded SettleCampaign])
  next
    case (RecordError now c m)
    have "keepsTargets w (recordError now c m w)" 
      by (rule updated_keeps [of _ c "\<lambda>g. g\<lparr>cg_lastError := Some (take 500 m), cg_updatedAt := now\<rparr>"])
        (simp_all add: recordError_def)
    moreover have "pw_recipients (recordError now c m w) = pw_recipients w" by (simp add: recordError_def)
    ultimately show ?thesis using r' old [of "recordError now c m w"] by (simp add: RecordError)
  next
    case (SendRequest up now i who inp)
    then show ?thesis using r' old same_keeps by (simp add: beginSend_frame)
  next
    case (Communication cst)
    then show ?thesis using r' old same_keeps by simp
  qed
qed

lemma recipients_from_pages:
  "\<forall>r\<in>set (pw_recipients (campaignHistory sz cat ss)). fromPage ss (campaignHistory sz cat ss) r"
proof (induction ss rule: rev_induct)
  case Nil
  then show ?case by (simp add: emptyCampaigns_def)
next
  case (snoc st ss)
  then show ?case using step_from_page [OF campaigns_ok_history] by auto
qed

text \<open>C36. In any history, everybody a message of an academy is expanded to had, when the page was read, an
  account that is active and has a real address, and stood in that very academy as the message's
  audience says: an active learner who is not blocked, with an active enrollment in a chosen course
  of that academy where courses were chosen, or an active member of its staff with a chosen role.
  No recipient of one academy's message comes from another academy.\<close>
theorem academy_mail_stays_in_the_academy:
  fixes sz cat ss
  defines "w \<equiv> campaignHistory sz cat ss"
  assumes "g \<in> set (pw_campaigns w)" "cg_target g = ToAcademy a aud"
    and "r \<in> set (pw_recipients w)" "rc_campaignId r = cg_id g"
  shows "\<exists>db now u. ExpandPage db now (cg_id g) \<in> set ss \<and> u \<in> set (ad_accounts db) \<and> us_id u = rc_userId r
           \<and> activeAccount u \<and> inAudience db a aud (us_id u)"
proof -
  have ok: "campaigns_ok w" by (simp add: w_def campaigns_ok_history)
  have "fromPage ss w r" using recipients_from_pages [of sz cat ss] assms(4) by (simp add: w_def)
  then obtain db now g' where g': "g' \<in> set (pw_campaigns w)" "ExpandPage db now (cg_id g') \<in> set ss"
      "cg_id g' = rc_campaignId r" "rc_userId r \<in> us_id ` set (audiencePeople db (cg_target g'))"
    by (auto simp: fromPage_def)
  have "distinct (map cg_id (pw_campaigns w))" using ok by (simp add: campaigns_ok_def)
  then have "g' = g" using distinct_keys_unique [of cg_id] g'(1,3) assms(2,5) by metis
  then obtain u where u: "u \<in> set (audiencePeople db (ToAcademy a aud))" "us_id u = rc_userId r"
    using g'(4) assms(3) by auto
  then have "us_id u \<in> set (academySource db aud a None)" "activeAccount u" "u \<in> set (ad_accounts db)"
    by (auto simp: audiencePeople_def)
  then show ?thesis
    using u(2) g'(2) \<open>g' = g\<close> academySource_inAudience [of "us_id u" db aud a] by blast
qed

lemma released_learner:
  "(let w = example_world released
    in map (\<lambda>g. (cg_id g, cg_target g)) (pw_campaigns w) = [(''c1'', ToAcademy ''a1'' Learners)]
       \<and> map recipientKey (pw_recipients w) = [(''c1'', ''u1''), (''c1'', ''u2''), (''c1'', ''u3'')])"
  by code_simp

theorem academy_mail_stays_in_the_academy_witness:
  "\<exists>db now u. ExpandPage db now ''c1'' \<in> set released \<and> u \<in> set (ad_accounts db) \<and> us_id u = ''u1''
     \<and> inAudience db ''a1'' Learners ''u1''"
proof -
  obtain g where g: "pw_campaigns (example_world released) = [g]" "cg_id g = ''c1''" "cg_target g = ToAcademy ''a1'' Learners"
    using released_learner by (auto simp: Let_def map_eq_Cons_conv)
  obtain r rs where r: "pw_recipients (example_world released) = r # rs" "rc_campaignId r = ''c1''" "rc_userId r = ''u1''"
    using released_learner by (auto simp: Let_def map_eq_Cons_conv recipientKey_def)
  have "\<exists>db now u. ExpandPage db now ''c1'' \<in> set released \<and> u \<in> set (ad_accounts db) \<and> us_id u = ''u1''
      \<and> activeAccount u \<and> inAudience db ''a1'' Learners (us_id u)"
    using academy_mail_stays_in_the_academy [of g plainText campaignCatalog released "''a1''" Learners r] g r by simp
  then show ?thesis by metis
qed

subsection \<open>Opting out\<close>

text \<open>C39. The expansion's SQL for opting out says of every stored preference exactly what the dispatcher's
  gate later says of the resolved one, for both kinds of campaign: nobody's reservation is spent on
  a mail the dispatcher would drop, and nobody who would have been mailed is left out.\<close>
theorem opting_out_is_the_dispatchers_gate:
  "optedOutSql scope p \<longleftrightarrow>
     preferenceGate (ce_category (campaignEntry scope)) em_preference
       (resolveCommunicationPreferences p (scope = scope_platform \<or> isStaff)) = None"
  by (cases scope; cases "sp_engagementEmail p"; cases "sp_operationalEmail p")
    (auto simp: optedOutSql_def preferenceGate_def resolveCommunicationPreferences_def Let_def orElse_def)

end
