(* ===== verification/Campaign_Findings.thy ===== *)
theory Campaign_Findings
  imports Campaign_Expansion
begin

text \<open>
  Three things campaigns do that their comments do not say: a unit is given back for mail that was
  delivered, the tick never gets past campaigns that wait for their mail, and the loser of a race
  is told that the quota is exceeded although its message was sent.
\<close>

subsection \<open>Refunded, and delivered\<close>

text \<open>
  Two workers and the mail of \<open>u1\<close>: the first one's send takes longer than its lease, the second one's
  last attempt is refused and the campaign is settled; then the first one's send is accepted.
\<close>

definition lateAcceptance :: "campaign_step list" where
  "lateAcceptance = released @
     [Communication (Begin campaignEnv 3 0), Communication (Begin campaignEnv 700000 0),
      Communication (Finish True 700001 \<lparr>da_made = 5, da_max = 6\<rparr> 1 (SendError ''refused'')),
      Communication (Begin campaignEnv 700002 1),
      Communication (Finish True 700003 \<lparr>da_made = 0, da_max = 6\<rparr> 1 SendAccepted),
      SettleCampaign 700004 ''c1'',
      Communication (Finish True 700005 \<lparr>da_made = 0, da_max = 6\<rparr> 0 SendAccepted)]"

theorem refunded_mail_was_delivered:
  "(let w = example_world lateAcceptance
    in (map (\<lambda>r. (ob_recipientUserId r, ob_state r)) (cm_outbox (cw_state (pw_comm w))),
        map (\<lambda>m. (um_kind m, um_quantity m)) (qt_ledger (pw_quota w)),
        usedIn (pw_quota w) marchPeriod, map cg_status (pw_campaigns w))) =
   ([(Some ''u1'', ob_dispatched), (Some ''u2'', ob_dispatched)], [(lk_charge, 2), (lk_refund, 1)], 1, [cs_completed])"
  by code_simp

subsection \<open>A race at the end of the quota\<close>

text \<open>The subscription of an academy that may mail two people a month.\<close>

definition smallSubscription :: quota_subscription where
  "smallSubscription =
     \<lparr>qb_grantedLimits = DbNull, qb_planLimits = (\<lambda>_. None)(monthlyEmails \<mapsto> Limited 2),
      qb_planFeatures = (\<lambda>_. None), qb_addOns = []\<rparr>"

definition smallEnv :: send_env where
  "smallEnv = learnerEnv\<lparr>sv_subscription := (\<lambda>_. Some smallSubscription)\<rparr>"

definition tightDoubleClick :: "campaign_step list" where
  "tightDoubleClick =
     [SendRequest True 0 ''c1'' academyOwner (hello ''k1''), SendRequest True 0 ''c2'' academyOwner (hello ''k1''),
      SendCommit smallEnv 0 0]"

theorem race_loser_is_refused:
  "map cg_id (pw_campaigns (example_world tightDoubleClick)) = [''c1'']
   \<and> (case snd (commitSend smallEnv 0 0 (example_world tightDoubleClick)) of
        Some (Inl (QuotaExceeded _)) \<Rightarrow> True | _ \<Rightarrow> False)
   \<and> (case snd (commitSend learnerEnv 0 0 (example_world doubleClick)) of
        Some (Inr reply) \<Rightarrow> ap_campaignId reply = ''c1'' \<and> ap_replayed reply | _ \<Rightarrow> False)"
  by code_simp

subsection \<open>The tick looks at the same twenty\<close>

definition waitsForMail :: "campaign_world \<Rightarrow> campaign \<Rightarrow> bool" where
  "waitsForMail w g \<longleftrightarrow>
     cg_status g = cs_sending \<and> awaitingRows (cg_id g) w = [] \<and> 0 < openRows (cg_id g) (cw_state (pw_comm w))"

definition sameButQuota :: "campaign_world \<Rightarrow> campaign_world \<Rightarrow> bool" where
  "sameButQuota w w' \<longleftrightarrow>
     pw_campaigns w' = pw_campaigns w \<and> pw_recipients w' = pw_recipients w \<and> pw_comm w' = pw_comm w"

lemma run_waiting:
  assumes "findCampaign w c = Some g" "waitsForMail w g"
  obtains q where "runCampaign owner dbs now c w = (w\<lparr>pw_quota := q\<rparr>, Some (if owner then run_sending else run_idle))"
proof (cases owner)
  case True
  have c: "cg_id g = c" using findCampaign_mem [OF assms(1)] by blast
  have "releaseBatch now c w = Inr (w, 0)"
    using assms by (simp add: releaseBatch_def waitsForMail_def c)
  then have r: "releaseBatches now c 0 w = (w, True)"
    by (subst releaseBatches.simps) (simp add: CAMPAIGN_BATCH_SIZE_def)
  obtain q where "settleCampaign now c w = (w\<lparr>pw_quota := q\<rparr>, run_sending)"
    using assms(2) by (auto simp: settleCampaign_def assms(1) waitsForMail_def openRows_def c Let_def)
  then have "runCampaign owner dbs now c w = (w\<lparr>pw_quota := q\<rparr>, Some run_sending)"
    using assms(2) True
    by (simp add: runCampaign_def assms(1) waitsForMail_def isActiveStatus_def stillExpanding_def r)
  then show ?thesis using that True by simp
next
  case False
  then show ?thesis using that [of "pw_quota w"] by (simp add: runCampaign_def)
qed

lemma oldest_first:
  fixes f :: "'a \<Rightarrow> int"
  assumes "n \<le> length (filter (\<lambda>x. f x < k) xs)" "x \<in> set (take n (sort_key f xs))"
  shows "f x < k"
proof (rule ccontr)
  assume no: "\<not> f x < k"
  let ?s = "sort_key f xs"
  obtain i where i: "i < n" "i < length ?s" "x = ?s ! i" using assms(2) by (auto simp: in_set_conv_nth)
  have "\<not> f y < k" if y: "y \<in> set (drop i ?s)" for y
  proof -
    obtain j where "j < length (drop i ?s)" "y = drop i ?s ! j" using y unfolding in_set_conv_nth by blast
    then have "y = ?s ! (i + j)" "i + j < length ?s" using i(2) by simp_all
    then have "f x \<le> f y" using sorted_nth_mono [of "map f ?s" i "i + j"] i by simp
    then show ?thesis using no by simp
  qed
  then have "filter (\<lambda>x. f x < k) (drop i ?s) = []" by (simp add: filter_empty_conv)
  then have "length (filter (\<lambda>x. f x < k) ?s) \<le> i"
    by (metis append.right_neutral append_take_drop_id filter_append le_trans length_filter_le length_take min.cobounded2)
  moreover have "length (filter (\<lambda>x. f x < k) ?s) = length (filter (\<lambda>x. f x < k) xs)"
    by (simp add: filter_sort)
  ultimately show False using assms(1) i(1) by simp
qed

text \<open>C40. As long as twenty campaigns that were touched less recently wait for their mail (a daily digest
  waits a day), the tick reads those twenty and changes nothing about any campaign, so their time of
  update stays what it was and the next tick reads them again: a campaign that was touched later is
  never expanded, released or completed by the tick.\<close>
theorem tick_starves_later_campaigns:
  assumes d: "distinct (map cg_id (pw_campaigns w))" and g: "g \<in> set (pw_campaigns w)"
    and older: "CAMPAIGN_TICK_BATCH \<le> length (filter (\<lambda>x. isActiveStatus (cg_status x) \<and> cg_updatedAt x < cg_updatedAt g) (pw_campaigns w))"
    and waits: "\<And>x. x \<in> set (pw_campaigns w) \<Longrightarrow> isActiveStatus (cg_status x) \<Longrightarrow> cg_updatedAt x < cg_updatedAt g
                  \<Longrightarrow> waitsForMail w x"
  shows "cg_id g \<notin> set (tickBatch w) \<and> sameButQuota w (fst (tickCampaigns owner dbs now m w))"
proof -
  have batch: "\<exists>x. findCampaign w c = Some x \<and> waitsForMail w x \<and> cg_updatedAt x < cg_updatedAt g"
    if c: "c \<in> set (tickBatch w)" for c
  proof -
    obtain x where x: "c = cg_id x"
      "x \<in> set (take CAMPAIGN_TICK_BATCH (sort_key cg_updatedAt (filter (\<lambda>g. isActiveStatus (cg_status g)) (pw_campaigns w))))"
      using c unfolding tickBatch_def set_map by blast
    have "x \<in> set (pw_campaigns w)" "isActiveStatus (cg_status x)" using in_set_takeD [OF x(2)] by auto
    moreover have "cg_updatedAt x < cg_updatedAt g"
      using oldest_first [OF _ x(2), of "cg_updatedAt g"] older by (simp add: conj_commute)
    ultimately show ?thesis
      using waits find_by_distinct [OF d] by (auto simp: findCampaign_def x(1))
  qed
  have "cg_id g \<notin> set (tickBatch w)"
    using batch [of "cg_id g"] find_by_distinct [OF d g] by (auto simp: findCampaign_def)
  moreover have "sameButQuota w (fst (tickCampaigns owner dbs now m w))"
  proof -
    define f where "f = (\<lambda>c w. case runCampaign owner (dbs c) now c w of
        (w', Some _) \<Rightarrow> w' | (w', None) \<Rightarrow> recordError now c m w')"
    have step: "sameButQuota w (f c v)" if v: "sameButQuota w v" "c \<in> set (tickBatch w)" for c v
    proof -
      obtain x where "findCampaign v c = Some x" "waitsForMail v x"
        using batch [OF v(2)] v(1)
        by (auto simp: sameButQuota_def findCampaign_def waitsForMail_def awaitingRows_def)
      then obtain q where "runCampaign owner (dbs c) now c v = (v\<lparr>pw_quota := q\<rparr>, Some (if owner then run_sending else run_idle))"
        by (rule run_waiting)
      then show ?thesis using v(1) by (simp add: f_def sameButQuota_def)
    qed
    have "sameButQuota w (fold f cs v)" if "sameButQuota w v" "set cs \<subseteq> set (tickBatch w)" for cs v
      using that step by (induction cs arbitrary: v) auto
    then show ?thesis
      unfolding tickCampaigns_def f_def [symmetric] by (simp add: sameButQuota_def)
  qed
  ultimately show ?thesis ..
qed

text \<open>Twenty-one campaigns: twenty wait for one mail each, the last one is still queued.\<close>

definition quietCampaign :: "nat \<Rightarrow> campaign" where
  "quietCampaign i =
     \<lparr>cg_id = replicate i CHR ''i'', cg_target = ToPlatform OrgOwners, cg_organizationId = None, cg_createdBy = ''o'',
      cg_idempotencyScope = ''platform'', cg_idempotencyKey = replicate i CHR ''k'', cg_chEmail = True, cg_chInApp = False,
      cg_subject = [72], cg_bodyHtml = [72], cg_bodyText = [72],
      cg_status = (if i < 20 then cs_sending else cs_queued), cg_recipientCount = 1, cg_expectedEmailCount = 1,
      cg_expansionCursor = None, cg_expandedCount = 1, cg_emailReleasedCount = 1, cg_inAppReleasedCount = 0,
      cg_excludedOptedOut = 0, cg_excludedSuppressed = 0, cg_excludedQuota = 0, cg_quotaPeriodStart = None,
      cg_quotaReserved = 0, cg_largeAudienceConfirmed = False, cg_lastError = None, cg_startedAt = None,
      cg_completedAt = None, cg_updatedAt = int i\<rparr>"

definition quietRow :: "nat \<Rightarrow> outbox_row" where
  "quietRow i = (campaignOutboxRow 0 (quietCampaign i) ''u1'')\<lparr>ob_id := i\<rparr>"

definition busyWorld :: campaign_world where
  "busyWorld = emptyCampaigns
     \<lparr>pw_campaigns := map quietCampaign [0..<21],
      pw_comm := emptyComm\<lparr>cw_state := (cw_state emptyComm)\<lparr>cm_outbox := map quietRow [0..<20]\<rparr>\<rparr>\<rparr>"

lemma busy_ids: "distinct (map cg_id (pw_campaigns busyWorld))"
  by (simp add: busyWorld_def distinct_map inj_on_def quietCampaign_def)

lemma busy_waits:
  assumes "i < 20"
  shows "waitsForMail busyWorld (quietCampaign i)"
proof -
  have "quietRow i \<in> set (cm_outbox (cw_state (pw_comm busyWorld)))"
    using assms by (simp add: busyWorld_def)
  moreover have "waiting (quietRow i)" "ob_campaignId (quietRow i) = Some (cg_id (quietCampaign i))"
    by (simp_all add: quietRow_def campaignOutboxRow_def waiting_def pendingRow_def Let_def)
  ultimately have "0 < openRows (cg_id (quietCampaign i)) (cw_state (pw_comm busyWorld))"
    by (force simp: openRows_def count_rows_def campaignRows_def filter_empty_conv)
  moreover have "pw_recipients busyWorld = []" by (simp add: busyWorld_def emptyCampaigns_def)
  ultimately show ?thesis
    using assms by (simp add: waitsForMail_def awaitingRows_def) (simp add: quietCampaign_def)
qed

theorem tick_starves_later_campaigns_witness:
  "cg_id (quietCampaign 20) \<notin> set (tickBatch busyWorld)
   \<and> cg_status (quietCampaign 20) = cs_queued \<and> quietCampaign 20 \<in> set (pw_campaigns busyWorld)"
proof -
  have mem: "quietCampaign 20 \<in> set (pw_campaigns busyWorld)" by (auto simp: busyWorld_def)
  have "isActiveStatus (cg_status (quietCampaign i)) \<and> cg_updatedAt (quietCampaign i) < cg_updatedAt (quietCampaign 20)
      \<longleftrightarrow> i < 20" for i
    by (auto simp: quietCampaign_def isActiveStatus_def)
  then have "length (filter (\<lambda>x. isActiveStatus (cg_status x) \<and> cg_updatedAt x < cg_updatedAt (quietCampaign 20))
      (pw_campaigns busyWorld)) = length (filter (\<lambda>i. i < 20) [0..<21])"
    by (simp add: busyWorld_def filter_map comp_def)
  then have older: "CAMPAIGN_TICK_BATCH \<le> length (filter (\<lambda>x. isActiveStatus (cg_status x)
      \<and> cg_updatedAt x < cg_updatedAt (quietCampaign 20)) (pw_campaigns busyWorld))"
    by (simp add: CAMPAIGN_TICK_BATCH_def upt_rec)
  have "waitsForMail busyWorld x" if x: "x \<in> set (pw_campaigns busyWorld)" "cg_updatedAt x < cg_updatedAt (quietCampaign 20)" for x
  proof -
    obtain i where i: "x = quietCampaign i" using x(1) by (auto simp: busyWorld_def)
    then have "i < 20" using x(2) by (simp add: quietCampaign_def)
    then show ?thesis unfolding i by (rule busy_waits)
  qed
  then show ?thesis
    using tick_starves_later_campaigns [OF busy_ids mem older, of True undefined 0 "[]"] mem
    by (simp add: quietCampaign_def)
qed

end
