(* ===== verification/Campaign_Preview.thy ===== *)
theory Campaign_Preview
  imports Campaign_Expansion
begin

text \<open>
  The preview of the composer (\<open>preview\<close> and \<open>quotaView\<close> of \<open>communication-campaign.service.ts\<close>) and
  what it promises about the send that follows it.
\<close>

subsection \<open>The preview\<close>

record campaign_preview =
  pv_recipientCount :: nat
  pv_emailCount :: nat
  pv_inAppCount :: nat
  pv_optedOut :: nat
  pv_suppressed :: nat
  pv_blocked :: nat
  pv_pending :: nat
  pv_requiresConfirmation :: bool
  pv_quota :: "quota_view option"
  pv_overBy :: int

definition CAMPAIGN_PREVIEW_RATE :: "nat \<times> int" where "CAMPAIGN_PREVIEW_RATE = (60, 60)"

fun previewQuota :: "send_env \<Rightarrow> instant \<Rightarrow> sender \<Rightarrow> quota_state \<Rightarrow> quota_view option" where
  "previewQuota env now (PlatformSender _) q = None"
| "previewQuota env now (AcademySender _ academyId org _) q =
     Some (viewQuota (limitFor org (sv_subscription env org)) academyId now q)"

fun inactiveLearners :: "audience_db \<Rightarrow> campaign_target \<Rightarrow> nat \<times> nat" where
  "inactiveLearners db (ToPlatform _) = (0, 0)"
| "inactiveLearners db (ToAcademy academyId a) = countInactiveLearners db a academyId"

definition overBy :: "nat \<Rightarrow> quota_view option \<Rightarrow> int" where
  "overBy emails quota =
     (case quota of
        None \<Rightarrow> 0
      | Some v \<Rightarrow> (case qv_remaining v of None \<Rightarrow> 0 | Some r \<Rightarrow> max 0 (int emails - r)))"

definition previewOf :: "send_env \<Rightarrow> instant \<Rightarrow> sender \<Rightarrow> campaign_target \<Rightarrow> send_input \<Rightarrow> quota_state \<Rightarrow> campaign_preview" where
  "previewOf env now who t inp q =
     (let db = sv_db env; c = countAudience db t; n = countFor db t inp;
          inactive = inactiveLearners db t; quota = previewQuota env now who q
      in \<lparr>pv_recipientCount = ca_recipientCount n, pv_emailCount = ca_emailCount n,
          pv_inAppCount = (if si_chInApp inp then an_recipients c else 0),
          pv_optedOut = (if si_chEmail inp then an_optedOut c else 0),
          pv_suppressed = (if si_chEmail inp then an_suppressed c else 0),
          pv_blocked = fst inactive, pv_pending = snd inactive,
          pv_requiresConfirmation = (CAMPAIGN_LARGE_AUDIENCE \<le> int (ca_recipientCount n)),
          pv_quota = quota, pv_overBy = overBy (ca_emailCount n) quota\<rparr>)"

text \<open>Of the request a preview reads the audience and the channels only.\<close>

definition previewCampaign ::
  "send_env \<Rightarrow> bool \<Rightarrow> instant \<Rightarrow> sender \<Rightarrow> send_input \<Rightarrow> campaign_world \<Rightarrow> campaign_world \<times> (send_refusal + campaign_preview)" where
  "previewCampaign env redisUp now who inp w =
     (if \<not> si_chEmail inp \<and> \<not> si_chInApp inp then (w, Inl NoChannel)
      else
        (case rateLimit redisUp now (''campaign:preview:'' @ actorOf who) (fst CAMPAIGN_PREVIEW_RATE)
                (snd CAMPAIGN_PREVIEW_RATE) w of
           (w1, Some wait) \<Rightarrow> (w1, Inl (RateLimited wait))
         | (w1, None) \<Rightarrow>
             (w1, case targetOf who (si_audience inp) of
                None \<Rightarrow> Inl InvalidAudience
              | Some t \<Rightarrow>
                  (case assertAudienceInScope (sv_db env) t of
                     Some e \<Rightarrow> Inl e
                   | None \<Rightarrow> Inr (previewOf env now who t inp (pw_quota w1))))))"

subsection \<open>What it promises\<close>

lemma reserve_exactly:
  assumes books: "books_ok q" "\<not> moved q message lk_charge"
  shows "(\<exists>q' v. reserveQuota limit academy message quantity now q = Inr (q', v)) \<longleftrightarrow>
    quantity \<le> 0 \<or> (case limit of None \<Rightarrow> True
      | Some l \<Rightarrow> usedIn q (academy, ur_start (emailUsagePeriod now)) + quantity \<le> l)"
proof (cases "reserveQuota limit academy message quantity now q")
  case (Inl x)
  then show ?thesis using reserve_refused [OF books(1) Inl] by auto
next
  case (Inr y)
  then obtain q' v where r: "reserveQuota limit academy message quantity now q = Inr (q', v)" by (cases y) simp
  then show ?thesis using reserve_accepted [OF books r] by (auto split: option.split)
qed

lemma overBy_reserve:
  assumes books: "books_ok q" "\<not> moved q (as_campaignId a) lk_charge"
    and month: "emailUsagePeriod later = emailUsagePeriod now"
  shows "(\<exists>r. reserveFor env later a (int n) q = Inr r) \<longleftrightarrow> overBy n (previewQuota env now (as_sender a) q) = 0"
proof (cases "as_sender a")
  case (PlatformSender u)
  then show ?thesis by (simp add: reserveFor_def overBy_def)
next
  case (AcademySender u academy org rl)
  let ?l = "limitFor org (sv_subscription env org)"
  have "(\<exists>r. reserveFor env later a (int n) q = Inr r) \<longleftrightarrow>
      (\<exists>q' v. reserveQuota ?l academy (as_campaignId a) (int n) later q = Inr (q', v))"
    by (auto simp: reserveFor_def AcademySender split: sum.split)
  also have "\<dots> \<longleftrightarrow> overBy n (previewQuota env now (as_sender a) q) = 0"
    unfolding reserve_exactly [OF books] month
    by (auto simp: AcademySender overBy_def viewQuota_def toQuotaView_def Let_def split: option.split)
  finally show ?thesis .
qed

text \<open>C37. What the composer shows is what the transaction of the send does. If nothing changes in between
  but the clock within the month, the send carries a new idempotency key and confirms the number of
  people the preview showed, then: nobody shown is refused as no recipients; an audience whose size
  the preview asked to confirm and that is not confirmed is refused for that; otherwise the send is
  accepted, with the previewed numbers of people and emails, exactly when the preview said that no
  email is over the quota, and is refused for the quota if not. (The content, the channels and the
  rate limit are checked before the transaction.)\<close>
theorem preview_predicts_send:
  fixes sz cat ss
  defines "w \<equiv> campaignHistory sz cat ss"
  assumes v: "previewCampaign env up now (as_sender a) inp w = (w1, Inr v)"
    and inp: "as_input a = inp\<lparr>si_expectedRecipientCount := pv_recipientCount v, si_confirmLargeAudience := sure\<rparr>"
    and fresh: "\<And>g. g \<in> set (pw_campaigns w) \<Longrightarrow> cg_id g \<noteq> as_campaignId a \<and>
          \<not> (cg_idempotencyScope g = idempotencyScopeOf (as_sender a) \<and> cg_idempotencyKey g = si_idempotencyKey inp)"
    and month: "emailUsagePeriod later = emailUsagePeriod now"
  shows "if pv_recipientCount v = 0 then sendTransaction env later a w = Inl NoRecipients
         else if pv_requiresConfirmation v \<and> \<not> sure
         then sendTransaction env later a w = Inl (ConfirmationRequired (pv_recipientCount v))
         else if pv_overBy v = 0
         then \<exists>w' reply. sendTransaction env later a w = Inr (w', reply)
                \<and> ap_recipientCount reply = int (pv_recipientCount v) \<and> ap_emailCount reply = int (pv_emailCount v)
         else \<exists>x. sendTransaction env later a w = Inl (QuotaExceeded x) \<and> qx_requested x = int (pv_emailCount v)"
proof -
  have ok: "campaigns_ok w" by (simp add: w_def campaigns_ok_history)
  obtain t where t: "targetOf (as_sender a) (si_audience inp) = Some t" "assertAudienceInScope (sv_db env) t = None"
      "v = previewOf env now (as_sender a) t inp (pw_quota w)"
    using v by (auto simp: previewCampaign_def rateLimit_def Let_def split: if_splits option.splits prod.splits)
  have n: "countFor (sv_db env) t (as_input a) = countFor (sv_db env) t inp"
    by (simp add: countFor_def inp)
  have pv: "pv_recipientCount v = ca_recipientCount (countFor (sv_db env) t inp)"
      "pv_emailCount v = ca_emailCount (countFor (sv_db env) t inp)"
      "pv_requiresConfirmation v \<longleftrightarrow> CAMPAIGN_LARGE_AUDIENCE \<le> int (pv_recipientCount v)"
      "pv_overBy v = overBy (pv_emailCount v) (previewQuota env now (as_sender a) (pw_quota w))"
    unfolding t(3) previewOf_def Let_def by (simp_all only: campaign_preview.select_convs)
  have "as_campaignId a \<notin> cg_id ` set (pw_campaigns w)" using fresh by fastforce
  note fresh_charge = new_uncharged [OF ok this]
  note exact = overBy_reserve [OF fresh_charge month, of env "pv_emailCount v", folded pv(4)]
  have free: "\<not> campaignTaken (newCampaign later a t m p) w" for m p
    using fresh by (auto simp: campaignTaken_def list_ex_iff newCampaign_def Let_def inp)
  have tx: "sendTransaction env later a w =
      (if pv_recipientCount v = 0 then Inl NoRecipients
       else if pv_requiresConfirmation v \<and> \<not> sure then Inl (ConfirmationRequired (pv_recipientCount v))
       else case reserveFor env later a (int (pv_emailCount v)) (pw_quota w) of
         Inl x \<Rightarrow> Inl (QuotaExceeded x)
       | Inr (q, p) \<Rightarrow> (let g = newCampaign later a t (countFor (sv_db env) t inp) p
            in Inr (w\<lparr>pw_quota := q, pw_campaigns := pw_campaigns w @ [g]\<rparr>,
               \<lparr>ap_campaignId = cg_id g, ap_status = cs_queued, ap_recipientCount = cg_recipientCount g,
                ap_emailCount = cg_expectedEmailCount g, ap_replayed = False\<rparr>)))"
  proof -
    have who: "targetOf (as_sender a) (si_audience (as_input a)) = Some t" using t(1) by (simp add: inp)
    have as_shown: "si_expectedRecipientCount (as_input a) = pv_recipientCount v" "si_confirmLargeAudience (as_input a) = sure"
      by (simp_all add: inp)
    show ?thesis
      unfolding sendTransaction_def who t(2) option.case n Let_def pv(1) [symmetric] pv(2) [symmetric] as_shown
      by (simp only: free pv(3) simp_thms if_False)
  qed
  show ?thesis
  proof (cases "pv_overBy v = 0")
    case True
    then obtain q p where "reserveFor env later a (int (pv_emailCount v)) (pw_quota w) = Inr (q, p)"
      using exact by auto
    then show ?thesis using True by (simp add: tx Let_def newCampaign_def pv(1,2))
  next
    case False
    then obtain x where x: "reserveFor env later a (int (pv_emailCount v)) (pw_quota w) = Inl x"
      using exact by (cases "reserveFor env later a (int (pv_emailCount v)) (pw_quota w)") auto
    then have "qx_requested x = int (pv_emailCount v)"
      by (auto simp: reserveFor_def reserveQuota_def Let_def split: sender.splits sum.splits if_splits prod.splits)
    then show ?thesis using False by (simp add: tx x)
  qed
qed

text \<open>The first message of an academy with three learners, one of whom opted out.\<close>

definition firstSend :: accepted_send where
  "firstSend =
     \<lparr>as_campaignId = ''c1'', as_sender = academyOwner,
      as_input = (hello ''k1'')\<lparr>si_expectedRecipientCount := 3, si_confirmLargeAudience := False\<rparr>,
      as_subject = [72, 105], as_html = [72, 105], as_text = [72, 105]\<rparr>"

lemma first_preview:
  "case snd (previewCampaign learnerEnv True 0 academyOwner (hello ''k1'') (example_world [])) of
     Inl _ \<Rightarrow> False
   | Inr v \<Rightarrow> pv_recipientCount v = 3 \<and> pv_emailCount v = 2 \<and> \<not> pv_requiresConfirmation v \<and> pv_overBy v = 0"
  by code_simp

theorem preview_predicts_send_witness:
  "\<exists>w' reply. sendTransaction learnerEnv 5 firstSend (example_world []) = Inr (w', reply) \<and> ap_emailCount reply = 2"
proof -
  obtain w1 v where v: "previewCampaign learnerEnv True 0 (as_sender firstSend) (hello ''k1'') (example_world []) = (w1, Inr v)"
      "pv_recipientCount v = 3" "pv_emailCount v = 2" "\<not> pv_requiresConfirmation v" "pv_overBy v = 0"
    using first_preview
    by (cases "previewCampaign learnerEnv True 0 academyOwner (hello ''k1'') (example_world [])")
      (auto simp: firstSend_def split: sum.splits)
  have inp: "as_input firstSend =
      (hello ''k1'')\<lparr>si_expectedRecipientCount := pv_recipientCount v, si_confirmLargeAudience := False\<rparr>"
    by (simp add: firstSend_def v(2))
  have none: "pw_campaigns (example_world []) = []" by (simp add: emptyCampaigns_def)
  have month: "emailUsagePeriod 5 = emailUsagePeriod 0" by code_simp
  show ?thesis
    using preview_predicts_send [OF v(1) inp _ month] v none by auto
qed

end
