(* ===== verification/Spec2Isabelle.thy ===== *)
theory Spec2Isabelle
  imports Payment_Application Quiz_Reads Learning_Lease Lesson_Completion Course_Purchase Comm_Findings
    Campaign_Findings Campaign_Preview
begin

text \<open>
  A model of the core of the Atlas backend, a multi-tenant platform for academies (NestJS and
  Prisma over PostgreSQL, Redis and BullMQ).  All paths below are under \<open>src/src\<close>.

  \<^bold>\<open>The parts and how they meet.\<close>
  An organization pays for a plan (\<open>plans\<close>, \<open>billing\<close>): one row per organization says what it may
  use and until when; payments, trials, an hourly sweep and platform staff write that row, and
  every other module reads a status derived from it.  Its learners work through courses
  (\<open>learning\<close>): an enrollment opens a curriculum sequence of lessons, quizzes, assignments and
  live sessions; lessons are watched and completed, quizzes are attempted and graded, a rule
  decides when the course is completed and a certificate may be issued, and a lease in Redis
  keeps one learner to one active session.  Learners buy courses (\<open>course-commerce\<close>): an order is
  paid to Atlas or to the academy, a reviewed proof turns it into an enrollment, and what Atlas
  collected is credited to a ledger from which the academy is paid out.  Every module tells people
  about its events through one outbox (\<open>communications\<close>), written in the transaction of the event
  and drained by workers over a queue.

  \<^bold>\<open>Conventions.\<close>
  An instant is an \<open>int\<close> of milliseconds (\<open>Date.getTime()\<close>); a score, a percentage and a ratio is a
  \<open>rat\<close>, so JavaScript's binary rounding is not modelled but its \<open>Math.round\<close> and \<open>Math.floor\<close> are;
  a table is a list of records with a key; a nullable column is an \<open>option\<close>; an HTTP exception is
  the left of a sum with its message key.  A Prisma \<open>updateMany\<close> with a condition is \<open>updateMany\<close>, and
  one that decides a race by its count is \<open>guarded\<close> (\<open>Atlas_Prelude\<close>), whose contract is the locale
  \<open>guarded_write\<close>: keys stay, the second writer loses, the write is idempotent.  The locale is
  interpreted for the grace, cancellation, expiry, trial and scheduled-change writes, for the
  payment that succeeds, the review that is claimed and the attempt that is finalised.  Handlers take the request, the
  rows and the present instant as arguments and return the answer with the new rows.

  \<^bold>\<open>Subscriptions.\<close>
  \<^item> \<open>Tenant_Subscription\<close>: the row, the effective status (\<open>plans/utils/\<close>) and the access state
    (\<open>subscription-access.service.ts\<close>).  The shown end of access is the first instant without it.
  \<^item> \<open>Subscription_Store\<close>: the writes of \<open>tenant-subscriptions.repository.ts\<close> and the adjustments of
    platform staff, with the interpretations of \<open>guarded_write\<close>.
  \<^item> \<open>Expiry_Sweep\<close>: the paginated sweep (\<open>subscription-expiry.service.ts\<close>) and the contract
    \<open>row_step\<close> of a loop that writes one row at a time.
  \<^item> \<open>Sweep_Correctness\<close>: the sweep is one pass over the due rows whatever the page size, running
    it again changes nothing, and no reader can tell whether it ran (\<open>lapse_clock\<close>, interpreted for
    the sweep, the trial step, the scheduled change and a whole tick).
  \<^item> \<open>Subscription_Lifecycle\<close>: a step relation of all writers with stale reads allowed; the row
    invariant, one trial per organization, a tick stores the derived status, and two lost updates.
  \<^item> \<open>Calendar\<close>, \<open>Billing_Period\<close>: the proleptic Gregorian calendar and the billing dates
    (\<open>billing/utils/\<close>); years are unbounded.
  \<^item> \<open>Plan_Changes\<close>: granted limits, downgrades and mid-annual changes; \<open>limit_value\<close> is a \<open>linorder\<close>
    with unlimited on top.
  \<^item> \<open>Payment_Application\<close>: applying a successful payment, the first-purchase gift and its ledger.

  \<^bold>\<open>Quizzes.\<close>
  \<^item> \<open>Quiz_Engine\<close>, \<open>Quiz_Grading\<close>, \<open>Quiz_Policies\<close>: the pure functions of \<open>quiz-engine.util.ts\<close>: the
    seeded paper, windows, deadlines, validation, scoring, grading policies, disclosure and
    integrity events.
  \<^item> \<open>Quiz_Attempts\<close>, \<open>Quiz_Handlers\<close>: rows, repository and every handler of
    \<open>quiz-attempt-engine.service.ts\<close> (start, save, submit, session, results, events, overdue sweep).
    A save is split into its decision and its write, the two moments at which another request
    can come between.
  \<^item> \<open>Quiz_Lifecycle\<close>, \<open>Quiz_Machine\<close>, \<open>Quiz_Refinement\<close>, \<open>Quiz_Histories\<close>: an abstract machine with three
    moves (open, edit, finish) keeps the attempts consistent; every handler refines it; hence the
    invariant holds after any history.  The histories also give the last-revision rule of
    autosave, single finalisation, and the autosave that overwrites a submission.
  \<^item> \<open>Quiz_Reads\<close>: what a session shows does not depend on the correct answers; the overdue sweep
    closes what it found.

  \<^bold>\<open>Learning.\<close>
  \<^item> \<open>Learning_Access\<close>: the enrollment rule and who may read, author and review a course.
  \<^item> \<open>Learning_Lease\<close>: the lease service as small programs over Redis, whose commands interleave with
    those of other clients and may fail.  While calls do not overlap, \<open>heldUntil\<close> says from the calls
    alone until when a session holds the lease, and the store agrees; requests that race for a free
    lease have one winner; two interleavings break it (a heartbeat or a renewal over a takeover).
  \<^item> \<open>Course_Sequence\<close>: the order of a course and the state and lock of each item
    (\<open>course-sequence.service.ts\<close>), with an exact characterisation of locked.
  \<^item> \<open>Course_Completion\<close>: \<open>completion-rule.util.ts\<close> and \<open>course-completion.service.ts\<close>: when a course is
    completed, the stored rule, and the recompute.
  \<^item> \<open>Playback_Evidence\<close>: what a heartbeat is credited (\<open>playback-evidence.util.ts\<close>).
  \<^item> \<open>Learning_Progress\<close>: completing, undoing, backfilling, the ledger of operations and heartbeats
    (\<open>course-progress.service.ts\<close>, \<open>learner-op-ledger.service.ts\<close>, \<open>playback.service.ts\<close>).  A complete or
    undo is split where the code waits for the lock: the row is read before, the rest happens under
    the lock on the state found there.
  \<^item> \<open>Lesson_Ordering\<close>: late, repeated and reordered operations that are handled one after another
    converge to the newest, unless a clock runs ahead; two that overlap need not.
  \<^item> \<open>Lesson_Completion\<close>: the watched time a completion needs, the heartbeat that opens a locked
    lesson, and the status that two recomputes in one transaction get wrong.

  \<^bold>\<open>Course commerce.\<close>
  \<^item> \<open>Commission\<close>: minor units, basis points with half-up rounding and the rate an organization pays
    (\<open>billing/utils/\<close>).
  \<^item> \<open>Course_Orders\<close>: the tables, opening an order, starting a payment on each collection path and
    handing in a proof (\<open>course-orders.service.ts\<close>, \<open>course-order-payments.service.ts\<close>).
  \<^item> \<open>Order_Reviews\<close>: the effect of a payment with the enrollment it grants, the reviews by Atlas and
    by the academy, and both kinds of refund.
  \<^item> \<open>Academy_Payouts\<close>: payouts, and a history of all these requests in which everything read from
    elsewhere (courses, settings, memberships) may change between two requests.
  \<^item> \<open>Commerce_Ledger\<close>, \<open>Commerce_Histories\<close>: the invariant of orders, payments and ledger, kept by
    every handler; an academy is paid an order once, and the ledger of an order is what was earned
    less what was refunded.
  \<^item> \<open>Payout_Settlement\<close>: every entry is settled once and every payout is the sum of its entries.
  \<^item> \<open>Course_Purchase\<close>: the single open payment of the academy path, what a refund undoes, and the
    three ways money and access part.

  \<^bold>\<open>Communications.\<close>
  \<^item> \<open>Comm_Outbox\<close>: the catalogue entry, the rows, a person's preferences
    (\<open>communication-preferences.util.ts\<close>) and the writers of the outbox (\<open>communication.service.ts\<close>).
  \<^item> \<open>Comm_Dispatch\<close>: the claim (an interpretation of \<open>guarded_write\<close>), the decision of the dispatcher as one
    function per stage, and the three ways a send ends (\<open>communication-dispatch.service.ts\<close>).
  \<^item> \<open>Comm_Digests\<close>: digest windows, the sweep with the jobs it queues, retention.
  \<^item> \<open>Comm_Histories\<close>, \<open>Comm_Safety\<close>: a world of rows and of plans held by workers, whose transactions
    come in any order and who may die between them; what a step may make of a row (\<open>safe\<close>).
  \<^item> \<open>Comm_Guarantees\<close>: no settled row keeps a credential, one event has one row.
  \<^item> \<open>Comm_Claims\<close>: a claim keeps every other worker away for its lease.
  \<^item> \<open>Comm_Delivery\<close>: exactly when a row is mailed, and the digest window all its items agree on.
  \<^item> \<open>Comm_Findings\<close>: mail a digest sends against the dispatcher's rules, a deleted record's message
    mailed after all, and the retries that the sweep multiplies.

  \<^bold>\<open>Campaigns.\<close> A message somebody writes to many people, and what it costs an academy.
  \<^item> \<open>Entitlements\<close>: the limits and features of a plan with its add-ons (\<open>entitlement.service.ts\<close>).
  \<^item> \<open>Campaign_Quota\<close>: the monthly limit, the conditional reservation and the ledger
    (\<open>academy-email-quota.service.ts\<close>); \<open>usage_meter\<close> is the contract of a counter whose credits are
    written once, interpreted for the quota.
  \<^item> \<open>Campaign_Audience\<close>: the audiences over the tables they read, their count and one keyset page of
    their expansion (\<open>campaign-audience.ts\<close>).
  \<^item> \<open>Campaign_Engine\<close>: the send with its replay, limiter, checks and race
    (\<open>communication-campaign.service.ts\<close>), and the worker that expands, releases and settles
    (\<open>campaign-worker.service.ts\<close>) into the outbox above.  Every transaction is a step of a history, in
    which the steps of communications come in between; a run and a tick are proved to be sequences
    of steps.
  \<^item> \<open>Campaign_Frames\<close>, \<open>Campaign_Books\<close>, \<open>Campaign_Invariant\<close>: the invariant that ties a campaign's
    counters to its recipients, its outbox rows and its ledger, kept by every step.
  \<^item> \<open>Campaign_Exact\<close>, \<open>Campaign_Guarantees\<close>: the counter is the ledger, it rises only by a
    reservation within the limit of the academy's own organization, a campaign has paid for its mail
    when it completes, nobody is mailed twice, also after retention, and a request is accepted once.
  \<^item> \<open>Campaign_Expansion\<close>: the pages are the whole audience, which stays in its academy; opting out
    means the same to the expansion and to the dispatcher.
  \<^item> \<open>Campaign_Preview\<close>: the preview, and that the transaction of the send does what it showed.
  \<^item> \<open>Campaign_Findings\<close>: a refund for mail that was delivered, a tick that never gets past campaigns
    that wait, and a race whose loser is told the wrong thing.

  \<^bold>\<open>Parameters and hypotheses.\<close>
  Redis is a record of operations with \<open>redis_laws\<close> (\<open>SET EX\<close>, \<open>NX\<close>, \<open>GET\<close>, \<open>DEL\<close>); \<open>ttl_map\<close> satisfies
  them.  The hash that seeds a shuffle and Unicode case folding are arguments.  UUIDs and the
  clock are arguments of the operations; in course commerce a new identifier is the next serial
  number.  What commerce reads from other modules is a record of functions (\<open>commerce_env\<close>).
  The catalogue of events is an argument of communications, so its theorems hold for every
  catalogue; what the dispatcher reads elsewhere, the wall clock of a time zone included, is
  \<open>dispatch_env\<close>, which may differ from one transaction to the next, and the provider's answer is an
  argument of the step that follows it.  The rich-text sanitiser is an argument of a campaign
  history, from raw HTML to HTML and visible text; the tables an audience is read from and the
  subscription behind a limit are arguments of each step, so they may change between any two.

  \<^bold>\<open>Fuel and termination.\<close>
  Loops are structural, the page loop of the sweep has a measure (the number of rows after the
  cursor), the batches of a campaign run one (what the run may still release), and a lease program
  is a finite tree of at most four commands.  The only count of rounds is the code's own: a
  campaign run reads at most 100 pages, and leaves the rest to the next.

  \<^bold>\<open>Not modelled.\<close>
  Row-level security and the SQL of the migrations (one function apart), transport, validation
  decorators, response shaping, audit entries outside the sweep.  Of communications the wording,
  branding and links of a message, the sanitiser and unsubscribe tokens, the provider registry with
  its quotas and inbound webhooks; of campaigns the list of past ones, and of an in-app row
  everything but the campaign it belongs to; a database error in the middle of a send is not modelled either.  Whole modules are
  left for lack of a core of their own here: identity and sign-in, media and storage, live sessions, the public website and its editor, support,
  course authoring and analytics.
\<close>

end
